(* ===== verification/Prelude.thy ===== *)
theory Prelude
  imports Main "HOL-Library.AList" "HOL-Library.Word" "HOL-Library.Signed_Division"
    "HOL-Library.Code_Target_Nat"
begin

text \<open>
  What every component of the development shares: the integer widths of Go, Go maps as association
  lists, the outcome of a call (a value, a returned error or a panic), sequencing of calls that
  change the state, the \<open>for ... range\<close> loop with early return, and the collections of rules
  the component proofs use.

  A Go \<open>map[K]V\<close> is a list of pairs with distinct keys. The list order stands for the order in
  which the runtime's \<open>range\<close> visits the map; Go leaves it unspecified, and no theorem assumes
  one. A nil map or slice is the empty list: the code only ranges over, indexes, appends to and
  compares such values (\<open>equality.Semantic.DeepEqual\<close> equates nil and empty).

  Strings are Go strings of ASCII bytes (Kubernetes names, Dubbo interface names, addresses).
\<close>

section \<open>Machine integers\<close>

type_synonym int32 = "32 word"   \<comment> \<open>Go int32, read with sint\<close>
type_synonym uint32 = "32 word"  \<comment> \<open>Go uint32, read with uint\<close>
type_synonym int64 = "64 word"   \<comment> \<open>Go int64, read with sint\<close>

lemma sint_int64: "- (2 ^ 63) \<le> k \<Longrightarrow> k < 2 ^ 63 \<Longrightarrow> sint (word_of_int k :: int64) = k"
  by (simp add: sint_sbintrunc' signed_take_bit_int_eq_self)

lemma sint_int32: "- (2 ^ 31) \<le> k \<Longrightarrow> k < 2 ^ 31 \<Longrightarrow> sint (word_of_int k :: int32) = k"
  by (simp add: sint_sbintrunc' signed_take_bit_int_eq_self)

lemma int64_range: "- (2 ^ 63) \<le> sint (w :: int64) \<and> sint w < 2 ^ 63"
  using sint_ge [of w] sint_lt [of w] by simp

text \<open>Go's \<open>/\<close> and \<open>%\<close> truncate towards zero.\<close>

lemma sdiv_smod_1000:
  fixes t :: int
  shows "(t sdiv 1000) * 1000 + t smod 1000 = t" and "\<bar>t smod 1000\<bar> \<le> 999"
    and "0 \<le> t \<Longrightarrow> 0 \<le> t sdiv 1000 \<and> 0 \<le> t smod 1000"
    and "t \<le> 0 \<Longrightarrow> t sdiv 1000 \<le> 0 \<and> t smod 1000 \<le> 0"
    and "\<bar>t sdiv 1000\<bar> \<le> \<bar>t\<bar>"
proof -
  show "(t sdiv 1000) * 1000 + t smod 1000 = t" by (rule sdiv_mult_smod_eq)
  show "\<bar>t smod 1000\<bar> \<le> 999" "\<bar>t sdiv 1000\<bar> \<le> \<bar>t\<bar>"
    "0 \<le> t \<Longrightarrow> 0 \<le> t sdiv 1000 \<and> 0 \<le> t smod 1000"
    "t \<le> 0 \<Longrightarrow> t sdiv 1000 \<le> 0 \<and> t smod 1000 \<le> 0"
    unfolding signed_divide_int_def signed_modulo_int_def
    by (cases "t < 0"; cases "t = 0"; simp; linarith)+
qed

section \<open>Rule collections\<close>

named_theorems run_simps \<open>how the sequencing operations evaluate\<close>
named_theorems gomap_simps \<open>lookups in maps after an update\<close>
named_theorems deep_equal \<open>the deep-equality functions, characterised\<close>

section \<open>Go maps\<close>

type_synonym ('k, 'v) gomap = "('k \<times> 'v) list"
type_synonym labels = "(string, string) gomap"

text \<open>\<open>v, ok := m[k]\<close> is \<open>map_of m k\<close>; \<open>m[k]\<close> alone yields the zero value when absent.\<close>

definition lookup_zero :: "'v \<Rightarrow> ('k, 'v) gomap \<Rightarrow> 'k \<Rightarrow> 'v" where
  "lookup_zero z m k = (case map_of m k of None \<Rightarrow> z | Some v \<Rightarrow> v)"

abbreviation map_put :: "'k \<Rightarrow> 'v \<Rightarrow> ('k, 'v) gomap \<Rightarrow> ('k, 'v) gomap" where
  "map_put \<equiv> AList.update"

abbreviation map_del :: "'k \<Rightarrow> ('k, 'v) gomap \<Rightarrow> ('k, 'v) gomap" where
  "map_del \<equiv> AList.delete"

definition wf_map :: "('k, 'v) gomap \<Rightarrow> bool" where
  "wf_map m \<longleftrightarrow> distinct (map fst m)"

text \<open>Deep equality of two maps: the same keys with the same values, in any order.\<close>

definition map_eq :: "('k, 'v) gomap \<Rightarrow> ('k, 'v) gomap \<Rightarrow> bool" where
  "map_eq m n \<longleftrightarrow> list_all (\<lambda>k. map_of m k = map_of n k) (map fst m @ map fst n)"

lemma map_of_put [gomap_simps, simp]: "map_of (map_put k v m) = (map_of m)(k \<mapsto> v)"
  by (rule update_conv')

lemma map_of_del [gomap_simps, simp]: "map_of (map_del k m) = (map_of m)(k := None)"
  by (rule delete_conv')

lemma wf_map_Nil [simp]: "wf_map []"
  by (simp add: wf_map_def)

lemma wf_map_put [simp, intro]: "wf_map m \<Longrightarrow> wf_map (map_put k v m)"
  by (simp add: wf_map_def distinct_update)

lemma wf_map_del [simp, intro]: "wf_map m \<Longrightarrow> wf_map (map_del k m)"
  by (simp add: wf_map_def distinct_delete)

lemma map_of_eq_Some_set: "wf_map m \<Longrightarrow> (map_of m k = Some v) = ((k, v) \<in> set m)"
  by (simp add: wf_map_def)

lemma map_eq_iff [deep_equal]: "map_eq m n \<longleftrightarrow> map_of m = map_of n"
proof
  assume eq: "map_eq m n"
  show "map_of m = map_of n"
  proof
    fix k
    show "map_of m k = map_of n k"
    proof (cases "k \<in> fst ` set m \<union> fst ` set n")
      case True
      with eq show ?thesis by (auto simp: map_eq_def list_all_iff)
    next
      case False
      then have "map_of m k = None" and "map_of n k = None"
        by (auto simp: map_of_eq_None_iff)
      then show ?thesis by simp
    qed
  qed
qed (simp add: map_eq_def list_all_iff)

lemma map_eq_refl [simp]: "map_eq m m"
  by (simp add: map_eq_iff)

lemma lookup_zero_Some: "map_of m k = Some v \<Longrightarrow> lookup_zero z m k = v"
  by (simp add: lookup_zero_def)

text \<open>
  \<open>m[f x] = x\<close> for every element of a slice: the last element with a key wins.
\<close>

definition index_by :: "('a \<Rightarrow> 'k) \<Rightarrow> 'a list \<Rightarrow> ('k, 'a) gomap" where
  "index_by f xs = fold (\<lambda>x m. map_put (f x) x m) xs []"

lemma wf_map_fold_put:
  "wf_map m \<Longrightarrow> wf_map (fold (\<lambda>x m. map_put (f x) (g x) m) xs m)"
  by (induction xs arbitrary: m) auto

lemma wf_map_index_by [simp]: "wf_map (index_by f xs)"
  by (simp add: index_by_def wf_map_fold_put)

lemma map_of_fold_put:
  "distinct (map f xs) \<Longrightarrow>
   map_of (fold (\<lambda>x m. map_put (f x) (g x) m) xs m) k =
     (case find (\<lambda>x. f x = k) xs of None \<Rightarrow> map_of m k | Some x \<Rightarrow> Some (g x))"
proof (induction xs arbitrary: m)
  case (Cons x xs)
  show ?case
  proof (cases "f x = k")
    case True
    with Cons.prems have "find (\<lambda>x. f x = k) xs = None"
      by (auto simp: find_None_iff image_iff)
    with Cons True show ?thesis by simp
  next
    case False
    with Cons show ?thesis by (simp split: option.splits)
  qed
qed simp

lemma map_of_index_by:
  assumes "distinct (map f xs)"
  shows "map_of (index_by f xs) k = Some x \<longleftrightarrow> x \<in> set xs \<and> f x = k"
proof -
  have "map_of (index_by f xs) k = find (\<lambda>x. f x = k) xs"
    unfolding index_by_def by (subst map_of_fold_put [OF assms]) (simp split: option.splits)
  moreover have "find (\<lambda>x. f x = k) xs = Some x \<longleftrightarrow> x \<in> set xs \<and> f x = k"
  proof
    assume "find (\<lambda>x. f x = k) xs = Some x"
    then show "x \<in> set xs \<and> f x = k" by (auto simp: find_Some_iff)
  next
    assume x: "x \<in> set xs \<and> f x = k"
    then obtain y where y: "find (\<lambda>x. f x = k) xs = Some y"
      by (cases "find (\<lambda>x. f x = k) xs") (auto simp: find_None_iff)
    then have "y \<in> set xs \<and> f y = k" by (auto simp: find_Some_iff)
    with x assms have "y = x" by (auto simp: distinct_map inj_on_def)
    with y show "find (\<lambda>x. f x = k) xs = Some x" by simp
  qed
  ultimately show ?thesis by simp
qed

section \<open>Errors, panics and sequencing\<close>

text \<open>
  \<open>kerr\<close> is what the code distinguishes of a Kubernetes API error (\<open>errors.IsNotFound\<close>,
  \<open>IsAlreadyExists\<close>, the conflict test of \<open>retry.RetryOnConflict\<close>). A Go function that
  returns an error aborts with \<open>Fail\<close>; a nil dereference or a division by zero with \<open>Panic\<close>.
\<close>

datatype kerr = NotFound | AlreadyExists | Conflict | OtherErr string

datatype abort = Fail kerr | Panic

type_synonym ('s, 'a) call = "'s \<Rightarrow> (abort + 'a) \<times> 's"

definition gret :: "'a \<Rightarrow> ('s, 'a) call" where
  "gret x s = (Inr x, s)"

definition gfail :: "kerr \<Rightarrow> ('s, 'a) call" where
  "gfail e s = (Inl (Fail e), s)"

definition gpanic :: "('s, 'a) call" where
  "gpanic s = (Inl Panic, s)"

text \<open>\<open>x, err := m(); if err != nil { return err }; f(x)\<close>\<close>

definition gbind :: "('s, 'a) call \<Rightarrow> ('a \<Rightarrow> ('s, 'b) call) \<Rightarrow> ('s, 'b) call" where
  "gbind m f s = (case m s of (Inl e, s') \<Rightarrow> (Inl e, s') | (Inr x, s') \<Rightarrow> f x s')"

text \<open>\<open>x, err := m()\<close> for a client call, with the error as a value; it does not panic.\<close>

definition attempt :: "('s \<Rightarrow> (kerr + 'a) \<times> 's) \<Rightarrow> ('s, kerr + 'a) call" where
  "attempt m s = (case m s of (r, s') \<Rightarrow> (Inr r, s'))"

text \<open>\<open>err := m()\<close> where \<open>m\<close> is a function of the model: its error as a value.\<close>

definition gcatch :: "('s, 'a) call \<Rightarrow> ('s, kerr + 'a) call" where
  "gcatch m s = (case m s of
     (Inl (Fail e), s') \<Rightarrow> (Inr (Inl e), s')
   | (Inl Panic, s') \<Rightarrow> (Inl Panic, s')
   | (Inr x, s') \<Rightarrow> (Inr (Inr x), s'))"

text \<open>A client call whose error is returned at once.\<close>

definition orFail :: "('s \<Rightarrow> (kerr + 'a) \<times> 's) \<Rightarrow> ('s, 'a) call" where
  "orFail m s = (case m s of (Inl e, s') \<Rightarrow> (Inl (Fail e), s') | (Inr x, s') \<Rightarrow> (Inr x, s'))"

text \<open>A pure computation that panics when it has no value (a nil dereference).\<close>

definition orPanic :: "'a option \<Rightarrow> ('s, 'a) call" where
  "orPanic v s = (case v of None \<Rightarrow> (Inl Panic, s) | Some x \<Rightarrow> (Inr x, s))"

text \<open>\<open>for _, x := range xs { ... }\<close> with early return of an error.\<close>

fun gforeach :: "('a \<Rightarrow> ('s, unit) call) \<Rightarrow> 'a list \<Rightarrow> ('s, unit) call" where
  "gforeach f [] s = (Inr (), s)"
| "gforeach f (x # xs) s =
     (case f x s of (Inl e, s') \<Rightarrow> (Inl e, s') | (Inr _, s') \<Rightarrow> gforeach f xs s')"

text \<open>The same with a local variable that the body changes.\<close>

fun gfold :: "('a \<Rightarrow> 'b \<Rightarrow> ('s, 'b) call) \<Rightarrow> 'a list \<Rightarrow> 'b \<Rightarrow> ('s, 'b) call" where
  "gfold f [] b s = (Inr b, s)"
| "gfold f (x # xs) b s =
     (case f x b s of (Inl e, s') \<Rightarrow> (Inl e, s') | (Inr b', s') \<Rightarrow> gfold f xs b' s')"

lemma gret_run [run_simps]: "gret x s = (Inr x, s)"
  by (simp add: gret_def)

lemma gfail_run [run_simps]: "gfail e s = (Inl (Fail e), s)"
  by (simp add: gfail_def)

lemma gpanic_run [run_simps]: "gpanic s = (Inl Panic, s)"
  by (simp add: gpanic_def)

lemma gbind_Inr [run_simps]: "m s = (Inr x, s') \<Longrightarrow> gbind m f s = f x s'"
  by (simp add: gbind_def)

lemma gbind_Inl [run_simps]: "m s = (Inl e, s') \<Longrightarrow> gbind m f s = (Inl e, s')"
  by (simp add: gbind_def)

lemma attempt_run [run_simps]: "m s = (r, s') \<Longrightarrow> attempt m s = (Inr r, s')"
  by (simp add: attempt_def)

lemma orFail_Inr [run_simps]: "m s = (Inr x, s') \<Longrightarrow> orFail m s = (Inr x, s')"
  by (simp add: orFail_def)

lemma orFail_Inl [run_simps]: "m s = (Inl e, s') \<Longrightarrow> orFail m s = (Inl (Fail e), s')"
  by (simp add: orFail_def)

lemma orPanic_run [run_simps]:
  "orPanic None s = (Inl Panic, s)" "orPanic (Some x) s = (Inr x, s)"
  by (simp_all add: orPanic_def)

lemma gbind_orPanic [run_simps]:
  "gbind (orPanic None) f = gpanic" "gbind (orPanic (Some x)) f = f x"
  by (simp_all add: fun_eq_iff gbind_def orPanic_def gpanic_def)

lemma gbind_gret [run_simps]: "gbind (gret x) f = f x" "gbind (gfail e) g = gfail e"
  by (simp_all add: fun_eq_iff gbind_def gret_def gfail_def)

lemma gbind_assoc: "gbind (gbind m f) g = gbind m (\<lambda>x. gbind (f x) g)"
  by (auto simp: fun_eq_iff gbind_def split: prod.splits sum.splits)

lemma run_pair: "fst p = x \<Longrightarrow> p = (x, snd p)"
  by (cases p) simp

text \<open>Inversion of a completed sequence, the rule every frame proof starts with.\<close>

lemma gbind_InrE:
  assumes "gbind m f s = (Inr y, s')"
  obtains x t where "m s = (Inr x, t)" and "f x t = (Inr y, s')"
  using assms by (auto simp: gbind_def split: prod.splits sum.splits)

lemma gbind_cases:
  assumes "gbind m f s = (r, s')"
  obtains (aborted) e where "m s = (Inl e, s')" and "r = Inl e"
  | (returned) x t where "m s = (Inr x, t)" and "f x t = (r, s')"
  using assms by (auto simp: gbind_def split: prod.splits sum.splits)

text \<open>A relation between start and end states that every body keeps is kept by the loop.\<close>

lemma gforeach_rel:
  assumes "\<And>s. R s s" and "\<And>s t u. R s t \<Longrightarrow> R t u \<Longrightarrow> R s u"
    and "\<And>x s r s'. x \<in> set xs \<Longrightarrow> f x s = (r, s') \<Longrightarrow> R s s'"
  shows "gforeach f xs s = (r, s') \<Longrightarrow> R s s'"
  using assms(3)
proof (induction xs arbitrary: s)
  case Nil
  then show ?case using assms(1) by simp
next
  case (Cons x xs)
  obtain r1 t where step: "f x s = (r1, t)" by fastforce
  then have st: "R s t" using Cons.prems(2) [of x s r1 t] by simp
  show ?case
  proof (cases r1)
    case (Inl e)
    with step Cons.prems(1) st show ?thesis by auto
  next
    case (Inr u)
    with step Cons.prems(1) have "gforeach f xs t = (r, s')" by simp
    then have "R t s'" using Cons.IH Cons.prems(2) by force
    with st show ?thesis by (rule assms(2))
  qed
qed

lemma gfold_rel:
  assumes "\<And>s. R s s" and "\<And>s t u. R s t \<Longrightarrow> R t u \<Longrightarrow> R s u"
    and "\<And>x b s r s'. x \<in> set xs \<Longrightarrow> f x b s = (r, s') \<Longrightarrow> R s s'"
  shows "gfold f xs b s = (r, s') \<Longrightarrow> R s s'"
  using assms(3)
proof (induction xs arbitrary: s b)
  case Nil
  then show ?case using assms(1) by simp
next
  case (Cons x xs)
  obtain r1 t where step: "f x b s = (r1, t)" by fastforce
  then have st: "R s t" using Cons.prems(2) [of x b s r1 t] by simp
  show ?case
  proof (cases r1)
    case (Inl e)
    with step Cons.prems(1) st show ?thesis by auto
  next
    case (Inr b')
    with step Cons.prems(1) have "gfold f xs b' t = (r, s')" by simp
    then have "R t s'" using Cons.IH Cons.prems(2) by force
    with st show ?thesis by (rule assms(2))
  qed
qed

end
