(* ===== verification/GoStrings.thy ===== *)
theory GoStrings
  imports Prelude
begin

text \<open>
  The functions of Go's standard library that the repository applies to strings: \<open>strings\<close>,
  \<open>strconv\<close>, \<open>path\<close>, \<open>net.SplitHostPort\<close> and the \<open>%d\<close> verb of \<open>fmt.Sprintf\<close>. The repository
  calls them on ASCII text, for which these definitions are exact.
\<close>

section \<open>Characters and substrings\<close>

definition is_upper :: "char \<Rightarrow> bool" where
  "is_upper c \<longleftrightarrow> 65 \<le> (of_char c :: nat) \<and> (of_char c :: nat) \<le> 90"

definition ascii_lower :: "char \<Rightarrow> char" where
  "ascii_lower c = (if is_upper c then char_of (of_char c + 32 :: nat) else c)"

definition ToLower :: "string \<Rightarrow> string" where
  "ToLower s = map ascii_lower s"

definition EqualFold :: "string \<Rightarrow> string \<Rightarrow> bool" where
  "EqualFold s t \<longleftrightarrow> ToLower s = ToLower t"

text \<open>\<open>strings.ReplaceAll\<close> of one character by one character.\<close>

definition ReplaceAllChar :: "char \<Rightarrow> char \<Rightarrow> string \<Rightarrow> string" where
  "ReplaceAllChar a b s = map (\<lambda>c. if c = a then b else c) s"

fun HasPrefix :: "string \<Rightarrow> string \<Rightarrow> bool" where
  "HasPrefix s [] = True"
| "HasPrefix [] (p # ps) = False"
| "HasPrefix (c # s) (p # ps) = (c = p \<and> HasPrefix s ps)"

definition HasSuffix :: "string \<Rightarrow> string \<Rightarrow> bool" where
  "HasSuffix s suf \<longleftrightarrow> HasPrefix (rev s) (rev suf)"

definition TrimSuffix :: "string \<Rightarrow> string \<Rightarrow> string" where
  "TrimSuffix s suf = (if HasSuffix s suf then take (length s - length suf) s else s)"

text \<open>\<open>strings.Trim(s, ".")\<close> for a one-character cutset.\<close>

definition TrimChar :: "char \<Rightarrow> string \<Rightarrow> string" where
  "TrimChar c s = rev (dropWhile (\<lambda>x. x = c) (rev (dropWhile (\<lambda>x. x = c) s)))"

text \<open>\<open>strings.Replace(s, old, "", 1)\<close> for a non-empty \<open>old\<close>.\<close>

fun RemoveFirst :: "string \<Rightarrow> string \<Rightarrow> string" where
  "RemoveFirst old [] = []"
| "RemoveFirst old (c # s) =
     (if HasPrefix (c # s) old then drop (length old) (c # s) else c # RemoveFirst old s)"

text \<open>\<open>strings.Split\<close> at a one-character separator: never empty.\<close>

fun SplitChar :: "char \<Rightarrow> string \<Rightarrow> string list" where
  "SplitChar d [] = [[]]"
| "SplitChar d (c # s) =
     (if c = d then [] # SplitChar d s
      else case SplitChar d s of [] \<Rightarrow> [[c]] | w # ws \<Rightarrow> (c # w) # ws)"

fun JoinChar :: "char \<Rightarrow> string list \<Rightarrow> string" where
  "JoinChar d [] = []"
| "JoinChar d [w] = w"
| "JoinChar d (w # ws) = w @ d # JoinChar d ws"

lemma HasPrefix_iff: "HasPrefix s p \<longleftrightarrow> (\<exists>t. s = p @ t)"
  by (induction s p rule: HasPrefix.induct) auto

lemma HasPrefix_append [simp]: "HasPrefix (p @ t) p"
  by (auto simp: HasPrefix_iff)

lemma HasSuffix_iff: "HasSuffix s suf \<longleftrightarrow> (\<exists>t. s = t @ suf)"
proof
  assume "HasSuffix s suf"
  then obtain t where "rev s = rev suf @ t" by (auto simp: HasSuffix_def HasPrefix_iff)
  then have "rev (rev s) = rev (rev suf @ t)" by simp
  then have "s = rev t @ suf" by (simp only: rev_rev_ident rev_append)
  then show "\<exists>t. s = t @ suf" by blast
next
  assume "\<exists>t. s = t @ suf"
  then show "HasSuffix s suf" by (auto simp: HasSuffix_def HasPrefix_iff)
qed

lemma HasSuffix_append [simp]: "HasSuffix (t @ suf) suf"
  by (auto simp: HasSuffix_iff)

lemma TrimSuffix_append [simp]: "TrimSuffix (t @ suf) suf = t"
  by (simp add: TrimSuffix_def)

lemma length_dropWhile_char: "length (dropWhile P xs) \<le> length xs"
  by (rule length_dropWhile_le)

lemma length_TrimChar: "length (TrimChar c s) \<le> length s"
  unfolding TrimChar_def
  by (metis length_dropWhile_le length_rev order_trans)

lemma ascii_lower_idem [simp]: "ascii_lower (ascii_lower c) = ascii_lower c"
proof (cases "is_upper c")
  case True
  then have "(of_char c :: nat) + 32 < 256" by (simp add: is_upper_def)
  then have "(of_char (char_of (of_char c + 32 :: nat)) :: nat) = of_char c + 32" by simp
  with True show ?thesis by (simp add: ascii_lower_def is_upper_def)
qed (simp add: ascii_lower_def)

lemma ascii_lower_not_upper [simp]: "\<not> is_upper (ascii_lower c)"
proof (cases "is_upper c")
  case True
  then have "(of_char c :: nat) + 32 < 256" by (simp add: is_upper_def)
  then have "(of_char (char_of (of_char c + 32 :: nat)) :: nat) = of_char c + 32" by simp
  with True show ?thesis by (simp add: ascii_lower_def is_upper_def)
qed (simp add: ascii_lower_def)

lemma ascii_lower_underscore: "ascii_lower c = CHR ''_'' \<longleftrightarrow> c = CHR ''_''"
proof (cases "is_upper c")
  case True
  then have "(of_char c :: nat) + 32 < 256" by (simp add: is_upper_def)
  then have of_low: "(of_char (char_of (of_char c + 32 :: nat)) :: nat) = of_char c + 32" by simp
  have "ascii_lower c \<noteq> CHR ''_''"
  proof
    assume "ascii_lower c = CHR ''_''"
    with True have "(of_char (char_of (of_char c + 32 :: nat)) :: nat) = of_char CHR ''_''"
      by (simp add: ascii_lower_def)
    with of_low have "(of_char c :: nat) + 32 = 95" by simp
    with True show False by (simp add: is_upper_def)
  qed
  moreover have "c \<noteq> CHR ''_''" using True by (auto simp: is_upper_def)
  ultimately show ?thesis by simp
qed (simp add: ascii_lower_def)

lemma length_ToLower [simp]: "length (ToLower s) = length s"
  by (simp add: ToLower_def)

text \<open>
  Removing a suffix whose first character occurs once in it, from a text that does not contain
  it: the suffix itself is the first occurrence.
\<close>

lemma RemoveFirst_shorter: "HasPrefix s old \<Longrightarrow> old \<noteq> [] \<Longrightarrow> RemoveFirst old s \<noteq> s"
proof (cases s)
  case (Cons c t)
  assume "HasPrefix s old" and "old \<noteq> []"
  with Cons have "length (RemoveFirst old s) < length s" by auto
  then show ?thesis by auto
qed (auto simp: HasPrefix_iff)

lemma RemoveFirst_append:
  assumes "old \<noteq> []" and "hd old \<notin> set (tl old)"
  shows "RemoveFirst old t = t \<Longrightarrow> RemoveFirst old (t @ old) = t"
proof (induction t)
  case Nil
  have "HasPrefix old old" using HasPrefix_append [of old "[]"] by simp
  with assms(1) show ?case by (cases old) auto
next
  case (Cons c t)
  have no_match: "\<not> HasPrefix (c # t) old"
    using Cons.prems RemoveFirst_shorter assms(1) by blast
  have "\<not> HasPrefix (c # t @ old) old"
  proof
    assume "HasPrefix (c # t @ old) old"
    then obtain u where u: "(c # t) @ old = old @ u" by (auto simp: HasPrefix_iff)
    then obtain v where v: "c # t = old @ v \<or> (c # t) @ v = old \<and> old = v @ u"
      unfolding append_eq_append_conv2 by blast
    show False
    proof (cases "\<exists>v. c # t = old @ v")
      case True
      with no_match show False by (auto simp: HasPrefix_iff)
    next
      case False
      with v have eq: "old = (c # t) @ v" and old: "old = v @ u" by auto
      with False have "v \<noteq> []" by (metis append_Nil2)
      then have "hd old = hd v" and "hd v \<in> set (tl old)"
        using old by (simp, subst eq) simp
      with assms(2) show False by simp
    qed
  qed
  with Cons no_match show ?case by simp
qed

section \<open>Decimal numbers\<close>

definition digit_char :: "nat \<Rightarrow> char" where
  "digit_char d = char_of (48 + d :: nat)"

fun show_nat :: "nat \<Rightarrow> string" where
  "show_nat n = (if n < 10 then [digit_char n] else show_nat (n div 10) @ [digit_char (n mod 10)])"

declare show_nat.simps [simp del]

definition digit_value :: "char \<Rightarrow> nat option" where
  "digit_value c =
     (if 48 \<le> (of_char c :: nat) \<and> (of_char c :: nat) \<le> 57 then Some (of_char c - 48) else None)"

datatype num_error = ErrSyntax | ErrRange

text \<open>
  The digit loop of \<open>strconv.ParseUint(s, 10, bitSize)\<close>, with \<open>mx\<close> the largest value: a
  non-digit is a syntax error, the first digit that leaves the range is a range error.
\<close>

fun ParseDigits :: "nat \<Rightarrow> string \<Rightarrow> nat \<Rightarrow> num_error + nat" where
  "ParseDigits mx [] n = Inr n"
| "ParseDigits mx (c # cs) n =
     (case digit_value c of
        None \<Rightarrow> Inl ErrSyntax
      | Some d \<Rightarrow> (let n' = n * 10 + d in if mx < n' then Inl ErrRange else ParseDigits mx cs n'))"

definition ParseUint :: "string \<Rightarrow> nat \<Rightarrow> num_error + nat" where
  "ParseUint s bits = (if s = [] then Inl ErrSyntax else ParseDigits (2 ^ bits - 1) s 0)"

text \<open>
  \<open>strconv.ParseInt(s, 10, bitSize)\<close>: the value and the error. On a range error the value is the
  nearest bound, on a syntax error 0.
\<close>

definition ParseInt :: "string \<Rightarrow> nat \<Rightarrow> int \<times> num_error option" where
  "ParseInt s bits =
     (if s = [] then (0, Some ErrSyntax)
      else let neg = (hd s = CHR ''-'');
               ds = (if hd s = CHR ''-'' \<or> hd s = CHR ''+'' then tl s else s);
               cutoff = 2 ^ (bits - 1)
           in case ParseUint ds bits of
                Inl ErrSyntax \<Rightarrow> (0, Some ErrSyntax)
              | Inl ErrRange \<Rightarrow> (if neg then (- cutoff, Some ErrRange)
                                else (cutoff - 1, Some ErrRange))
              | Inr un \<Rightarrow>
                  (if \<not> neg \<and> cutoff \<le> int un then (cutoff - 1, Some ErrRange)
                   else if neg \<and> cutoff < int un then (- cutoff, Some ErrRange)
                   else ((if neg then - int un else int un), None)))"

lemma digit_value_char [simp]: "d < 10 \<Longrightarrow> digit_value (digit_char d) = Some d"
  by (simp add: digit_value_def digit_char_def)

lemma digit_value_less: "digit_value c = Some d \<Longrightarrow> d < 10"
  by (auto simp: digit_value_def split: if_splits)

lemma digit_char_not_sign:
  "d < 10 \<Longrightarrow> digit_char d \<noteq> CHR ''-''" "d < 10 \<Longrightarrow> digit_char d \<noteq> CHR ''+''"
  using digit_value_char [of d] by (auto simp: digit_value_def)

lemma show_nat_not_Nil [simp]: "show_nat n \<noteq> []"
  by (subst show_nat.simps) simp

lemma set_show_nat: "c \<in> set (show_nat n) \<Longrightarrow> \<exists>d < 10. c = digit_char d"
proof (induction n rule: show_nat.induct)
  case (1 n)
  have "n mod 10 < 10" by simp
  moreover have "c \<in> set (if n < 10 then [digit_char n]
    else show_nat (n div 10) @ [digit_char (n mod 10)])"
    using "1.prems" by (simp add: show_nat.simps [of n])
  ultimately show ?case
    using "1.IH" by (auto split: if_splits intro: exI [of _ "n mod 10"])
qed

lemma ParseDigits_append:
  "ParseDigits mx (xs @ ys) n =
     (case ParseDigits mx xs n of Inl e \<Rightarrow> Inl e | Inr n' \<Rightarrow> ParseDigits mx ys n')"
  by (induction xs arbitrary: n) (auto simp: Let_def split: option.splits)

lemma ParseDigits_show_nat: "n \<le> mx \<Longrightarrow> ParseDigits mx (show_nat n) 0 = Inr n"
proof (induction n rule: show_nat.induct)
  case (1 n)
  show ?case
  proof (cases "n < 10")
    case True
    with "1.prems" show ?thesis by (subst show_nat.simps) simp
  next
    case False
    with "1" have "ParseDigits mx (show_nat (n div 10)) 0 = Inr (n div 10)" by simp
    with False "1.prems" show ?thesis
      by (subst show_nat.simps) (simp add: ParseDigits_append)
  qed
qed

lemma ParseDigits_bound: "ParseDigits mx s n = Inr m \<Longrightarrow> n \<le> mx \<Longrightarrow> m \<le> mx"
  by (induction mx s n rule: ParseDigits.induct)
    (auto simp: Let_def split: option.splits if_splits)

text \<open>A character that is no digit makes the loop fail, wherever it stands.\<close>

lemma ParseDigits_bad:
  assumes "c \<in> set s" and "digit_value c = None"
  shows "\<exists>e. ParseDigits mx s n = Inl e"
  using assms(1)
proof (induction s arbitrary: n)
  case (Cons a s)
  then show ?case using assms(2) by (auto simp: Let_def split: option.splits)
qed simp

lemma ParseInt_show_nat:
  assumes "int n < 2 ^ (bits - 1)" and "0 < bits"
  shows "ParseInt (show_nat n) bits = (int n, None)"
proof -
  have pow: "(2::nat) ^ (bits - 1) \<le> 2 ^ bits - 1"
    using assms(2) by (cases bits) auto
  have "n < 2 ^ (bits - 1)" using assms(1) by (metis of_nat_less_numeral_power_cancel_iff)
  with pow have le: "n \<le> 2 ^ bits - 1" by linarith
  have "hd (show_nat n) \<in> set (show_nat n)" by simp
  then obtain d where "d < 10" and "hd (show_nat n) = digit_char d"
    using set_show_nat by blast
  then have "hd (show_nat n) \<noteq> CHR ''-''" and "hd (show_nat n) \<noteq> CHR ''+''"
    by (simp_all add: digit_char_not_sign)
  with assms le show ?thesis
    by (simp add: ParseInt_def ParseUint_def ParseDigits_show_nat)
qed

lemma ParseInt_range:
  assumes "ParseInt s bits = (v, e)" and "0 < bits"
  shows "- (2 ^ (bits - 1)) \<le> v \<and> v < 2 ^ (bits - 1)"
proof -
  define c :: int where "c = 2 ^ (bits - 1)"
  have c: "0 < c" by (simp add: c_def)
  have "- c \<le> v \<and> v < c"
    using assms c unfolding ParseInt_def Let_def c_def [symmetric]
    by (auto split: if_splits sum.splits num_error.splits)
  then show ?thesis by (simp add: c_def)
qed

lemma ParseInt_bad:
  assumes "c \<in> set s" and "digit_value c = None" and "c \<noteq> CHR ''-''" and "c \<noteq> CHR ''+''"
  shows "snd (ParseInt s bits) \<noteq> None"
proof -
  define ds where "ds = (if hd s = CHR ''-'' \<or> hd s = CHR ''+'' then tl s else s)"
  have "s \<noteq> []" using assms(1) by (cases s) auto
  have "c \<in> set ds" using assms by (cases s) (auto simp: ds_def)
  then obtain e where "ParseDigits (2 ^ bits - 1) ds 0 = Inl e"
    using ParseDigits_bad assms(2) by blast
  then have "\<exists>e. ParseUint ds bits = Inl e" by (simp add: ParseUint_def)
  then obtain e' where "ParseUint ds bits = Inl e'" by blast
  then show ?thesis
    using \<open>s \<noteq> []\<close> unfolding ParseInt_def Let_def ds_def [symmetric]
    by (cases e') auto
qed

section \<open>Paths and addresses\<close>

definition strip_slashes :: "string \<Rightarrow> string" where
  "strip_slashes p = rev (dropWhile (\<lambda>c. c = CHR ''/'') (rev p))"

text \<open>\<open>path.Base\<close>: the last element, after trailing slashes are removed.\<close>

definition Base :: "string \<Rightarrow> string" where
  "Base p =
     (if p = [] then ''.''
      else let q = rev (takeWhile (\<lambda>c. c \<noteq> CHR ''/'') (rev (strip_slashes p)))
           in if q = [] then ''/'' else q)"

text \<open>
  \<open>path.Join(a, b)\<close>: the non-empty elements joined by a slash and cleaned
  (\<open>path.Clean\<close>: empty and \<open>.\<close> elements dropped, \<open>..\<close> resolved).
\<close>

fun clean_elems :: "bool \<Rightarrow> string list \<Rightarrow> string list \<Rightarrow> string list" where
  "clean_elems rooted [] out = rev out"
| "clean_elems rooted (e # es) out =
     (if e = [] \<or> e = ''.'' then clean_elems rooted es out
      else if e = ''..'' then
        (case out of
           [] \<Rightarrow> clean_elems rooted es (if rooted then [] else [e])
         | t # ts \<Rightarrow> if t = ''..'' then clean_elems rooted es (e # out)
                     else clean_elems rooted es ts)
      else clean_elems rooted es (e # out))"

definition Clean :: "string \<Rightarrow> string" where
  "Clean p =
     (if p = [] then ''.''
      else let rooted = (hd p = CHR ''/'');
               q = JoinChar (CHR ''/'') (clean_elems rooted (SplitChar (CHR ''/'') p) [])
           in if rooted then CHR ''/'' # q else if q = [] then ''.'' else q)"

definition Join :: "string \<Rightarrow> string \<Rightarrow> string" where
  "Join a b =
     (if a = [] \<and> b = [] then []
      else if a = [] then Clean b
      else if b = [] then Clean a
      else Clean (a @ CHR ''/'' # b))"

fun index_of :: "char \<Rightarrow> string \<Rightarrow> nat option" where
  "index_of c [] = None"
| "index_of c (x # s) = (if x = c then Some 0 else map_option Suc (index_of c s))"

definition last_index_of :: "char \<Rightarrow> string \<Rightarrow> nat option" where
  "last_index_of c s = map_option (\<lambda>i. length s - 1 - i) (index_of c (rev s))"

text \<open>
  \<open>net.SplitHostPort\<close>: host and port, or \<open>None\<close> for any of its address errors
  (on which it returns two empty strings).
\<close>

definition SplitHostPort :: "string \<Rightarrow> (string \<times> string) option" where
  "SplitHostPort hp =
     (case last_index_of (CHR '':'') hp of
        None \<Rightarrow> None
      | Some i \<Rightarrow>
          if hd hp = CHR ''['' then
            (case index_of (CHR '']'') hp of
               None \<Rightarrow> None
             | Some e \<Rightarrow>
                 if e + 1 = length hp \<or> e + 1 \<noteq> i then None
                 else if CHR ''['' \<in> set (drop 1 hp) \<or> CHR '']'' \<in> set (drop (e + 1) hp) then None
                 else Some (drop 1 (take e hp), drop (i + 1) hp))
          else if CHR '':'' \<in> set (take i hp) then None
          else if CHR ''['' \<in> set hp \<or> CHR '']'' \<in> set hp then None
          else Some (take i hp, drop (i + 1) hp))"

lemma index_of_append: "c \<notin> set xs \<Longrightarrow> index_of c (xs @ c # ys) = Some (length xs)"
  by (induction xs) auto

lemma last_index_of_append: "c \<notin> set ys \<Longrightarrow> last_index_of c (xs @ c # ys) = Some (length xs)"
  using index_of_append [of c "rev ys" "rev xs"] by (simp add: last_index_of_def)

lemma SplitHostPort_join:
  assumes "h \<noteq> []" and "CHR '':'' \<notin> set h" and "CHR ''['' \<notin> set h" and "CHR '']'' \<notin> set h"
    and "CHR '':'' \<notin> set p" and "CHR ''['' \<notin> set p" and "CHR '']'' \<notin> set p"
  shows "SplitHostPort (h @ CHR '':'' # p) = Some (h, p)"
proof -
  have "hd (h @ CHR '':'' # p) \<noteq> CHR ''[''" using assms(1,3) by (cases h) auto
  with assms show ?thesis by (simp add: SplitHostPort_def last_index_of_append)
qed

end
