(* ===== verification/Utils.thy ===== *)
theory Utils
  imports GoStrings
begin

text \<open>
  \<^verbatim>\<open>pkg/utils/utils.go\<close>: the conversions of names, durations, addresses and numbers that both
  the adapter and the controllers use. Every function is total; the errors the code only logs are
  the branches that yield its fallback value.
\<close>

section \<open>Names\<close>

definition FormatToDNS1123 :: "string \<Rightarrow> string" where
  "FormatToDNS1123 name = ToLower (ReplaceAllChar (CHR ''_'') (CHR ''-'') name)"

definition ResolveServiceName :: "string \<Rightarrow> string" where
  "ResolveServiceName configuratorPath = RemoveFirst ''.configurators'' (Base configuratorPath)"

section \<open>Durations\<close>

text \<open>\<open>ptypes.Duration\<close>, the protobuf duration.\<close>

record Duration =
  Seconds :: int64
  Nanos :: int32

definition StringToDuration :: "string \<Rightarrow> int64 \<Rightarrow> Duration option" where
  "StringToDuration s repeat =
     (if s = [] then None
      else if HasSuffix s ''s'' then
        (let (v, err) = ParseInt (TrimSuffix s ''s'') 64;
             t = (if err \<noteq> None then 0 else word_of_int v :: int64);
             t' = t * repeat
         in Some \<lparr>Seconds = t', Nanos = 0\<rparr>)
      else
        (let (v, err) = ParseInt (TrimSuffix s ''ms'') 64;
             t = (if err \<noteq> None then 0 else word_of_int v :: int64);
             t' = t * repeat
         in Some \<lparr>Seconds = word_of_int (sint t' sdiv 1000),
                  Nanos = word_of_int (sint t' smod 1000) * 1000000\<rparr>))"

section \<open>Addresses and numbers\<close>

definition RemovePort :: "string \<Rightarrow> string" where
  "RemovePort addressWithPort =
     (case SplitHostPort addressWithPort of None \<Rightarrow> addressWithPort | Some (host, _) \<Rightarrow> host)"

definition ToUint32 :: "string \<Rightarrow> uint32" where
  "ToUint32 portStr = word_of_int (fst (ParseInt portStr 32))"

definition ToInt32 :: "string \<Rightarrow> int32" where
  "ToInt32 portStr = word_of_int (fst (ParseInt portStr 32))"

text \<open>
  \<open>DeleteInSlice\<close> works through reflection: on a slice it removes the element at an index
  (panicking when the index is out of range), on any other value it returns the value.
\<close>

datatype 'a go_value = SliceV "'a list" | OtherV 'a

definition DeleteInSlice :: "'a go_value \<Rightarrow> int \<Rightarrow> 'a go_value option" where
  "DeleteInSlice s index =
     (case s of
        SliceV xs \<Rightarrow>
          if 0 \<le> index \<and> index < int (length xs)
          then Some (SliceV (take (nat index) xs @ drop (nat index + 1) xs)) else None
      | OtherV v \<Rightarrow> Some (OtherV v))"

section \<open>Lemmas on names\<close>

lemma FormatToDNS1123_chars:
  assumes "c \<in> set (FormatToDNS1123 name)"
  shows "c \<noteq> CHR ''_'' \<and> \<not> is_upper c"
proof -
  from assms obtain d where "c = ascii_lower (if d = CHR ''_'' then CHR ''-'' else d)"
    by (auto simp: FormatToDNS1123_def ToLower_def ReplaceAllChar_def)
  then show ?thesis by (simp add: ascii_lower_underscore)
qed

lemma FormatToDNS1123_fixed:
  assumes "\<And>c. c \<in> set name \<Longrightarrow> c \<noteq> CHR ''_'' \<and> \<not> is_upper c"
  shows "FormatToDNS1123 name = name"
  using assms
  by (induction name) (auto simp: FormatToDNS1123_def ToLower_def ReplaceAllChar_def ascii_lower_def)

lemma FormatToDNS1123_idem: "FormatToDNS1123 (FormatToDNS1123 name) = FormatToDNS1123 name"
  by (rule FormatToDNS1123_fixed) (rule FormatToDNS1123_chars)

text \<open>
  The name of every resource the controllers and the adapter write is normalised: it has no
  underscore and no upper-case letter, keeps the length of the name, and formatting it again
  changes nothing (the adapter formats a name that the converter has already formatted).
\<close>

theorem FormatToDNS1123_normal:
  "CHR ''_'' \<notin> set (FormatToDNS1123 name) \<and> list_all (\<lambda>c. \<not> is_upper c) (FormatToDNS1123 name)
   \<and> length (FormatToDNS1123 name) = length name
   \<and> FormatToDNS1123 (FormatToDNS1123 name) = FormatToDNS1123 name"
proof (intro conjI)
  show "CHR ''_'' \<notin> set (FormatToDNS1123 name)" using FormatToDNS1123_chars by blast
  show "list_all (\<lambda>c. \<not> is_upper c) (FormatToDNS1123 name)"
    using FormatToDNS1123_chars by (auto simp: list_all_iff)
  show "length (FormatToDNS1123 name) = length name"
    by (simp add: FormatToDNS1123_def ToLower_def ReplaceAllChar_def)
  show "FormatToDNS1123 (FormatToDNS1123 name) = FormatToDNS1123 name"
    by (rule FormatToDNS1123_idem)
qed

lemma Base_append:
  assumes "svc \<noteq> []" and "CHR ''/'' \<notin> set svc"
  shows "Base (dir @ CHR ''/'' # svc) = svc"
proof -
  have "rev svc \<noteq> []" and "hd (rev svc) \<noteq> CHR ''/''"
    using assms by (auto simp: hd_rev dest: last_in_set)
  then have drop: "dropWhile (\<lambda>c. c = CHR ''/'') (rev svc @ CHR ''/'' # rev dir)
      = rev svc @ CHR ''/'' # rev dir"
    by (cases "rev svc") auto
  have "takeWhile (\<lambda>c. c \<noteq> CHR ''/'') (rev svc @ CHR ''/'' # rev dir) = rev svc"
    using assms(2) by (simp add: takeWhile_append)
  with drop assms(1) show ?thesis
    by (simp add: Base_def strip_slashes_def)
qed

lemma ResolveServiceName_configurator:
  assumes "CHR ''/'' \<notin> set svc" and "RemoveFirst ''.configurators'' svc = svc"
  shows "ResolveServiceName (dir @ CHR ''/'' # svc @ ''.configurators'') = svc"
proof -
  have "Base (dir @ CHR ''/'' # svc @ ''.configurators'') = svc @ ''.configurators''"
    using assms(1) by (intro Base_append) auto
  then show ?thesis
    using assms(2) by (simp add: ResolveServiceName_def RemoveFirst_append)
qed

section \<open>Lemmas on durations\<close>

lemma StringToDuration_seconds:
  assumes "int n < 2 ^ 63"
  shows "StringToDuration (show_nat n @ ''s'') rep = Some \<lparr>Seconds = word_of_int (int n) * rep, Nanos = 0\<rparr>"
  using assms by (simp add: StringToDuration_def ParseInt_show_nat)

lemma StringToDuration_ms:
  "StringToDuration (s @ ''ms'') rep = Some \<lparr>Seconds = 0, Nanos = 0\<rparr>"
proof -
  have trim: "TrimSuffix (s @ ''ms'') ''s'' = s @ ''m''"
    using TrimSuffix_append [of "s @ ''m''" "''s''"] by simp
  have suf: "HasSuffix (s @ ''ms'') ''s''"
    using HasSuffix_append [of "s @ ''m''" "''s''"] by simp
  have "snd (ParseInt (s @ ''m'') 64) \<noteq> None"
    by (rule ParseInt_bad [of "CHR ''m''"]) (auto simp: digit_value_def)
  then obtain v e where "ParseInt (s @ ''m'') 64 = (v, Some e)"
    by (cases "ParseInt (s @ ''m'') 64") auto
  then show ?thesis by (simp add: StringToDuration_def trim suf)
qed

text \<open>The two fields of the duration built from a number of milliseconds, as integers.\<close>

lemma duration_fields:
  fixes t :: int64
  shows "sint (word_of_int (sint t sdiv 1000) :: int64) = sint t sdiv 1000"
    and "sint (word_of_int (sint t smod 1000) * 1000000 :: int32) = (sint t smod 1000) * 1000000"
proof -
  have "\<bar>sint t sdiv 1000\<bar> \<le> \<bar>sint t\<bar>" by (rule sdiv_smod_1000)
  moreover have "\<bar>sint t sdiv 1000\<bar> < 2 ^ 63"
    unfolding signed_divide_int_def using int64_range [of t]
    by (cases "sint t < 0"; cases "sint t = 0"; simp; linarith)
  ultimately show "sint (word_of_int (sint t sdiv 1000) :: int64) = sint t sdiv 1000"
    by (intro sint_int64) linarith+
  have "\<bar>sint t smod 1000\<bar> \<le> 999" by (rule sdiv_smod_1000)
  then have "sint (word_of_int ((sint t smod 1000) * 1000000) :: int32) = (sint t smod 1000) * 1000000"
    by (intro sint_int32) simp_all
  then show "sint (word_of_int (sint t smod 1000) * 1000000 :: int32) = (sint t smod 1000) * 1000000"
    by simp
qed

definition valid_duration :: "Duration \<Rightarrow> bool" where
  "valid_duration d \<longleftrightarrow> \<bar>sint (Nanos d)\<bar> < 10 ^ 9 \<and>
     \<not> (sint (Seconds d) < 0 \<and> 0 < sint (Nanos d)) \<and> \<not> (0 < sint (Seconds d) \<and> sint (Nanos d) < 0)"

lemma valid_duration_ms:
  fixes t :: int64
  shows "valid_duration \<lparr>Seconds = word_of_int (sint t sdiv 1000),
                          Nanos = word_of_int (sint t smod 1000) * 1000000\<rparr>"
proof -
  have "\<bar>sint t smod 1000\<bar> \<le> 999" by (rule sdiv_smod_1000)
  moreover have "0 \<le> sint t \<and> 0 \<le> sint t sdiv 1000 \<and> 0 \<le> sint t smod 1000
      \<or> sint t \<le> 0 \<and> sint t sdiv 1000 \<le> 0 \<and> sint t smod 1000 \<le> 0"
    using sdiv_smod_1000(3,4) [of "sint t"] by linarith
  ultimately show ?thesis
    unfolding valid_duration_def Duration.simps duration_fields by (auto simp: mult_less_0_iff zero_less_mult_iff)
qed

text \<open>
  Whatever the timeout string and the factor, the protobuf duration is well formed: the
  nanoseconds stay below one second in absolute value (no 32-bit overflow) and never have the
  opposite sign of the seconds; only the empty string gives no duration.
\<close>

theorem StringToDuration_valid:
  "(StringToDuration s rep = None) = (s = []) \<and> pred_option valid_duration (StringToDuration s rep)"
proof -
  have "valid_duration \<lparr>Seconds = x, Nanos = 0\<rparr>" for x by (simp add: valid_duration_def)
  then show ?thesis
    by (auto simp: StringToDuration_def valid_duration_ms Let_def split: prod.splits)
qed

lemma last_show_nat: "\<exists>d < 10. last (show_nat n) = digit_char d"
  using set_show_nat [of "last (show_nat n)" n] by simp

lemma show_nat_no_suffix:
  assumes "digit_value c = None"
  shows "\<not> HasSuffix (show_nat n) (t @ [c])"
proof
  assume "HasSuffix (show_nat n) (t @ [c])"
  then have "last (show_nat n) = c" by (auto simp: HasSuffix_iff)
  with last_show_nat [of n] assms show False by auto
qed

text \<open>
  A timeout without unit is milliseconds: for a decimal \<open>n\<close> of 63 bits the duration is exactly
  \<open>n * repeat\<close> milliseconds, the product taken in 64-bit two's complement as the code takes it.
\<close>

theorem StringToDuration_millis:
  assumes "int n < 2 ^ 63"
  shows "\<exists>d. StringToDuration (show_nat n) rep = Some d \<and>
    sint (Seconds d) * 1000 + sint (Nanos d) div 1000000 = sint (word_of_int (int n) * rep)"
proof -
  have "\<not> HasSuffix (show_nat n) ''s''" and "\<not> HasSuffix (show_nat n) ''ms''"
    using show_nat_no_suffix [of "CHR ''s''" n "[]"] show_nat_no_suffix [of "CHR ''s''" n "''m''"]
    by (simp_all add: digit_value_def)
  then show ?thesis
    using assms
    by (simp add: StringToDuration_def ParseInt_show_nat TrimSuffix_def duration_fields sdiv_smod_1000(1) Let_def)
qed

theorem StringToDuration_millis_witness:
  "\<exists>d. StringToDuration (show_nat 2500) 3 = Some d \<and>
    sint (Seconds d) * 1000 + sint (Nanos d) div 1000000 = 7500"
  using StringToDuration_millis [of 2500 3] by simp

text \<open>
  A timeout with the documented unit \<open>ms\<close> is lost: the test for the suffix \<open>s\<close> comes first, the
  remaining text ends in \<open>m\<close> and does not parse, and the duration is zero for every number
  (the comment of the function gives \<open>20ms\<close> as 20 milliseconds).
\<close>

theorem StringToDuration_ms_zero:
  "StringToDuration (s @ ''ms'') rep = Some \<lparr>Seconds = 0, Nanos = 0\<rparr>"
  by (rule StringToDuration_ms)

section \<open>Lemmas on addresses and numbers\<close>

lemma RemovePort_join:
  assumes "h \<noteq> []" and "set h \<inter> {CHR '':'', CHR ''['', CHR '']''} = {}"
    and "set p \<inter> {CHR '':'', CHR ''['', CHR '']''} = {}"
  shows "RemovePort (h @ CHR '':'' # p) = h"
  using assms by (simp add: RemovePort_def SplitHostPort_join)

lemma RemovePort_none: "CHR '':'' \<notin> set a \<Longrightarrow> RemovePort a = a"
proof -
  assume "CHR '':'' \<notin> set a"
  then have "index_of (CHR '':'') (rev a) = None"
    by (induction a rule: rev_induct) auto
  then show ?thesis by (simp add: RemovePort_def SplitHostPort_def last_index_of_def)
qed

lemma ToUint32_show_nat: "n < 2 ^ 31 \<Longrightarrow> ToUint32 (show_nat n) = of_nat n"
  by (simp add: ToUint32_def ParseInt_show_nat)

lemma ToInt32_show_nat: "n < 2 ^ 31 \<Longrightarrow> ToInt32 (show_nat n) = of_nat n"
  by (simp add: ToInt32_def ParseInt_show_nat)

end
