(* ===== verification/MeshApi.thy ===== *)
theory MeshApi
  imports Utils
begin

text \<open>
  The custom resources of \<^verbatim>\<open>api/v1alpha1\<close>, field by field, and the operation the package
  defines on them (\<open>Subset.In\<close>). A pointer field is an option, a slice of pointers a list
  (no element of such a slice is nil), a map an association list. \<open>ObjectMeta\<close> keeps the fields
  that the repository reads or writes and the resource version the API server checks.
\<close>

section \<open>Object metadata\<close>

record OwnerReference =
  or_Kind :: string
  or_Name :: string
  or_Controller :: bool

record ObjectMeta =
  om_Name :: string
  om_Namespace :: string
  om_Labels :: labels
  om_Finalizers :: "string list"
  om_OwnerReferences :: "OwnerReference list"
  om_Generation :: int64
  om_ResourceVersion :: nat

definition new_meta :: "string \<Rightarrow> string \<Rightarrow> labels \<Rightarrow> ObjectMeta" where
  "new_meta name namespace lbls =
     \<lparr>om_Name = name, om_Namespace = namespace, om_Labels = lbls, om_Finalizers = [],
      om_OwnerReferences = [], om_Generation = 0, om_ResourceVersion = 0\<rparr>"

lemma new_meta_simps [simp]:
  "om_Name (new_meta n ns l) = n" "om_Namespace (new_meta n ns l) = ns"
  "om_Labels (new_meta n ns l) = l" "om_Finalizers (new_meta n ns l) = []"
  "om_OwnerReferences (new_meta n ns l) = []"
  by (simp_all add: new_meta_def)

section \<open>MeshConfig\<close>

record Policy =
  po_LoadBalancer :: labels
  po_MaxConnections :: int32
  po_Timeout :: string
  po_MaxRetries :: int32

record Subset =
  ss_Name :: string
  ss_Labels :: labels
  ss_Policy :: "Policy option"
  ss_IsCanary :: bool

record MeshConfigSpec =
  mc_MatchSourceLabelKeys :: "string list"
  mc_WorkloadEntryLabelKeys :: "string list"
  mc_MeshLabelsRemap :: labels
  mc_ExtractedLabels :: "string list"
  mc_SidecarSelectLabel :: string
  mc_SidecarDefaultHosts :: "string list"
  mc_GlobalSubsets :: "Subset list"
  mc_GlobalPolicy :: "Policy option"

record MeshConfig =
  mc_Meta :: ObjectMeta
  mc_Spec :: MeshConfigSpec

text \<open>\<open>func (s *Subset) In(list []*Subset) bool\<close>: membership by name.\<close>

fun Subset_In :: "Subset \<Rightarrow> Subset list \<Rightarrow> bool" where
  "Subset_In s [] = False"
| "Subset_In s (item # list) = (if ss_Name item = ss_Name s then True else Subset_In s list)"

lemma Subset_In_iff: "Subset_In s l \<longleftrightarrow> ss_Name s \<in> ss_Name ` set l"
  by (induction l) auto

lemma Subset_In_append [simp]: "Subset_In s (l @ m) \<longleftrightarrow> Subset_In s l \<or> Subset_In s m"
  by (auto simp: Subset_In_iff)

section \<open>ConfiguredService\<close>

record Port =
  pt_Name :: string
  pt_Protocol :: string
  pt_Number :: uint32

record Instance =
  in_Host :: string
  in_Labels :: labels
  in_Port :: "Port option"
  in_Weight :: uint32

record ConfiguredServiceSpec =
  cs_OriginalName :: string
  cs_Instances :: "Instance list"
  cs_MeshConfigGeneration :: int64

record ConfiguredService =
  cs_Meta :: ObjectMeta
  cs_Spec :: ConfiguredServiceSpec

section \<open>ServiceConfig\<close>

record Destination =
  ds_Subset :: string
  ds_Weight :: int32

record RerouteOption =
  ro_ReroutePolicy :: string
  ro_SpecificRoute :: "(string, Destination list) gomap"

definition Default :: string where "Default = ''Default''"
definition Unchangeable :: string where "Unchangeable = ''Unchangeable''"
definition Specific :: string where "Specific = ''Specific''"

record InstanceConfig =
  ic_Host :: string
  ic_Port :: "Port option"
  ic_Weight :: uint32

record ServiceConfigSpec =
  sc_OriginalName :: string
  sc_Policy :: "Policy option"
  sc_Route :: "Destination list"
  sc_Instances :: "InstanceConfig list"
  sc_RerouteOption :: "RerouteOption option"
  sc_CanaryRerouteOption :: "RerouteOption option"
  sc_MeshConfigGeneration :: int64

record SubStatus =
  su_Desired :: int
  su_Distributed :: "int option"
  su_Undistributed :: "int option"

record Status =
  st_ServiceEntry :: SubStatus
  st_WorkloadEntry :: SubStatus
  st_VirtualService :: SubStatus
  st_DestinationRule :: SubStatus

text \<open>The zero value of the phase is the empty string.\<close>

datatype ConfigPhase =
    PhaseUnset
  | ConfigStatusUndistributed
  | ConfigStatusDistributed
  | ConfigStatusDistributing
  | ConfigStatusUnknown

record ServiceConfigStatus =
  scs_LastUpdateTime :: "nat option"
  scs_Phase :: ConfigPhase
  scs_Status :: "Status option"

record ServiceConfig =
  sc_Meta :: ObjectMeta
  sc_Spec :: ServiceConfigSpec
  sc_Status :: ServiceConfigStatus

definition empty_status :: ServiceConfigStatus where
  "empty_status = \<lparr>scs_LastUpdateTime = None, scs_Phase = PhaseUnset, scs_Status = None\<rparr>"

section \<open>AppMeshConfig\<close>

record Service =
  sv_Name :: string
  sv_OriginalName :: string
  sv_Ports :: "Port list"
  sv_Instances :: "Instance list"
  sv_Policy :: "Policy option"
  sv_Subsets :: "Subset list"

record AppMeshConfig =
  amc_Meta :: ObjectMeta
  amc_Services :: "Service list"
  amc_Status :: ServiceConfigStatus

section \<open>ServiceAccessor\<close>

record ServiceAccessorSpec =
  sa_AccessHosts :: "string list"
  sa_MeshConfigGeneration :: int64

record ServiceAccessor =
  sa_Meta :: ObjectMeta
  sa_Spec :: ServiceAccessorSpec

section \<open>Controller options\<close>

text \<open>\<open>ControllerOption\<close> of \<^verbatim>\<open>pkg/option/controller.go\<close>.\<close>

record ControllerOption =
  op_HTTPAddress :: string
  op_MetricsEnabled :: bool
  op_SyncPeriod :: int32
  op_LeaderElectionNamespace :: string
  op_LeaderElectionID :: string
  op_EnableLeaderElection :: bool
  op_GinLogEnabled :: bool
  op_GinLogSkipPath :: "string list"
  op_PprofEnabled :: bool
  op_GoroutineThreshold :: int
  op_MaxConcurrentReconciles :: int
  op_InitDefaultSidecars :: bool
  op_ProxyHost :: string
  op_ProxyAttempts :: int32
  op_ProxyPerTryTimeout :: int64
  op_ProxyRetryOn :: string
  op_MeshConfigName :: string
  op_MeshConfigNamespace :: string
  op_SelectLabel :: string
  op_EnableAppMeshConfig :: bool
  op_EnableConfiguredService :: bool
  op_EnableIstioConfig :: bool
  op_EnableMeshConfig :: bool
  op_EnableServiceAccessor :: bool
  op_EnableServiceConfig :: bool
  op_WatchIstioCRD :: bool

definition DefaultControllerOption :: ControllerOption where
  "DefaultControllerOption =
     \<lparr>op_HTTPAddress = '':8080'', op_MetricsEnabled = True, op_SyncPeriod = 120,
      op_LeaderElectionNamespace = ''sym-admin'', op_LeaderElectionID = ''meshach-lock'',
      op_EnableLeaderElection = True, op_GinLogEnabled = True,
      op_GinLogSkipPath = [''/ready'', ''/live''], op_PprofEnabled = True,
      op_GoroutineThreshold = 10000, op_MaxConcurrentReconciles = 1000,
      op_InitDefaultSidecars = False, op_ProxyHost = ''mosn.io.dubbo.proxy'',
      op_ProxyAttempts = 3, op_ProxyPerTryTimeout = 2,
      op_ProxyRetryOn = ''gateway-error,connect-failure,refused-stream'',
      op_MeshConfigName = ''sym-meshconfig'', op_MeshConfigNamespace = ''sym-admin'',
      op_SelectLabel = ''service'', op_EnableAppMeshConfig = False,
      op_EnableConfiguredService = False, op_EnableIstioConfig = False,
      op_EnableMeshConfig = False, op_EnableServiceAccessor = False,
      op_EnableServiceConfig = False, op_WatchIstioCRD = True\<rparr>"

end
