(* ===== verification/IstioApi.thy ===== *)
theory IstioApi
  imports MeshApi
begin

text \<open>
  The Istio resources the controllers build, as far as the code fills them in, and deep equality on
  them. The types are those of \<open>istio.io/api\<close>; a resource read from the cluster may set fields
  that the code never sets, and the \<open>Other\<close> field of a spec stands for all of them (empty in every
  resource the code builds). \<open>equality.Semantic.DeepEqual\<close> compares structures field by field,
  slices in order and maps by their contents.
\<close>

section \<open>VirtualService\<close>

record RouteTarget =
  rt_Host :: string
  rt_Subset :: string

record HTTPRouteDestination =
  rd_Destination :: RouteTarget
  rd_Weight :: int32

datatype StringMatch = StringMatch_Exact string | StringMatch_Prefix string | StringMatch_Regex string

record HTTPMatchRequest =
  hm_SourceLabels :: labels
  hm_Headers :: "(string, StringMatch) gomap"

record HTTPRetry =
  re_Attempts :: int32
  re_PerTryTimeout :: "Duration option"
  re_RetryOn :: string

record HTTPRoute =
  hr_Name :: string
  hr_Match :: "HTTPMatchRequest list"
  hr_Route :: "HTTPRouteDestination list"
  hr_Timeout :: "Duration option"
  hr_Retries :: "HTTPRetry option"

record VirtualServiceSpec =
  vs_Hosts :: "string list"
  vs_Http :: "HTTPRoute list"
  vs_Other :: string

record VirtualService =
  vs_Meta :: ObjectMeta
  vs_Spec :: VirtualServiceSpec

definition HTTPMatch_eq :: "HTTPMatchRequest \<Rightarrow> HTTPMatchRequest \<Rightarrow> bool" where
  "HTTPMatch_eq a b \<longleftrightarrow>
     map_eq (hm_SourceLabels a) (hm_SourceLabels b) \<and> map_eq (hm_Headers a) (hm_Headers b)"

definition HTTPRoute_eq :: "HTTPRoute \<Rightarrow> HTTPRoute \<Rightarrow> bool" where
  "HTTPRoute_eq a b \<longleftrightarrow>
     hr_Name a = hr_Name b \<and> list_all2 HTTPMatch_eq (hr_Match a) (hr_Match b) \<and>
     hr_Route a = hr_Route b \<and> hr_Timeout a = hr_Timeout b \<and> hr_Retries a = hr_Retries b"

definition VirtualServiceSpec_eq :: "VirtualServiceSpec \<Rightarrow> VirtualServiceSpec \<Rightarrow> bool" where
  "VirtualServiceSpec_eq a b \<longleftrightarrow>
     vs_Hosts a = vs_Hosts b \<and> list_all2 HTTPRoute_eq (vs_Http a) (vs_Http b) \<and>
     vs_Other a = vs_Other b"

section \<open>DestinationRule\<close>

datatype SimpleLB = ROUND_ROBIN | LEAST_CONN | RANDOM | PASSTHROUGH

record TrafficPolicy =
  tp_LoadBalancer :: SimpleLB

record IstioSubset =
  is_Name :: string
  is_Labels :: labels
  is_TrafficPolicy :: "TrafficPolicy option"

record DestinationRuleSpec =
  dr_Host :: string
  dr_TrafficPolicy :: "TrafficPolicy option"
  dr_Subsets :: "IstioSubset list"
  dr_Other :: string

record DestinationRule =
  dr_Meta :: ObjectMeta
  dr_Spec :: DestinationRuleSpec

definition IstioSubset_eq :: "IstioSubset \<Rightarrow> IstioSubset \<Rightarrow> bool" where
  "IstioSubset_eq a b \<longleftrightarrow>
     is_Name a = is_Name b \<and> map_eq (is_Labels a) (is_Labels b) \<and>
     is_TrafficPolicy a = is_TrafficPolicy b"

definition DestinationRuleSpec_eq :: "DestinationRuleSpec \<Rightarrow> DestinationRuleSpec \<Rightarrow> bool" where
  "DestinationRuleSpec_eq a b \<longleftrightarrow>
     dr_Host a = dr_Host b \<and> dr_TrafficPolicy a = dr_TrafficPolicy b \<and>
     list_all2 IstioSubset_eq (dr_Subsets a) (dr_Subsets b) \<and> dr_Other a = dr_Other b"

section \<open>ServiceEntry\<close>

datatype Location = MESH_EXTERNAL | MESH_INTERNAL
datatype Resolution = NONE | STATIC | DNS

record IstioPort =
  ip_Number :: uint32
  ip_Protocol :: string
  ip_Name :: string

record ServiceEntrySpec =
  se_Hosts :: "string list"
  se_Ports :: "IstioPort list"
  se_Location :: Location
  se_Resolution :: Resolution
  se_WorkloadSelector :: labels
  se_Other :: string

record ServiceEntry =
  se_Meta :: ObjectMeta
  se_Spec :: ServiceEntrySpec

definition ServiceEntrySpec_eq :: "ServiceEntrySpec \<Rightarrow> ServiceEntrySpec \<Rightarrow> bool" where
  "ServiceEntrySpec_eq a b \<longleftrightarrow>
     se_Hosts a = se_Hosts b \<and> se_Ports a = se_Ports b \<and> se_Location a = se_Location b \<and>
     se_Resolution a = se_Resolution b \<and> map_eq (se_WorkloadSelector a) (se_WorkloadSelector b) \<and>
     se_Other a = se_Other b"

section \<open>WorkloadEntry\<close>

record WorkloadEntrySpec =
  we_Address :: string
  we_Ports :: "(string, uint32) gomap"
  we_Labels :: labels
  we_Weight :: uint32
  we_Other :: string

record WorkloadEntry =
  we_Meta :: ObjectMeta
  we_Spec :: WorkloadEntrySpec

definition WorkloadEntrySpec_eq :: "WorkloadEntrySpec \<Rightarrow> WorkloadEntrySpec \<Rightarrow> bool" where
  "WorkloadEntrySpec_eq a b \<longleftrightarrow>
     we_Address a = we_Address b \<and> map_eq (we_Ports a) (we_Ports b) \<and>
     map_eq (we_Labels a) (we_Labels b) \<and> we_Weight a = we_Weight b \<and> we_Other a = we_Other b"

section \<open>Sidecar\<close>

datatype OutboundMode = REGISTRY_ONLY | ALLOW_ANY

record EgressListener =
  eg_Hosts :: "string list"

record SidecarSpec =
  sd_WorkloadSelector :: labels
  sd_Egress :: "EgressListener list"
  sd_OutboundTrafficPolicy :: OutboundMode
  sd_Other :: string

record Sidecar =
  sd_Meta :: ObjectMeta
  sd_Spec :: SidecarSpec

definition SidecarSpec_eq :: "SidecarSpec \<Rightarrow> SidecarSpec \<Rightarrow> bool" where
  "SidecarSpec_eq a b \<longleftrightarrow>
     map_eq (sd_WorkloadSelector a) (sd_WorkloadSelector b) \<and> sd_Egress a = sd_Egress b \<and>
     sd_OutboundTrafficPolicy a = sd_OutboundTrafficPolicy b \<and> sd_Other a = sd_Other b"

section \<open>Objects the code only lists\<close>

record Pod = pod_Meta :: ObjectMeta
record Deployment = dep_Meta :: ObjectMeta

section \<open>Deep equality is an equivalence\<close>

lemma HTTPMatch_eq_refl [simp]: "HTTPMatch_eq a a"
  by (simp add: HTTPMatch_eq_def)

lemma HTTPRoute_eq_refl [simp]: "HTTPRoute_eq a a"
  by (simp add: HTTPRoute_eq_def list.rel_refl)

lemma VirtualServiceSpec_eq_refl [simp]: "VirtualServiceSpec_eq a a"
  by (simp add: VirtualServiceSpec_eq_def list.rel_refl)

lemma IstioSubset_eq_refl [simp]: "IstioSubset_eq a a"
  by (simp add: IstioSubset_eq_def)

lemma DestinationRuleSpec_eq_refl [simp]: "DestinationRuleSpec_eq a a"
  by (simp add: DestinationRuleSpec_eq_def list.rel_refl)

lemma ServiceEntrySpec_eq_refl [simp]: "ServiceEntrySpec_eq a a"
  by (simp add: ServiceEntrySpec_eq_def)

lemma WorkloadEntrySpec_eq_refl [simp]: "WorkloadEntrySpec_eq a a"
  by (simp add: WorkloadEntrySpec_eq_def)

lemma SidecarSpec_eq_refl [simp]: "SidecarSpec_eq a a"
  by (simp add: SidecarSpec_eq_def)

end
