(* ===== verification/KubeClient.thy ===== *)
theory KubeClient
  imports IstioApi
begin

text \<open>
  The Kubernetes API as the controllers use it. The client (\<open>sigs.k8s.io/controller-runtime\<close>),
  \<open>retry.RetryOnConflict\<close> and \<open>controllerutil.SetControllerReference\<close> are not part of the
  repository: they are arguments of the model (records of functions on an abstract world), and
  \<open>kube_ok\<close> states what the API documents of them. The world is read through \<open>objs\<close> (the stored
  objects of one kind by namespace and name) and \<open>rest\<close> (everything else).
\<close>

section \<open>Clients\<close>

type_synonym nsname = "string \<times> string"  \<comment> \<open>namespace and name\<close>

text \<open>\<open>client.ListOptions\<close>; the namespace \<open>[]\<close> is \<open>NamespaceAll\<close>.\<close>

record list_options =
  lo_Namespace :: string
  lo_MatchLabels :: labels
  lo_MatchFields :: "(string, string) gomap"

record ('w, 'o) kclient =
  kGet :: "nsname \<Rightarrow> 'w \<Rightarrow> (kerr + 'o) \<times> 'w"
  kList :: "list_options \<Rightarrow> 'w \<Rightarrow> (kerr + 'o list) \<times> 'w"
  kCreate :: "'o \<Rightarrow> 'w \<Rightarrow> (kerr + 'o) \<times> 'w"
  kUpdate :: "'o \<Rightarrow> 'w \<Rightarrow> (kerr + 'o) \<times> 'w"
  kStatusUpdate :: "'o \<Rightarrow> 'w \<Rightarrow> (kerr + 'o) \<times> 'w"
  kDelete :: "'o \<Rightarrow> 'w \<Rightarrow> (kerr + unit) \<times> 'w"
  kRetry :: "('o \<Rightarrow> 'w \<Rightarrow> (kerr + unit) \<times> 'o \<times> 'w) \<Rightarrow> 'o \<Rightarrow> 'w \<Rightarrow> (kerr + unit) \<times> 'o \<times> 'w"

text \<open>
  \<open>kRetry\<close> is \<open>retry.RetryOnConflict(retry.DefaultRetry, fn)\<close>; the closure \<open>fn\<close> captures one
  object variable, which it receives and returns.
\<close>

record 'w api =
  ap_MeshConfig :: "('w, MeshConfig) kclient"
  ap_ConfiguredService :: "('w, ConfiguredService) kclient"
  ap_ServiceConfig :: "('w, ServiceConfig) kclient"
  ap_ServiceAccessor :: "('w, ServiceAccessor) kclient"
  ap_AppMeshConfig :: "('w, AppMeshConfig) kclient"
  ap_VirtualService :: "('w, VirtualService) kclient"
  ap_DestinationRule :: "('w, DestinationRule) kclient"
  ap_ServiceEntry :: "('w, ServiceEntry) kclient"
  ap_WorkloadEntry :: "('w, WorkloadEntry) kclient"
  ap_Sidecar :: "('w, Sidecar) kclient"
  ap_Pod :: "('w, Pod) kclient"
  ap_Deployment :: "('w, Deployment) kclient"
  ap_SetControllerReference :: "string \<Rightarrow> ObjectMeta \<Rightarrow> ObjectMeta \<Rightarrow> kerr + ObjectMeta"
  ap_Now :: "'w \<Rightarrow> nat"

text \<open>The fields of a \<open>Reconciler\<close> that the controllers read and write.\<close>

record Reconciler =
  rc_Opt :: ControllerOption
  rc_MeshConfig :: MeshConfig

text \<open>Lists of all namespaces.\<close>

definition everywhere :: "labels \<Rightarrow> list_options" where
  "everywhere lbls = \<lparr>lo_Namespace = [], lo_MatchLabels = lbls, lo_MatchFields = []\<rparr>"

text \<open>A failed list is logged and leaves the list empty.\<close>

definition list_or_empty :: "('w, 'o) kclient \<Rightarrow> list_options \<Rightarrow> ('w, 'o list) call" where
  "list_or_empty c lo =
     gbind (attempt (kList c lo)) (\<lambda>res. gret (case res of Inl _ \<Rightarrow> [] | Inr items \<Rightarrow> items))"

section \<open>Kinds of objects\<close>

text \<open>
  What the client needs of a kind is its metadata. The kinds the controllers write have, besides, a
  comparison (\<open>compareVirtualService\<close> and the like: true when the stored object differs from the
  wanted one) and \<open>new.Spec.DeepCopyInto(&found.Spec)\<close>.
\<close>

record 'o kind =
  k_Meta :: "'o \<Rightarrow> ObjectMeta"
  k_SetMeta :: "ObjectMeta \<Rightarrow> 'o \<Rightarrow> 'o"

record 'o managed_kind = "'o kind" +
  k_Compare :: "'o \<Rightarrow> 'o \<Rightarrow> bool"
  k_CopySpec :: "'o \<Rightarrow> 'o \<Rightarrow> 'o"

definition okey :: "('o, 'z) kind_scheme \<Rightarrow> 'o \<Rightarrow> nsname" where
  "okey K o1 = (om_Namespace (k_Meta K o1), om_Name (k_Meta K o1))"

definition oname :: "('o, 'z) kind_scheme \<Rightarrow> 'o \<Rightarrow> string" where
  "oname K o1 = om_Name (k_Meta K o1)"

text \<open>The fields the API server assigns on every write.\<close>

definition strip_meta :: "ObjectMeta \<Rightarrow> ObjectMeta" where
  "strip_meta m = m\<lparr>om_Generation := 0, om_ResourceVersion := 0\<rparr>"

definition same_object :: "('o, 'z) kind_scheme \<Rightarrow> 'o \<Rightarrow> 'o \<Rightarrow> bool" where
  "same_object K a b \<longleftrightarrow>
     k_SetMeta K (strip_meta (k_Meta K a)) a = k_SetMeta K (strip_meta (k_Meta K b)) b"

definition selects :: "list_options \<Rightarrow> ObjectMeta \<Rightarrow> bool" where
  "selects lo m \<longleftrightarrow>
     (lo_Namespace lo = [] \<or> om_Namespace m = lo_Namespace lo) \<and>
     list_all (\<lambda>(k, v). map_of (om_Labels m) k = Some v) (lo_MatchLabels lo) \<and>
     list_all (\<lambda>(k, v). k = ''name'' \<and> om_Name m = v) (lo_MatchFields lo)"

section \<open>What the API documents\<close>

text \<open>
  \<open>RetryOnConflict\<close> runs the function, again after a conflict as long as attempts are left, and
  returns the last error (\<open>retry.DefaultRetry\<close> allows five attempts, so four repetitions).
\<close>

primrec retry_attempts ::
  "nat \<Rightarrow> ('o \<Rightarrow> 'w \<Rightarrow> (kerr + unit) \<times> 'o \<times> 'w) \<Rightarrow> 'o \<Rightarrow> 'w \<Rightarrow> (kerr + unit) \<times> 'o \<times> 'w" where
  "retry_attempts 0 f x w = f x w"
| "retry_attempts (Suc n) f x w =
     (let (r, x', w') = f x w in if r = Inl Conflict then retry_attempts n f x' w' else (r, x', w'))"

definition retry_ok :: "('w, 'o) kclient \<Rightarrow> bool" where
  "retry_ok c \<longleftrightarrow> (\<exists>n. \<forall>f x w. kRetry c f x w = retry_attempts n f x w)"

definition reads_ok ::
  "('o, 'z) kind_scheme \<Rightarrow> ('w, 'o) kclient \<Rightarrow> ('w \<Rightarrow> nsname \<Rightarrow> 'o option) \<Rightarrow> ('w \<Rightarrow> 'r) \<Rightarrow> bool" where
  "reads_ok K c objs rest \<longleftrightarrow>
     (\<forall>w k o1. objs w k = Some o1 \<longrightarrow> okey K o1 = k) \<and>
     (\<forall>k w r w'. kGet c k w = (r, w') \<longrightarrow> objs w' = objs w \<and> rest w' = rest w \<and>
        (case r of Inr o1 \<Rightarrow> objs w k = Some o1 | Inl e \<Rightarrow> e = NotFound \<longrightarrow> objs w k = None)) \<and>
     (\<forall>lo w r w'. kList c lo w = (r, w') \<longrightarrow> objs w' = objs w \<and> rest w' = rest w \<and>
        (case r of Inr xs \<Rightarrow> distinct (map (okey K) xs) \<and>
             (\<forall>o1. o1 \<in> set xs \<longleftrightarrow> objs w (okey K o1) = Some o1 \<and> selects lo (k_Meta K o1))
         | Inl e \<Rightarrow> True))"

text \<open>
  A create succeeds only where nothing is stored, an update only over an object with the resource
  version of the one sent (version 0 stands for the empty one, which is not checked); an object
  with finalizers outlives its deletion; a call that returns an error has changed nothing. This is what the
  API documents of custom resources; the pods of a fleet are deleted gracefully and have a law of their own. What
  the code creates has no status, and what it updates has the one it was read with, so that it makes
  no difference here that these two calls ignore a status. The garbage collector is not a call: what it
  removes is stated where it matters.
\<close>

definition writes_ok ::
  "('o, 'z) kind_scheme \<Rightarrow> ('w, 'o) kclient \<Rightarrow> ('w \<Rightarrow> nsname \<Rightarrow> 'o option) \<Rightarrow> ('w \<Rightarrow> 'r) \<Rightarrow> bool" where
  "writes_ok K c objs rest \<longleftrightarrow>
     (\<forall>o1 w r w'. kCreate c o1 w = (r, w') \<longrightarrow> rest w' = rest w \<and>
        (case r of
           Inr o' \<Rightarrow> objs w (okey K o1) = None \<and> same_object K o' o1 \<and>
                       objs w' = (objs w)(okey K o1 \<mapsto> o')
         | Inl e \<Rightarrow> objs w' = objs w \<and> (e = AlreadyExists \<longrightarrow> objs w (okey K o1) \<noteq> None))) \<and>
     (\<forall>o1 w r w'. kUpdate c o1 w = (r, w') \<longrightarrow> rest w' = rest w \<and>
        (case r of
           Inr o' \<Rightarrow> (\<exists>cur. objs w (okey K o1) = Some cur \<and>
                         om_ResourceVersion (k_Meta K o1) \<in> {0, om_ResourceVersion (k_Meta K cur)}) \<and>
                       same_object K o' o1 \<and> objs w' = (objs w)(okey K o1 \<mapsto> o')
         | Inl e \<Rightarrow> objs w' = objs w)) \<and>
     (\<forall>o1 w r w'. kDelete c o1 w = (r, w') \<longrightarrow> rest w' = rest w \<and>
        (case r of
           Inr _ \<Rightarrow> (\<forall>k. k \<noteq> okey K o1 \<longrightarrow> objs w' k = objs w k) \<and>
             (\<forall>cur. objs w (okey K o1) = Some cur \<longrightarrow> om_Finalizers (k_Meta K cur) = [] \<longrightarrow>
                objs w' (okey K o1) = None)
         | Inl e \<Rightarrow> objs w' = objs w))"

definition kube_ok ::
  "('o, 'z) kind_scheme \<Rightarrow> ('w, 'o) kclient \<Rightarrow> ('w \<Rightarrow> nsname \<Rightarrow> 'o option) \<Rightarrow> ('w \<Rightarrow> 'r) \<Rightarrow> bool" where
  "kube_ok K c objs rest \<longleftrightarrow> reads_ok K c objs rest \<and> writes_ok K c objs rest \<and> retry_ok c"

text \<open>\<open>SetControllerReference\<close> changes the owner references only.\<close>

definition setref_ok :: "(ObjectMeta \<Rightarrow> ObjectMeta \<Rightarrow> kerr + ObjectMeta) \<Rightarrow> bool" where
  "setref_ok f \<longleftrightarrow> (\<forall>owner m m'. f owner m = Inr m' \<longrightarrow>
     m' = m\<lparr>om_OwnerReferences := om_OwnerReferences m'\<rparr>)"

text \<open>What a read that is not an outage returns: an object, or that there is none.\<close>

definition get_available :: "('w, 'o) kclient \<Rightarrow> bool" where
  "get_available c \<longleftrightarrow> (\<forall>k w e. fst (kGet c k w) = Inl e \<longrightarrow> e = NotFound)"

text \<open>A client whose calls succeed where the API allows it.\<close>

definition reliable :: "('o, 'z) kind_scheme \<Rightarrow> ('w, 'o) kclient \<Rightarrow> ('w \<Rightarrow> nsname \<Rightarrow> 'o option) \<Rightarrow> bool" where
  "reliable K c objs \<longleftrightarrow> get_available c \<and>
     (\<forall>lo w. \<exists>items w'. kList c lo w = (Inr items, w')) \<and>
     (\<forall>o1 w. objs w (okey K o1) = None \<longrightarrow> (\<exists>o' w'. kCreate c o1 w = (Inr o', w'))) \<and>
     (\<forall>o1 cur w. objs w (okey K o1) = Some cur \<longrightarrow>
        om_ResourceVersion (k_Meta K o1) = om_ResourceVersion (k_Meta K cur) \<longrightarrow>
        (\<exists>o' w'. kUpdate c o1 w = (Inr o', w')))"

section \<open>Elimination of the laws\<close>

lemma kube_ok_key: "kube_ok K c objs rest \<Longrightarrow> objs w k = Some o1 \<Longrightarrow> okey K o1 = k"
  unfolding kube_ok_def reads_ok_def by blast

lemma kube_ok_getD:
  assumes "kube_ok K c objs rest" and "kGet c k w = (r, w')"
  shows "objs w' = objs w" and "rest w' = rest w"
    and "r = Inr o1 \<Longrightarrow> objs w k = Some o1" and "r = Inl NotFound \<Longrightarrow> objs w k = None"
proof -
  have "objs w' = objs w \<and> rest w' = rest w \<and>
      (case r of Inr o1 \<Rightarrow> objs w k = Some o1 | Inl e \<Rightarrow> e = NotFound \<longrightarrow> objs w k = None)"
    using assms unfolding kube_ok_def reads_ok_def by blast
  then show "objs w' = objs w" "rest w' = rest w"
    "r = Inr o1 \<Longrightarrow> objs w k = Some o1" "r = Inl NotFound \<Longrightarrow> objs w k = None"
    by (auto split: sum.splits)
qed

lemma get_available_stored:
  assumes "kube_ok K c objs rest" and "get_available c" and "objs w k = Some o1" and "kGet c k w = (g, w')"
  shows "g = Inr o1"
proof (cases g)
  case (Inl e)
  with assms(2,4) have "e = NotFound" unfolding get_available_def by (metis fst_conv)
  with Inl kube_ok_getD(4) [OF assms(1,4)] assms(3) show ?thesis by simp
next
  case (Inr o2)
  with kube_ok_getD(3) [OF assms(1,4)] assms(3) show ?thesis by simp
qed

lemma kube_ok_listD:
  assumes "kube_ok K c objs rest" and "kList c lo w = (r, w')"
  shows "objs w' = objs w" and "rest w' = rest w"
    and "r = Inr xs \<Longrightarrow> distinct (map (okey K) xs)"
    and "r = Inr xs \<Longrightarrow> o1 \<in> set xs \<longleftrightarrow> objs w (okey K o1) = Some o1 \<and> selects lo (k_Meta K o1)"
proof -
  have "objs w' = objs w \<and> rest w' = rest w \<and>
      (case r of Inr xs \<Rightarrow> distinct (map (okey K) xs) \<and>
             (\<forall>o1. o1 \<in> set xs \<longleftrightarrow> objs w (okey K o1) = Some o1 \<and> selects lo (k_Meta K o1))
         | Inl e \<Rightarrow> True)"
    using assms unfolding kube_ok_def reads_ok_def by blast
  then show "objs w' = objs w" "rest w' = rest w"
    "r = Inr xs \<Longrightarrow> distinct (map (okey K) xs)"
    "r = Inr xs \<Longrightarrow> o1 \<in> set xs \<longleftrightarrow> objs w (okey K o1) = Some o1 \<and> selects lo (k_Meta K o1)"
    by (auto split: sum.splits)
qed

lemma kube_ok_createD:
  assumes "kube_ok K c objs rest" and "kCreate c o1 w = (r, w')"
  shows "rest w' = rest w" and "r = Inl e \<Longrightarrow> objs w' = objs w"
    and "r = Inl AlreadyExists \<Longrightarrow> objs w (okey K o1) \<noteq> None"
    and "r = Inr o' \<Longrightarrow> objs w (okey K o1) = None \<and> same_object K o' o1 \<and>
           objs w' = (objs w)(okey K o1 \<mapsto> o')"
proof -
  have "rest w' = rest w \<and>
        (case r of
           Inr o' \<Rightarrow> objs w (okey K o1) = None \<and> same_object K o' o1 \<and>
                       objs w' = (objs w)(okey K o1 \<mapsto> o')
         | Inl e \<Rightarrow> objs w' = objs w \<and> (e = AlreadyExists \<longrightarrow> objs w (okey K o1) \<noteq> None))"
    using assms unfolding kube_ok_def writes_ok_def by blast
  then show "rest w' = rest w" "r = Inl e \<Longrightarrow> objs w' = objs w"
    "r = Inl AlreadyExists \<Longrightarrow> objs w (okey K o1) \<noteq> None"
    "r = Inr o' \<Longrightarrow> objs w (okey K o1) = None \<and> same_object K o' o1 \<and>
           objs w' = (objs w)(okey K o1 \<mapsto> o')"
    by (auto split: sum.splits)
qed

lemma kube_ok_updateD:
  assumes "kube_ok K c objs rest" and "kUpdate c o1 w = (r, w')"
  shows "rest w' = rest w" and "r = Inl e \<Longrightarrow> objs w' = objs w"
    and "r = Inr o' \<Longrightarrow> \<exists>cur. objs w (okey K o1) = Some cur \<and>
           om_ResourceVersion (k_Meta K o1) \<in> {0, om_ResourceVersion (k_Meta K cur)}"
    and "r = Inr o' \<Longrightarrow> same_object K o' o1 \<and> objs w' = (objs w)(okey K o1 \<mapsto> o')"
proof -
  have "rest w' = rest w \<and>
        (case r of
           Inr o' \<Rightarrow> (\<exists>cur. objs w (okey K o1) = Some cur \<and>
                         om_ResourceVersion (k_Meta K o1) \<in> {0, om_ResourceVersion (k_Meta K cur)}) \<and>
                       same_object K o' o1 \<and> objs w' = (objs w)(okey K o1 \<mapsto> o')
         | Inl e \<Rightarrow> objs w' = objs w)"
    using assms unfolding kube_ok_def writes_ok_def by blast
  then show "rest w' = rest w" "r = Inl e \<Longrightarrow> objs w' = objs w"
    "r = Inr o' \<Longrightarrow> \<exists>cur. objs w (okey K o1) = Some cur \<and>
           om_ResourceVersion (k_Meta K o1) \<in> {0, om_ResourceVersion (k_Meta K cur)}"
    "r = Inr o' \<Longrightarrow> same_object K o' o1 \<and> objs w' = (objs w)(okey K o1 \<mapsto> o')"
    by (auto split: sum.splits)
qed

lemma kube_ok_deleteD:
  assumes "kube_ok K c objs rest" and run: "kDelete c o1 w = (r, w')"
  shows "rest w' = rest w" and "r = Inl e \<Longrightarrow> objs w' = objs w"
    and "k \<noteq> okey K o1 \<Longrightarrow> objs w' k = objs w k"
    and "r = Inr u \<Longrightarrow> objs w (okey K o1) = Some cur \<Longrightarrow> om_Finalizers (k_Meta K cur) = [] \<Longrightarrow>
           objs w' (okey K o1) = None"
proof -
  have "rest w' = rest w \<and>
        (case r of
           Inr _ \<Rightarrow> (\<forall>k. k \<noteq> okey K o1 \<longrightarrow> objs w' k = objs w k) \<and>
             (\<forall>cur. objs w (okey K o1) = Some cur \<longrightarrow> om_Finalizers (k_Meta K cur) = [] \<longrightarrow>
                objs w' (okey K o1) = None)
         | Inl e \<Rightarrow> objs w' = objs w)"
    using assms unfolding kube_ok_def writes_ok_def by blast
  note law = this
  from law show "rest w' = rest w" "r = Inl e \<Longrightarrow> objs w' = objs w"
    "r = Inr u \<Longrightarrow> objs w (okey K o1) = Some cur \<Longrightarrow> om_Finalizers (k_Meta K cur) = [] \<Longrightarrow>
           objs w' (okey K o1) = None"
    by (auto split: sum.splits)
  show "objs w' k = objs w k" if "k \<noteq> okey K o1"
    using law that by (cases r; cases k; simp)
qed

text \<open>
  A property of the captured variable and the world that every attempt keeps holds when
  \<open>RetryOnConflict\<close> returns; the returned result is that of the last attempt.
\<close>

lemma retry_attempts_invariant:
  assumes "I x w" and "\<And>x w r x' w'. I x w \<Longrightarrow> f x w = (r, x', w') \<Longrightarrow> r = Inl Conflict \<Longrightarrow> I x' w'"
    and "\<And>x w r x' w'. I x w \<Longrightarrow> f x w = (r, x', w') \<Longrightarrow> Q r x' w'"
    and "retry_attempts n f x w = (r, x', w')"
  shows "Q r x' w'"
  using assms(1,4)
proof (induction n arbitrary: x w)
  case 0
  then show ?case using assms(3) by simp
next
  case (Suc n)
  obtain r1 x1 w1 where step: "f x w = (r1, x1, w1)" by (cases "f x w") auto
  show ?case
  proof (cases "r1 = Inl Conflict")
    case True
    with Suc.prems step have "retry_attempts n f x1 w1 = (r, x', w')" and "I x1 w1"
      using assms(2) [OF Suc.prems(1) step] by (simp_all add: Let_def)
    then show ?thesis using Suc.IH by blast
  next
    case False
    with Suc.prems(2) step have "r = r1 \<and> x' = x1 \<and> w' = w1" by (auto simp: Let_def)
    with assms(3) Suc.prems(1) step show ?thesis by simp
  qed
qed

lemma retry_ok_invariant:
  assumes "retry_ok c"
    and "I x w" and "\<And>x w r x' w'. I x w \<Longrightarrow> f x w = (r, x', w') \<Longrightarrow> r = Inl Conflict \<Longrightarrow> I x' w'"
    and "\<And>x w r x' w'. I x w \<Longrightarrow> f x w = (r, x', w') \<Longrightarrow> Q r x' w'"
    and "kRetry c f x w = (r, x', w')"
  shows "Q r x' w'"
proof -
  from assms(1,5) obtain n where "retry_attempts n f x w = (r, x', w')"
    unfolding retry_ok_def by metis
  with assms(2-4) show ?thesis by (rule retry_attempts_invariant)
qed

end
