(* ===== verification/Routes.thy ===== *)
theory Routes
  imports KubeClient "HOL-Library.Sublist"
begin

text \<open>
  Subsets and weighted routes, the computations that \<^verbatim>\<open>controllers/configuredservice\<close> and
  \<^verbatim>\<open>controllers/serviceconfig\<close> share: which of the mesh's subsets a service provides
  (\<open>mapContains\<close>, the loop of \<open>getSubset\<close>), how the traffic of a missing subset is spread over the
  provided ones (\<open>rerouteSubset\<close>, inlined in \<open>buildHTTPRoute\<close> of the ConfiguredService controller),
  and the timeouts and retries of a route.
\<close>

section \<open>Subsets of a service\<close>

text \<open>The argument \<open>std\<close> is ranged over; the result does not depend on the order.\<close>

fun mapContains :: "labels \<Rightarrow> labels \<Rightarrow> labels \<Rightarrow> bool" where
  "mapContains [] obj renameMap = False"
| "mapContains ((sk, sv) # std) obj renameMap =
     (let rk = (case map_of renameMap sk of None \<Rightarrow> sk | Some rk \<Rightarrow> rk) in
      if (case map_of obj rk of None \<Rightarrow> False | Some ov \<Rightarrow> ov = sv) then True
      else mapContains std obj renameMap)"

text \<open>The inner loop of \<open>getSubset\<close>, over the instances.\<close>

fun subset_of_instances :: "labels \<Rightarrow> Subset \<Rightarrow> Instance list \<Rightarrow> Subset list \<Rightarrow> Subset list" where
  "subset_of_instances remap global [] subsets = subsets"
| "subset_of_instances remap global (ins # rest) subsets =
     subset_of_instances remap global rest
       (if mapContains (in_Labels ins) (ss_Labels global) remap \<and> \<not> Subset_In global subsets
        then subsets @ [global] else subsets)"

fun subset_loop :: "labels \<Rightarrow> Instance list \<Rightarrow> Subset list \<Rightarrow> Subset list \<Rightarrow> Subset list" where
  "subset_loop remap instances [] subsets = subsets"
| "subset_loop remap instances (global # globals) subsets =
     subset_loop remap instances globals (subset_of_instances remap global instances subsets)"

definition cs_getSubset :: "Reconciler \<Rightarrow> ConfiguredService \<Rightarrow> Subset list" where
  "cs_getSubset r cs =
     (let mc = mc_Spec (rc_MeshConfig r) in
      subset_loop (mc_MeshLabelsRemap mc) (cs_Instances (cs_Spec cs)) (mc_GlobalSubsets mc) [])"

section \<open>Weighted routes\<close>

definition route_to :: "string \<Rightarrow> string \<Rightarrow> int32 \<Rightarrow> HTTPRouteDestination" where
  "route_to host sub weight =
     \<lparr>rd_Destination = \<lparr>rt_Host = host, rt_Subset = sub\<rparr>, rd_Weight = weight\<rparr>"

definition defaultDestination :: "string \<Rightarrow> string \<Rightarrow> HTTPRouteDestination list" where
  "defaultDestination host sub = [route_to host sub 100]"

text \<open>A missing canary subset: its traffic goes to every provided subset.\<close>

definition canary_routes :: "string \<Rightarrow> Subset list \<Rightarrow> HTTPRouteDestination list" where
  "canary_routes host actualSubsets =
     (let n = length actualSubsets in
      map (\<lambda>(i, actual). route_to host (ss_Name actual)
             (if int i = int n - 1 \<and> 1 < n
              then 100 - word_of_int (100 div int n) * word_of_int (int n - 1)
              else word_of_int (100 div int n)))
        (List.enumerate 0 actualSubsets))"

text \<open>
  A missing ordinary subset: a route of weight 0 to itself, then the provided subsets that are not
  canaries; \<open>l\<close> counts those, \<open>i\<close> runs over all.
\<close>

definition normal_routes :: "string \<Rightarrow> Subset \<Rightarrow> Subset list \<Rightarrow> HTTPRouteDestination list" where
  "normal_routes host sub actualSubsets =
     (let n = length actualSubsets;
          l = fold (\<lambda>actual l. if ss_IsCanary actual then l - 1 else l) actualSubsets (int n) in
      route_to host (ss_Name sub) 0 #
      concat (map (\<lambda>(i, actual).
          if ss_IsCanary actual then []
          else [route_to host (ss_Name actual)
                  (if int i = int n - 1 \<and> 1 < n then 100 - word_of_int (100 div l)
                   else word_of_int (100 div l))])
        (List.enumerate 0 actualSubsets)))"

definition rerouteSubset :: "string \<Rightarrow> Subset \<Rightarrow> Subset list \<Rightarrow> HTTPRouteDestination list" where
  "rerouteSubset host sub actualSubsets =
     (if ss_IsCanary sub \<and> \<not> Subset_In sub actualSubsets then canary_routes host actualSubsets
      else if \<not> ss_IsCanary sub \<and> \<not> Subset_In sub actualSubsets
        then normal_routes host sub actualSubsets
      else if ss_IsCanary sub \<and> Subset_In sub actualSubsets
        then defaultDestination host (ss_Name sub)
      else if \<not> ss_IsCanary sub \<and> Subset_In sub actualSubsets
        then defaultDestination host (ss_Name sub)
      else defaultDestination host (ss_Name sub))"

text \<open>The matches of a route: one label and one header for every configured key.\<close>

definition route_match :: "Reconciler \<Rightarrow> Subset \<Rightarrow> HTTPMatchRequest" where
  "route_match r sub =
     (let keys = mc_MatchSourceLabelKeys (mc_Spec (rc_MeshConfig r)) in
      \<lparr>hm_SourceLabels = fold (\<lambda>key s. map_put key (lookup_zero [] (ss_Labels sub) key) s) keys [],
       hm_Headers = fold (\<lambda>key h. map_put key
           (StringMatch_Exact (lookup_zero [] (ss_Labels sub) key)) h) keys []\<rparr>)"

definition httpRouteName :: string where "httpRouteName = ''dubbo-http-route''"
definition defaultRouteName :: string where "defaultRouteName = ''dubbo-default-route''"

section \<open>Timeouts and retries\<close>

text \<open>A nil \<open>GlobalPolicy\<close> panics when it is needed: no value.\<close>

definition getTimeout :: "Reconciler \<Rightarrow> string \<Rightarrow> int64 \<Rightarrow> Duration option option" where
  "getTimeout r timeout maxRetries =
     (let policy = mc_GlobalPolicy (mc_Spec (rc_MeshConfig r)) in
      Option.bind (if timeout = [] then map_option po_Timeout policy else Some timeout) (\<lambda>timeout.
      Option.bind (if maxRetries = 0 then map_option (\<lambda>p. scast (po_MaxRetries p)) policy
                   else Some maxRetries) (\<lambda>maxRetries.
      Some (StringToDuration timeout maxRetries))))"

definition getRetries :: "Reconciler \<Rightarrow> string \<Rightarrow> int32 \<Rightarrow> HTTPRetry option" where
  "getRetries r timeout maxRetries =
     (let policy = mc_GlobalPolicy (mc_Spec (rc_MeshConfig r)) in
      Option.bind (if timeout = [] then map_option po_Timeout policy else Some timeout) (\<lambda>timeout.
      Option.bind (if maxRetries = 0 then map_option po_MaxRetries policy else Some maxRetries)
        (\<lambda>maxRetries.
      Some \<lparr>re_Attempts = maxRetries, re_PerTryTimeout = StringToDuration timeout 1,
            re_RetryOn = op_ProxyRetryOn (rc_Opt r)\<rparr>)))"

definition buildDefaultRoute :: "Reconciler \<Rightarrow> string \<Rightarrow> HTTPRoute" where
  "buildDefaultRoute r host =
     \<lparr>hr_Name = defaultRouteName, hr_Match = [],
      hr_Route = [route_to host [] 0], hr_Timeout = None,
      hr_Retries = Some \<lparr>re_Attempts = op_ProxyAttempts (rc_Opt r),
        re_PerTryTimeout = Some \<lparr>Seconds = op_ProxyPerTryTimeout (rc_Opt r), Nanos = 0\<rparr>,
        re_RetryOn = op_ProxyRetryOn (rc_Opt r)\<rparr>\<rparr>"

section \<open>Facts on subsets\<close>

text \<open>An instance belongs to a subset when one of its labels, renamed, is a label of the subset.\<close>

lemma mapContains_iff:
  "mapContains std obj renameMap \<longleftrightarrow>
     (\<exists>(sk, sv) \<in> set std. map_of obj (lookup_zero sk renameMap sk) = Some sv)"
  by (induction std obj renameMap rule: mapContains.induct)
    (auto simp: lookup_zero_def Let_def split: option.splits)

lemma mapContains_map_eq:
  assumes "wf_map std" and "wf_map std'" and "map_of std = map_of std'"
    and "map_of obj = map_of obj'" and "map_of rename = map_of rename'"
  shows "mapContains std obj rename = mapContains std' obj' rename'"
proof -
  have "set std = set std'"
    using assms(1-3) by (metis map_of_eq_Some_set surj_pair subsetI subset_antisym)
  then show ?thesis using assms(4,5) by (simp add: mapContains_iff lookup_zero_def)
qed

definition provides :: "labels \<Rightarrow> Instance list \<Rightarrow> Subset \<Rightarrow> bool" where
  "provides remap instances global \<longleftrightarrow>
     list_ex (\<lambda>ins. mapContains (in_Labels ins) (ss_Labels global) remap) instances"

lemma subset_of_instances_eq:
  "subset_of_instances remap global instances subsets =
     (if provides remap instances global \<and> \<not> Subset_In global subsets then subsets @ [global] else subsets)"
  by (induction remap global instances subsets rule: subset_of_instances.induct)
    (auto simp: provides_def Subset_In_iff)

lemma subset_loop_props:
  assumes "distinct (map ss_Name subsets)"
  shows "\<exists>new. subset_loop remap instances globals subsets = subsets @ new \<and>
     subseq new globals \<and> distinct (map ss_Name (subsets @ new)) \<and>
     list_all (provides remap instances) new \<and>
     (\<forall>g \<in> set globals. provides remap instances g \<longrightarrow> Subset_In g (subsets @ new))"
  using assms
proof (induction globals arbitrary: subsets)
  case Nil
  then show ?case by simp
next
  case (Cons g globals)
  show ?case
  proof (cases "provides remap instances g \<and> \<not> Subset_In g subsets")
    case True
    then have "distinct (map ss_Name (subsets @ [g]))"
      using Cons.prems by (auto simp: Subset_In_iff)
    from Cons.IH [OF this] obtain new where
      "subset_loop remap instances globals (subsets @ [g]) = (subsets @ [g]) @ new"
      "subseq new globals" "distinct (map ss_Name ((subsets @ [g]) @ new))"
      "list_all (provides remap instances) new"
      "\<forall>g' \<in> set globals. provides remap instances g' \<longrightarrow> Subset_In g' ((subsets @ [g]) @ new)"
      by blast
    then show ?thesis using True
      by (intro exI [of _ "g # new"]) (auto simp: subset_of_instances_eq Subset_In_iff)
  next
    case False
    from Cons.IH [OF Cons.prems] obtain new where
      "subset_loop remap instances globals subsets = subsets @ new"
      "subseq new globals" "distinct (map ss_Name (subsets @ new))"
      "list_all (provides remap instances) new"
      "\<forall>g' \<in> set globals. provides remap instances g' \<longrightarrow> Subset_In g' (subsets @ new)"
      by blast
    then show ?thesis using False
      by (intro exI [of _ new]) (auto simp: subset_of_instances_eq intro: subseq_Cons')
  qed
qed

text \<open>
  The subsets of a ConfiguredService are a subsequence of the mesh's global subsets (so in their
  order), with distinct names, each provided by some instance; and no global subset that an
  instance provides is missing from them by name.
\<close>

theorem cs_getSubset_spec:
  "let mc = mc_Spec (rc_MeshConfig r);
       has = provides (mc_MeshLabelsRemap mc) (cs_Instances (cs_Spec cs));
       subs = cs_getSubset r cs
   in subseq subs (mc_GlobalSubsets mc) \<and> distinct (map ss_Name subs) \<and> list_all has subs \<and>
      filter (\<lambda>g. has g \<and> \<not> Subset_In g subs) (mc_GlobalSubsets mc) = []"
  using subset_loop_props [of "[]" "mc_MeshLabelsRemap (mc_Spec (rc_MeshConfig r))"
      "cs_Instances (cs_Spec cs)" "mc_GlobalSubsets (mc_Spec (rc_MeshConfig r))"]
  by (auto simp: cs_getSubset_def Let_def filter_empty_conv)

text \<open>
  Which subset an instance belongs to depends only on the contents of the label maps, not on the
  order in which the runtime ranges over them.
\<close>

theorem mapContains_order_free:
  assumes "wf_map std" and "wf_map std'" and "map_of std = map_of std'"
  shows "mapContains std obj renameMap = mapContains std' obj renameMap"
  using assms by (rule mapContains_map_eq) simp_all

theorem mapContains_order_free_witness:
  "mapContains [(''zone'', ''a''), (''env'', ''b'')] [(''e'', ''b'')] [(''env'', ''e'')]
   = mapContains [(''env'', ''b''), (''zone'', ''a'')] [(''e'', ''b'')] [(''env'', ''e'')]"
  by (rule mapContains_order_free) (auto simp: wf_map_def fun_eq_iff)

section \<open>Facts on weights\<close>

text \<open>The total weight of a list of routes, as an integer.\<close>

definition total_weight :: "HTTPRouteDestination list \<Rightarrow> int" where
  "total_weight routes = sum_list (map (\<lambda>d. sint (rd_Weight d)) routes)"

lemma total_weight_simps [simp]:
  "total_weight [] = 0" "total_weight (d # ds) = sint (rd_Weight d) + total_weight ds"
  "total_weight (ds @ es) = total_weight ds + total_weight es"
  by (simp_all add: total_weight_def)

lemma rd_Weight_route_to [simp]: "rd_Weight (route_to h s w) = w"
  by (simp add: route_to_def)

lemma percent_div:
  assumes "0 \<le> (l :: int)"
  shows "0 \<le> 100 div l \<and> 100 div l \<le> 100" and "l * (100 div l) \<le> 100"
proof -
  show "0 \<le> 100 div l \<and> 100 div l \<le> 100"
    using assms zdiv_mono2 [of 100 1 l] by (cases "l = 0") (auto simp: pos_imp_zdiv_nonneg_iff)
  have "l * (100 div l) = 100 - 100 mod l" by (simp add: minus_mod_eq_mult_div)
  then show "l * (100 div l) \<le> 100"
    using assms pos_mod_sign [of l 100] by (cases "l = 0") auto
qed

lemma sint_percent:
  assumes "0 \<le> k" and "k \<le> 100"
  shows "sint (word_of_int k :: int32) = k" and "sint (100 - word_of_int k :: int32) = 100 - k"
proof -
  show "sint (word_of_int k :: int32) = k" using assms by (intro sint_int32) simp_all
  have "sint (word_of_int (100 - k) :: int32) = 100 - k" using assms by (intro sint_int32) simp_all
  then show "sint (100 - word_of_int k :: int32) = 100 - k" by simp
qed

lemma enumerate_snoc: "List.enumerate 0 (xs @ [x]) = List.enumerate 0 xs @ [(length xs, x)]"
  by (simp add: enumerate_append_eq)

lemma count_normal:
  "fold (\<lambda>actual l. if ss_IsCanary actual then l - 1 else l) xs (k :: int) =
     k - int (length (filter ss_IsCanary xs))"
  by (induction xs arbitrary: k) auto

lemma normal_count_length:
  "int (length xs) - int (length (filter ss_IsCanary xs)) = int (length (filter (Not \<circ> ss_IsCanary) xs))"
  using sum_length_filter_compl [of ss_IsCanary xs] by (simp add: comp_def)

text \<open>Routes built for the elements before the last all get the same weight.\<close>

lemma total_weight_even:
  assumes "\<And>i a. i < length xs \<Longrightarrow> f (i, a) = [] \<and> \<not> p a \<or> (\<exists>h s. f (i, a) = [route_to h s w]) \<and> p a"
  shows "total_weight (concat (map f (List.enumerate 0 xs))) = int (length (filter p xs)) * sint w"
  using assms
proof (induction xs rule: rev_induct)
  case (snoc x xs)
  from snoc.prems have "f (i, a) = [] \<and> \<not> p a \<or> (\<exists>h s. f (i, a) = [route_to h s w]) \<and> p a"
    if "i < length xs" for i a using that by simp
  then have IH: "total_weight (concat (map f (List.enumerate 0 xs))) = int (length (filter p xs)) * sint w"
    by (rule snoc.IH)
  from snoc.prems [of "length xs" x] show ?case
    by (auto simp: enumerate_snoc IH algebra_simps)
qed simp

lemma canary_routes_total:
  assumes "actual \<noteq> []"
  shows "total_weight (canary_routes host actual) = 100"
proof -
  obtain xs x where split: "actual = xs @ [x]" using assms by (metis rev_exhaust)
  define n where "n = int (length xs) + 1"
  define q where "q = 100 div n"
  have n: "0 < n" by (simp add: n_def)
  have q: "0 \<le> q" "q \<le> 100" and "n * q \<le> 100"
    using percent_div [of n] n by (simp_all add: q_def)
  then have qn: "0 \<le> q * (n - 1)" "q * (n - 1) \<le> 100"
    using n mult_right_mono [of 1 n q] by (auto simp: algebra_simps)
  have len: "length actual = Suc (length xs)" "int (length actual) = n" by (simp_all add: split n_def)
  define g where "g = (\<lambda>(i, a :: Subset). route_to host (ss_Name a)
             (if int i = n - 1 \<and> 1 < length actual then 100 - word_of_int q * word_of_int (n - 1)
              else word_of_int q))"
  have "canary_routes host actual = concat (map (\<lambda>p. [g p]) (List.enumerate 0 actual))"
    unfolding canary_routes_def Let_def len(2) q_def [symmetric] g_def
    by (simp add: concat_map_singleton)
  moreover have "total_weight (concat (map (\<lambda>p. [g p]) (List.enumerate 0 xs))) =
      int (length (filter (\<lambda>_. True) xs)) * sint (word_of_int q :: int32)"
    by (rule total_weight_even) (auto simp: g_def n_def)
  moreover have "sint (100 - word_of_int q * word_of_int (n - 1) :: int32) = 100 - q * (n - 1)"
    using sint_percent(2) [OF qn] by simp
  moreover have "q = 100" if "xs = []" using that by (simp add: q_def n_def)
  ultimately show ?thesis
    using q by (auto simp: split enumerate_snoc g_def n_def sint_percent algebra_simps)
qed

lemma normal_routes_total:
  assumes "actual \<noteq> []"
  defines "l \<equiv> int (length (filter (Not \<circ> ss_IsCanary) actual))"
  shows "total_weight (normal_routes host sub actual) =
    (if ss_IsCanary (last actual) \<or> length actual = 1 then l * (100 div l)
     else (l - 2) * (100 div l) + 100)"
proof -
  obtain xs x where split: "actual = xs @ [x]" using assms(1) by (metis rev_exhaust)
  define q where "q = 100 div l"
  have q: "0 \<le> q" "q \<le> 100" using percent_div [of l] by (simp_all add: q_def l_def)
  define g where "g = (\<lambda>(i, a :: Subset). if ss_IsCanary a then []
          else [route_to host (ss_Name a)
                  (if int i = int (length actual) - 1 \<and> 1 < length actual then 100 - word_of_int q
                   else word_of_int q)])"
  have "normal_routes host sub actual = route_to host (ss_Name sub) 0 # concat (map g (List.enumerate 0 actual))"
    unfolding normal_routes_def Let_def count_normal normal_count_length l_def [symmetric]
      q_def [symmetric] g_def ..
  moreover have "total_weight (concat (map g (List.enumerate 0 xs))) =
      int (length (filter (Not \<circ> ss_IsCanary) xs)) * sint (word_of_int q :: int32)"
    by (rule total_weight_even) (auto simp: g_def split)
  moreover have "l = int (length (filter (Not \<circ> ss_IsCanary) xs)) + (if ss_IsCanary x then 0 else 1)"
    by (simp add: l_def split)
  ultimately show ?thesis
    using q unfolding q_def [symmetric]
    by (auto simp: split enumerate_snoc g_def sint_percent algebra_simps)
qed

text \<open>
  When a canary subset has no instances, the traffic of its consumers is spread over the provided
  subsets with weights that add up to exactly 100, however many there are.
\<close>

theorem reroute_canary_total:
  assumes "ss_IsCanary sub" and "\<not> Subset_In sub actual" and "actual \<noteq> []"
  shows "total_weight (rerouteSubset host sub actual) = 100"
  using assms by (simp add: rerouteSubset_def canary_routes_total)

definition named_subset :: "string \<Rightarrow> bool \<Rightarrow> Subset" where
  "named_subset name canary = \<lparr>ss_Name = name, ss_Labels = [], ss_Policy = None, ss_IsCanary = canary\<rparr>"

theorem reroute_canary_total_witness:
  "total_weight (rerouteSubset ''h'' (named_subset ''gray'' True)
     [named_subset ''blue'' False, named_subset ''green'' False, named_subset ''red'' False]) = 100"
  by (rule reroute_canary_total) (simp_all add: named_subset_def)

text \<open>
  When an ordinary subset has no instances, the weights of its routes add up to this: with \<open>l\<close>
  ordinary subsets provided, \<open>l * (100 div l)\<close> if the last provided subset is a canary or the only
  one, and otherwise \<open>(l - 2) * (100 div l) + 100\<close>, since the last weight is \<open>100 - 100 div l\<close> and not
  what the others leave.
\<close>

theorem reroute_normal_total:
  assumes "\<not> ss_IsCanary sub" and "\<not> Subset_In sub actual" and "actual \<noteq> []"
  shows "total_weight (rerouteSubset host sub actual) =
    (let l = int (length (filter (Not \<circ> ss_IsCanary) actual)) in
     if ss_IsCanary (last actual) \<or> length actual = 1 then l * (100 div l)
     else (l - 2) * (100 div l) + 100)"
  using assms by (simp add: rerouteSubset_def normal_routes_total Let_def)

theorem reroute_normal_total_witness:
  "total_weight (rerouteSubset ''h'' (named_subset ''gray'' False)
     [named_subset ''blue'' False, named_subset ''green'' False, named_subset ''red'' False]) = 133"
  by (subst reroute_normal_total) (simp_all add: named_subset_def)

text \<open>
  So for several provided subsets with an ordinary one last, the weights add up to 100 exactly
  when two of them are ordinary (or more than a hundred): one gives 0, three give 133.
\<close>

theorem reroute_normal_sum_100:
  assumes "\<not> ss_IsCanary sub" and "\<not> Subset_In sub actual" and "1 < length actual"
    and "\<not> ss_IsCanary (last actual)"
  shows "total_weight (rerouteSubset host sub actual) = 100 \<longleftrightarrow>
    length (filter (Not \<circ> ss_IsCanary) actual) = 2 \<or> 100 < length (filter (Not \<circ> ss_IsCanary) actual)"
proof -
  define l where "l = int (length (filter (Not \<circ> ss_IsCanary) actual))"
  have "actual \<noteq> []" using assms(3) by auto
  then have "last actual \<in> set (filter (Not \<circ> ss_IsCanary) actual)" using assms(4) by simp
  then have l: "0 < l" unfolding l_def by (metis length_pos_if_in_set of_nat_0_less_iff)
  have "total_weight (rerouteSubset host sub actual) = (l - 2) * (100 div l) + 100"
    using assms \<open>actual \<noteq> []\<close> by (simp add: rerouteSubset_def normal_routes_total l_def)
  moreover have "100 div l = 0 \<longleftrightarrow> 100 < l"
    using l by (simp add: zdiv_eq_0_iff)
  ultimately show ?thesis by (auto simp: l_def)
qed

theorem reroute_normal_sum_100_witness:
  "total_weight (rerouteSubset ''h'' (named_subset ''gray'' False)
     [named_subset ''blue'' True, named_subset ''green'' False]) \<noteq> 100"
  by (subst reroute_normal_sum_100) (simp_all add: named_subset_def)

end
