(* ===== verification/SyncKind.thy ===== *)
theory SyncKind
  imports KubeClient
begin

text \<open>
  The body the \<open>reconcile\<close> functions of the ConfiguredService and ServiceConfig controllers share,
  word for word in the source: create the wanted object or update the stored one, then delete the
  other objects of the service. What it needs of a kind is the interface \<open>istio_kind\<close>; every
  kind of the model is an interpretation of it, so that what is proved here holds of all of them.
\<close>

section \<open>Operations\<close>

text \<open>\<open>m[item.Name] = &item\<close> for every item of a list.\<close>

definition found_map :: "('o, 'z) kind_scheme \<Rightarrow> 'o list \<Rightarrow> (string, 'o) gomap" where
  "found_map K items = index_by (oname K) items"

text \<open>
  \<open>new.Spec.DeepCopyInto(&found.Spec); found.Finalizers = new.Finalizers;
  found.Labels = new.ObjectMeta.Labels\<close>
\<close>

definition overwrite :: "'o managed_kind \<Rightarrow> 'o \<Rightarrow> 'o \<Rightarrow> 'o" where
  "overwrite K new found =
     k_SetMeta K ((k_Meta K found)\<lparr>om_Finalizers := om_Finalizers (k_Meta K new),
                                  om_Labels := om_Labels (k_Meta K new)\<rparr>)
       (k_CopySpec K new found)"

text \<open>The retried update; a successful call stores the server's answer in \<open>found\<close>.\<close>

definition update_closure ::
  "'o managed_kind \<Rightarrow> ('w, 'o) kclient \<Rightarrow> 'o \<Rightarrow> 'o \<Rightarrow> 'w \<Rightarrow> (kerr + unit) \<times> 'o \<times> 'w" where
  "update_closure K c new found w =
     (case kUpdate c (overwrite K new found) w of
        (Inl e, w') \<Rightarrow> (Inl e, overwrite K new found, w')
      | (Inr answer, w') \<Rightarrow> (Inr (), answer, w'))"

definition update_found :: "'o managed_kind \<Rightarrow> ('w, 'o) kclient \<Rightarrow> 'o \<Rightarrow> 'o \<Rightarrow> ('w, unit) call" where
  "update_found K c new found w =
     (case kRetry c (update_closure K c new) found w of
        (Inl e, _, w') \<Rightarrow> (Inl (Fail e), w') | (Inr _, _, w') \<Rightarrow> (Inr (), w'))"

text \<open>\<open>for name, o := range foundMap { if err := r.Delete(ctx, o); err != nil { return err } }\<close>\<close>

definition delete_unused :: "('w, 'o) kclient \<Rightarrow> (string, 'o) gomap \<Rightarrow> ('w, unit) call" where
  "delete_unused c foundMap = gforeach (\<lambda>(name, o1). orFail (kDelete c o1)) foundMap"

definition create_or_update ::
  "'o managed_kind \<Rightarrow> ('w, 'o) kclient \<Rightarrow> 'o \<Rightarrow> (string, 'o) gomap \<Rightarrow> ('w, unit) call" where
  "create_or_update K c new foundMap =
     (case map_of foundMap (oname K new) of
        None \<Rightarrow>
          gbind (attempt (kCreate c new)) (\<lambda>r.
            case r of
              Inl e \<Rightarrow> if e = AlreadyExists then gret () else gfail e
            | Inr _ \<Rightarrow> delete_unused c foundMap)
      | Some found \<Rightarrow>
          gbind (if k_Compare K new found then update_found K c new found else gret ()) (\<lambda>_.
            delete_unused c (map_del (oname K new) foundMap)))"

text \<open>
  The stored objects of a service by name (\<open>getVirtualServicesMap\<close> and the like), and
  \<open>controllerutil.SetControllerReference(owner, o, r.Scheme)\<close> with its early return.
\<close>

definition list_map :: "('o, 'z) kind_scheme \<Rightarrow> ('w, 'o) kclient \<Rightarrow> list_options \<Rightarrow> ('w, (string, 'o) gomap) call" where
  "list_map K c lo = gbind (orFail (kList c lo)) (\<lambda>items. gret (found_map K items))"

definition set_owner ::
  "(ObjectMeta \<Rightarrow> ObjectMeta \<Rightarrow> kerr + ObjectMeta) \<Rightarrow> ('o, 'z) kind_scheme \<Rightarrow> ObjectMeta \<Rightarrow> 'o \<Rightarrow> ('w, 'o) call" where
  "set_owner f K owner o1 =
     (case f owner (k_Meta K o1) of Inl e \<Rightarrow> gfail e | Inr m \<Rightarrow> gret (k_SetMeta K m o1))"

section \<open>What the caller can rely on\<close>

text \<open>
  The specification of one synchronisation, on the stored objects before (\<open>M\<close>) and after (\<open>M'\<close>):
  the wanted object is stored, no other object matches the selector (but for those that a finalizer
  keeps), and nothing else changed. The exception is a stored object of the wanted name that the
  selector misses: then nothing changes at all.
\<close>

definition synced ::
  "'o managed_kind \<Rightarrow> list_options \<Rightarrow> 'o \<Rightarrow> (nsname \<Rightarrow> 'o option) \<Rightarrow> (nsname \<Rightarrow> 'o option) \<Rightarrow> bool" where
  "synced K lo new M M' \<longleftrightarrow>
     (\<exists>o1. M' (okey K new) = Some o1 \<and> \<not> k_Compare K new o1) \<and>
     (\<forall>k. k \<noteq> okey K new \<longrightarrow>
        (case M k of
           None \<Rightarrow> M' k = None
         | Some o1 \<Rightarrow> if selects lo (k_Meta K o1)
                      then om_Finalizers (k_Meta K o1) = [] \<longrightarrow> M' k = None
                      else M' k = Some o1))"

definition unlabelled_clash ::
  "'o managed_kind \<Rightarrow> list_options \<Rightarrow> 'o \<Rightarrow> (nsname \<Rightarrow> 'o option) \<Rightarrow> bool" where
  "unlabelled_clash K lo new M \<longleftrightarrow>
     (\<exists>o1. M (okey K new) = Some o1 \<and> \<not> selects lo (k_Meta K o1))"

text \<open>The wanted object carries the owner reference the library adds; nothing else of it matters.\<close>

definition sync_result ::
  "'o managed_kind \<Rightarrow> list_options \<Rightarrow> 'o \<Rightarrow> (nsname \<Rightarrow> 'o option) \<Rightarrow> (nsname \<Rightarrow> 'o option) \<Rightarrow> bool" where
  "sync_result K lo o1 M M' \<longleftrightarrow>
     (\<exists>refs. synced K lo (k_SetMeta K ((k_Meta K o1)\<lparr>om_OwnerReferences := refs\<rparr>) o1) M M') \<or>
     unlabelled_clash K lo o1 M \<and> M' = M"

text \<open>A call that leaves the stored objects alone.\<close>

definition reads_only :: "('w \<Rightarrow> 'a) \<Rightarrow> ('w \<Rightarrow> 'r) \<Rightarrow> ('w, 'b) call \<Rightarrow> bool" where
  "reads_only objs rest m \<longleftrightarrow> (\<forall>w x w'. m w = (x, w') \<longrightarrow> objs w' = objs w \<and> rest w' = rest w)"

lemma reads_onlyD:
  assumes "reads_only objs rest m" and "m w = (x, w')"
  shows "objs w' = objs w" and "rest w' = rest w"
  using assms unfolding reads_only_def by blast+

lemma reads_only_gret: "reads_only objs rest (gret x)"
  by (simp add: reads_only_def gret_def)

text \<open>A call that, when it wants an object, wants one of this key.\<close>

definition wants_key ::
  "('o, 'z) kind_scheme \<Rightarrow> ('w, 'o option option) call \<Rightarrow> nsname \<Rightarrow> bool" where
  "wants_key K read key \<longleftrightarrow> (\<forall>w o1 w'. read w = (Inr (Some (Some o1)), w') \<longrightarrow> okey K o1 = key)"

text \<open>The interface of every kind, and that of the kinds the controllers write.\<close>

locale object_kind =
  fixes K :: "('o, 'z) kind_scheme"
  assumes meta_set: "k_Meta K (k_SetMeta K m o1) = m"
    and set_set: "k_SetMeta K m (k_SetMeta K m' o1) = k_SetMeta K m o1"
begin

lemma same_object_set:
  assumes "strip_meta m = strip_meta (k_Meta K o1)"
  shows "same_object K (k_SetMeta K m o1) o1"
  using assms by (simp add: same_object_def meta_set set_set)

end

locale istio_kind = object_kind K for K :: "'o managed_kind" +
  assumes meta_copy: "k_Meta K (k_CopySpec K new found) = k_Meta K found"
    and compare_overwrite: "\<not> k_Compare K new (overwrite K new found)"
    and compare_same: "same_object K a b \<Longrightarrow> k_Compare K new a \<longleftrightarrow> k_Compare K new b"
    and compare_labels: "\<not> k_Compare K new o1 \<Longrightarrow> map_of (om_Labels (k_Meta K new)) = map_of (om_Labels (k_Meta K o1))"
    and compare_self: "\<not> k_Compare K new new"
begin

lemma okey_overwrite: "okey K (overwrite K new found) = okey K found"
  by (simp add: okey_def overwrite_def meta_set)

lemma resource_version_overwrite:
  "om_ResourceVersion (k_Meta K (overwrite K new found)) = om_ResourceVersion (k_Meta K found)"
  by (simp add: overwrite_def meta_set)

lemma found_map_listed:
  assumes "kube_ok K c objs rest" and "kList c lo w = (Inr xs, w')" and "lo_Namespace lo = ns"
    and "ns \<noteq> []"
  shows "wf_map (found_map K xs)"
    and "map_of (found_map K xs) n = Some o1 \<longleftrightarrow>
           objs w (ns, n) = Some o1 \<and> selects lo (k_Meta K o1)"
proof -
  have dist: "distinct (map (okey K) xs)"
    and mem: "\<And>o1. o1 \<in> set xs \<longleftrightarrow> objs w (okey K o1) = Some o1 \<and> selects lo (k_Meta K o1)"
    using kube_ok_listD [OF assms(1,2)] by blast+
  have key: "okey K o1 = (ns, oname K o1)" if "o1 \<in> set xs" for o1
    using that mem assms(3,4) by (auto simp: okey_def oname_def selects_def)
  have "inj_on (oname K) (set xs)"
    using dist key by (auto simp: distinct_map inj_on_def)
  then have "distinct (map (oname K) xs)"
    using dist by (auto simp: distinct_map)
  then have "map_of (found_map K xs) n = Some o1 \<longleftrightarrow> o1 \<in> set xs \<and> oname K o1 = n"
    by (simp add: found_map_def map_of_index_by)
  moreover have "o1 \<in> set xs \<and> oname K o1 = n \<longleftrightarrow> objs w (ns, n) = Some o1 \<and> selects lo (k_Meta K o1)"
    using key mem kube_ok_key [OF assms(1)] by (metis prod.inject)
  ultimately show "map_of (found_map K xs) n = Some o1 \<longleftrightarrow>
           objs w (ns, n) = Some o1 \<and> selects lo (k_Meta K o1)" by simp
  show "wf_map (found_map K xs)" by (simp add: found_map_def)
qed

lemma update_closure_cases:
  assumes "kube_ok K c objs rest" and "update_closure K c new found w = (r, x, w')"
  shows "rest w' = rest w" and "r = Inl e \<Longrightarrow> objs w' = objs w \<and> okey K x = okey K found"
    and "r = Inr u \<Longrightarrow> \<exists>o1. objs w' = (objs w)(okey K found \<mapsto> o1) \<and> \<not> k_Compare K new o1"
proof -
  obtain r1 w1 where up: "kUpdate c (overwrite K new found) w = (r1, w1)" by fastforce
  note law = kube_ok_updateD [OF assms(1) up]
  show "rest w' = rest w"
    using assms(2) up law(1) by (auto simp: update_closure_def split: sum.splits)
  show "objs w' = objs w \<and> okey K x = okey K found" if "r = Inl e"
    using assms(2) up law(2) that
    by (auto simp: update_closure_def okey_overwrite split: sum.splits)
  show "\<exists>o1. objs w' = (objs w)(okey K found \<mapsto> o1) \<and> \<not> k_Compare K new o1" if "r = Inr u"
  proof -
    from assms(2) up that obtain o1 where "r1 = Inr o1" and "w' = w1"
      by (auto simp: update_closure_def split: sum.splits)
    with law(4) [of o1] have "same_object K o1 (overwrite K new found)"
      and "objs w' = (objs w)(okey K found \<mapsto> o1)"
      by (simp_all add: okey_overwrite)
    then show ?thesis using compare_overwrite compare_same by blast
  qed
qed

text \<open>The update either stores the wanted object under the old key or changes nothing.\<close>

lemma update_found_cases:
  assumes ok: "kube_ok K c objs rest" and run: "update_found K c new found w = (r, w')"
  shows "rest w' = rest w"
    and "r = Inl e \<Longrightarrow> objs w' = objs w"
    and "r = Inr u \<Longrightarrow> \<exists>o1. objs w' = (objs w)(okey K found \<mapsto> o1) \<and> \<not> k_Compare K new o1"
proof -
  define I where "I x v \<longleftrightarrow> objs v = objs w \<and> rest v = rest w \<and> okey K x = okey K found" for x v
  define Q where "Q r1 (x :: 'o) v \<longleftrightarrow> rest v = rest w \<and>
      (case r1 of Inl (e :: kerr) \<Rightarrow> objs v = objs w
       | Inr (_ :: unit) \<Rightarrow> \<exists>o1. objs v = (objs w)(okey K found \<mapsto> o1) \<and> \<not> k_Compare K new o1)"
    for r1 x v
  obtain r1 x1 w1 where retry: "kRetry c (update_closure K c new) found w = (r1, x1, w1)"
    by (cases "kRetry c (update_closure K c new) found w") auto
  have "Q r1 x1 w1"
  proof (rule retry_ok_invariant [where I = I, OF _ _ _ _ retry])
    show "retry_ok c" using ok by (simp add: kube_ok_def)
    show "I found w" by (simp add: I_def)
  next
    fix x v r x' v'
    assume inv: "I x v" and step: "update_closure K c new x v = (r, x', v')"
    note cases = update_closure_cases [OF ok step]
    show "I x' v'" if "r = Inl Conflict" using cases(1,2) inv that by (simp add: I_def)
    show "Q r x' v'"
    proof (cases r)
      case (Inl e)
      with cases(1,2) inv show ?thesis by (simp add: I_def Q_def)
    next
      case (Inr u)
      with cases(1,3) inv show ?thesis by (simp add: I_def Q_def)
    qed
  qed
  then show "rest w' = rest w" "r = Inl e \<Longrightarrow> objs w' = objs w"
    "r = Inr u \<Longrightarrow> \<exists>o1. objs w' = (objs w)(okey K found \<mapsto> o1) \<and> \<not> k_Compare K new o1"
    using run retry by (auto simp: update_found_def Q_def split: sum.splits)
qed

text \<open>On a reliable client an update of what is stored succeeds at once.\<close>

lemma update_found_reliable:
  assumes ok: "kube_ok K c objs rest" and rel: "reliable K c objs" and cur: "objs w (okey K found) = Some found"
    and run: "update_found K c new found w = (r, w')"
  shows "\<exists>u. r = Inr u"
proof -
  have "objs w (okey K (overwrite K new found)) = Some found" using cur by (simp add: okey_overwrite)
  moreover have "om_ResourceVersion (k_Meta K (overwrite K new found)) = om_ResourceVersion (k_Meta K found)"
    by (simp add: overwrite_def meta_set)
  ultimately obtain o' w1 where upd: "kUpdate c (overwrite K new found) w = (Inr o', w1)"
    using rel unfolding reliable_def by metis
  obtain n where "kRetry c (update_closure K c new) found w = retry_attempts n (update_closure K c new) found w"
    using ok unfolding kube_ok_def retry_ok_def by metis
  with upd have "kRetry c (update_closure K c new) found w = (Inr (), o', w1)"
    by (cases n) (auto simp: update_closure_def)
  with run show ?thesis by (auto simp: update_found_def)
qed

text \<open>Deleting a map of stored objects, whatever the order of the range.\<close>

lemma delete_unused_cases:
  assumes ok: "kube_ok K c objs rest" and "delete_unused c m w = (r, w')"
    and "distinct (map fst m)" and "\<And>n o1. (n, o1) \<in> set m \<Longrightarrow> okey K o1 = (ns, n) \<and> objs w (ns, n) = Some o1"
  shows "rest w' = rest w"
    and "\<forall>k. k \<notin> Pair ns ` fst ` set m \<longrightarrow> objs w' k = objs w k"
    and "r = Inr u \<Longrightarrow> \<forall>(n, o1) \<in> set m. om_Finalizers (k_Meta K o1) = [] \<longrightarrow> objs w' (ns, n) = None"
proof -
  have "rest w' = rest w \<and> (\<forall>k. k \<notin> Pair ns ` fst ` set m \<longrightarrow> objs w' k = objs w k) \<and>
      (r = Inr () \<longrightarrow> (\<forall>(n, o1) \<in> set m. om_Finalizers (k_Meta K o1) = [] \<longrightarrow> objs w' (ns, n) = None))"
    using assms(2-4)
  proof (induction m arbitrary: w)
    case Nil
    then show ?case by (simp add: delete_unused_def)
  next
    case (Cons p m)
    obtain n o1 where p: "p = (n, o1)" by (cases p)
    have key: "okey K o1 = (ns, n)" and stored: "objs w (ns, n) = Some o1"
      using Cons.prems(3) [of n o1] p by simp_all
    obtain r1 w1 where del: "kDelete c o1 w = (r1, w1)" by fastforce
    note law = kube_ok_deleteD [OF ok del, unfolded key]
    show ?case
    proof (cases r1)
      case (Inl e)
      with Cons.prems(1) p del have "r = Inl (Fail e) \<and> w' = w1"
        by (simp add: delete_unused_def orFail_Inl)
      with law(1,2) Inl show ?thesis by simp
    next
      case (Inr v)
      with Cons.prems(1) p del have run: "delete_unused c m w1 = (r, w')"
        by (simp add: delete_unused_def orFail_Inr)
      have dist: "n \<notin> fst ` set m" "distinct (map fst m)" using Cons.prems(2) p by auto
      have other: "objs w1 k = objs w k" if "k \<noteq> (ns, n)" for k using law(3) that .
      have mem: "okey K o2 = (ns, n2) \<and> objs w1 (ns, n2) = Some o2" if "(n2, o2) \<in> set m" for n2 o2
      proof -
        have "n2 \<noteq> n" using dist(1) that by (metis fst_conv image_eqI)
        then show ?thesis using other [of "(ns, n2)"] Cons.prems(3) [of n2 o2] that by simp
      qed
      note IH = Cons.IH [OF run dist(2) mem]
      have gone: "om_Finalizers (k_Meta K o1) = [] \<longrightarrow> objs w1 (ns, n) = None"
        using law(4) [of v o1] Inr stored by simp
      have "(ns, n) \<notin> Pair ns ` fst ` set m" using dist(1) by auto
      with IH gone have "om_Finalizers (k_Meta K o1) = [] \<longrightarrow> objs w' (ns, n) = None" by metis
      with IH law(1) p other show ?thesis by auto
    qed
  qed
  then show "rest w' = rest w" "\<forall>k. k \<notin> Pair ns ` fst ` set m \<longrightarrow> objs w' k = objs w k"
    "r = Inr u \<Longrightarrow> \<forall>(n, o1) \<in> set m. om_Finalizers (k_Meta K o1) = [] \<longrightarrow> objs w' (ns, n) = None"
    by auto
qed

lemma delete_unused_stored:
  assumes "kube_ok K c objs rest" and "delete_unused c m w = (r, w')" and "distinct (map fst m)"
    and stored: "\<forall>p \<in> set m. okey K (snd p) = (ns, fst p) \<and> objs w (ns, fst p) = Some (snd p)"
  shows "rest w' = rest w"
    and "\<forall>k. k \<notin> Pair ns ` fst ` set m \<longrightarrow> objs w' k = objs w k"
    and "r = Inr u \<Longrightarrow> \<forall>(n, o1) \<in> set m. om_Finalizers (k_Meta K o1) = [] \<longrightarrow> objs w' (ns, n) = None"
proof -
  have "okey K o1 = (ns, n) \<and> objs w (ns, n) = Some o1" if "(n, o1) \<in> set m" for n o1
    using stored that by fastforce
  with delete_unused_cases [OF assms(1-3)]
  show "rest w' = rest w" "\<forall>k. k \<notin> Pair ns ` fst ` set m \<longrightarrow> objs w' k = objs w k"
    "r = Inr u \<Longrightarrow> \<forall>(n, o1) \<in> set m. om_Finalizers (k_Meta K o1) = [] \<longrightarrow> objs w' (ns, n) = None"
    by blast+
qed

text \<open>The deletion phase, after the wanted object has been taken care of.\<close>

lemma prune_synced:
  assumes ok: "kube_ok K c objs rest" and ns: "lo_Namespace lo = ns" "ns \<noteq> []"
    and key: "okey K new = (ns, oname K new)"
    and dist: "distinct (map fst m)"
    and look: "\<And>n o1. map_of m n = Some o1 \<longleftrightarrow>
       n \<noteq> oname K new \<and> M (ns, n) = Some o1 \<and> selects lo (k_Meta K o1)"
    and M: "\<And>k o1. M k = Some o1 \<Longrightarrow> okey K o1 = k"
    and start: "\<And>k. k \<noteq> okey K new \<Longrightarrow> objs w k = M k"
    and run: "delete_unused c m w = (r, w')"
  shows "rest w' = rest w"
    and "k \<noteq> okey K new \<Longrightarrow> (\<And>o1. M k = Some o1 \<Longrightarrow> \<not> selects lo (k_Meta K o1)) \<Longrightarrow> objs w' k = M k"
    and "r = Inr u \<Longrightarrow> objs w (okey K new) = Some o1 \<Longrightarrow> \<not> k_Compare K new o1 \<Longrightarrow>
      synced K lo new M (objs w')"
proof -
  have mem: "(n, o1) \<in> set m \<longleftrightarrow> n \<noteq> oname K new \<and> M (ns, n) = Some o1 \<and> selects lo (k_Meta K o1)"
    for n o1 using look map_of_eq_Some_iff [OF dist] by blast
  have stored: "okey K o1 = (ns, n) \<and> objs w (ns, n) = Some o1" if "(n, o1) \<in> set m" for n o1
    using that mem M [of "(ns, n)" o1] start [of "(ns, n)"] key by simp
  have del: "rest w' = rest w" "\<forall>k. k \<notin> Pair ns ` fst ` set m \<longrightarrow> objs w' k = objs w k"
    "r = Inr u \<Longrightarrow> \<forall>(n, o1) \<in> set m. om_Finalizers (k_Meta K o1) = [] \<longrightarrow> objs w' (ns, n) = None" for u
    using delete_unused_cases [OF ok run dist] stored by blast+
  show "rest w' = rest w" by (rule del(1))
  have keep: "objs w' k = objs w k" if "k \<notin> Pair ns ` fst ` set m" for k
    using del(2) that by blast
  have unmatched: "k \<notin> Pair ns ` fst ` set m"
    if "\<And>o1. M k = Some o1 \<Longrightarrow> \<not> selects lo (k_Meta K o1)" for k
    using that mem by auto
  show frame: "objs w' k = M k"
    if "k \<noteq> okey K new" "\<And>o1. M k = Some o1 \<Longrightarrow> \<not> selects lo (k_Meta K o1)" for k
    using keep [of k] unmatched [of k] start [of k] that by simp
  have own: "okey K new \<notin> Pair ns ` fst ` set m" using key mem by auto
  show "synced K lo new M (objs w')"
    if r: "r = Inr u" and new: "objs w (okey K new) = Some o1" "\<not> k_Compare K new o1"
    unfolding synced_def
  proof (intro conjI allI impI)
    show "\<exists>o1. objs w' (okey K new) = Some o1 \<and> \<not> k_Compare K new o1"
      using keep [OF own] new by simp
  next
    fix k
    assume k: "k \<noteq> okey K new"
    show "case M k of None \<Rightarrow> objs w' k = None
      | Some o1 \<Rightarrow> if selects lo (k_Meta K o1)
          then om_Finalizers (k_Meta K o1) = [] \<longrightarrow> objs w' k = None else objs w' k = Some o1"
    proof (cases "M k")
      case None
      then show ?thesis using frame [OF k] by simp
    next
      case (Some o2)
      show ?thesis
      proof (cases "selects lo (k_Meta K o2)")
        case True
        have "fst k = ns" using M [OF Some] True ns by (auto simp: selects_def okey_def)
        then have kk: "k = (ns, snd k)" by (cases k) simp
        with k key have "snd k \<noteq> oname K new" by auto
        with Some True kk mem have "(snd k, o2) \<in> set m" by metis
        then have "om_Finalizers (k_Meta K o2) = [] \<longrightarrow> objs w' (ns, snd k) = None"
          using del(3) [OF r] by blast
        with Some True kk show ?thesis by simp
      next
        case False
        then show ?thesis using frame [OF k] Some by simp
      qed
    qed
  qed
qed

text \<open>
  What one synchronisation does, whatever its result: it touches only the wanted object and the
  objects the selector matches; when it succeeds, the specification holds.
\<close>

lemma create_or_update_cases:
  assumes ok: "kube_ok K c objs rest" and lst: "kList c lo w0 = (Inr xs, wl)"
    and same: "objs w = objs w0" "rest w = rest w0"
    and ns: "lo_Namespace lo = ns" "ns \<noteq> []" "om_Namespace (k_Meta K new) = ns"
    and run: "create_or_update K c new (found_map K xs) w = (r, w')"
  shows "rest w' = rest w0"
    and "k \<noteq> okey K new \<Longrightarrow> (\<And>o1. objs w0 k = Some o1 \<Longrightarrow> \<not> selects lo (k_Meta K o1)) \<Longrightarrow>
           objs w' k = objs w0 k"
    and "r = Inr u \<Longrightarrow> synced K lo new (objs w0) (objs w') \<or>
           unlabelled_clash K lo new (objs w0) \<and> objs w' = objs w0"
proof -
  define m where "m = found_map K xs"
  define concl where "concl \<longleftrightarrow> rest w' = rest w0 \<and>
    (\<forall>k. k \<noteq> okey K new \<longrightarrow> (\<forall>o1. objs w0 k = Some o1 \<longrightarrow> \<not> selects lo (k_Meta K o1)) \<longrightarrow>
       objs w' k = objs w0 k) \<and>
    (r = Inr () \<longrightarrow> synced K lo new (objs w0) (objs w') \<or>
       unlabelled_clash K lo new (objs w0) \<and> objs w' = objs w0)"
  have frame: "concl \<Longrightarrow> k \<noteq> okey K new \<Longrightarrow> (\<And>o1. objs w0 k = Some o1 \<Longrightarrow> \<not> selects lo (k_Meta K o1)) \<Longrightarrow>
           objs w' k = objs w0 k" for k
    unfolding concl_def by blast
  have wf: "wf_map m" and look: "\<And>n o1. map_of m n = Some o1 \<longleftrightarrow>
      objs w0 (ns, n) = Some o1 \<and> selects lo (k_Meta K o1)"
    using found_map_listed [OF ok lst ns(1,2)] by (simp_all add: m_def)
  have key: "okey K new = (ns, oname K new)" using ns(3) by (simp add: okey_def oname_def)
  have prune: concl
    if "\<And>k. k \<noteq> okey K new \<Longrightarrow> objs w1 k = objs w0 k" "rest w1 = rest w0"
      and "objs w1 (okey K new) = Some o1" "\<not> k_Compare K new o1"
      and "delete_unused c (map_del (oname K new) m) w1 = (r, w')" for w1 o1
  proof -
    have d: "distinct (map fst (map_del (oname K new) m))"
      using wf_map_del [OF wf] by (simp add: wf_map_def)
    have l: "map_of (map_del (oname K new) m) n = Some o2 \<longleftrightarrow>
        n \<noteq> oname K new \<and> objs w0 (ns, n) = Some o2 \<and> selects lo (k_Meta K o2)" for n o2
      using look [of n o2] by simp
    note P = prune_synced [OF ok ns(1,2) key d l kube_ok_key [OF ok] that(1) that(5)]
    show concl unfolding concl_def using P that(2-4) by auto
  qed
  have concl
  proof (cases "map_of m (oname K new)")
    case None
    obtain r1 w1 where cr: "kCreate c new w = (r1, w1)" by fastforce
    note law = kube_ok_createD [OF ok cr]
    show ?thesis
    proof (cases r1)
      case (Inl e)
      have w1: "objs w1 = objs w0" "rest w1 = rest w0" using law(1,2) Inl same by simp_all
      from run None cr Inl have res: "w' = w1" "r = (if e = AlreadyExists then Inr () else Inl (Fail e))"
        by (auto simp: create_or_update_def gbind_def attempt_def gret_def gfail_def m_def
            split: if_splits)
      have "unlabelled_clash K lo new (objs w0)" if "e = AlreadyExists"
        using law(3) Inl that same(1) look [of "oname K new"] None key
        by (auto simp: unlabelled_clash_def)
      with w1 res show ?thesis by (auto simp: concl_def)
    next
      case (Inr o1)
      have del: "map_del (oname K new) m = m"
        using None by (simp add: delete_id map_of_eq_None_iff)
      from run None cr Inr have "delete_unused c m w1 = (r, w')"
        by (simp add: create_or_update_def gbind_def attempt_def m_def)
      with del have run': "delete_unused c (map_del (oname K new) m) w1 = (r, w')" by simp
      have "\<not> k_Compare K new o1" using law(4) Inr compare_same compare_self by blast
      moreover have "objs w1 = (objs w0)(okey K new \<mapsto> o1)" using law(4) Inr same by simp
      ultimately show ?thesis using law(1) same(2) run' by (intro prune [of w1 o1]) auto
    qed
  next
    case (Some found)
    then have f: "objs w0 (okey K new) = Some found" using look key by simp
    then have fk: "okey K found = okey K new" using kube_ok_key [OF ok] by blast
    show ?thesis
    proof (cases "k_Compare K new found")
      case False
      with run Some have "delete_unused c (map_del (oname K new) m) w = (r, w')"
        by (simp add: create_or_update_def gbind_def gret_def m_def)
      with False f same show ?thesis by (intro prune [of w found]) auto
    next
      case True
      obtain r1 w1 where up: "update_found K c new found w = (r1, w1)" by fastforce
      note law = update_found_cases [OF ok up, unfolded fk]
      show ?thesis
      proof (cases r1)
        case (Inl e)
        with run Some True up have "r = Inl e" "w' = w1"
          by (simp_all add: create_or_update_def gbind_def m_def)
        with law(1,2) Inl same show ?thesis by (auto simp: concl_def)
      next
        case (Inr v)
        with run Some True up have run': "delete_unused c (map_del (oname K new) m) w1 = (r, w')"
          by (simp add: create_or_update_def gbind_def m_def)
        from law(3) Inr obtain o1 where "objs w1 = (objs w)(okey K new \<mapsto> o1)"
          and "\<not> k_Compare K new o1" by blast
        with law(1) same run' show ?thesis by (intro prune [of w1 o1]) auto
      qed
    qed
  qed
  then show "rest w' = rest w0"
    and "r = Inr u \<Longrightarrow> synced K lo new (objs w0) (objs w') \<or>
           unlabelled_clash K lo new (objs w0) \<and> objs w' = objs w0"
    unfolding concl_def by simp_all
  show "k \<noteq> okey K new \<Longrightarrow> (\<And>o1. objs w0 k = Some o1 \<Longrightarrow> \<not> selects lo (k_Meta K o1)) \<Longrightarrow>
           objs w' k = objs w0 k"
    using frame [OF \<open>concl\<close>] by blast
qed

text \<open>A synchronisation of what is already synchronised writes nothing.\<close>

lemma resync_noop:
  assumes ok: "kube_ok K c objs rest" and lst: "kList c lo w0 = (Inr xs, wl)"
    and ns: "lo_Namespace lo = ns" "ns \<noteq> []" "om_Namespace (k_Meta K new) = ns"
    and fields: "lo_MatchFields lo = []" and new: "selects lo (k_Meta K new)"
    and sync: "synced K lo new M (objs w0)"
    and fin: "\<And>k o1. M k = Some o1 \<Longrightarrow> om_Finalizers (k_Meta K o1) = []"
  shows "create_or_update K c new (found_map K xs) w = (Inr (), w)"
proof -
  define m where "m = found_map K xs"
  have wf: "wf_map m" and look: "\<And>n o1. map_of m n = Some o1 \<longleftrightarrow>
      objs w0 (ns, n) = Some o1 \<and> selects lo (k_Meta K o1)"
    using found_map_listed [OF ok lst ns(1,2)] by (simp_all add: m_def)
  have key: "okey K new = (ns, oname K new)" using ns(3) by (simp add: okey_def oname_def)
  from sync obtain o1 where o1: "objs w0 (okey K new) = Some o1" "\<not> k_Compare K new o1"
    by (auto simp: synced_def)
  have "okey K o1 = okey K new" using kube_ok_key [OF ok o1(1)] .
  with new compare_labels [OF o1(2)] fields have "selects lo (k_Meta K o1)"
    by (simp add: selects_def okey_def)
  with o1(1) look key have found: "map_of m (oname K new) = Some o1" by simp
  have "map_of (map_del (oname K new) m) n = None" for n
  proof (cases "n = oname K new")
    case False
    have "\<not> (objs w0 (ns, n) = Some o2 \<and> selects lo (k_Meta K o2))" for o2
    proof -
      have k: "(ns, n) \<noteq> okey K new" using False key by simp
      have "case M (ns, n) of None \<Rightarrow> objs w0 (ns, n) = None
         | Some o1 \<Rightarrow> if selects lo (k_Meta K o1)
                      then om_Finalizers (k_Meta K o1) = [] \<longrightarrow> objs w0 (ns, n) = None
                      else objs w0 (ns, n) = Some o1"
        using sync k unfolding synced_def by blast
      then show ?thesis using fin [of "(ns, n)"] by (auto split: option.splits if_splits)
    qed
    then have "map_of m n = None" using look [of n] by (cases "map_of m n") auto
    then show ?thesis by simp
  qed simp
  then have "map_of (map_del (oname K new) m) = Map.empty" by (rule ext)
  then have "map_del (oname K new) m = []" by (simp only: map_of_eq_empty_iff)
  with found o1(2) show ?thesis
    by (simp add: create_or_update_def m_def gbind_def gret_def delete_unused_def)
qed

text \<open>Over an object of the wanted name that the selector misses, nothing is ever written.\<close>

lemma create_or_update_clash:
  assumes ok: "kube_ok K c objs rest" and lst: "kList c lo w0 = (Inr xs, wl)" and same: "objs w = objs w0"
    and ns: "lo_Namespace lo = ns" "ns \<noteq> []" "om_Namespace (k_Meta K new) = ns"
    and clash: "unlabelled_clash K lo new (objs w0)"
    and run: "create_or_update K c new (found_map K xs) w = (r, w')"
  shows "objs w' = objs w0"
proof -
  have key: "okey K new = (ns, oname K new)" using ns(3) by (simp add: okey_def oname_def)
  have missing: "map_of (found_map K xs) (oname K new) = None"
  proof (rule ccontr)
    assume "map_of (found_map K xs) (oname K new) \<noteq> None"
    then obtain o2 where "map_of (found_map K xs) (oname K new) = Some o2" by blast
    then have "objs w0 (okey K new) = Some o2 \<and> selects lo (k_Meta K o2)"
      using found_map_listed(2) [OF ok lst ns(1,2), of "oname K new" o2] key by simp
    with clash show False unfolding unlabelled_clash_def by force
  qed
  obtain r3 w3 where cr: "kCreate c new w = (r3, w3)" by fastforce
  from kube_ok_createD [OF ok cr] clash same obtain e where e: "r3 = Inl e"
    by (cases r3) (auto simp: unlabelled_clash_def)
  with missing cr run have "w' = w3"
    by (auto simp: create_or_update_def gbind_def attempt_def gret_def gfail_def split: if_splits)
  then show ?thesis using kube_ok_createD(2) [OF ok cr e] same by simp
qed

text \<open>
  The whole body of a \<open>reconcile\<close> function: list what is stored, work out what is wanted (nothing, a
  panic, or an object; the ServiceConfig controller reads the ConfiguredService for it), own it and
  synchronise.
\<close>

definition sync_service where
  "sync_service f c lo owner read =
     gbind (list_map K c lo) (\<lambda>m.
     gbind read (\<lambda>wanted.
       case wanted of
         None \<Rightarrow> gret ()
       | Some v \<Rightarrow>
           gbind (orPanic v) (\<lambda>o1.
           gbind (set_owner f K owner o1) (\<lambda>new.
           create_or_update K c new m))))"

lemma sync_service_run:
  assumes ok: "kube_ok K c objs rest" and read: "reads_only objs rest read"
    and run: "sync_service f c lo owner read w0 = (r, w')"
  obtains (stopped) e where "r = Inl e" and "objs w' = objs w0" and "rest w' = rest w0"
  | (idle) wl w where "objs wl = objs w0" and "rest wl = rest w0" and "read wl = (Inr None, w)"
      and "r = Inr ()" and "objs w' = objs w0" and "rest w' = rest w0"
  | (synchronised) xs wl w o1 m where "kList c lo w0 = (Inr xs, wl)"
      and "objs wl = objs w0" and "rest wl = rest w0" and "read wl = (Inr (Some (Some o1)), w)"
      and "objs w = objs w0" and "rest w = rest w0" and "f owner (k_Meta K o1) = Inr m"
      and "create_or_update K c (k_SetMeta K m o1) (found_map K xs) w = (r, w')"
proof -
  obtain r1 wl where lst: "kList c lo w0 = (r1, wl)" by fastforce
  have same: "objs wl = objs w0" "rest wl = rest w0" using kube_ok_listD [OF ok lst] by simp_all
  show thesis
  proof (cases r1)
    case (Inl e)
    with run lst same show thesis
      by (intro stopped [of "Fail e"]) (auto simp: sync_service_def list_map_def gbind_def orFail_def)
  next
    case (Inr xs)
    obtain x w where rd: "read wl = (x, w)" by fastforce
    have same2: "objs w = objs w0" "rest w = rest w0" using reads_onlyD [OF read rd] same by simp_all
    from run lst Inr rd have run2: "(case x of Inl e \<Rightarrow> (Inl e, w) | Inr wanted \<Rightarrow>
       (case wanted of None \<Rightarrow> gret () | Some v \<Rightarrow> gbind (orPanic v) (\<lambda>o1.
           gbind (set_owner f K owner o1) (\<lambda>new. create_or_update K c new (found_map K xs)))) w) = (r, w')"
      by (simp add: sync_service_def list_map_def gbind_def orFail_def gret_def split: sum.splits)
    consider (err) e where "x = Inl e" | (none) "x = Inr None" | (panic) "x = Inr (Some None)"
      | (some) o1 where "x = Inr (Some (Some o1))"
      by (metis option.exhaust sum.exhaust)
    then show thesis
    proof cases
      case err
      with run2 same2 show thesis by (intro stopped [of e]) auto
    next
      case none
      with run2 same same2 rd show thesis by (intro idle [of wl w]) (auto simp: gret_def)
    next
      case panic
      with run2 same2 show thesis by (intro stopped [of Panic]) (auto simp: run_simps)
    next
      case (some o1)
      show thesis
      proof (cases "f owner (k_Meta K o1)")
        case (Inl e)
        with run2 some same2 show thesis
          by (intro stopped [of "Fail e"]) (auto simp: run_simps set_owner_def)
      next
        case m: (Inr m)
        with run2 some have "create_or_update K c (k_SetMeta K m o1) (found_map K xs) w = (r, w')"
          by (simp add: run_simps set_owner_def)
        with lst Inr same same2 rd some m show thesis by (intro synchronised [of xs wl o1 w m]) simp_all
      qed
    qed
  qed
qed

lemma set_owner_facts:
  assumes "setref_ok f" and "f owner (k_Meta K o1) = Inr m"
  shows "m = (k_Meta K o1)\<lparr>om_OwnerReferences := om_OwnerReferences m\<rparr>"
    and "okey K (k_SetMeta K m o1) = okey K o1"
    and "om_Namespace (k_Meta K (k_SetMeta K m o1)) = om_Namespace (k_Meta K o1)"
    and "selects lo (k_Meta K (k_SetMeta K m o1)) = selects lo (k_Meta K o1)"
proof -
  show m: "m = (k_Meta K o1)\<lparr>om_OwnerReferences := om_OwnerReferences m\<rparr>"
    using assms unfolding setref_ok_def by blast
  define refs where "refs = om_OwnerReferences m"
  have mm: "m = (k_Meta K o1)\<lparr>om_OwnerReferences := refs\<rparr>" using m by (simp add: refs_def)
  show "okey K (k_SetMeta K m o1) = okey K o1"
    "om_Namespace (k_Meta K (k_SetMeta K m o1)) = om_Namespace (k_Meta K o1)"
    "selects lo (k_Meta K (k_SetMeta K m o1)) = selects lo (k_Meta K o1)"
    by (simp_all add: meta_set mm okey_def selects_def)
qed

lemma sync_service_cases:
  assumes ok: "kube_ok K c objs rest" and ref: "setref_ok f"
    and read: "reads_only objs rest read"
    and wants: "wants_key K read (ns, n)"
    and ns: "lo_Namespace lo = ns" "ns \<noteq> []"
    and run: "sync_service f c lo owner read w0 = (r, w')"
  shows "rest w' = rest w0"
    and "k \<noteq> (ns, n) \<Longrightarrow> (\<And>o2. objs w0 k = Some o2 \<Longrightarrow> \<not> selects lo (k_Meta K o2)) \<Longrightarrow>
           objs w' k = objs w0 k"
    and "r = Inr u \<Longrightarrow> \<exists>wl wanted w. objs wl = objs w0 \<and> rest wl = rest w0 \<and> read wl = (Inr wanted, w) \<and>
      (case wanted of None \<Rightarrow> objs w' = objs w0
       | Some v \<Rightarrow> \<exists>o1. v = Some o1 \<and> sync_result K lo o1 (objs w0) (objs w'))"
proof -
  have all: "rest w' = rest w0 \<and>
      (\<forall>k. k \<noteq> (ns, n) \<longrightarrow> (\<forall>o2. objs w0 k = Some o2 \<longrightarrow> \<not> selects lo (k_Meta K o2)) \<longrightarrow>
           objs w' k = objs w0 k) \<and>
      (r = Inr () \<longrightarrow> (\<exists>wl wanted w. objs wl = objs w0 \<and> rest wl = rest w0 \<and> read wl = (Inr wanted, w) \<and>
        (case wanted of None \<Rightarrow> objs w' = objs w0
         | Some v \<Rightarrow> \<exists>o1. v = Some o1 \<and> sync_result K lo o1 (objs w0) (objs w'))))"
    using ok read run
  proof (cases rule: sync_service_run)
    case (stopped e)
    then show ?thesis by simp
  next
    case (idle wl w)
    then show ?thesis by (intro conjI impI exI [of _ wl] exI [of _ None] exI [of _ w]) simp_all
  next
    case (synchronised xs wl w o1 m)
    note own = set_owner_facts [OF ref synchronised(7)]
    have key: "okey K o1 = (ns, n)" using wants synchronised(4) unfolding wants_key_def by blast
    then have ns3: "om_Namespace (k_Meta K (k_SetMeta K m o1)) = ns"
      using own(3) by (simp add: okey_def)
    note C = create_or_update_cases [OF ok synchronised(1) synchronised(5,6) ns ns3 synchronised(8),
        unfolded own(2) key]
    have "sync_result K lo o1 (objs w0) (objs w')" if "r = Inr ()"
      using C(3) [OF that] own(1) key
      unfolding sync_result_def unlabelled_clash_def own(2) by metis
    then have "r = Inr () \<longrightarrow> (\<exists>wl wanted w. objs wl = objs w0 \<and> rest wl = rest w0 \<and> read wl = (Inr wanted, w) \<and>
        (case wanted of None \<Rightarrow> objs w' = objs w0
         | Some v \<Rightarrow> \<exists>o1. v = Some o1 \<and> sync_result K lo o1 (objs w0) (objs w')))"
      using synchronised(2-4)
      by (intro impI exI [of _ wl] exI [of _ "Some (Some o1)"] exI [of _ w]) simp
    with C(1,2) show ?thesis by blast
  qed
  show "rest w' = rest w0" using all by (rule conjunct1)
  show "r = Inr u \<Longrightarrow> \<exists>wl wanted w. objs wl = objs w0 \<and> rest wl = rest w0 \<and> read wl = (Inr wanted, w) \<and>
      (case wanted of None \<Rightarrow> objs w' = objs w0
       | Some v \<Rightarrow> \<exists>o1. v = Some o1 \<and> sync_result K lo o1 (objs w0) (objs w'))"
    using all [THEN conjunct2, THEN conjunct2] by simp
  show "k \<noteq> (ns, n) \<Longrightarrow> (\<And>o2. objs w0 k = Some o2 \<Longrightarrow> \<not> selects lo (k_Meta K o2)) \<Longrightarrow>
           objs w' k = objs w0 k"
    using all [THEN conjunct2, THEN conjunct1] by blast
qed

text \<open>
  Running it again after it succeeded changes nothing, whatever the second run returns, as long as
  the same object is wanted.
\<close>

lemma sync_service_idempotent:
  assumes ok: "kube_ok K c objs rest" and ref: "setref_ok f"
    and read: "reads_only objs rest read"
    and wants: "\<And>w o1 w'. rest w = rest w0 \<Longrightarrow> read w = (Inr o1, w') \<Longrightarrow> o1 = wanted"
    and own_ns: "\<And>o1. wanted = Some (Some o1) \<Longrightarrow> okey K o1 = (ns, n) \<and> selects lo (k_Meta K o1)"
    and ns: "lo_Namespace lo = ns" "ns \<noteq> []" and sel: "lo_MatchFields lo = []"
    and fin: "\<And>k o2. objs w0 k = Some o2 \<Longrightarrow> om_Finalizers (k_Meta K o2) = []"
    and run1: "sync_service f c lo owner read w0 = (Inr u, w1)"
    and run2: "sync_service f c lo owner read w1 = (r, w2)"
  shows "objs w2 = objs w1"
  using ok read run2
proof (cases rule: sync_service_run)
  case (stopped e)
  then show ?thesis by simp
next
  case (idle wl w)
  then show ?thesis by simp
next
  case (synchronised xs wl w o1 m)
  define new where "new = k_SetMeta K m o1"
  note own = set_owner_facts [OF ref synchronised(7), folded new_def]
  have rest1: "rest w1 = rest w0"
    using ok read run1
  proof (cases rule: sync_service_run)
    case first: (synchronised xs0 wl0 w0' o2 m2)
    have "wanted = Some (Some o2)" using wants [OF first(3,4)] by simp
    then have "om_Namespace (k_Meta K (k_SetMeta K m2 o2)) = ns"
      using own_ns [of o2] set_owner_facts(3) [OF ref first(7)] by (simp add: okey_def)
    then show ?thesis by (rule create_or_update_cases(1) [OF ok first(1) first(5,6) ns _ first(8)])
  qed simp_all
  have w: "wanted = Some (Some o1)"
    using wants [OF _ synchronised(4)] synchronised(3) rest1 by simp
  note key1 = own_ns [OF w]
  have ns3: "om_Namespace (k_Meta K new) = ns" using own(3) key1 by (simp add: okey_def)
  have "synced K lo new (objs w0) (objs w1) \<or> unlabelled_clash K lo new (objs w0) \<and> objs w1 = objs w0"
    using ok read run1
  proof (cases rule: sync_service_run)
    case (idle wl w)
    then show ?thesis using wants w by fastforce
  next
    case first: (synchronised xs0 wl0 w0' o2 m2)
    have "Some (Some o2) = wanted" using wants [OF first(3,4)] .
    with w first(7) synchronised(7) have "m2 = m" "o2 = o1" by simp_all
    with first(8) have "create_or_update K c new (found_map K xs0) w0' = (Inr u, w1)"
      by (simp add: new_def)
    then show ?thesis
      using create_or_update_cases(3) [OF ok first(1) first(5,6) ns ns3] by simp
  qed simp
  then show ?thesis
  proof
    assume "synced K lo new (objs w0) (objs w1)"
    with sel own(4) key1 have "create_or_update K c new (found_map K xs) w = (Inr (), w)"
      by (intro resync_noop [OF ok synchronised(1) ns ns3]) (auto dest: fin)
    with synchronised(5,8) show ?thesis by (simp add: new_def)
  next
    assume clash: "unlabelled_clash K lo new (objs w0) \<and> objs w1 = objs w0"
    then have "unlabelled_clash K lo new (objs w1)" by metis
    then show ?thesis
      by (rule create_or_update_clash [OF ok synchronised(1,5) ns ns3 _ synchronised(8) [folded new_def]])
  qed
qed

lemma sync_service_clash:
  assumes ok: "kube_ok K c objs rest" and ref: "setref_ok f" and read: "reads_only objs rest read"
    and wants: "wants_key K read (ns, n)" and ns: "lo_Namespace lo = ns" "ns \<noteq> []"
    and clash: "objs w0 (ns, n) = Some o2" "\<not> selects lo (k_Meta K o2)"
    and run: "sync_service f c lo owner read w0 = (r, w')"
  shows "objs w' = objs w0"
  using ok read run
proof (cases rule: sync_service_run)
  case (synchronised xs wl w o1 m)
  note own = set_owner_facts [OF ref synchronised(7)]
  have key: "okey K o1 = (ns, n)" using wants synchronised(4) unfolding wants_key_def by blast
  then have ns3: "om_Namespace (k_Meta K (k_SetMeta K m o1)) = ns" using own(3) by (simp add: okey_def)
  have "unlabelled_clash K lo (k_SetMeta K m o1) (objs w0)"
    unfolding unlabelled_clash_def own(2) key using clash by blast
  then show ?thesis by (rule create_or_update_clash [OF ok synchronised(1,5) ns ns3 _ synchronised(8)])
qed simp_all

end

text \<open>What a synchronisation leaves under the key, where no foreign object has it.\<close>

lemma sync_result_stored:
  assumes "sync_result K lo new M M'" and "object_kind K" and "okey K new = key"
    and "\<And>o1. M key = Some o1 \<Longrightarrow> selects lo (k_Meta K o1)"
  shows "\<exists>refs o1. M' key = Some o1 \<and> \<not> k_Compare K (k_SetMeta K ((k_Meta K new)\<lparr>om_OwnerReferences := refs\<rparr>) new) o1"
proof -
  have "\<not> unlabelled_clash K lo new M" using assms(3,4) unfolding unlabelled_clash_def by blast
  with assms(1) obtain refs where S: "synced K lo (k_SetMeta K ((k_Meta K new)\<lparr>om_OwnerReferences := refs\<rparr>) new) M M'"
    unfolding sync_result_def by blast
  have "okey K (k_SetMeta K ((k_Meta K new)\<lparr>om_OwnerReferences := refs\<rparr>) new) = key"
    using assms(3) by (simp add: okey_def object_kind.meta_set [OF assms(2)])
  with conjunct1 [OF S [unfolded synced_def]] show ?thesis by auto
qed

end
