(* ===== verification/IstioKinds.thy ===== *)
theory IstioKinds
  imports SyncKind
begin

text \<open>
  The Istio kinds as instances of the synchronisation interface: the \<open>compare...\<close> functions of the
  controllers (finalizers, labels, then the spec, all by deep equality), and one interpretation of
  \<open>istio_kind\<close> for each of them. The functions of the same name in \<^verbatim>\<open>controllers/serviceconfig\<close>
  are the same code.
\<close>

section \<open>Comparison\<close>

definition compareVirtualService :: "VirtualService \<Rightarrow> VirtualService \<Rightarrow> bool" where
  "compareVirtualService new old =
     (if om_Finalizers (vs_Meta new) \<noteq> om_Finalizers (vs_Meta old) then True
      else if \<not> map_eq (om_Labels (vs_Meta new)) (om_Labels (vs_Meta old)) then True
      else if \<not> VirtualServiceSpec_eq (vs_Spec new) (vs_Spec old) then True
      else False)"

definition compareDestinationRule :: "DestinationRule \<Rightarrow> DestinationRule \<Rightarrow> bool" where
  "compareDestinationRule new old =
     (if om_Finalizers (dr_Meta new) \<noteq> om_Finalizers (dr_Meta old) then True
      else if \<not> map_eq (om_Labels (dr_Meta new)) (om_Labels (dr_Meta old)) then True
      else if \<not> DestinationRuleSpec_eq (dr_Spec new) (dr_Spec old) then True
      else False)"

definition compareServiceEntry :: "ServiceEntry \<Rightarrow> ServiceEntry \<Rightarrow> bool" where
  "compareServiceEntry new old =
     (if om_Finalizers (se_Meta new) \<noteq> om_Finalizers (se_Meta old) then True
      else if \<not> map_eq (om_Labels (se_Meta new)) (om_Labels (se_Meta old)) then True
      else if \<not> ServiceEntrySpec_eq (se_Spec new) (se_Spec old) then True
      else False)"

definition compareWorkloadEntry :: "WorkloadEntry \<Rightarrow> WorkloadEntry \<Rightarrow> bool" where
  "compareWorkloadEntry new old =
     (if om_Finalizers (we_Meta new) \<noteq> om_Finalizers (we_Meta old) then True
      else if \<not> map_eq (om_Labels (we_Meta new)) (om_Labels (we_Meta old)) then True
      else if \<not> WorkloadEntrySpec_eq (we_Spec new) (we_Spec old) then True
      else False)"

definition compareSidecar :: "Sidecar \<Rightarrow> Sidecar \<Rightarrow> bool" where
  "compareSidecar new old =
     (if om_Finalizers (sd_Meta new) \<noteq> om_Finalizers (sd_Meta old) then True
      else if \<not> map_eq (om_Labels (sd_Meta new)) (om_Labels (sd_Meta old)) then True
      else if \<not> SidecarSpec_eq (sd_Spec new) (sd_Spec old) then True
      else False)"

section \<open>Kinds\<close>

definition vs_kind :: "VirtualService managed_kind" where
  "vs_kind = \<lparr>k_Meta = vs_Meta, k_SetMeta = (\<lambda>m v. v\<lparr>vs_Meta := m\<rparr>),
     k_Compare = compareVirtualService, k_CopySpec = (\<lambda>new found. found\<lparr>vs_Spec := vs_Spec new\<rparr>)\<rparr>"

definition dr_kind :: "DestinationRule managed_kind" where
  "dr_kind = \<lparr>k_Meta = dr_Meta, k_SetMeta = (\<lambda>m v. v\<lparr>dr_Meta := m\<rparr>),
     k_Compare = compareDestinationRule, k_CopySpec = (\<lambda>new found. found\<lparr>dr_Spec := dr_Spec new\<rparr>)\<rparr>"

definition se_kind :: "ServiceEntry managed_kind" where
  "se_kind = \<lparr>k_Meta = se_Meta, k_SetMeta = (\<lambda>m v. v\<lparr>se_Meta := m\<rparr>),
     k_Compare = compareServiceEntry, k_CopySpec = (\<lambda>new found. found\<lparr>se_Spec := se_Spec new\<rparr>)\<rparr>"

definition we_kind :: "WorkloadEntry managed_kind" where
  "we_kind = \<lparr>k_Meta = we_Meta, k_SetMeta = (\<lambda>m v. v\<lparr>we_Meta := m\<rparr>),
     k_Compare = compareWorkloadEntry, k_CopySpec = (\<lambda>new found. found\<lparr>we_Spec := we_Spec new\<rparr>)\<rparr>"

definition sd_kind :: "Sidecar managed_kind" where
  "sd_kind = \<lparr>k_Meta = sd_Meta, k_SetMeta = (\<lambda>m v. v\<lparr>sd_Meta := m\<rparr>),
     k_Compare = compareSidecar, k_CopySpec = (\<lambda>new found. found\<lparr>sd_Spec := sd_Spec new\<rparr>)\<rparr>"

lemmas kind_defs = vs_kind_def dr_kind_def se_kind_def we_kind_def sd_kind_def

lemmas compare_defs = compareVirtualService_def compareDestinationRule_def compareServiceEntry_def
  compareWorkloadEntry_def compareSidecar_def

lemma strip_meta_labels:
  assumes "strip_meta m = strip_meta m'"
  shows "om_Labels m = om_Labels m' \<and> om_Finalizers m = om_Finalizers m'"
  using assms by (cases m; cases m') (simp add: strip_meta_def)

lemma vs_same: "same_object vs_kind a b \<Longrightarrow> strip_meta (vs_Meta a) = strip_meta (vs_Meta b) \<and> vs_Spec a = vs_Spec b"
  by (cases a; cases b) (simp add: same_object_def vs_kind_def)

lemma dr_same: "same_object dr_kind a b \<Longrightarrow> strip_meta (dr_Meta a) = strip_meta (dr_Meta b) \<and> dr_Spec a = dr_Spec b"
  by (cases a; cases b) (simp add: same_object_def dr_kind_def)

lemma se_same: "same_object se_kind a b \<Longrightarrow> strip_meta (se_Meta a) = strip_meta (se_Meta b) \<and> se_Spec a = se_Spec b"
  by (cases a; cases b) (simp add: same_object_def se_kind_def)

lemma we_same: "same_object we_kind a b \<Longrightarrow> strip_meta (we_Meta a) = strip_meta (we_Meta b) \<and> we_Spec a = we_Spec b"
  by (cases a; cases b) (simp add: same_object_def we_kind_def)

lemma sd_same: "same_object sd_kind a b \<Longrightarrow> strip_meta (sd_Meta a) = strip_meta (sd_Meta b) \<and> sd_Spec a = sd_Spec b"
  by (cases a; cases b) (simp add: same_object_def sd_kind_def)

interpretation vs: istio_kind vs_kind
proof
  show "\<And>a b new. same_object vs_kind a b \<Longrightarrow> k_Compare vs_kind new a = k_Compare vs_kind new b"
    by (drule vs_same) (auto simp: kind_defs compare_defs dest: strip_meta_labels)
qed (auto simp: kind_defs compare_defs overwrite_def map_eq_iff split: if_splits)

interpretation dr: istio_kind dr_kind
proof
  show "\<And>a b new. same_object dr_kind a b \<Longrightarrow> k_Compare dr_kind new a = k_Compare dr_kind new b"
    by (drule dr_same) (auto simp: kind_defs compare_defs dest: strip_meta_labels)
qed (auto simp: kind_defs compare_defs overwrite_def map_eq_iff split: if_splits)

interpretation se: istio_kind se_kind
proof
  show "\<And>a b new. same_object se_kind a b \<Longrightarrow> k_Compare se_kind new a = k_Compare se_kind new b"
    by (drule se_same) (auto simp: kind_defs compare_defs dest: strip_meta_labels)
qed (auto simp: kind_defs compare_defs overwrite_def map_eq_iff split: if_splits)

interpretation we: istio_kind we_kind
proof
  show "\<And>a b new. same_object we_kind a b \<Longrightarrow> k_Compare we_kind new a = k_Compare we_kind new b"
    by (drule we_same) (auto simp: kind_defs compare_defs dest: strip_meta_labels)
qed (auto simp: kind_defs compare_defs overwrite_def map_eq_iff split: if_splits)

interpretation sd: istio_kind sd_kind
proof
  show "\<And>a b new. same_object sd_kind a b \<Longrightarrow> k_Compare sd_kind new a = k_Compare sd_kind new b"
    by (drule sd_same) (auto simp: kind_defs compare_defs dest: strip_meta_labels)
qed (auto simp: kind_defs compare_defs overwrite_def map_eq_iff split: if_splits)

section \<open>The kinds of the mesh API, and the kinds the code only lists\<close>

definition mc_kind :: "MeshConfig kind" where
  "mc_kind = \<lparr>k_Meta = mc_Meta, k_SetMeta = (\<lambda>m v. v\<lparr>mc_Meta := m\<rparr>)\<rparr>"

definition cs_kind :: "ConfiguredService kind" where
  "cs_kind = \<lparr>k_Meta = cs_Meta, k_SetMeta = (\<lambda>m v. v\<lparr>cs_Meta := m\<rparr>)\<rparr>"

definition sc_kind :: "ServiceConfig kind" where
  "sc_kind = \<lparr>k_Meta = sc_Meta, k_SetMeta = (\<lambda>m v. v\<lparr>sc_Meta := m\<rparr>)\<rparr>"

definition sa_kind :: "ServiceAccessor kind" where
  "sa_kind = \<lparr>k_Meta = sa_Meta, k_SetMeta = (\<lambda>m v. v\<lparr>sa_Meta := m\<rparr>)\<rparr>"

definition amc_kind :: "AppMeshConfig kind" where
  "amc_kind = \<lparr>k_Meta = amc_Meta, k_SetMeta = (\<lambda>m v. v\<lparr>amc_Meta := m\<rparr>)\<rparr>"

definition pod_kind :: "Pod kind" where
  "pod_kind = \<lparr>k_Meta = pod_Meta, k_SetMeta = (\<lambda>m v. v\<lparr>pod_Meta := m\<rparr>)\<rparr>"

definition dep_kind :: "Deployment kind" where
  "dep_kind = \<lparr>k_Meta = dep_Meta, k_SetMeta = (\<lambda>m v. v\<lparr>dep_Meta := m\<rparr>)\<rparr>"

lemmas plain_kind_defs = mc_kind_def cs_kind_def sc_kind_def sa_kind_def amc_kind_def pod_kind_def
  dep_kind_def

interpretation mc: object_kind mc_kind by unfold_locales (auto simp: plain_kind_defs)
interpretation cs: object_kind cs_kind by unfold_locales (auto simp: plain_kind_defs)
interpretation sc: object_kind sc_kind by unfold_locales (auto simp: plain_kind_defs)
interpretation sa: object_kind sa_kind by unfold_locales (auto simp: plain_kind_defs)
interpretation amc: object_kind amc_kind by unfold_locales (auto simp: plain_kind_defs)
interpretation pod: object_kind pod_kind by unfold_locales (auto simp: plain_kind_defs)
interpretation dep: object_kind dep_kind by unfold_locales (auto simp: plain_kind_defs)

end
