(* ===== verification/Sha1.thy ===== *)
theory Sha1
  imports GoStrings
begin

text \<open>
  SHA-1 as Go's \<open>crypto/sha1\<close> computes it, and the \<open>%x\<close> verb on the digest: what
  \<open>truncated\<close> of the configuredservice controller writes as a label value for long names.
\<close>

unbundle bit_operations_syntax

type_synonym sha_state = "uint32 \<times> uint32 \<times> uint32 \<times> uint32 \<times> uint32"

definition sha_init :: sha_state where
  "sha_init = (0x67452301, 0xEFCDAB89, 0x98BADCFE, 0x10325476, 0xC3D2E1F0)"

definition be_bytes :: "nat \<Rightarrow> int \<Rightarrow> int list" where
  "be_bytes k n = map (\<lambda>i. n div 256 ^ (k - 1 - i) mod 256) [0..<k]"

definition sha_pad :: "int list \<Rightarrow> int list" where
  "sha_pad bs =
     (let l = length bs; z = (if l mod 64 < 56 then 55 - l mod 64 else 119 - l mod 64)
      in bs @ 128 # replicate z 0 @ be_bytes 8 (8 * int l))"

fun be_words :: "int list \<Rightarrow> uint32 list" where
  "be_words (a # b # c # d # r) = word_of_int (((a * 256 + b) * 256 + c) * 256 + d) # be_words r"
| "be_words _ = []"

text \<open>The message schedule, built newest word first from the 16 words of a block.\<close>

definition schedule_step :: "uint32 list \<Rightarrow> uint32 list" where
  "schedule_step ws = word_rotl 1 (ws ! 2 XOR ws ! 7 XOR ws ! 13 XOR ws ! 15) # ws"

definition schedule :: "uint32 list \<Rightarrow> uint32 list" where
  "schedule block = rev ((schedule_step ^^ 64) (rev block))"

definition sha_round :: "nat \<times> uint32 \<Rightarrow> sha_state \<Rightarrow> sha_state" where
  "sha_round iw s =
     (case (iw, s) of ((i, w), (a, b, c, d, e)) \<Rightarrow>
        let (f, k) =
          (if i < 20 then ((b AND c) OR (NOT b AND d), 0x5A827999)
           else if i < 40 then (b XOR c XOR d, 0x6ED9EBA1)
           else if i < 60 then ((b AND c) OR (b AND d) OR (c AND d), 0x8F1BBCDC)
           else (b XOR c XOR d, 0xCA62C1D6))
        in (word_rotl 5 a + f + e + w + k, a, word_rotl 30 b, c, d))"

definition sha_block :: "sha_state \<Rightarrow> uint32 list \<Rightarrow> sha_state" where
  "sha_block s block =
     (case (s, fold sha_round (enumerate 0 (schedule block)) s) of
        ((a, b, c, d, e), (a', b', c', d', e')) \<Rightarrow> (a + a', b + b', c + c', d + d', e + e'))"

fun sha_blocks :: "nat \<Rightarrow> uint32 list \<Rightarrow> sha_state \<Rightarrow> sha_state" where
  "sha_blocks 0 ws s = s"
| "sha_blocks (Suc n) ws s = sha_blocks n (drop 16 ws) (sha_block s (take 16 ws))"

definition sha1_sum :: "string \<Rightarrow> int list" where
  "sha1_sum m =
     (let ws = be_words (sha_pad (map of_char m))
      in case sha_blocks (length ws div 16) ws sha_init of
           (a, b, c, d, e) \<Rightarrow> concat (map (\<lambda>w. be_bytes 4 (uint w)) [a, b, c, d, e]))"

definition hex_digit :: "int \<Rightarrow> char" where
  "hex_digit d = (if d < 10 then char_of (48 + d) else char_of (87 + d))"

definition sha1_hex :: "string \<Rightarrow> string" where
  "sha1_hex m = concat (map (\<lambda>b. [hex_digit (b div 16), hex_digit (b mod 16)]) (sha1_sum m))"

lemma length_be_bytes [simp]: "length (be_bytes k n) = k"
  by (simp add: be_bytes_def)

lemma length_sha1_sum [simp]: "length (sha1_sum m) = 20"
  by (simp add: sha1_sum_def Let_def length_concat split: prod.splits)

lemma length_concat_pairs: "length (concat (map (\<lambda>b. [f b, g b]) xs)) = 2 * length xs"
  by (induction xs) auto

lemma length_sha1_hex [simp]: "length (sha1_hex m) = 40"
  by (simp add: sha1_hex_def length_concat_pairs)

lemma sha1_bytes: "b \<in> set (sha1_sum m) \<Longrightarrow> 0 \<le> b \<and> b < 256"
  by (auto simp: sha1_sum_def be_bytes_def Let_def split: prod.splits)

lemma hex_digit_not_dot: "d < 16 \<Longrightarrow> 0 \<le> d \<Longrightarrow> hex_digit d \<noteq> CHR ''.''"
proof -
  assume "d < 16"
  moreover assume "0 \<le> d"
  ultimately have "(of_char (hex_digit d) :: int) = (if d < 10 then 48 + d else 87 + d)"
    by (simp add: hex_digit_def)
  with \<open>0 \<le> d\<close> show ?thesis by (auto split: if_splits)
qed

lemma sha1_hex_no_dot: "CHR ''.'' \<notin> set (sha1_hex m)"
proof
  assume "CHR ''.'' \<in> set (sha1_hex m)"
  then obtain b where b: "b \<in> set (sha1_sum m)"
    and dot: "CHR ''.'' = hex_digit (b div 16) \<or> CHR ''.'' = hex_digit (b mod 16)"
    by (auto simp: sha1_hex_def)
  have "b div 16 < 16 \<and> 0 \<le> b div 16 \<and> b mod 16 < 16 \<and> 0 \<le> b mod 16"
    using sha1_bytes [OF b] by auto
  with dot hex_digit_not_dot show False by metis
qed

end
