(* ===== verification/CsResources.thy ===== *)
theory CsResources
  imports Routes IstioKinds Sha1
begin

text \<open>
  The Istio resources that \<^verbatim>\<open>controllers/configuredservice\<close> builds from a ConfiguredService. A
  builder that would dereference a nil pointer (\<open>GlobalPolicy\<close>, the port of an instance) has no
  value.
\<close>

section \<open>Labels\<close>

text \<open>To match the limit on the length of labels, a long name is replaced by its SHA-1 digest.\<close>

definition cs_truncated :: "string \<Rightarrow> string" where
  "cs_truncated s = (if 62 < length s then sha1_hex s else TrimChar (CHR ''.'') s)"

definition cs_labels :: "Reconciler \<Rightarrow> ConfiguredService \<Rightarrow> labels" where
  "cs_labels r cs = [(op_SelectLabel (rc_Opt r), cs_truncated (cs_OriginalName (cs_Spec cs)))]"

text \<open>The list options with which the controller finds the resources of a service.\<close>

definition cs_selector :: "Reconciler \<Rightarrow> ConfiguredService \<Rightarrow> list_options" where
  "cs_selector r cs = \<lparr>lo_Namespace = om_Namespace (cs_Meta cs), lo_MatchLabels = cs_labels r cs,
     lo_MatchFields = []\<rparr>"

definition cs_meta :: "Reconciler \<Rightarrow> ConfiguredService \<Rightarrow> ObjectMeta" where
  "cs_meta r cs = new_meta (FormatToDNS1123 (om_Name (cs_Meta cs))) (om_Namespace (cs_Meta cs)) (cs_labels r cs)"

section \<open>VirtualService\<close>

text \<open>Timeout and retries come from the labels of the first instance.\<close>

definition cs_instance_policy :: "Instance list \<Rightarrow> string \<times> int64" where
  "cs_instance_policy instances =
     (case instances of
        [] \<Rightarrow> ([], 0)
      | ins # _ \<Rightarrow>
          (lookup_zero [] (in_Labels ins) ''timeout'',
           case map_of (in_Labels ins) ''retries'' of
             None \<Rightarrow> 0 | Some retriesStr \<Rightarrow> word_of_int (fst (ParseInt retriesStr 64))))"

definition cs_buildHTTPRoute ::
  "Reconciler \<Rightarrow> ConfiguredService \<Rightarrow> Subset \<Rightarrow> Subset list \<Rightarrow> HTTPRoute option" where
  "cs_buildHTTPRoute r cs sub actualSubsets =
     (let host = om_Name (cs_Meta cs);
          buildRoutes =
            (if ss_IsCanary sub \<and> \<not> Subset_In sub actualSubsets then canary_routes host actualSubsets
             else if \<not> ss_IsCanary sub \<and> \<not> Subset_In sub actualSubsets
               then normal_routes host sub actualSubsets
             else defaultDestination host (ss_Name sub));
          (timeout, retries) = cs_instance_policy (cs_Instances (cs_Spec cs)) in
      Option.bind (getTimeout r timeout retries) (\<lambda>tmo.
      Option.bind (getRetries r timeout (ucast retries)) (\<lambda>rty.
      Some \<lparr>hr_Name = httpRouteName @ ''-'' @ ss_Name sub, hr_Match = [route_match r sub],
            hr_Route = buildRoutes, hr_Timeout = tmo, hr_Retries = Some rty\<rparr>)))"

definition cs_buildDefaultRoute :: "Reconciler \<Rightarrow> ConfiguredService \<Rightarrow> HTTPRoute" where
  "cs_buildDefaultRoute r cs = buildDefaultRoute r (om_Name (cs_Meta cs))"

definition cs_buildVirtualService ::
  "Reconciler \<Rightarrow> ConfiguredService \<Rightarrow> Subset list \<Rightarrow> VirtualService option" where
  "cs_buildVirtualService r cs subsets =
     Option.bind
       (if 0 < length subsets
        then those (map (\<lambda>sub. cs_buildHTTPRoute r cs sub subsets) (mc_GlobalSubsets (mc_Spec (rc_MeshConfig r))))
        else Some [])
       (\<lambda>httpRoute.
     Some \<lparr>vs_Meta = cs_meta r cs,
           vs_Spec = \<lparr>vs_Hosts = [om_Name (cs_Meta cs)],
                      vs_Http = httpRoute @ [cs_buildDefaultRoute r cs], vs_Other = []\<rparr>\<rparr>)"

section \<open>DestinationRule\<close>

definition loadBalanceSimple :: string where "loadBalanceSimple = ''simple''"

definition lbMap :: "(string, SimpleLB) gomap" where
  "lbMap = [(''ROUND_ROBIN'', ROUND_ROBIN), (''LEAST_CONN'', LEAST_CONN), (''RANDOM'', RANDOM),
            (''PASSTHROUGH'', PASSTHROUGH)]"

definition getlb :: "string \<Rightarrow> SimpleLB" where
  "getlb s = (case map_of lbMap s of None \<Rightarrow> RANDOM | Some lb \<Rightarrow> lb)"

definition istio_subsets :: "Subset list \<Rightarrow> IstioSubset list" where
  "istio_subsets actualSubsets =
     map (\<lambda>sub. \<lparr>is_Name = ss_Name sub, is_Labels = ss_Labels sub,
            is_TrafficPolicy = map_option (\<lambda>p. \<lparr>tp_LoadBalancer =
              getlb (lookup_zero [] (po_LoadBalancer p) loadBalanceSimple)\<rparr>) (ss_Policy sub)\<rparr>)
       actualSubsets"

definition cs_buildDestinationRule ::
  "Reconciler \<Rightarrow> ConfiguredService \<Rightarrow> Subset list \<Rightarrow> DestinationRule option" where
  "cs_buildDestinationRule r cs actualSubsets =
     map_option (\<lambda>policy.
       \<lparr>dr_Meta = cs_meta r cs,
        dr_Spec = \<lparr>dr_Host = om_Name (cs_Meta cs),
          dr_TrafficPolicy = Some \<lparr>tp_LoadBalancer =
            getlb (lookup_zero [] (po_LoadBalancer policy) loadBalanceSimple)\<rparr>,
          dr_Subsets = istio_subsets actualSubsets, dr_Other = []\<rparr>\<rparr>)
       (mc_GlobalPolicy (mc_Spec (rc_MeshConfig r)))"

section \<open>ServiceEntry\<close>

definition findPorts :: "ConfiguredService \<Rightarrow> IstioPort list" where
  "findPorts svc = [\<lparr>ip_Number = 20882, ip_Protocol = ''HTTP'', ip_Name = ''dubbo-http''\<rparr>]"

definition cs_buildServiceEntry :: "Reconciler \<Rightarrow> ConfiguredService \<Rightarrow> ServiceEntry" where
  "cs_buildServiceEntry r svc =
     \<lparr>se_Meta = cs_meta r svc,
      se_Spec = \<lparr>se_Hosts = [om_Name (cs_Meta svc)], se_Ports = findPorts svc,
        se_Location = MESH_INTERNAL, se_Resolution = STATIC,
        se_WorkloadSelector = [(op_SelectLabel (rc_Opt r), om_Name (cs_Meta svc))], se_Other = []\<rparr>\<rparr>"

section \<open>WorkloadEntry\<close>

text \<open>\<open>fmt.Sprintf("%s.%s.%d", name, host, port)\<close>\<close>

definition workload_name :: "string \<Rightarrow> string \<Rightarrow> Port \<Rightarrow> string" where
  "workload_name name host port = name @ ''.'' @ host @ ''.'' @ show_nat (unat (pt_Number port))"

definition cs_workload_labels :: "Reconciler \<Rightarrow> ConfiguredService \<Rightarrow> Instance \<Rightarrow> labels" where
  "cs_workload_labels r svc ins =
     fold (\<lambda>k lbls.
         fold (\<lambda>(rk, rv) lbls.
             if k = rv then map_put k (lookup_zero [] (in_Labels ins) rk) lbls else lbls)
           (mc_MeshLabelsRemap (mc_Spec (rc_MeshConfig r))) lbls)
       (mc_WorkloadEntryLabelKeys (mc_Spec (rc_MeshConfig r)))
       [(op_SelectLabel (rc_Opt r), om_Name (cs_Meta svc))]"

definition cs_buildWorkloadEntry :: "Reconciler \<Rightarrow> ConfiguredService \<Rightarrow> Instance \<Rightarrow> WorkloadEntry option" where
  "cs_buildWorkloadEntry r svc ins =
     map_option (\<lambda>port.
       \<lparr>we_Meta = new_meta
           (FormatToDNS1123 (workload_name (om_Name (cs_Meta svc)) (in_Host ins) port))
           (om_Namespace (cs_Meta svc)) (cs_labels r svc),
        we_Spec = \<lparr>we_Address = in_Host ins, we_Ports = [(pt_Name port, pt_Number port)],
          we_Labels = cs_workload_labels r svc ins, we_Weight = 0, we_Other = []\<rparr>\<rparr>)
       (in_Port ins)"

section \<open>Sidecar\<close>

definition cs_buildDefaultEgress :: "Reconciler \<Rightarrow> EgressListener list" where
  "cs_buildDefaultEgress r =
     (let defaults = mc_SidecarDefaultHosts (mc_Spec (rc_MeshConfig r)) in
      [\<lparr>eg_Hosts = (if 0 < length defaults then defaults else [''istio-system/*''])\<rparr>])"

definition cs_buildSidecar :: "Reconciler \<Rightarrow> string \<Rightarrow> string \<Rightarrow> Sidecar" where
  "cs_buildSidecar r ns appName =
     \<lparr>sd_Meta = new_meta appName ns [],
      sd_Spec = \<lparr>sd_WorkloadSelector = [(mc_SidecarSelectLabel (mc_Spec (rc_MeshConfig r)), appName)],
        sd_Egress = cs_buildDefaultEgress r, sd_OutboundTrafficPolicy = ALLOW_ANY, sd_Other = []\<rparr>\<rparr>"

fun getAppName_loop :: "string \<Rightarrow> Instance list \<Rightarrow> string" where
  "getAppName_loop label [] = []"
| "getAppName_loop label (ep # eps) =
     (case map_of (in_Labels ep) label of Some appName \<Rightarrow> appName | None \<Rightarrow> getAppName_loop label eps)"

definition cs_getAppName :: "Reconciler \<Rightarrow> ConfiguredService \<Rightarrow> string" where
  "cs_getAppName r cs =
     getAppName_loop (mc_SidecarSelectLabel (mc_Spec (rc_MeshConfig r))) (cs_Instances (cs_Spec cs))"

section \<open>Facts\<close>

lemma dropWhile_hd: "dropWhile P xs \<noteq> [] \<Longrightarrow> \<not> P (hd (dropWhile P xs))"
  by (induction xs) auto

lemma hd_rev_dropWhile:
  assumes "rev (dropWhile P (rev ys)) \<noteq> []"
  shows "hd (rev (dropWhile P (rev ys))) = hd ys"
proof -
  have "ys = rev (dropWhile P (rev ys)) @ rev (takeWhile P (rev ys))"
    by (metis rev_append rev_rev_ident takeWhile_dropWhile_id)
  with assms show ?thesis by (metis hd_append2)
qed

lemma TrimChar_ends:
  assumes "TrimChar c s \<noteq> []"
  shows "hd (TrimChar c s) \<noteq> c" and "last (TrimChar c s) \<noteq> c"
proof -
  define ys where "ys = dropWhile (\<lambda>x. x = c) s"
  have t: "TrimChar c s = rev (dropWhile (\<lambda>x. x = c) (rev ys))" by (simp add: TrimChar_def ys_def)
  have "last (TrimChar c s) = hd (dropWhile (\<lambda>x. x = c) (rev ys))"
    using assms by (simp add: t last_rev)
  then show "last (TrimChar c s) \<noteq> c"
    using dropWhile_hd [of "\<lambda>x. x = c" "rev ys"] assms t by auto
  have "hd (TrimChar c s) = hd ys" using hd_rev_dropWhile [of "\<lambda>x. x = c" ys] assms t by simp
  moreover have "ys \<noteq> []" using assms t by auto
  ultimately show "hd (TrimChar c s) \<noteq> c"
    using dropWhile_hd [of "\<lambda>x. x = c" s] by (simp add: ys_def)
qed

lemma length_cs_truncated: "length (cs_truncated s) \<le> 62"
  using length_TrimChar [of "CHR ''.''" s] by (simp add: cs_truncated_def)

text \<open>
  The value under which a service's resources are labelled fits Kubernetes' limit of 63
  characters and neither starts nor ends with a dot, whatever the length of the service name.
\<close>

theorem cs_truncated_label:
  "length (cs_truncated s) \<le> 62 \<and>
   (cs_truncated s = [] \<or> hd (cs_truncated s) \<noteq> CHR ''.'' \<and> last (cs_truncated s) \<noteq> CHR ''.'')"
proof (cases "62 < length s")
  case True
  have "length (sha1_hex s) = 40" by simp
  then have "sha1_hex s \<noteq> []" by force
  then show ?thesis
    using sha1_hex_no_dot [of s] True length_cs_truncated [of s]
    by (auto simp: cs_truncated_def dest: hd_in_set last_in_set)
next
  case False
  then show ?thesis
    using length_cs_truncated [of s] TrimChar_ends [of "CHR ''.''" s] by (auto simp: cs_truncated_def)
qed

lemma cs_selects_own: "om_Namespace m = om_Namespace (cs_Meta cs) \<Longrightarrow> om_Labels m = cs_labels r cs \<Longrightarrow>
    selects (cs_selector r cs) m"
  by (simp add: selects_def cs_selector_def cs_labels_def)

lemma cs_meta_simps [simp]:
  "om_Name (cs_meta r cs) = FormatToDNS1123 (om_Name (cs_Meta cs))"
  "om_Namespace (cs_meta r cs) = om_Namespace (cs_Meta cs)" "om_Labels (cs_meta r cs) = cs_labels r cs"
  "om_Finalizers (cs_meta r cs) = []"
  by (simp_all add: cs_meta_def)

lemma cs_selector_simps [simp]:
  "lo_Namespace (cs_selector r cs) = om_Namespace (cs_Meta cs)" "lo_MatchFields (cs_selector r cs) = []"
  by (simp_all add: cs_selector_def)

text \<open>The labels of a workload entry, for a remap that gives no two labels the same name.\<close>

lemma remap_one_key:
  assumes "distinct (map snd remap)"
  shows "map_of (fold (\<lambda>(rk, rv) lbls. if k = rv then map_put k (f rk) lbls else lbls) remap lbls) k' =
    (case (if k' = k then map_of (map prod.swap remap) k else None) of
       Some rk \<Rightarrow> Some (f rk) | None \<Rightarrow> map_of lbls k')"
  using assms
proof (induction remap arbitrary: lbls)
  case (Cons p remap)
  obtain rk rv where p: "p = (rk, rv)" by (cases p)
  from Cons.prems p have "rv \<notin> fst ` set (map prod.swap remap)" by (auto simp: image_image)
  then have "map_of (map prod.swap remap) rv = None" by (simp add: map_of_eq_None_iff)
  with Cons p show ?case by (auto split: option.splits)
qed simp

lemma remap_keys:
  assumes "distinct (map snd remap)"
  shows "map_of (fold (\<lambda>k lbls. fold (\<lambda>(rk, rv) lbls. if k = rv then map_put k (f rk) lbls else lbls)
      remap lbls) keys lbls) k' =
    (case (if k' \<in> set keys then map_of (map prod.swap remap) k' else None) of
       Some rk \<Rightarrow> Some (f rk) | None \<Rightarrow> map_of lbls k')"
proof (induction keys arbitrary: lbls)
  case (Cons k keys)
  show ?case by (simp add: Cons.IH remap_one_key [OF assms] split: option.splits)
qed simp

text \<open>
  The labels of a workload entry are the selector label and, for every configured key that some
  instance label is remapped to, the value of that instance label (the empty string when the
  instance lacks it), provided no two labels are remapped to the same key; then the order in which
  the remap is ranged over does not matter.
\<close>

theorem cs_workload_labels_spec:
  assumes "distinct (map snd (mc_MeshLabelsRemap (mc_Spec (rc_MeshConfig r))))"
  shows "map_of (cs_workload_labels r svc ins) k =
    (case (if k \<in> set (mc_WorkloadEntryLabelKeys (mc_Spec (rc_MeshConfig r)))
           then map_of (map prod.swap (mc_MeshLabelsRemap (mc_Spec (rc_MeshConfig r)))) k else None) of
       Some rk \<Rightarrow> Some (lookup_zero [] (in_Labels ins) rk)
     | None \<Rightarrow> if k = op_SelectLabel (rc_Opt r) then Some (om_Name (cs_Meta svc)) else None)"
  by (simp add: cs_workload_labels_def remap_keys [OF assms] split: option.splits)

section \<open>A concrete mesh\<close>

text \<open>The configuration and the service the witnesses of the controllers use.\<close>

definition demo_subset :: "string \<Rightarrow> bool \<Rightarrow> Subset" where
  "demo_subset name canary = \<lparr>ss_Name = name, ss_Labels = [(''group'', name)], ss_Policy = None, ss_IsCanary = canary\<rparr>"

definition demo_policy :: Policy where
  "demo_policy = \<lparr>po_LoadBalancer = [(''simple'', ''ROUND_ROBIN'')], po_MaxConnections = 0,
     po_Timeout = ''2s'', po_MaxRetries = 3\<rparr>"

definition demo_mesh :: MeshConfig where
  "demo_mesh = \<lparr>mc_Meta = new_meta ''sym-meshconfig'' ''sym-admin'' [],
     mc_Spec = \<lparr>mc_MatchSourceLabelKeys = [''group''], mc_WorkloadEntryLabelKeys = [''group''],
       mc_MeshLabelsRemap = [(''flag'', ''group'')], mc_ExtractedLabels = [],
       mc_SidecarSelectLabel = ''app'', mc_SidecarDefaultHosts = [],
       mc_GlobalSubsets = [demo_subset ''gray'' True, demo_subset ''blue'' False],
       mc_GlobalPolicy = Some demo_policy\<rparr>\<rparr>"

definition demo_rc :: Reconciler where
  "demo_rc = \<lparr>rc_Opt = DefaultControllerOption, rc_MeshConfig = demo_mesh\<rparr>"

definition demo_instance :: Instance where
  "demo_instance = \<lparr>in_Host = ''10.0.0.1'', in_Labels = [(''flag'', ''blue''), (''app'', ''shop'')],
     in_Port = Some \<lparr>pt_Name = ''dubbo'', pt_Protocol = ''DUBBO'', pt_Number = 20880\<rparr>, in_Weight = 100\<rparr>"

definition demo_cs :: ConfiguredService where
  "demo_cs = \<lparr>cs_Meta = new_meta ''svc'' ''mesh'' [],
     cs_Spec = \<lparr>cs_OriginalName = ''svc'', cs_Instances = [demo_instance], cs_MeshConfigGeneration = 0\<rparr>\<rparr>"

definition demo_sc :: ServiceConfig where
  "demo_sc = \<lparr>sc_Meta = new_meta ''svc'' ''mesh'' [],
     sc_Spec = \<lparr>sc_OriginalName = ''svc'', sc_Policy = Some demo_policy,
       sc_Route = [\<lparr>ds_Subset = ''blue'', ds_Weight = 100\<rparr>],
       sc_Instances = [\<lparr>ic_Host = ''10.0.0.1'',
         ic_Port = Some \<lparr>pt_Name = ''dubbo'', pt_Protocol = ''DUBBO'', pt_Number = 20880\<rparr>, ic_Weight = 40\<rparr>],
       sc_RerouteOption = None, sc_CanaryRerouteOption = None, sc_MeshConfigGeneration = 0\<rparr>,
     sc_Status = empty_status\<rparr>"

lemmas demo_defs = demo_subset_def demo_policy_def demo_mesh_def demo_rc_def demo_instance_def demo_cs_def
  demo_sc_def
  DefaultControllerOption_def

theorem cs_workload_labels_spec_witness:
  "map_of (cs_workload_labels demo_rc demo_cs demo_instance) ''group'' = Some ''blue''"
  by (subst cs_workload_labels_spec) (simp_all add: demo_defs lookup_zero_def)

end
