(* ===== verification/ApiServer.thy ===== *)
theory ApiServer
  imports IstioKinds
begin

text \<open>
  The abstract state of the cluster, the stored objects of every kind, and the hypothesis under which
  the controllers are proved correct: the client behaves as documented on every kind and a call on
  one kind leaves the others alone. A \<open>view\<close> reads the cluster out of the world of the client.
\<close>

record cluster =
  c_MeshConfig :: "nsname \<Rightarrow> MeshConfig option"
  c_ConfiguredService :: "nsname \<Rightarrow> ConfiguredService option"
  c_ServiceConfig :: "nsname \<Rightarrow> ServiceConfig option"
  c_ServiceAccessor :: "nsname \<Rightarrow> ServiceAccessor option"
  c_AppMeshConfig :: "nsname \<Rightarrow> AppMeshConfig option"
  c_VirtualService :: "nsname \<Rightarrow> VirtualService option"
  c_DestinationRule :: "nsname \<Rightarrow> DestinationRule option"
  c_ServiceEntry :: "nsname \<Rightarrow> ServiceEntry option"
  c_WorkloadEntry :: "nsname \<Rightarrow> WorkloadEntry option"
  c_Sidecar :: "nsname \<Rightarrow> Sidecar option"
  c_Pod :: "nsname \<Rightarrow> Pod option"
  c_Deployment :: "nsname \<Rightarrow> Deployment option"

definition api_ok :: "'w api \<Rightarrow> ('w \<Rightarrow> cluster) \<Rightarrow> bool" where
  "api_ok api view \<longleftrightarrow>
     kube_ok mc_kind (ap_MeshConfig api) (\<lambda>w. c_MeshConfig (view w))
       (\<lambda>w. (view w)\<lparr>c_MeshConfig := Map.empty\<rparr>) \<and>
     kube_ok cs_kind (ap_ConfiguredService api) (\<lambda>w. c_ConfiguredService (view w))
       (\<lambda>w. (view w)\<lparr>c_ConfiguredService := Map.empty\<rparr>) \<and>
     kube_ok sc_kind (ap_ServiceConfig api) (\<lambda>w. c_ServiceConfig (view w))
       (\<lambda>w. (view w)\<lparr>c_ServiceConfig := Map.empty\<rparr>) \<and>
     kube_ok sa_kind (ap_ServiceAccessor api) (\<lambda>w. c_ServiceAccessor (view w))
       (\<lambda>w. (view w)\<lparr>c_ServiceAccessor := Map.empty\<rparr>) \<and>
     kube_ok amc_kind (ap_AppMeshConfig api) (\<lambda>w. c_AppMeshConfig (view w))
       (\<lambda>w. (view w)\<lparr>c_AppMeshConfig := Map.empty\<rparr>) \<and>
     kube_ok vs_kind (ap_VirtualService api) (\<lambda>w. c_VirtualService (view w))
       (\<lambda>w. (view w)\<lparr>c_VirtualService := Map.empty\<rparr>) \<and>
     kube_ok dr_kind (ap_DestinationRule api) (\<lambda>w. c_DestinationRule (view w))
       (\<lambda>w. (view w)\<lparr>c_DestinationRule := Map.empty\<rparr>) \<and>
     kube_ok se_kind (ap_ServiceEntry api) (\<lambda>w. c_ServiceEntry (view w))
       (\<lambda>w. (view w)\<lparr>c_ServiceEntry := Map.empty\<rparr>) \<and>
     kube_ok we_kind (ap_WorkloadEntry api) (\<lambda>w. c_WorkloadEntry (view w))
       (\<lambda>w. (view w)\<lparr>c_WorkloadEntry := Map.empty\<rparr>) \<and>
     kube_ok sd_kind (ap_Sidecar api) (\<lambda>w. c_Sidecar (view w))
       (\<lambda>w. (view w)\<lparr>c_Sidecar := Map.empty\<rparr>) \<and>
     kube_ok pod_kind (ap_Pod api) (\<lambda>w. c_Pod (view w))
       (\<lambda>w. (view w)\<lparr>c_Pod := Map.empty\<rparr>) \<and>
     kube_ok dep_kind (ap_Deployment api) (\<lambda>w. c_Deployment (view w))
       (\<lambda>w. (view w)\<lparr>c_Deployment := Map.empty\<rparr>) \<and>
     (\<forall>kind. setref_ok (ap_SetControllerReference api kind))"

lemma api_ok_kinds:
  assumes "api_ok api view"
  shows "kube_ok mc_kind (ap_MeshConfig api) (\<lambda>w. c_MeshConfig (view w))
           (\<lambda>w. (view w)\<lparr>c_MeshConfig := Map.empty\<rparr>)"
    and "kube_ok cs_kind (ap_ConfiguredService api) (\<lambda>w. c_ConfiguredService (view w))
           (\<lambda>w. (view w)\<lparr>c_ConfiguredService := Map.empty\<rparr>)"
    and "kube_ok sc_kind (ap_ServiceConfig api) (\<lambda>w. c_ServiceConfig (view w))
           (\<lambda>w. (view w)\<lparr>c_ServiceConfig := Map.empty\<rparr>)"
    and "kube_ok sa_kind (ap_ServiceAccessor api) (\<lambda>w. c_ServiceAccessor (view w))
           (\<lambda>w. (view w)\<lparr>c_ServiceAccessor := Map.empty\<rparr>)"
    and "kube_ok amc_kind (ap_AppMeshConfig api) (\<lambda>w. c_AppMeshConfig (view w))
           (\<lambda>w. (view w)\<lparr>c_AppMeshConfig := Map.empty\<rparr>)"
    and "kube_ok vs_kind (ap_VirtualService api) (\<lambda>w. c_VirtualService (view w))
           (\<lambda>w. (view w)\<lparr>c_VirtualService := Map.empty\<rparr>)"
    and "kube_ok dr_kind (ap_DestinationRule api) (\<lambda>w. c_DestinationRule (view w))
           (\<lambda>w. (view w)\<lparr>c_DestinationRule := Map.empty\<rparr>)"
    and "kube_ok se_kind (ap_ServiceEntry api) (\<lambda>w. c_ServiceEntry (view w))
           (\<lambda>w. (view w)\<lparr>c_ServiceEntry := Map.empty\<rparr>)"
    and "kube_ok we_kind (ap_WorkloadEntry api) (\<lambda>w. c_WorkloadEntry (view w))
           (\<lambda>w. (view w)\<lparr>c_WorkloadEntry := Map.empty\<rparr>)"
    and "kube_ok sd_kind (ap_Sidecar api) (\<lambda>w. c_Sidecar (view w))
           (\<lambda>w. (view w)\<lparr>c_Sidecar := Map.empty\<rparr>)"
    and "kube_ok pod_kind (ap_Pod api) (\<lambda>w. c_Pod (view w))
           (\<lambda>w. (view w)\<lparr>c_Pod := Map.empty\<rparr>)"
    and "kube_ok dep_kind (ap_Deployment api) (\<lambda>w. c_Deployment (view w))
           (\<lambda>w. (view w)\<lparr>c_Deployment := Map.empty\<rparr>)"
    and "setref_ok (ap_SetControllerReference api kind)"
  using assms unfolding api_ok_def by blast+

lemmas api_ok_setref = api_ok_kinds(13)
lemmas api_ok_mc = api_ok_kinds(1)
lemmas api_ok_cs = api_ok_kinds(2)
lemmas api_ok_sc = api_ok_kinds(3)
lemmas api_ok_sa = api_ok_kinds(4)
lemmas api_ok_amc = api_ok_kinds(5)
lemmas api_ok_vs = api_ok_kinds(6)
lemmas api_ok_dr = api_ok_kinds(7)
lemmas api_ok_se = api_ok_kinds(8)
lemmas api_ok_we = api_ok_kinds(9)
lemmas api_ok_sd = api_ok_kinds(10)
lemmas api_ok_pod = api_ok_kinds(11)
lemmas api_ok_dep = api_ok_kinds(12)

text \<open>What a call on one kind leaves of the rest of the cluster.\<close>

lemma only_changed:
  shows "(x :: cluster)\<lparr>c_MeshConfig := Map.empty\<rparr> = y\<lparr>c_MeshConfig := Map.empty\<rparr> \<longleftrightarrow> x = y\<lparr>c_MeshConfig := c_MeshConfig x\<rparr>"
    and "(x :: cluster)\<lparr>c_ConfiguredService := Map.empty\<rparr> = y\<lparr>c_ConfiguredService := Map.empty\<rparr> \<longleftrightarrow> x = y\<lparr>c_ConfiguredService := c_ConfiguredService x\<rparr>"
    and "(x :: cluster)\<lparr>c_ServiceConfig := Map.empty\<rparr> = y\<lparr>c_ServiceConfig := Map.empty\<rparr> \<longleftrightarrow> x = y\<lparr>c_ServiceConfig := c_ServiceConfig x\<rparr>"
    and "(x :: cluster)\<lparr>c_ServiceAccessor := Map.empty\<rparr> = y\<lparr>c_ServiceAccessor := Map.empty\<rparr> \<longleftrightarrow> x = y\<lparr>c_ServiceAccessor := c_ServiceAccessor x\<rparr>"
    and "(x :: cluster)\<lparr>c_AppMeshConfig := Map.empty\<rparr> = y\<lparr>c_AppMeshConfig := Map.empty\<rparr> \<longleftrightarrow> x = y\<lparr>c_AppMeshConfig := c_AppMeshConfig x\<rparr>"
    and "(x :: cluster)\<lparr>c_VirtualService := Map.empty\<rparr> = y\<lparr>c_VirtualService := Map.empty\<rparr> \<longleftrightarrow> x = y\<lparr>c_VirtualService := c_VirtualService x\<rparr>"
    and "(x :: cluster)\<lparr>c_DestinationRule := Map.empty\<rparr> = y\<lparr>c_DestinationRule := Map.empty\<rparr> \<longleftrightarrow> x = y\<lparr>c_DestinationRule := c_DestinationRule x\<rparr>"
    and "(x :: cluster)\<lparr>c_ServiceEntry := Map.empty\<rparr> = y\<lparr>c_ServiceEntry := Map.empty\<rparr> \<longleftrightarrow> x = y\<lparr>c_ServiceEntry := c_ServiceEntry x\<rparr>"
    and "(x :: cluster)\<lparr>c_WorkloadEntry := Map.empty\<rparr> = y\<lparr>c_WorkloadEntry := Map.empty\<rparr> \<longleftrightarrow> x = y\<lparr>c_WorkloadEntry := c_WorkloadEntry x\<rparr>"
    and "(x :: cluster)\<lparr>c_Sidecar := Map.empty\<rparr> = y\<lparr>c_Sidecar := Map.empty\<rparr> \<longleftrightarrow> x = y\<lparr>c_Sidecar := c_Sidecar x\<rparr>"
    and "(x :: cluster)\<lparr>c_Pod := Map.empty\<rparr> = y\<lparr>c_Pod := Map.empty\<rparr> \<longleftrightarrow> x = y\<lparr>c_Pod := c_Pod x\<rparr>"
    and "(x :: cluster)\<lparr>c_Deployment := Map.empty\<rparr> = y\<lparr>c_Deployment := Map.empty\<rparr> \<longleftrightarrow> x = y\<lparr>c_Deployment := c_Deployment x\<rparr>"
  by (cases x; cases y; auto)+

lemma only_changed_trans:
  shows "(x :: cluster) = y\<lparr>c_MeshConfig := c_MeshConfig x\<rparr> \<Longrightarrow> y = z\<lparr>c_MeshConfig := c_MeshConfig y\<rparr> \<Longrightarrow> x = z\<lparr>c_MeshConfig := c_MeshConfig x\<rparr>"
    and "(x :: cluster) = y\<lparr>c_ConfiguredService := c_ConfiguredService x\<rparr> \<Longrightarrow> y = z\<lparr>c_ConfiguredService := c_ConfiguredService y\<rparr> \<Longrightarrow> x = z\<lparr>c_ConfiguredService := c_ConfiguredService x\<rparr>"
    and "(x :: cluster) = y\<lparr>c_ServiceConfig := c_ServiceConfig x\<rparr> \<Longrightarrow> y = z\<lparr>c_ServiceConfig := c_ServiceConfig y\<rparr> \<Longrightarrow> x = z\<lparr>c_ServiceConfig := c_ServiceConfig x\<rparr>"
    and "(x :: cluster) = y\<lparr>c_ServiceAccessor := c_ServiceAccessor x\<rparr> \<Longrightarrow> y = z\<lparr>c_ServiceAccessor := c_ServiceAccessor y\<rparr> \<Longrightarrow> x = z\<lparr>c_ServiceAccessor := c_ServiceAccessor x\<rparr>"
    and "(x :: cluster) = y\<lparr>c_AppMeshConfig := c_AppMeshConfig x\<rparr> \<Longrightarrow> y = z\<lparr>c_AppMeshConfig := c_AppMeshConfig y\<rparr> \<Longrightarrow> x = z\<lparr>c_AppMeshConfig := c_AppMeshConfig x\<rparr>"
    and "(x :: cluster) = y\<lparr>c_VirtualService := c_VirtualService x\<rparr> \<Longrightarrow> y = z\<lparr>c_VirtualService := c_VirtualService y\<rparr> \<Longrightarrow> x = z\<lparr>c_VirtualService := c_VirtualService x\<rparr>"
    and "(x :: cluster) = y\<lparr>c_DestinationRule := c_DestinationRule x\<rparr> \<Longrightarrow> y = z\<lparr>c_DestinationRule := c_DestinationRule y\<rparr> \<Longrightarrow> x = z\<lparr>c_DestinationRule := c_DestinationRule x\<rparr>"
    and "(x :: cluster) = y\<lparr>c_ServiceEntry := c_ServiceEntry x\<rparr> \<Longrightarrow> y = z\<lparr>c_ServiceEntry := c_ServiceEntry y\<rparr> \<Longrightarrow> x = z\<lparr>c_ServiceEntry := c_ServiceEntry x\<rparr>"
    and "(x :: cluster) = y\<lparr>c_WorkloadEntry := c_WorkloadEntry x\<rparr> \<Longrightarrow> y = z\<lparr>c_WorkloadEntry := c_WorkloadEntry y\<rparr> \<Longrightarrow> x = z\<lparr>c_WorkloadEntry := c_WorkloadEntry x\<rparr>"
    and "(x :: cluster) = y\<lparr>c_Sidecar := c_Sidecar x\<rparr> \<Longrightarrow> y = z\<lparr>c_Sidecar := c_Sidecar y\<rparr> \<Longrightarrow> x = z\<lparr>c_Sidecar := c_Sidecar x\<rparr>"
    and "(x :: cluster) = y\<lparr>c_Pod := c_Pod x\<rparr> \<Longrightarrow> y = z\<lparr>c_Pod := c_Pod y\<rparr> \<Longrightarrow> x = z\<lparr>c_Pod := c_Pod x\<rparr>"
    and "(x :: cluster) = y\<lparr>c_Deployment := c_Deployment x\<rparr> \<Longrightarrow> y = z\<lparr>c_Deployment := c_Deployment y\<rparr> \<Longrightarrow> x = z\<lparr>c_Deployment := c_Deployment x\<rparr>"
  unfolding only_changed [symmetric] by simp_all

text \<open>Reading leaves the whole cluster as it is.\<close>

lemma get_keeps_view:
  assumes "api_ok api view"
  shows "kGet (ap_MeshConfig api) k w = (r0, w') \<Longrightarrow> view w' = view w"
    and "kGet (ap_ConfiguredService api) k w = (r1, w') \<Longrightarrow> view w' = view w"
    and "kGet (ap_ServiceConfig api) k w = (r2, w') \<Longrightarrow> view w' = view w"
    and "kGet (ap_ServiceAccessor api) k w = (r3, w') \<Longrightarrow> view w' = view w"
    and "kGet (ap_AppMeshConfig api) k w = (r4, w') \<Longrightarrow> view w' = view w"
    and "kGet (ap_VirtualService api) k w = (r5, w') \<Longrightarrow> view w' = view w"
    and "kGet (ap_DestinationRule api) k w = (r6, w') \<Longrightarrow> view w' = view w"
    and "kGet (ap_ServiceEntry api) k w = (r7, w') \<Longrightarrow> view w' = view w"
    and "kGet (ap_WorkloadEntry api) k w = (r8, w') \<Longrightarrow> view w' = view w"
    and "kGet (ap_Sidecar api) k w = (r9, w') \<Longrightarrow> view w' = view w"
    and "kGet (ap_Pod api) k w = (r10, w') \<Longrightarrow> view w' = view w"
    and "kGet (ap_Deployment api) k w = (r11, w') \<Longrightarrow> view w' = view w"
proof -
  show "view w' = view w" if "kGet (ap_MeshConfig api) k w = (r0, w')"
    using kube_ok_getD(1,2) [OF api_ok_mc [OF assms] that] unfolding only_changed by simp
  show "view w' = view w" if "kGet (ap_ConfiguredService api) k w = (r1, w')"
    using kube_ok_getD(1,2) [OF api_ok_cs [OF assms] that] unfolding only_changed by simp
  show "view w' = view w" if "kGet (ap_ServiceConfig api) k w = (r2, w')"
    using kube_ok_getD(1,2) [OF api_ok_sc [OF assms] that] unfolding only_changed by simp
  show "view w' = view w" if "kGet (ap_ServiceAccessor api) k w = (r3, w')"
    using kube_ok_getD(1,2) [OF api_ok_sa [OF assms] that] unfolding only_changed by simp
  show "view w' = view w" if "kGet (ap_AppMeshConfig api) k w = (r4, w')"
    using kube_ok_getD(1,2) [OF api_ok_amc [OF assms] that] unfolding only_changed by simp
  show "view w' = view w" if "kGet (ap_VirtualService api) k w = (r5, w')"
    using kube_ok_getD(1,2) [OF api_ok_vs [OF assms] that] unfolding only_changed by simp
  show "view w' = view w" if "kGet (ap_DestinationRule api) k w = (r6, w')"
    using kube_ok_getD(1,2) [OF api_ok_dr [OF assms] that] unfolding only_changed by simp
  show "view w' = view w" if "kGet (ap_ServiceEntry api) k w = (r7, w')"
    using kube_ok_getD(1,2) [OF api_ok_se [OF assms] that] unfolding only_changed by simp
  show "view w' = view w" if "kGet (ap_WorkloadEntry api) k w = (r8, w')"
    using kube_ok_getD(1,2) [OF api_ok_we [OF assms] that] unfolding only_changed by simp
  show "view w' = view w" if "kGet (ap_Sidecar api) k w = (r9, w')"
    using kube_ok_getD(1,2) [OF api_ok_sd [OF assms] that] unfolding only_changed by simp
  show "view w' = view w" if "kGet (ap_Pod api) k w = (r10, w')"
    using kube_ok_getD(1,2) [OF api_ok_pod [OF assms] that] unfolding only_changed by simp
  show "view w' = view w" if "kGet (ap_Deployment api) k w = (r11, w')"
    using kube_ok_getD(1,2) [OF api_ok_dep [OF assms] that] unfolding only_changed by simp
qed

lemma list_keeps_view:
  assumes "api_ok api view"
  shows "kList (ap_MeshConfig api) lo w = (r0, w') \<Longrightarrow> view w' = view w"
    and "kList (ap_ConfiguredService api) lo w = (r1, w') \<Longrightarrow> view w' = view w"
    and "kList (ap_ServiceConfig api) lo w = (r2, w') \<Longrightarrow> view w' = view w"
    and "kList (ap_ServiceAccessor api) lo w = (r3, w') \<Longrightarrow> view w' = view w"
    and "kList (ap_AppMeshConfig api) lo w = (r4, w') \<Longrightarrow> view w' = view w"
    and "kList (ap_VirtualService api) lo w = (r5, w') \<Longrightarrow> view w' = view w"
    and "kList (ap_DestinationRule api) lo w = (r6, w') \<Longrightarrow> view w' = view w"
    and "kList (ap_ServiceEntry api) lo w = (r7, w') \<Longrightarrow> view w' = view w"
    and "kList (ap_WorkloadEntry api) lo w = (r8, w') \<Longrightarrow> view w' = view w"
    and "kList (ap_Sidecar api) lo w = (r9, w') \<Longrightarrow> view w' = view w"
    and "kList (ap_Pod api) lo w = (r10, w') \<Longrightarrow> view w' = view w"
    and "kList (ap_Deployment api) lo w = (r11, w') \<Longrightarrow> view w' = view w"
proof -
  show "view w' = view w" if "kList (ap_MeshConfig api) lo w = (r0, w')"
    using kube_ok_listD(1,2) [OF api_ok_mc [OF assms] that] unfolding only_changed by simp
  show "view w' = view w" if "kList (ap_ConfiguredService api) lo w = (r1, w')"
    using kube_ok_listD(1,2) [OF api_ok_cs [OF assms] that] unfolding only_changed by simp
  show "view w' = view w" if "kList (ap_ServiceConfig api) lo w = (r2, w')"
    using kube_ok_listD(1,2) [OF api_ok_sc [OF assms] that] unfolding only_changed by simp
  show "view w' = view w" if "kList (ap_ServiceAccessor api) lo w = (r3, w')"
    using kube_ok_listD(1,2) [OF api_ok_sa [OF assms] that] unfolding only_changed by simp
  show "view w' = view w" if "kList (ap_AppMeshConfig api) lo w = (r4, w')"
    using kube_ok_listD(1,2) [OF api_ok_amc [OF assms] that] unfolding only_changed by simp
  show "view w' = view w" if "kList (ap_VirtualService api) lo w = (r5, w')"
    using kube_ok_listD(1,2) [OF api_ok_vs [OF assms] that] unfolding only_changed by simp
  show "view w' = view w" if "kList (ap_DestinationRule api) lo w = (r6, w')"
    using kube_ok_listD(1,2) [OF api_ok_dr [OF assms] that] unfolding only_changed by simp
  show "view w' = view w" if "kList (ap_ServiceEntry api) lo w = (r7, w')"
    using kube_ok_listD(1,2) [OF api_ok_se [OF assms] that] unfolding only_changed by simp
  show "view w' = view w" if "kList (ap_WorkloadEntry api) lo w = (r8, w')"
    using kube_ok_listD(1,2) [OF api_ok_we [OF assms] that] unfolding only_changed by simp
  show "view w' = view w" if "kList (ap_Sidecar api) lo w = (r9, w')"
    using kube_ok_listD(1,2) [OF api_ok_sd [OF assms] that] unfolding only_changed by simp
  show "view w' = view w" if "kList (ap_Pod api) lo w = (r10, w')"
    using kube_ok_listD(1,2) [OF api_ok_pod [OF assms] that] unfolding only_changed by simp
  show "view w' = view w" if "kList (ap_Deployment api) lo w = (r11, w')"
    using kube_ok_listD(1,2) [OF api_ok_dep [OF assms] that] unfolding only_changed by simp
qed

section \<open>Reconcilers\<close>

text \<open>
  A controller threads the world and its own fields (the options and the mesh configuration it last
  read) through its calls.
\<close>

definition on_world :: "(Reconciler \<Rightarrow> ('w, 'a) call) \<Rightarrow> ('w \<times> Reconciler, 'a) call" where
  "on_world m s = (case s of (w, r) \<Rightarrow> case m r w of (x, w') \<Rightarrow> (x, (w', r)))"

definition getMeshConfig :: "'w api \<Rightarrow> ('w \<times> Reconciler, unit) call" where
  "getMeshConfig api s =
     (case s of (w, r) \<Rightarrow>
        (case kGet (ap_MeshConfig api)
                (op_MeshConfigNamespace (rc_Opt r), op_MeshConfigName (rc_Opt r)) w of
           (Inl e, w') \<Rightarrow> (Inl (Fail e), (w', r))
         | (Inr meshConfig, w') \<Rightarrow> (Inr (), (w', r\<lparr>rc_MeshConfig := meshConfig\<rparr>))))"

lemma on_world_run: "m r w = (x, w') \<Longrightarrow> on_world m (w, r) = (x, (w', r))"
  by (simp add: on_world_def)

lemma on_worldE:
  assumes "on_world m s = (x, s')"
  obtains w r w' where "s = (w, r)" and "s' = (w', r)" and "m r w = (x, w')"
  using assms by (cases s) (auto simp: on_world_def split: prod.splits)

lemma getMeshConfig_view:
  assumes "api_ok api view" and "getMeshConfig api (w, r) = (x, (w', r'))"
  shows "view w' = view w" and "rc_Opt r' = rc_Opt r"
    and "x = Inr u \<Longrightarrow> c_MeshConfig (view w) (op_MeshConfigNamespace (rc_Opt r), op_MeshConfigName (rc_Opt r))
           = Some (rc_MeshConfig r')"
proof -
  define k where "k = (op_MeshConfigNamespace (rc_Opt r), op_MeshConfigName (rc_Opt r))"
  obtain g w1 where get: "kGet (ap_MeshConfig api) k w = (g, w1)" by fastforce
  have v: "view w1 = view w" using get_keeps_view(1) [OF assms(1) get] .
  have "w' = w1" using assms(2) get by (auto simp: getMeshConfig_def k_def split: sum.splits)
  with v show "view w' = view w" by simp
  show "rc_Opt r' = rc_Opt r" using assms(2) get
    by (auto simp: getMeshConfig_def k_def split: sum.splits)
  show "c_MeshConfig (view w) (op_MeshConfigNamespace (rc_Opt r), op_MeshConfigName (rc_Opt r))
           = Some (rc_MeshConfig r')" if "x = Inr u"
    using assms(2) get that kube_ok_getD(3) [OF api_ok_mc [OF assms(1)] get]
    by (auto simp: getMeshConfig_def k_def split: sum.splits)
qed

end
