(* ===== verification/MemStore.thy ===== *)
theory MemStore
  imports ApiServer
begin

text \<open>
  An in-memory API server that satisfies \<open>kube_ok\<close> for every kind: it shows that the documented
  behaviour the properties assume can hold, and the witnesses run the controllers on it. It models
  no code of the repository.
\<close>

section \<open>One store\<close>

definition mem_objs :: "('o, 'z) kind_scheme \<Rightarrow> ('w \<Rightarrow> 'o list) \<Rightarrow> 'w \<Rightarrow> nsname \<Rightarrow> 'o option" where
  "mem_objs K sel w k = find (\<lambda>o1. okey K o1 = k) (sel w)"

definition set_version :: "('o, 'z) kind_scheme \<Rightarrow> nat \<Rightarrow> 'o \<Rightarrow> 'o" where
  "set_version K v o1 = k_SetMeta K ((k_Meta K o1)\<lparr>om_ResourceVersion := v\<rparr>) o1"

definition mem_get where
  "mem_get K sel k w = (case mem_objs K sel w k of None \<Rightarrow> Inl NotFound | Some o1 \<Rightarrow> Inr o1, w)"

definition mem_list where
  "mem_list K sel lo w =
     (Inr (remdups (filter (\<lambda>o1. mem_objs K sel w (okey K o1) = Some o1 \<and> selects lo (k_Meta K o1)) (sel w))), w)"

definition mem_create where
  "mem_create K sel upd o1 w =
     (case mem_objs K sel w (okey K o1) of
        Some _ \<Rightarrow> (Inl AlreadyExists, w)
      | None \<Rightarrow> (Inr (set_version K 1 o1), upd (\<lambda>xs. set_version K 1 o1 # xs) w))"

definition mem_update where
  "mem_update K sel upd o1 w =
     (case mem_objs K sel w (okey K o1) of
        None \<Rightarrow> (Inl NotFound, w)
      | Some cur \<Rightarrow>
          let v = om_ResourceVersion (k_Meta K cur); o' = set_version K (v + 1) o1 in
          if om_ResourceVersion (k_Meta K o1) \<noteq> 0 \<and> om_ResourceVersion (k_Meta K o1) \<noteq> v
          then (Inl Conflict, w) else (Inr o', upd (\<lambda>xs. o' # xs) w))"

text \<open>A status update keeps the rest of the stored object.\<close>

definition mem_status where
  "mem_status K sel upd st set_st o1 w =
     (case mem_objs K sel w (okey K o1) of
        None \<Rightarrow> (Inl NotFound, w)
      | Some cur \<Rightarrow>
          let v = om_ResourceVersion (k_Meta K cur); o' = set_version K (v + 1) (set_st (st o1) cur) in
          if om_ResourceVersion (k_Meta K o1) \<noteq> 0 \<and> om_ResourceVersion (k_Meta K o1) \<noteq> v
          then (Inl Conflict, w) else (Inr o', upd (\<lambda>xs. o' # xs) w))"

definition mem_delete where
  "mem_delete K sel upd o1 w =
     (case mem_objs K sel w (okey K o1) of
        None \<Rightarrow> (Inl NotFound, w)
      | Some cur \<Rightarrow>
          if om_Finalizers (k_Meta K cur) = []
          then (Inr (), upd (filter (\<lambda>o2. okey K o2 \<noteq> okey K o1)) w) else (Inr (), w))"

definition mem_client ::
  "('o, 'z) kind_scheme \<Rightarrow> ('w \<Rightarrow> 'o list) \<Rightarrow> (('o list \<Rightarrow> 'o list) \<Rightarrow> 'w \<Rightarrow> 'w) \<Rightarrow> ('w, 'o) kclient" where
  "mem_client K sel upd =
     \<lparr>kGet = mem_get K sel, kList = mem_list K sel, kCreate = mem_create K sel upd,
      kUpdate = mem_update K sel upd, kStatusUpdate = mem_update K sel upd,
      kDelete = mem_delete K sel upd, kRetry = retry_attempts 4\<rparr>"

lemma mem_objs_key: "mem_objs K sel w k = Some o1 \<Longrightarrow> okey K o1 = k \<and> o1 \<in> set (sel w)"
  by (auto simp: mem_objs_def find_Some_iff)

lemma find_filter_other:
  assumes "k \<noteq> k0"
  shows "find (\<lambda>o1. f o1 = k) (filter (\<lambda>o1. f o1 \<noteq> k0) xs) = find (\<lambda>o1. f o1 = k) xs"
  using assms by (induction xs) auto

lemma find_filter_same: "find (\<lambda>o1. f o1 = k0) (filter (\<lambda>o1. f o1 \<noteq> k0) xs) = None"
  by (auto simp: find_None_iff)

lemma mem_reads_ok: "reads_ok K (mem_client K sel upd) (mem_objs K sel) rest"
proof -
  have list: "distinct (map (okey K) (remdups (filter (\<lambda>o1. mem_objs K sel w (okey K o1) = Some o1
      \<and> selects lo (k_Meta K o1)) (sel w))))" for lo w
    unfolding distinct_map
  proof (intro conjI inj_onI)
    fix x y
    assume "x \<in> set (remdups (filter (\<lambda>o1. mem_objs K sel w (okey K o1) = Some o1 \<and> selects lo (k_Meta K o1)) (sel w)))"
      and "y \<in> set (remdups (filter (\<lambda>o1. mem_objs K sel w (okey K o1) = Some o1 \<and> selects lo (k_Meta K o1)) (sel w)))"
      and key: "okey K x = okey K y"
    then have "mem_objs K sel w (okey K x) = Some x" and "mem_objs K sel w (okey K y) = Some y"
      by simp_all
    then show "x = y" unfolding key by simp
  qed simp
  have mem: "mem_objs K sel w (okey K o1) = Some o1 \<Longrightarrow> o1 \<in> set (sel w)" for w o1
    using mem_objs_key by metis
  show ?thesis
    unfolding reads_ok_def
  proof (intro conjI allI impI)
    show "okey K o1 = k" if "mem_objs K sel w k = Some o1" for w k o1
      using mem_objs_key [OF that] ..
  next
    fix k w r w'
    assume "kGet (mem_client K sel upd) k w = (r, w')"
    then show "mem_objs K sel w' = mem_objs K sel w" and "rest w' = rest w"
      and "case r of Inr o1 \<Rightarrow> mem_objs K sel w k = Some o1
           | Inl e \<Rightarrow> e = NotFound \<longrightarrow> mem_objs K sel w k = None"
      by (auto simp: mem_client_def mem_get_def split: option.splits)
  next
    fix lo w r w'
    assume "kList (mem_client K sel upd) lo w = (r, w')"
    then have "w' = w" and r: "r = Inr (remdups (filter (\<lambda>o1. mem_objs K sel w (okey K o1) = Some o1
        \<and> selects lo (k_Meta K o1)) (sel w)))"
      by (auto simp: mem_client_def mem_list_def)
    from \<open>w' = w\<close> show "mem_objs K sel w' = mem_objs K sel w" and "rest w' = rest w" by simp_all
    show "case r of Inr xs \<Rightarrow> distinct (map (okey K) xs) \<and>
             (\<forall>o1. o1 \<in> set xs \<longleftrightarrow> mem_objs K sel w (okey K o1) = Some o1 \<and> selects lo (k_Meta K o1))
         | Inl e \<Rightarrow> True"
      unfolding r sum.case using list mem by fastforce
  qed
qed

lemma mem_writes_ok:
  assumes K: "object_kind K" and get: "\<And>f w. sel (upd f w) = f (sel w)" and rest: "\<And>f w. rest (upd f w) = rest w"
  shows "writes_ok K (mem_client K sel upd) (mem_objs K sel) rest"
proof -
  have key: "okey K (set_version K v o1) = okey K o1" for v o1
    by (simp add: set_version_def okey_def object_kind.meta_set [OF K])
  have same: "same_object K (set_version K v o1) o1" for v o1
    unfolding set_version_def
    by (rule object_kind.same_object_set [OF K]) (simp add: strip_meta_def)
  have cons: "mem_objs K sel (upd (\<lambda>xs. set_version K v o1 # xs) w) =
      (mem_objs K sel w)(okey K o1 \<mapsto> set_version K v o1)" for v o1 w
    by (rule ext) (auto simp: mem_objs_def get key)
  show ?thesis
    unfolding writes_ok_def
  proof (intro conjI allI impI)
    fix o1 w r w'
    assume "kCreate (mem_client K sel upd) o1 w = (r, w')"
    then show "rest w' = rest w"
      and "case r of
           Inr o' \<Rightarrow> mem_objs K sel w (okey K o1) = None \<and> same_object K o' o1 \<and>
                       mem_objs K sel w' = (mem_objs K sel w)(okey K o1 \<mapsto> o')
         | Inl e \<Rightarrow> mem_objs K sel w' = mem_objs K sel w \<and> (e = AlreadyExists \<longrightarrow> mem_objs K sel w (okey K o1) \<noteq> None)"
      by (auto simp: mem_client_def mem_create_def rest same cons split: option.splits)
  next
    fix o1 w r w'
    assume "kUpdate (mem_client K sel upd) o1 w = (r, w')"
    then show "rest w' = rest w"
      and "case r of
           Inr o' \<Rightarrow> (\<exists>cur. mem_objs K sel w (okey K o1) = Some cur \<and>
                         om_ResourceVersion (k_Meta K o1) \<in> {0, om_ResourceVersion (k_Meta K cur)}) \<and>
                       same_object K o' o1 \<and> mem_objs K sel w' = (mem_objs K sel w)(okey K o1 \<mapsto> o')
         | Inl e \<Rightarrow> mem_objs K sel w' = mem_objs K sel w"
      by (auto simp: mem_client_def mem_update_def Let_def rest same cons split: option.splits if_splits)
  next
    fix o1 w r w'
    assume "kDelete (mem_client K sel upd) o1 w = (r, w')"
    then show "rest w' = rest w"
      and "case r of
           Inr _ \<Rightarrow> (\<forall>k. k \<noteq> okey K o1 \<longrightarrow> mem_objs K sel w' k = mem_objs K sel w k) \<and>
             (\<forall>cur. mem_objs K sel w (okey K o1) = Some cur \<longrightarrow> om_Finalizers (k_Meta K cur) = [] \<longrightarrow>
                mem_objs K sel w' (okey K o1) = None)
         | Inl e \<Rightarrow> mem_objs K sel w' = mem_objs K sel w"
      by (auto simp: mem_client_def mem_delete_def rest get mem_objs_def find_filter_other find_filter_same
          split: option.splits if_splits)
  qed
qed

lemma mem_kube_ok:
  assumes "object_kind K" and "\<And>f w. sel (upd f w) = f (sel w)" and "\<And>f w. rest (upd f w) = rest w"
  shows "kube_ok K (mem_client K sel upd) (mem_objs K sel) rest"
  unfolding kube_ok_def retry_ok_def
  by (intro conjI mem_reads_ok mem_writes_ok assms exI [of _ 4]) (simp add: mem_client_def)

lemma status_irrelevant [simp]:
  "kube_ok K (c\<lparr>kStatusUpdate := f\<rparr>) objs rest = kube_ok K c objs rest"
  "reliable K (c\<lparr>kStatusUpdate := f\<rparr>) objs = reliable K c objs"
  "get_available (c\<lparr>kStatusUpdate := f\<rparr>) = get_available c"
  by (simp_all add: kube_ok_def reads_ok_def writes_ok_def retry_ok_def reliable_def get_available_def)

section \<open>The server\<close>

record mem_world =
  mw_MeshConfig :: "MeshConfig list"
  mw_ConfiguredService :: "ConfiguredService list"
  mw_ServiceConfig :: "ServiceConfig list"
  mw_ServiceAccessor :: "ServiceAccessor list"
  mw_AppMeshConfig :: "AppMeshConfig list"
  mw_VirtualService :: "VirtualService list"
  mw_DestinationRule :: "DestinationRule list"
  mw_ServiceEntry :: "ServiceEntry list"
  mw_WorkloadEntry :: "WorkloadEntry list"
  mw_Sidecar :: "Sidecar list"
  mw_Pod :: "Pod list"
  mw_Deployment :: "Deployment list"

definition empty_world :: mem_world where
  "empty_world = \<lparr>mw_MeshConfig = [], mw_ConfiguredService = [], mw_ServiceConfig = [],
     mw_ServiceAccessor = [], mw_AppMeshConfig = [], mw_VirtualService = [], mw_DestinationRule = [],
     mw_ServiceEntry = [], mw_WorkloadEntry = [], mw_Sidecar = [], mw_Pod = [], mw_Deployment = []\<rparr>"

definition add_owner :: "string \<Rightarrow> ObjectMeta \<Rightarrow> ObjectMeta \<Rightarrow> kerr + ObjectMeta" where
  "add_owner kind owner m = Inr (m\<lparr>om_OwnerReferences :=
     [\<lparr>or_Kind = kind, or_Name = om_Name owner, or_Controller = True\<rparr>]\<rparr>)"

definition mem_api :: "mem_world api" where
  "mem_api = \<lparr>ap_MeshConfig = mem_client mc_kind mw_MeshConfig mw_MeshConfig_update,
     ap_ConfiguredService = mem_client cs_kind mw_ConfiguredService mw_ConfiguredService_update,
     ap_ServiceConfig = (mem_client sc_kind mw_ServiceConfig mw_ServiceConfig_update)
       \<lparr>kStatusUpdate := mem_status sc_kind mw_ServiceConfig mw_ServiceConfig_update sc_Status
          (\<lambda>s v. v\<lparr>sc_Status := s\<rparr>)\<rparr>,
     ap_ServiceAccessor = mem_client sa_kind mw_ServiceAccessor mw_ServiceAccessor_update,
     ap_AppMeshConfig = (mem_client amc_kind mw_AppMeshConfig mw_AppMeshConfig_update)
       \<lparr>kStatusUpdate := mem_status amc_kind mw_AppMeshConfig mw_AppMeshConfig_update amc_Status
          (\<lambda>s v. v\<lparr>amc_Status := s\<rparr>)\<rparr>,
     ap_VirtualService = mem_client vs_kind mw_VirtualService mw_VirtualService_update,
     ap_DestinationRule = mem_client dr_kind mw_DestinationRule mw_DestinationRule_update,
     ap_ServiceEntry = mem_client se_kind mw_ServiceEntry mw_ServiceEntry_update,
     ap_WorkloadEntry = mem_client we_kind mw_WorkloadEntry mw_WorkloadEntry_update,
     ap_Sidecar = mem_client sd_kind mw_Sidecar mw_Sidecar_update,
     ap_Pod = mem_client pod_kind mw_Pod mw_Pod_update,
     ap_Deployment = mem_client dep_kind mw_Deployment mw_Deployment_update,
     ap_SetControllerReference = add_owner, ap_Now = (\<lambda>w. 0)\<rparr>"

lemma setref_add_owner: "setref_ok (add_owner kind)"
  by (auto simp: setref_ok_def add_owner_def)

definition mem_view :: "mem_world \<Rightarrow> cluster" where
  "mem_view w = \<lparr>c_MeshConfig = mem_objs mc_kind mw_MeshConfig w,
     c_ConfiguredService = mem_objs cs_kind mw_ConfiguredService w,
     c_ServiceConfig = mem_objs sc_kind mw_ServiceConfig w,
     c_ServiceAccessor = mem_objs sa_kind mw_ServiceAccessor w,
     c_AppMeshConfig = mem_objs amc_kind mw_AppMeshConfig w,
     c_VirtualService = mem_objs vs_kind mw_VirtualService w,
     c_DestinationRule = mem_objs dr_kind mw_DestinationRule w,
     c_ServiceEntry = mem_objs se_kind mw_ServiceEntry w,
     c_WorkloadEntry = mem_objs we_kind mw_WorkloadEntry w,
     c_Sidecar = mem_objs sd_kind mw_Sidecar w,
     c_Pod = mem_objs pod_kind mw_Pod w,
     c_Deployment = mem_objs dep_kind mw_Deployment w\<rparr>"

text \<open>The stores of the kinds are independent of each other.\<close>

lemma mem_api_ok: "api_ok mem_api mem_view"
proof -
  have "kube_ok mc_kind (mem_client mc_kind mw_MeshConfig mw_MeshConfig_update) (mem_objs mc_kind mw_MeshConfig)
      (\<lambda>w. (mem_view w)\<lparr>c_MeshConfig := Map.empty\<rparr>)"
    by (rule mem_kube_ok) (unfold_locales, simp_all add: mem_view_def mem_objs_def [abs_def])
  moreover
  have "kube_ok cs_kind (mem_client cs_kind mw_ConfiguredService mw_ConfiguredService_update) (mem_objs cs_kind mw_ConfiguredService)
      (\<lambda>w. (mem_view w)\<lparr>c_ConfiguredService := Map.empty\<rparr>)"
    by (rule mem_kube_ok) (unfold_locales, simp_all add: mem_view_def mem_objs_def [abs_def])
  moreover
  have "kube_ok sc_kind (mem_client sc_kind mw_ServiceConfig mw_ServiceConfig_update) (mem_objs sc_kind mw_ServiceConfig)
      (\<lambda>w. (mem_view w)\<lparr>c_ServiceConfig := Map.empty\<rparr>)"
    by (rule mem_kube_ok) (unfold_locales, simp_all add: mem_view_def mem_objs_def [abs_def])
  moreover
  have "kube_ok sa_kind (mem_client sa_kind mw_ServiceAccessor mw_ServiceAccessor_update) (mem_objs sa_kind mw_ServiceAccessor)
      (\<lambda>w. (mem_view w)\<lparr>c_ServiceAccessor := Map.empty\<rparr>)"
    by (rule mem_kube_ok) (unfold_locales, simp_all add: mem_view_def mem_objs_def [abs_def])
  moreover
  have "kube_ok amc_kind (mem_client amc_kind mw_AppMeshConfig mw_AppMeshConfig_update) (mem_objs amc_kind mw_AppMeshConfig)
      (\<lambda>w. (mem_view w)\<lparr>c_AppMeshConfig := Map.empty\<rparr>)"
    by (rule mem_kube_ok) (unfold_locales, simp_all add: mem_view_def mem_objs_def [abs_def])
  moreover
  have "kube_ok vs_kind (mem_client vs_kind mw_VirtualService mw_VirtualService_update) (mem_objs vs_kind mw_VirtualService)
      (\<lambda>w. (mem_view w)\<lparr>c_VirtualService := Map.empty\<rparr>)"
    by (rule mem_kube_ok) (unfold_locales, simp_all add: mem_view_def mem_objs_def [abs_def])
  moreover
  have "kube_ok dr_kind (mem_client dr_kind mw_DestinationRule mw_DestinationRule_update) (mem_objs dr_kind mw_DestinationRule)
      (\<lambda>w. (mem_view w)\<lparr>c_DestinationRule := Map.empty\<rparr>)"
    by (rule mem_kube_ok) (unfold_locales, simp_all add: mem_view_def mem_objs_def [abs_def])
  moreover
  have "kube_ok se_kind (mem_client se_kind mw_ServiceEntry mw_ServiceEntry_update) (mem_objs se_kind mw_ServiceEntry)
      (\<lambda>w. (mem_view w)\<lparr>c_ServiceEntry := Map.empty\<rparr>)"
    by (rule mem_kube_ok) (unfold_locales, simp_all add: mem_view_def mem_objs_def [abs_def])
  moreover
  have "kube_ok we_kind (mem_client we_kind mw_WorkloadEntry mw_WorkloadEntry_update) (mem_objs we_kind mw_WorkloadEntry)
      (\<lambda>w. (mem_view w)\<lparr>c_WorkloadEntry := Map.empty\<rparr>)"
    by (rule mem_kube_ok) (unfold_locales, simp_all add: mem_view_def mem_objs_def [abs_def])
  moreover
  have "kube_ok sd_kind (mem_client sd_kind mw_Sidecar mw_Sidecar_update) (mem_objs sd_kind mw_Sidecar)
      (\<lambda>w. (mem_view w)\<lparr>c_Sidecar := Map.empty\<rparr>)"
    by (rule mem_kube_ok) (unfold_locales, simp_all add: mem_view_def mem_objs_def [abs_def])
  moreover
  have "kube_ok pod_kind (mem_client pod_kind mw_Pod mw_Pod_update) (mem_objs pod_kind mw_Pod)
      (\<lambda>w. (mem_view w)\<lparr>c_Pod := Map.empty\<rparr>)"
    by (rule mem_kube_ok) (unfold_locales, simp_all add: mem_view_def mem_objs_def [abs_def])
  moreover
  have "kube_ok dep_kind (mem_client dep_kind mw_Deployment mw_Deployment_update) (mem_objs dep_kind mw_Deployment)
      (\<lambda>w. (mem_view w)\<lparr>c_Deployment := Map.empty\<rparr>)"
    by (rule mem_kube_ok) (unfold_locales, simp_all add: mem_view_def mem_objs_def [abs_def])
  ultimately show ?thesis
    by (simp add: api_ok_def mem_api_def setref_add_owner mem_view_def)
qed

lemma mem_get_available [simp]: "get_available (mem_client K sel upd)"
  by (auto simp: get_available_def mem_client_def mem_get_def split: option.splits)

lemma mem_reliable: "reliable K (mem_client K sel upd) (mem_objs K sel)"
  unfolding reliable_def
  by (intro conjI mem_get_available)
    (auto simp: mem_client_def mem_list_def mem_create_def mem_update_def Let_def)

lemmas mem_run_defs = mem_api_def mem_client_def mem_get_def mem_list_def mem_create_def
  mem_update_def mem_status_def mem_delete_def mem_objs_def set_version_def add_owner_def

end
