(* ===== verification/StatusSync.thy ===== *)
theory StatusSync
  imports MemStore
begin

text \<open>
  Writing a status: \<open>updateStatus\<close>, \<open>count\<close> and \<open>calcPhase\<close>, of which \<^verbatim>\<open>controllers/serviceconfig\<close>
  and \<^verbatim>\<open>controllers/appmeshconfig\<close> have a copy each. What \<open>updateStatus\<close> needs of a kind is the
  interface \<open>has_status\<close>, and \<open>status_ok\<close> is what the API documents of a status update.
\<close>

section \<open>Status\<close>

definition calcPhase :: "Status \<Rightarrow> ConfigPhase option" where
  "calcPhase status =
     (case (su_Distributed (st_ServiceEntry status), su_Distributed (st_WorkloadEntry status),
            su_Distributed (st_VirtualService status), su_Distributed (st_DestinationRule status)) of
        (Some a, Some b, Some c, Some d) \<Rightarrow>
          if a + b + c + d = 0 then Some ConfigStatusUndistributed
          else
            (case (su_Undistributed (st_ServiceEntry status), su_Undistributed (st_WorkloadEntry status),
                   su_Undistributed (st_VirtualService status), su_Undistributed (st_DestinationRule status)) of
               (Some a', Some b', Some c', Some d') \<Rightarrow>
                 if a' + b' + c' + d' = 0 then Some ConfigStatusDistributed
                 else Some ConfigStatusDistributing
             | _ \<Rightarrow> None)
      | _ \<Rightarrow> Some ConfigStatusUnknown)"

text \<open>A substatus of a wanted number of objects and the number counted.\<close>

definition sub_status :: "int \<Rightarrow> int option \<Rightarrow> SubStatus" where
  "sub_status desired count =
     \<lparr>su_Desired = desired, su_Distributed = count, su_Undistributed = map_option (\<lambda>c. desired - c) count\<rparr>"

definition zero_status :: SubStatus where
  "zero_status = \<lparr>su_Desired = 0, su_Distributed = Some 0, su_Undistributed = Some 0\<rparr>"

text \<open>The number of objects of one kind that a list finds; none when it fails.\<close>

definition count_list :: "('w, 'o) kclient \<Rightarrow> list_options \<Rightarrow> ('w, int option) call" where
  "count_list c lo =
     gbind (attempt (kList c lo)) (\<lambda>res.
       gret (case res of Inl _ \<Rightarrow> None | Inr items \<Rightarrow> Some (int (length items))))"

section \<open>The update\<close>

record 'o status_kind = "'o kind" +
  k_Status :: "'o \<Rightarrow> ServiceConfigStatus"
  k_SetStatus :: "ServiceConfigStatus \<Rightarrow> 'o \<Rightarrow> 'o"

definition sc_status :: "ServiceConfig status_kind" where
  "sc_status = \<lparr>k_Meta = sc_Meta, k_SetMeta = (\<lambda>m v. v\<lparr>sc_Meta := m\<rparr>),
     k_Status = sc_Status, k_SetStatus = (\<lambda>s v. v\<lparr>sc_Status := s\<rparr>)\<rparr>"

definition amc_status :: "AppMeshConfig status_kind" where
  "amc_status = \<lparr>k_Meta = amc_Meta, k_SetMeta = (\<lambda>m v. v\<lparr>amc_Meta := m\<rparr>),
     k_Status = amc_Status, k_SetStatus = (\<lambda>s v. v\<lparr>amc_Status := s\<rparr>)\<rparr>"

text \<open>The retried function: after a failure the object is read again, and its status set anew.\<close>

definition status_closure ::
  "'o status_kind \<Rightarrow> ('w \<Rightarrow> nat) \<Rightarrow> ('w, 'o) kclient \<Rightarrow> nsname \<Rightarrow> ServiceConfigStatus \<Rightarrow> 'o \<Rightarrow> 'w \<Rightarrow>
   (kerr + unit) \<times> 'o \<times> 'w" where
  "status_closure K now c req status x w =
     (let x' = k_SetStatus K (status\<lparr>scs_LastUpdateTime := Some (now w)\<rparr>) x in
      case kStatusUpdate c x' w of
        (Inr answer, w') \<Rightarrow> (Inr (), answer, w')
      | (Inl updateErr, w') \<Rightarrow>
          (case kGet c req w' of
             (Inl getErr, w'') \<Rightarrow> (Inl getErr, x', w'')
           | (Inr fresh, w'') \<Rightarrow> (Inl updateErr, fresh, w'')))"

definition update_status ::
  "'o status_kind \<Rightarrow> ('w \<Rightarrow> nat) \<Rightarrow> ('w, 'o) kclient \<Rightarrow> nsname \<Rightarrow> ServiceConfigStatus \<Rightarrow> 'o \<Rightarrow> ('w, unit) call" where
  "update_status K now c req status x =
     (if scs_Status status \<noteq> scs_Status (k_Status K x) then
        (\<lambda>w. case kRetry c (status_closure K now c req status) x w of
               (Inl e, _, w') \<Rightarrow> (Inl (Fail e), w') | (Inr _, _, w') \<Rightarrow> (Inr (), w'))
      else gret ())"

section \<open>Facts on the phase\<close>

text \<open>
  The phase of a status whose substatuses are built from counts: unknown if any count failed,
  undistributed if nothing was found, and otherwise distributed exactly when as many objects were
  found as are wanted in total. The code never dereferences a missing number.
\<close>

theorem calcPhase_spec:
  "calcPhase \<lparr>st_ServiceEntry = sub_status w1 c1, st_WorkloadEntry = sub_status w2 c2,
       st_VirtualService = sub_status w3 c3, st_DestinationRule = sub_status w4 c4\<rparr> =
   Some (case (c1, c2, c3, c4) of
      (Some a, Some b, Some c, Some d) \<Rightarrow>
        if a + b + c + d = 0 then ConfigStatusUndistributed
        else if a + b + c + d = w1 + w2 + w3 + w4 then ConfigStatusDistributed
        else ConfigStatusDistributing
    | _ \<Rightarrow> ConfigStatusUnknown)"
  by (auto simp: calcPhase_def sub_status_def split: option.splits)

text \<open>
  So the phase can be \<open>Distributed\<close> although a kind is missing altogether: a superfluous service
  entry makes up for a virtual service that was not written.
\<close>

theorem calcPhase_surplus:
  "calcPhase \<lparr>st_ServiceEntry = sub_status 1 (Some 2), st_WorkloadEntry = sub_status (int n) (Some (int n)),
       st_VirtualService = sub_status 1 (Some 0), st_DestinationRule = sub_status 1 (Some 1)\<rparr> =
   Some ConfigStatusDistributed"
  by (auto simp: calcPhase_def sub_status_def)

section \<open>What an update leaves\<close>

text \<open>A status update stores the status that was sent and nothing else of the object.\<close>

definition status_ok :: "'o status_kind \<Rightarrow> ('w, 'o) kclient \<Rightarrow> ('w \<Rightarrow> nsname \<Rightarrow> 'o option) \<Rightarrow> ('w \<Rightarrow> 'r) \<Rightarrow> bool" where
  "status_ok K c objs rest \<longleftrightarrow>
     (\<forall>o1 w r w'. kStatusUpdate c o1 w = (r, w') \<longrightarrow> rest w' = rest w \<and>
        (case r of
           Inr o' \<Rightarrow> (\<exists>cur. objs w (okey K o1) = Some cur \<and> same_object K o' (k_SetStatus K (k_Status K o1) cur)) \<and>
                      objs w' = (objs w)(okey K o1 \<mapsto> o')
         | Inl e \<Rightarrow> objs w' = objs w))"

text \<open>The object of a request with another status (the fields of the server apart).\<close>

definition status_written ::
  "'o status_kind \<Rightarrow> nsname \<Rightarrow> ServiceConfigStatus \<Rightarrow> (nsname \<Rightarrow> 'o option) \<Rightarrow> (nsname \<Rightarrow> 'o option) \<Rightarrow> bool" where
  "status_written K req status M M' \<longleftrightarrow>
     (\<exists>cur o' time. M req = Some cur \<and> M' = M(req \<mapsto> o') \<and>
        same_object K o' (k_SetStatus K (status\<lparr>scs_LastUpdateTime := time\<rparr>) cur))"

locale has_status = object_kind K for K :: "'o status_kind" +
  assumes meta_status: "k_Meta K (k_SetStatus K s o1) = k_Meta K o1"
    and status_status: "k_Status K (k_SetStatus K s o1) = s"
begin

lemma okey_status: "okey K (k_SetStatus K s o1) = okey K o1"
  by (simp add: okey_def meta_status)

lemma status_closure_cases:
  assumes ok: "kube_ok K c objs rest" and st: "status_ok K c objs rest"
    and x: "okey K x = req" and run: "status_closure K now c req status x w = (r, x', w')"
  shows "rest w' = rest w" and "r = Inl e \<Longrightarrow> objs w' = objs w \<and> okey K x' = req"
    and "r = Inr u \<Longrightarrow> status_written K req status (objs w) (objs w')"
proof -
  define x1 where "x1 = k_SetStatus K (status\<lparr>scs_LastUpdateTime := Some (now w)\<rparr>) x"
  have key: "okey K x1 = req" using x by (simp add: x1_def okey_status)
  obtain q w1 where up: "kStatusUpdate c x1 w = (q, w1)" by fastforce
  have law: "rest w1 = rest w \<and> (case q of
      Inr o' \<Rightarrow> (\<exists>cur. objs w req = Some cur \<and> same_object K o' (k_SetStatus K (k_Status K x1) cur)) \<and>
                 objs w1 = (objs w)(req \<mapsto> o')
    | Inl e \<Rightarrow> objs w1 = objs w)"
    using st [unfolded status_ok_def, THEN spec, THEN spec, THEN spec, THEN spec, THEN mp, OF up]
    unfolding key .
  have "rest w' = rest w \<and> (r = Inl e \<longrightarrow> objs w' = objs w \<and> okey K x' = req) \<and>
    (r = Inr () \<longrightarrow> status_written K req status (objs w) (objs w'))"
  proof (cases q)
    case (Inr o')
    with run up have "r = Inr ()" "w' = w1" by (simp_all add: status_closure_def x1_def Let_def)
    moreover have "k_Status K x1 = status\<lparr>scs_LastUpdateTime := Some (now w)\<rparr>"
      by (simp add: x1_def status_status)
    ultimately show ?thesis using law Inr unfolding status_written_def by (simp, metis)
  next
    case (Inl updateErr)
    obtain g w2 where get: "kGet c req w1 = (g, w2)" by fastforce
    note G = kube_ok_getD [OF ok get]
    from run up Inl get have w: "w' = w2" "r \<noteq> Inr ()"
      "x' = (case g of Inl _ \<Rightarrow> x1 | Inr fresh \<Rightarrow> fresh)"
      by (auto simp: status_closure_def x1_def Let_def split: sum.splits)
    have "okey K x' = req"
    proof (cases g)
      case (Inr fresh)
      with w(3) have "x' = fresh" by simp
      with kube_ok_key [OF ok G(3) [OF Inr]] show ?thesis by simp
    qed (use w(3) key in simp)
    with w law Inl G(1,2) show ?thesis by simp
  qed
  then show "rest w' = rest w" "r = Inl e \<Longrightarrow> objs w' = objs w \<and> okey K x' = req"
    "r = Inr u \<Longrightarrow> status_written K req status (objs w) (objs w')" by simp_all
qed

lemma update_status_cases:
  assumes ok: "kube_ok K c objs rest" and st: "status_ok K c objs rest"
    and x: "okey K x = req" and run: "update_status K now c req status x w = (r, w')"
  shows "rest w' = rest w" and "r = Inl e \<Longrightarrow> objs w' = objs w" and "r \<noteq> Inl Panic"
    and "r = Inr u \<Longrightarrow> scs_Status status \<noteq> scs_Status (k_Status K x) \<Longrightarrow>
      status_written K req status (objs w) (objs w')"
    and "r = Inr u \<Longrightarrow> scs_Status status = scs_Status (k_Status K x) \<Longrightarrow> objs w' = objs w"
proof -
  have "rest w' = rest w \<and> (r = Inl e \<longrightarrow> objs w' = objs w) \<and> r \<noteq> Inl Panic \<and>
    (r = Inr () \<longrightarrow> (if scs_Status status \<noteq> scs_Status (k_Status K x)
       then status_written K req status (objs w) (objs w') else objs w' = objs w))"
  proof (cases "scs_Status status = scs_Status (k_Status K x)")
    case True
    with run show ?thesis by (auto simp: update_status_def gret_def)
  next
    case False
    obtain q x' w1 where re: "kRetry c (status_closure K now c req status) x w = (q, x', w1)"
      by (cases "kRetry c (status_closure K now c req status) x w") auto
    have "rest w1 = rest w \<and> (case q of Inl _ \<Rightarrow> objs w1 = objs w
        | Inr _ \<Rightarrow> status_written K req status (objs w) (objs w1))"
    proof (rule retry_ok_invariant [where c = c and f = "status_closure K now c req status" and x = x and w = w
          and I = "\<lambda>x v. objs v = objs w \<and> rest v = rest w \<and> okey K x = req"
          and Q = "\<lambda>q x' w1. rest w1 = rest w \<and> (case q of Inl _ \<Rightarrow> objs w1 = objs w
        | Inr _ \<Rightarrow> status_written K req status (objs w) (objs w1))"])
      show "retry_ok c" using ok by (simp add: kube_ok_def)
      show "kRetry c (status_closure K now c req status) x w = (q, x', w1)" by (rule re)
      show "objs w = objs w \<and> rest w = rest w \<and> okey K x = req" using x by simp
    next
      fix y v p y1 v1
      assume I: "objs v = objs w \<and> rest v = rest w \<and> okey K y = req"
        and step: "status_closure K now c req status y v = (p, y1, v1)"
      note C = status_closure_cases [OF ok st _ step]
      show "objs v1 = objs w \<and> rest v1 = rest w \<and> okey K y1 = req" if "p = Inl Conflict"
        using C(1) C(2) [OF _ that] I by simp
      show "rest v1 = rest w \<and> (case p of Inl _ \<Rightarrow> objs v1 = objs w
        | Inr _ \<Rightarrow> status_written K req status (objs w) (objs v1))"
        using C I by (cases p) simp_all
    qed
    moreover have "r = (case q of Inl e \<Rightarrow> Inl (Fail e) | Inr _ \<Rightarrow> Inr ())" "w' = w1"
      using run re False by (auto simp: update_status_def split: sum.splits)
    ultimately show ?thesis using False by (cases q) simp_all
  qed
  then show "rest w' = rest w" "r = Inl e \<Longrightarrow> objs w' = objs w" "r \<noteq> Inl Panic"
    "r = Inr u \<Longrightarrow> scs_Status status \<noteq> scs_Status (k_Status K x) \<Longrightarrow>
      status_written K req status (objs w) (objs w')"
    "r = Inr u \<Longrightarrow> scs_Status status = scs_Status (k_Status K x) \<Longrightarrow> objs w' = objs w"
    by simp_all
qed

end

interpretation sc_has: has_status sc_status by unfold_locales (auto simp: sc_status_def)
interpretation amc_has: has_status amc_status by unfold_locales (auto simp: amc_status_def)

text \<open>The laws of a client do not depend on the status.\<close>

lemma status_as_kind:
  "k_Meta sc_status = k_Meta sc_kind" "k_Meta amc_status = k_Meta amc_kind"
  "okey sc_status = okey sc_kind" "okey amc_status = okey amc_kind"
  "same_object sc_status = same_object sc_kind" "same_object amc_status = same_object amc_kind"
  by (simp_all add: fun_eq_iff okey_def same_object_def sc_status_def amc_status_def plain_kind_defs)

lemma kube_ok_status:
  "kube_ok sc_status c objs1 rest1 = kube_ok sc_kind c objs1 rest1"
  "kube_ok amc_status d objs2 rest2 = kube_ok amc_kind d objs2 rest2"
  unfolding kube_ok_def reads_ok_def writes_ok_def status_as_kind by (rule refl)+

definition matching :: "('o, 'z) kind_scheme \<Rightarrow> (nsname \<Rightarrow> 'o option) \<Rightarrow> list_options \<Rightarrow> nat" where
  "matching K M lo = card {k. \<exists>o1. M k = Some o1 \<and> selects lo (k_Meta K o1)}"

text \<open>A count is the number of stored objects that match.\<close>

lemma count_list_spec:
  assumes ok: "kube_ok K c objs rest" and run: "count_list c lo w = (x, w')"
  shows "objs w' = objs w" and "rest w' = rest w"
    and "\<exists>n. x = Inr n \<and> pred_option (\<lambda>n. n = int (matching K (objs w) lo)) n"
proof -
  obtain l w1 where list: "kList c lo w = (l, w1)" by fastforce
  note L = kube_ok_listD [OF ok list]
  have x: "x = Inr (case l of Inl _ \<Rightarrow> None | Inr items \<Rightarrow> Some (int (length items)))" "w' = w1"
    using run list by (auto simp: count_list_def gbind_def attempt_def gret_def)
  show "objs w' = objs w" "rest w' = rest w" using L(1,2) x by simp_all
  show "\<exists>n. x = Inr n \<and> pred_option (\<lambda>n. n = int (matching K (objs w) lo)) n"
  proof (cases l)
    case (Inr items)
    have "{k. \<exists>o1. objs w k = Some o1 \<and> selects lo (k_Meta K o1)} = set (map (okey K) items)"
    proof (intro set_eqI iffI)
      fix k
      assume "k \<in> {k. \<exists>o1. objs w k = Some o1 \<and> selects lo (k_Meta K o1)}"
      then obtain o1 where o1: "objs w k = Some o1" "selects lo (k_Meta K o1)" by blast
      with kube_ok_key [OF ok o1(1)] L(4) [OF Inr, of o1] show "k \<in> set (map (okey K) items)" by auto
    next
      fix k
      assume "k \<in> set (map (okey K) items)"
      then obtain o1 where "o1 \<in> set items" "k = okey K o1" by auto
      with L(4) [OF Inr, of o1] show "k \<in> {k. \<exists>o1. objs w k = Some o1 \<and> selects lo (k_Meta K o1)}" by blast
    qed
    moreover have "card (set (map (okey K) items)) = length items"
      using distinct_card [OF L(3) [OF Inr]] by simp
    ultimately show ?thesis using x Inr by (simp add: matching_def)
  qed (use x in simp)
qed

section \<open>The in-memory API\<close>

lemma mem_status_ok:
  assumes get: "\<And>f w. sel (upd f w) = f (sel w)" and rest: "\<And>f w. rest (upd f w) = rest w"
    and K: "has_status K'" "k_Meta K' = k_Meta K" "k_SetMeta K' = k_SetMeta K"
  shows "status_ok K' (c\<lparr>kStatusUpdate := mem_status K sel upd (k_Status K') (k_SetStatus K')\<rparr>) (mem_objs K sel) rest"
proof -
  have ok: "okey K' = okey K" by (simp add: fun_eq_iff okey_def K)
  have key: "okey K (set_version K v (k_SetStatus K' s cur)) = okey K cur" for v s cur
    using object_kind.meta_set [OF has_status.axioms(1) [OF K(1)]] has_status.meta_status [OF K(1)]
    by (simp add: set_version_def okey_def K(2,3))
  have same: "same_object K' (set_version K v o1) o1" for v o1
    unfolding set_version_def K(2,3) [symmetric]
    by (rule object_kind.same_object_set [OF has_status.axioms(1) [OF K(1)]]) (simp add: strip_meta_def)
  show ?thesis
    unfolding status_ok_def
  proof (intro allI impI)
    fix o1 w r w'
    assume run: "kStatusUpdate (c\<lparr>kStatusUpdate := mem_status K sel upd (k_Status K') (k_SetStatus K')\<rparr>) o1 w = (r, w')"
    show "rest w' = rest w \<and> (case r of
           Inr o' \<Rightarrow> (\<exists>cur. mem_objs K sel w (okey K' o1) = Some cur \<and>
                         same_object K' o' (k_SetStatus K' (k_Status K' o1) cur)) \<and>
                      mem_objs K sel w' = (mem_objs K sel w)(okey K' o1 \<mapsto> o')
         | Inl e \<Rightarrow> mem_objs K sel w' = mem_objs K sel w)"
    proof (cases "mem_objs K sel w (okey K o1)")
      case None
      with run show ?thesis by (auto simp: mem_status_def)
    next
      case (Some cur)
      have "okey K cur = okey K o1" using mem_objs_key [OF Some] ..
      then have cons: "mem_objs K sel (upd (\<lambda>xs. set_version K v (k_SetStatus K' s cur) # xs) w) =
          (mem_objs K sel w)(okey K o1 \<mapsto> set_version K v (k_SetStatus K' s cur))" for v s
        by (intro ext) (simp add: mem_objs_def get key)
      show ?thesis using run Some cons same
        by (auto simp: mem_status_def Let_def ok rest split: if_splits)
    qed
  qed
qed

lemma mem_api_status_ok:
  "status_ok sc_status (ap_ServiceConfig mem_api) (\<lambda>w. c_ServiceConfig (mem_view w))
     (\<lambda>w. (mem_view w)\<lparr>c_ServiceConfig := Map.empty\<rparr>)"
  "status_ok amc_status (ap_AppMeshConfig mem_api) (\<lambda>w. c_AppMeshConfig (mem_view w))
     (\<lambda>w. (mem_view w)\<lparr>c_AppMeshConfig := Map.empty\<rparr>)"
proof -
  have "status_ok sc_status ((mem_client sc_kind mw_ServiceConfig mw_ServiceConfig_update)
     \<lparr>kStatusUpdate := mem_status sc_kind mw_ServiceConfig mw_ServiceConfig_update (k_Status sc_status)
       (k_SetStatus sc_status)\<rparr>) (mem_objs sc_kind mw_ServiceConfig)
     (\<lambda>w. (mem_view w)\<lparr>c_ServiceConfig := Map.empty\<rparr>)"
    by (rule mem_status_ok [OF _ _ sc_has.has_status_axioms])
      (simp_all add: mem_view_def mem_objs_def [abs_def] sc_status_def sc_kind_def)
  then show "status_ok sc_status (ap_ServiceConfig mem_api) (\<lambda>w. c_ServiceConfig (mem_view w))
     (\<lambda>w. (mem_view w)\<lparr>c_ServiceConfig := Map.empty\<rparr>)"
    by (simp add: mem_api_def mem_view_def sc_status_def)
  have "status_ok amc_status ((mem_client amc_kind mw_AppMeshConfig mw_AppMeshConfig_update)
     \<lparr>kStatusUpdate := mem_status amc_kind mw_AppMeshConfig mw_AppMeshConfig_update (k_Status amc_status)
       (k_SetStatus amc_status)\<rparr>) (mem_objs amc_kind mw_AppMeshConfig)
     (\<lambda>w. (mem_view w)\<lparr>c_AppMeshConfig := Map.empty\<rparr>)"
    by (rule mem_status_ok [OF _ _ amc_has.has_status_axioms])
      (simp_all add: mem_view_def mem_objs_def [abs_def] amc_status_def amc_kind_def)
  then show "status_ok amc_status (ap_AppMeshConfig mem_api) (\<lambda>w. c_AppMeshConfig (mem_view w))
     (\<lambda>w. (mem_view w)\<lparr>c_AppMeshConfig := Map.empty\<rparr>)"
    by (simp add: mem_api_def mem_view_def amc_status_def)
qed

end
