(* ===== verification/ScResources.thy ===== *)
theory ScResources
  imports CsResources StatusSync
begin

text \<open>
  The Istio resources that \<^verbatim>\<open>controllers/serviceconfig\<close> builds from a ServiceConfig, which may
  override the routes of a service. The package has its own copies of \<open>mapContains\<close>, \<open>getlb\<close>,
  \<open>defaultDestination\<close>, \<open>getTimeout\<close>, \<open>getRetries\<close> and of the \<open>compare\<close> functions, the same as
  those of \<^verbatim>\<open>controllers/configuredservice\<close>, and a different \<open>truncated\<close>.
\<close>

section \<open>Labels\<close>

definition sc_truncated :: "string \<Rightarrow> string" where
  "sc_truncated s =
     (if 62 < length s then TrimChar (CHR ''.'') (drop (length s - 62) s) else TrimChar (CHR ''.'') s)"

definition sc_labels :: "Reconciler \<Rightarrow> ServiceConfig \<Rightarrow> labels" where
  "sc_labels r sc = [(op_SelectLabel (rc_Opt r), sc_truncated (sc_OriginalName (sc_Spec sc)))]"

definition sc_selector :: "Reconciler \<Rightarrow> ServiceConfig \<Rightarrow> list_options" where
  "sc_selector r sc = \<lparr>lo_Namespace = om_Namespace (sc_Meta sc), lo_MatchLabels = sc_labels r sc,
     lo_MatchFields = []\<rparr>"

definition sc_meta :: "Reconciler \<Rightarrow> ServiceConfig \<Rightarrow> ObjectMeta" where
  "sc_meta r sc = new_meta (FormatToDNS1123 (om_Name (sc_Meta sc))) (om_Namespace (sc_Meta sc)) (sc_labels r sc)"

section \<open>VirtualService\<close>

definition onlyMissingCanary :: "Subset list \<Rightarrow> Subset list \<Rightarrow> bool" where
  "onlyMissingCanary actualSubsets globalSubsets =
     (let missingSubset = filter (\<lambda>global. \<not> Subset_In global actualSubsets) globalSubsets in
      list_all ss_IsCanary missingSubset)"

text \<open>A specific routing strategy is preferred if the ServiceConfig has routes.\<close>

definition dynamicRoute :: "string \<Rightarrow> Destination list \<Rightarrow> HTTPRouteDestination list" where
  "dynamicRoute host dynamicRoutes =
     map (\<lambda>destination. route_to host
            (if ds_Subset destination \<noteq> [] then ds_Subset destination else [])
            (if ds_Weight destination \<noteq> 0 then ds_Weight destination else 0)) dynamicRoutes"

definition sc_routes :: "Reconciler \<Rightarrow> ServiceConfig \<Rightarrow> Subset \<Rightarrow> Subset list \<Rightarrow> HTTPRouteDestination list" where
  "sc_routes r svc sub actualSubsets =
     (let globals = mc_GlobalSubsets (mc_Spec (rc_MeshConfig r));
          host = om_Name (sc_Meta svc);
          reroute = (length actualSubsets < length globals) in
      if 0 < length (sc_Route (sc_Spec svc)) \<and> \<not> ss_IsCanary sub \<and> onlyMissingCanary actualSubsets globals
        then dynamicRoute host (sc_Route (sc_Spec svc))
      else if (reroute \<and> \<not> onlyMissingCanary actualSubsets globals) \<or> (reroute \<and> ss_IsCanary sub)
        then rerouteSubset host sub actualSubsets
      else defaultDestination host (ss_Name sub))"

definition sc_buildHTTPRoute ::
  "Reconciler \<Rightarrow> ServiceConfig \<Rightarrow> Subset \<Rightarrow> Subset list \<Rightarrow> HTTPRoute option" where
  "sc_buildHTTPRoute r svc sub actualSubsets =
     Option.bind (sc_Policy (sc_Spec svc)) (\<lambda>policy.
     Option.bind (getTimeout r (po_Timeout policy) (scast (po_MaxRetries policy))) (\<lambda>tmo.
     Option.bind (getRetries r (po_Timeout policy) (po_MaxRetries policy)) (\<lambda>rty.
     Some \<lparr>hr_Name = httpRouteName @ ''-'' @ ss_Name sub, hr_Match = [route_match r sub],
           hr_Route = sc_routes r svc sub actualSubsets, hr_Timeout = tmo, hr_Retries = Some rty\<rparr>)))"

definition sc_buildVirtualService ::
  "Reconciler \<Rightarrow> ServiceConfig \<Rightarrow> Subset list \<Rightarrow> VirtualService option" where
  "sc_buildVirtualService r svc actualSubsets =
     Option.bind (those (map (\<lambda>sub. sc_buildHTTPRoute r svc sub actualSubsets)
         (mc_GlobalSubsets (mc_Spec (rc_MeshConfig r))))) (\<lambda>httpRoute.
     let httpRoute' =
       (case sc_RerouteOption (sc_Spec svc) of
          None \<Rightarrow> httpRoute @ [buildDefaultRoute r (om_Name (sc_Meta svc))]
        | Some reroute \<Rightarrow>
            if ro_ReroutePolicy reroute \<noteq> Unchangeable
            then httpRoute @ [buildDefaultRoute r (om_Name (sc_Meta svc))] else httpRoute) in
     Some \<lparr>vs_Meta = sc_meta r svc,
           vs_Spec = \<lparr>vs_Hosts = [om_Name (sc_Meta svc)], vs_Http = httpRoute', vs_Other = []\<rparr>\<rparr>)"

section \<open>DestinationRule\<close>

definition sc_buildDestinationRule ::
  "Reconciler \<Rightarrow> ServiceConfig \<Rightarrow> Subset list \<Rightarrow> DestinationRule option" where
  "sc_buildDestinationRule r svc actualSubsets =
     map_option (\<lambda>policy.
       \<lparr>dr_Meta = sc_meta r svc,
        dr_Spec = \<lparr>dr_Host = om_Name (sc_Meta svc),
          dr_TrafficPolicy = Some \<lparr>tp_LoadBalancer =
            getlb (lookup_zero [] (po_LoadBalancer policy) loadBalanceSimple)\<rparr>,
          dr_Subsets = istio_subsets actualSubsets, dr_Other = []\<rparr>\<rparr>)
       (sc_Policy (sc_Spec svc))"

section \<open>Facts on labels\<close>

lemma length_sc_truncated: "length (sc_truncated s) \<le> 62"
  using length_TrimChar [of "CHR ''.''" s] length_TrimChar [of "CHR ''.''" "drop (length s - 62) s"]
  unfolding sc_truncated_def by (cases "62 < length s") simp_all

lemma truncated_short: "length s \<le> 62 \<Longrightarrow> sc_truncated s = cs_truncated s"
  by (simp add: sc_truncated_def cs_truncated_def)

lemma TrimChar_id:
  assumes "s \<noteq> []" and "hd s \<noteq> c" and "last s \<noteq> c"
  shows "TrimChar c s = s"
proof -
  have "dropWhile (\<lambda>x. x = c) s = s" using assms(1,2) by (cases s) auto
  moreover have "dropWhile (\<lambda>x. x = c) (rev s) = rev s"
    using assms(1,3) by (cases "rev s") (auto simp: hd_rev [symmetric])
  ultimately show ?thesis by (simp add: TrimChar_def)
qed

text \<open>
  For a name of more than 62 characters the two controllers label the resources of one and the
  same service differently, unless the cut happens to fall on a dot: one with the 40 digits of
  its SHA-1 digest, the other with its last 62 characters. For shorter names they agree.
\<close>

theorem truncated_disagree:
  assumes "62 < length s" and "s ! (length s - 62) \<noteq> CHR ''.''" and "last s \<noteq> CHR ''.''"
  shows "sc_truncated s \<noteq> cs_truncated s"
proof -
  have "drop (length s - 62) s \<noteq> []" "last (drop (length s - 62) s) = last s"
    "hd (drop (length s - 62) s) = s ! (length s - 62)"
    using assms(1) by (auto simp: hd_drop_conv_nth)
  then have "sc_truncated s = drop (length s - 62) s"
    using assms by (simp add: sc_truncated_def TrimChar_id)
  then have "length (sc_truncated s) = 62" using assms(1) by simp
  moreover have "length (cs_truncated s) = 40" using assms(1) by (simp add: cs_truncated_def)
  ultimately show ?thesis by auto
qed

theorem truncated_disagree_witness:
  "sc_truncated (replicate 63 (CHR ''a'')) \<noteq> cs_truncated (replicate 63 (CHR ''a''))"
  by (rule truncated_disagree) simp_all

lemma sc_meta_simps [simp]:
  "om_Name (sc_meta r sc) = FormatToDNS1123 (om_Name (sc_Meta sc))"
  "om_Namespace (sc_meta r sc) = om_Namespace (sc_Meta sc)" "om_Labels (sc_meta r sc) = sc_labels r sc"
  "om_Finalizers (sc_meta r sc) = []"
  by (simp_all add: sc_meta_def)

lemma sc_selector_simps [simp]:
  "lo_Namespace (sc_selector r sc) = om_Namespace (sc_Meta sc)" "lo_MatchFields (sc_selector r sc) = []"
  by (simp_all add: sc_selector_def)

lemma sc_selects_own: "om_Namespace m = om_Namespace (sc_Meta sc) \<Longrightarrow> om_Labels m = sc_labels r sc \<Longrightarrow>
    selects (sc_selector r sc) m"
  by (simp add: selects_def sc_selector_def sc_labels_def)

section \<open>Facts on routes\<close>

lemma onlyMissingCanary_iff:
  "onlyMissingCanary actual globals \<longleftrightarrow> (\<forall>g \<in> set globals. ss_IsCanary g \<or> Subset_In g actual)"
  by (auto simp: onlyMissingCanary_def list_all_iff)

text \<open>Fewer provided than global subsets means that one is missing, when they are a subsequence.\<close>

lemma missing_subset:
  assumes "subseq actual globals" and "distinct (map ss_Name globals)"
  shows "length actual < length globals \<longleftrightarrow> (\<exists>g \<in> set globals. \<not> Subset_In g actual)"
proof
  assume less: "length actual < length globals"
  show "\<exists>g \<in> set globals. \<not> Subset_In g actual"
  proof (rule ccontr)
    assume "\<not> ?thesis"
    then have "ss_Name ` set globals \<subseteq> ss_Name ` set actual" by (auto simp: Subset_In_iff)
    then have "card (ss_Name ` set globals) \<le> card (set (map ss_Name actual))"
      by (intro card_mono) auto
    also have "\<dots> \<le> length actual" using card_length [of "map ss_Name actual"] by simp
    finally show False using less distinct_card [OF assms(2)] by simp
  qed
next
  assume "\<exists>g \<in> set globals. \<not> Subset_In g actual"
  then obtain g where g: "g \<in> set globals" "\<not> Subset_In g actual" by blast
  have "length actual \<le> length globals" using assms(1) by (rule list_emb_length)
  moreover have "actual \<noteq> globals" using g by (auto simp: Subset_In_iff)
  then have "length actual \<noteq> length globals" using assms(1) subseq_same_length by blast
  ultimately show "length actual < length globals" by simp
qed

text \<open>
  Without routes of its own, a ServiceConfig routes every global subset exactly as the controller
  of the ConfiguredService would (so taking a service over changes no route by itself), when the
  provided subsets are what \<open>getSubset\<close> returns and the global subsets have distinct names.
\<close>

theorem sc_routes_default:
  assumes "sc_Route (sc_Spec svc) = []" and "subseq actual (mc_GlobalSubsets (mc_Spec (rc_MeshConfig r)))"
    and "distinct (map ss_Name (mc_GlobalSubsets (mc_Spec (rc_MeshConfig r))))"
    and "sub \<in> set (mc_GlobalSubsets (mc_Spec (rc_MeshConfig r)))"
  shows "sc_routes r svc sub actual = rerouteSubset (om_Name (sc_Meta svc)) sub actual"
proof (cases "Subset_In sub actual")
  case True
  then show ?thesis using assms(1) by (simp add: sc_routes_def rerouteSubset_def Let_def)
next
  case False
  then have "length actual < length (mc_GlobalSubsets (mc_Spec (rc_MeshConfig r)))"
    using missing_subset [OF assms(2,3)] assms(4) by blast
  moreover have "ss_IsCanary sub \<or> \<not> onlyMissingCanary actual (mc_GlobalSubsets (mc_Spec (rc_MeshConfig r)))"
    using False assms(4) by (auto simp: onlyMissingCanary_iff)
  ultimately show ?thesis using assms(1) by (auto simp: sc_routes_def Let_def)
qed

theorem sc_routes_default_witness:
  "sc_routes demo_rc (demo_sc\<lparr>sc_Spec := (sc_Spec demo_sc)\<lparr>sc_Route := []\<rparr>\<rparr>) (demo_subset ''gray'' True) [demo_subset ''blue'' False]
   = [route_to ''svc'' ''blue'' 100]"
  by (subst sc_routes_default)
    (simp_all add: demo_defs rerouteSubset_def canary_routes_def Let_def)

text \<open>
  With routes of its own, a ServiceConfig sends the traffic of every ordinary subset over exactly
  these routes, in order and with their weights, as long as only canary subsets are missing; a
  canary subset keeps the routes it would have without them.
\<close>

theorem sc_routes_dynamic:
  assumes "sc_Route (sc_Spec svc) \<noteq> []"
    and "onlyMissingCanary actual (mc_GlobalSubsets (mc_Spec (rc_MeshConfig r)))"
  shows "sc_routes r svc sub actual =
    (if ss_IsCanary sub
     then sc_routes r (svc\<lparr>sc_Spec := (sc_Spec svc)\<lparr>sc_Route := []\<rparr>\<rparr>) sub actual
     else map (\<lambda>d. route_to (om_Name (sc_Meta svc)) (ds_Subset d) (ds_Weight d)) (sc_Route (sc_Spec svc)))"
  using assms by (auto simp: sc_routes_def dynamicRoute_def Let_def)

theorem sc_routes_dynamic_witness:
  "sc_routes demo_rc demo_sc (demo_subset ''blue'' False) [demo_subset ''blue'' False]
   = [route_to ''svc'' ''blue'' 100]"
  by (subst sc_routes_dynamic) (simp_all add: demo_defs onlyMissingCanary_def)

end
