(* ===== verification/CsController.thy ===== *)
theory CsController
  imports CsResources MemStore
begin

text \<open>
  \<^verbatim>\<open>controllers/configuredservice\<close>: the reconciliation of a ConfiguredService into sidecars,
  workload entries, a service entry and, unless a ServiceConfig of the same name takes over, a
  destination rule and a virtual service. Each \<open>reconcile\<close> function is modelled with all its client
  calls; the theorems say what it leaves in the cluster.
\<close>

section \<open>DestinationRule, VirtualService and ServiceEntry\<close>

definition cs_getVirtualServicesMap ::
  "'w api \<Rightarrow> Reconciler \<Rightarrow> ConfiguredService \<Rightarrow> ('w, (string, VirtualService) gomap) call" where
  "cs_getVirtualServicesMap api r cs = list_map vs_kind (ap_VirtualService api) (cs_selector r cs)"

definition cs_reconcileVirtualService ::
  "'w api \<Rightarrow> Reconciler \<Rightarrow> ConfiguredService \<Rightarrow> ('w, unit) call" where
  "cs_reconcileVirtualService api r cs =
     gbind (cs_getVirtualServicesMap api r cs) (\<lambda>foundMap.
       let subsets = cs_getSubset r cs in
       if length subsets \<noteq> 0 then
         gbind (orPanic (cs_buildVirtualService r cs subsets)) (\<lambda>vs.
         gbind (set_owner (ap_SetControllerReference api ''ConfiguredService'') vs_kind (cs_Meta cs) vs) (\<lambda>vs.
         create_or_update vs_kind (ap_VirtualService api) vs foundMap))
       else gret ())"

definition cs_getDestinationRuleMap ::
  "'w api \<Rightarrow> Reconciler \<Rightarrow> ConfiguredService \<Rightarrow> ('w, (string, DestinationRule) gomap) call" where
  "cs_getDestinationRuleMap api r cs = list_map dr_kind (ap_DestinationRule api) (cs_selector r cs)"

definition cs_reconcileDestinationRule ::
  "'w api \<Rightarrow> Reconciler \<Rightarrow> ConfiguredService \<Rightarrow> ('w, unit) call" where
  "cs_reconcileDestinationRule api r cs =
     gbind (cs_getDestinationRuleMap api r cs) (\<lambda>foundMap.
       let actualSubsets = cs_getSubset r cs in
       if length actualSubsets \<noteq> 0 then
         gbind (orPanic (cs_buildDestinationRule r cs actualSubsets)) (\<lambda>dr.
         gbind (set_owner (ap_SetControllerReference api ''ConfiguredService'') dr_kind (cs_Meta cs) dr) (\<lambda>dr.
         create_or_update dr_kind (ap_DestinationRule api) dr foundMap))
       else gret ())"

definition cs_getServiceEntriesMap ::
  "'w api \<Rightarrow> Reconciler \<Rightarrow> ConfiguredService \<Rightarrow> ('w, (string, ServiceEntry) gomap) call" where
  "cs_getServiceEntriesMap api r cr = list_map se_kind (ap_ServiceEntry api) (cs_selector r cr)"

definition cs_reconcileServiceEntry ::
  "'w api \<Rightarrow> Reconciler \<Rightarrow> ConfiguredService \<Rightarrow> ('w, unit) call" where
  "cs_reconcileServiceEntry api r cr =
     gbind (cs_getServiceEntriesMap api r cr) (\<lambda>foundMap.
       gbind (set_owner (ap_SetControllerReference api ''ConfiguredService'') se_kind (cs_Meta cr) (cs_buildServiceEntry r cr)) (\<lambda>se.
       create_or_update se_kind (ap_ServiceEntry api) se foundMap))"

section \<open>WorkloadEntry\<close>

definition cs_getWorkloadEntriesMap ::
  "'w api \<Rightarrow> Reconciler \<Rightarrow> ConfiguredService \<Rightarrow> ('w, (string, WorkloadEntry) gomap) call" where
  "cs_getWorkloadEntriesMap api r cr = list_map we_kind (ap_WorkloadEntry api) (cs_selector r cr)"

text \<open>
  The weights a ServiceConfig of the same name sets, under names that are not formatted; without one
  (or when it cannot be read) there are none.
\<close>

definition cs_getInstanceWeight ::
  "'w api \<Rightarrow> ConfiguredService \<Rightarrow> ('w, (string, uint32) gomap) call" where
  "cs_getInstanceWeight api cr =
     gbind (attempt (kGet (ap_ServiceConfig api) (om_Namespace (cs_Meta cr), om_Name (cs_Meta cr)))) (\<lambda>res.
       case res of
         Inl _ \<Rightarrow> gret []
       | Inr config \<Rightarrow>
           gfold (\<lambda>ins m. gbind (orPanic (ic_Port ins)) (\<lambda>port.
               gret (map_put (workload_name (om_Name (cs_Meta cr)) (ic_Host ins) port) (ic_Weight ins) m)))
             (sc_Instances (sc_Spec config)) [])"

definition with_weight :: "uint32 \<Rightarrow> WorkloadEntry \<Rightarrow> WorkloadEntry" where
  "with_weight weight we = we\<lparr>we_Spec := (we_Spec we)\<lparr>we_Weight := weight\<rparr>\<rparr>"

text \<open>The closure sets the weight of the new object before it copies it; doing so again is the same.\<close>

definition cs_updateWorkloadEntry ::
  "'w api \<Rightarrow> (string, uint32) gomap \<Rightarrow> WorkloadEntry \<Rightarrow> WorkloadEntry \<Rightarrow> ('w, unit) call" where
  "cs_updateWorkloadEntry api weightMap we found =
     update_found we_kind (ap_WorkloadEntry api)
       (case map_of weightMap (om_Name (we_Meta we)) of
          None \<Rightarrow> we | Some weight \<Rightarrow> with_weight weight we)
       found"

text \<open>One round of the loop over the instances; the map of found entries shrinks.\<close>

definition cs_workload_step ::
  "'w api \<Rightarrow> Reconciler \<Rightarrow> ConfiguredService \<Rightarrow> (string, uint32) gomap \<Rightarrow> Instance \<Rightarrow>
   (string, WorkloadEntry) gomap \<Rightarrow> ('w, (string, WorkloadEntry) gomap) call" where
  "cs_workload_step api r cr weightMap ins foundMap =
     gbind (orPanic (cs_buildWorkloadEntry r cr ins)) (\<lambda>we.
     gbind (set_owner (ap_SetControllerReference api ''ConfiguredService'') we_kind (cs_Meta cr) we) (\<lambda>we.
       case map_of foundMap (om_Name (we_Meta we)) of
         None \<Rightarrow>
           gbind (attempt (kCreate (ap_WorkloadEntry api) we)) (\<lambda>res.
             case res of
               Inl e \<Rightarrow> if e = AlreadyExists then gret foundMap else gfail e
             | Inr _ \<Rightarrow> gret foundMap)
       | Some found \<Rightarrow>
           gbind (if compareWorkloadEntry we found then cs_updateWorkloadEntry api weightMap we found
                  else gret ())
             (\<lambda>_. gret (map_del (om_Name (we_Meta we)) foundMap))))"

definition cs_reconcileWorkloadEntry ::
  "'w api \<Rightarrow> Reconciler \<Rightarrow> ConfiguredService \<Rightarrow> ('w, unit) call" where
  "cs_reconcileWorkloadEntry api r cr =
     gbind (cs_getWorkloadEntriesMap api r cr) (\<lambda>foundMap.
     gbind (cs_getInstanceWeight api cr) (\<lambda>weightMap.
     gbind (gfold (cs_workload_step api r cr weightMap) (cs_Instances (cs_Spec cr)) foundMap) (\<lambda>foundMap.
     delete_unused (ap_WorkloadEntry api) foundMap)))"

section \<open>Sidecar\<close>

definition cs_initDefaultSidecarsByDeploy :: "'w api \<Rightarrow> Reconciler \<Rightarrow> ('w, unit) call" where
  "cs_initDefaultSidecarsByDeploy api r =
     gbind (list_or_empty (ap_Deployment api) (everywhere [])) (\<lambda>deps.
       gforeach (\<lambda>dep.
           case map_of (om_Labels (dep_Meta dep)) (mc_SidecarSelectLabel (mc_Spec (rc_MeshConfig r))) of
             None \<Rightarrow> gret ()
           | Some appName \<Rightarrow>
               gbind (attempt (kCreate (ap_Sidecar api)
                  (cs_buildSidecar r (om_Namespace (dep_Meta dep)) appName))) (\<lambda>_. gret ()))
         deps)"

definition cs_getAppNamespace :: "'w api \<Rightarrow> Reconciler \<Rightarrow> string \<Rightarrow> ('w, string list) call" where
  "cs_getAppNamespace api r appName =
     gbind (list_or_empty (ap_Pod api)
        (everywhere [(mc_SidecarSelectLabel (mc_Spec (rc_MeshConfig r)), appName)])) (\<lambda>pods.
       gret (if 0 < length pods then map (\<lambda>pod. om_Namespace (pod_Meta pod)) pods else []))"

text \<open>
  The loop over the namespaces. When the sidecar is missing it is created, and then the error of
  the read is returned all the same.
\<close>

definition cs_sidecar_step :: "'w api \<Rightarrow> Reconciler \<Rightarrow> string \<Rightarrow> string \<Rightarrow> ('w, unit) call" where
  "cs_sidecar_step api r appName ns =
     gbind (attempt (kGet (ap_Sidecar api) (ns, appName))) (\<lambda>res.
       case res of
         Inr _ \<Rightarrow> gret ()
       | Inl err \<Rightarrow>
           if err = NotFound then
             gbind (attempt (kCreate (ap_Sidecar api) (cs_buildSidecar r ns appName))) (\<lambda>created.
               case created of Inl createErr \<Rightarrow> gfail createErr | Inr _ \<Rightarrow> gfail err)
           else gfail err)"

definition cs_reconcileSidecar ::
  "'w api \<Rightarrow> ConfiguredService \<Rightarrow> ('w \<times> Reconciler, unit) call" where
  "cs_reconcileSidecar api cs =
     gbind (\<lambda>(w, r).
         if \<not> op_InitDefaultSidecars (rc_Opt r) then
           (case cs_initDefaultSidecarsByDeploy api r w of
              (x, w') \<Rightarrow> (x, (w', r\<lparr>rc_Opt := (rc_Opt r)\<lparr>op_InitDefaultSidecars := True\<rparr>\<rparr>)))
         else (Inr (), (w, r))) (\<lambda>_.
     on_world (\<lambda>r.
       let appName = cs_getAppName r cs in
       if appName = [] then gret ()
       else gbind (cs_getAppNamespace api r appName) (\<lambda>namespaces.
              gforeach (cs_sidecar_step api r appName) namespaces)))"

section \<open>Reconcile\<close>

definition cs_Reconcile :: "'w api \<Rightarrow> nsname \<Rightarrow> ('w \<times> Reconciler, unit) call" where
  "cs_Reconcile api req =
     gbind (on_world (\<lambda>r. attempt (kGet (ap_ConfiguredService api) req))) (\<lambda>res.
       case res of
         Inl err \<Rightarrow> if err = NotFound then gret () else gfail err
       | Inr cs \<Rightarrow>
           gbind (getMeshConfig api) (\<lambda>_.
           gbind (cs_reconcileSidecar api cs) (\<lambda>_.
           gbind (on_world (\<lambda>r. cs_reconcileWorkloadEntry api r cs)) (\<lambda>_.
           gbind (on_world (\<lambda>r. cs_reconcileServiceEntry api r cs)) (\<lambda>_.
           gbind (on_world (\<lambda>r. attempt (kGet (ap_ServiceConfig api)
               (om_Namespace (cs_Meta cs), om_Name (cs_Meta cs))))) (\<lambda>sc.
             case sc of
               Inr _ \<Rightarrow> gret ()
             | Inl err \<Rightarrow>
                 if err = NotFound then
                   gbind (on_world (\<lambda>r. cs_reconcileDestinationRule api r cs)) (\<lambda>_.
                   on_world (\<lambda>r. cs_reconcileVirtualService api r cs))
                 else gret ()))))))"

text \<open>The cluster the witnesses start from.\<close>

definition demo_world :: mem_world where
  "demo_world = empty_world\<lparr>mw_ConfiguredService := [demo_cs], mw_MeshConfig := [demo_mesh]\<rparr>"

end
