(* ===== verification/ScController.thy ===== *)
theory ScController
  imports ScResources CsController
begin

text \<open>
  \<^verbatim>\<open>controllers/serviceconfig\<close>: the reconciliation of a ServiceConfig sets the weights of workload
  entries, writes the destination rule and the virtual service of the service whose subsets the
  ConfiguredService of the same name provides, and reports in its status what it finds.
\<close>

section \<open>Operations\<close>

definition sc_key :: "ServiceConfig \<Rightarrow> nsname" where
  "sc_key sc = (om_Namespace (sc_Meta sc), om_Name (sc_Meta sc))"

text \<open>The subsets are those of the ConfiguredService; none when it does not exist.\<close>

definition sc_getSubset :: "'w api \<Rightarrow> Reconciler \<Rightarrow> ServiceConfig \<Rightarrow> ('w, Subset list) call" where
  "sc_getSubset api r sc =
     gbind (attempt (kGet (ap_ConfiguredService api) (sc_key sc))) (\<lambda>res.
       case res of
         Inl err \<Rightarrow> if err = NotFound then gret [] else gfail err
       | Inr cs \<Rightarrow>
           let mc = mc_Spec (rc_MeshConfig r) in
           gret (subset_loop (mc_MeshLabelsRemap mc) (cs_Instances (cs_Spec cs)) (mc_GlobalSubsets mc) []))"

definition sc_getVirtualServicesMap ::
  "'w api \<Rightarrow> Reconciler \<Rightarrow> ServiceConfig \<Rightarrow> ('w, (string, VirtualService) gomap) call" where
  "sc_getVirtualServicesMap api r sc = list_map vs_kind (ap_VirtualService api) (sc_selector r sc)"

definition sc_reconcileVirtualService :: "'w api \<Rightarrow> Reconciler \<Rightarrow> ServiceConfig \<Rightarrow> ('w, unit) call" where
  "sc_reconcileVirtualService api r sc =
     gbind (sc_getVirtualServicesMap api r sc) (\<lambda>foundMap.
     gbind (sc_getSubset api r sc) (\<lambda>subsets.
       if length subsets \<noteq> 0 then
         gbind (orPanic (sc_buildVirtualService r sc subsets)) (\<lambda>vs.
         gbind (set_owner (ap_SetControllerReference api ''ServiceConfig'') vs_kind (sc_Meta sc) vs) (\<lambda>vs.
         create_or_update vs_kind (ap_VirtualService api) vs foundMap))
       else gret ()))"

definition sc_getDestinationRuleMap ::
  "'w api \<Rightarrow> Reconciler \<Rightarrow> ServiceConfig \<Rightarrow> ('w, (string, DestinationRule) gomap) call" where
  "sc_getDestinationRuleMap api r sc = list_map dr_kind (ap_DestinationRule api) (sc_selector r sc)"

definition sc_reconcileDestinationRule :: "'w api \<Rightarrow> Reconciler \<Rightarrow> ServiceConfig \<Rightarrow> ('w, unit) call" where
  "sc_reconcileDestinationRule api r sc =
     gbind (sc_getDestinationRuleMap api r sc) (\<lambda>foundMap.
     gbind (sc_getSubset api r sc) (\<lambda>subsets.
       if length subsets \<noteq> 0 then
         gbind (orPanic (sc_buildDestinationRule r sc subsets)) (\<lambda>dr.
         gbind (set_owner (ap_SetControllerReference api ''ServiceConfig'') dr_kind (sc_Meta sc) dr) (\<lambda>dr.
         create_or_update dr_kind (ap_DestinationRule api) dr foundMap))
       else gret ()))"

text \<open>
  The weights. The entry is looked up under the unformatted name, and the retried update sends the
  same object again.
\<close>

definition resend :: "('w, 'o) kclient \<Rightarrow> 'o \<Rightarrow> 'w \<Rightarrow> (kerr + unit) \<times> 'o \<times> 'w" where
  "resend c found w =
     (case kUpdate c found w of (Inl e, w') \<Rightarrow> (Inl e, found, w') | (Inr answer, w') \<Rightarrow> (Inr (), answer, w'))"

definition sc_weight_step :: "'w api \<Rightarrow> ServiceConfig \<Rightarrow> InstanceConfig \<Rightarrow> ('w, unit) call" where
  "sc_weight_step api sc ins =
     gbind (orPanic (ic_Port ins)) (\<lambda>port.
     gbind (attempt (kGet (ap_WorkloadEntry api)
        (om_Namespace (sc_Meta sc), workload_name (om_Name (sc_Meta sc)) (ic_Host ins) port))) (\<lambda>res.
       case res of
         Inl err \<Rightarrow> if err = NotFound then gret () else gfail err
       | Inr found \<Rightarrow>
           (\<lambda>w. case kRetry (ap_WorkloadEntry api) (resend (ap_WorkloadEntry api))
                        (with_weight (ic_Weight ins) found) w of
                  (Inl e, _, w') \<Rightarrow> (Inl (Fail e), w') | (Inr _, _, w') \<Rightarrow> (Inr (), w'))))"

definition sc_reconcileWorkloadEntry :: "'w api \<Rightarrow> ServiceConfig \<Rightarrow> ('w, unit) call" where
  "sc_reconcileWorkloadEntry api sc = gforeach (sc_weight_step api sc) (sc_Instances (sc_Spec sc))"

section \<open>Status\<close>

definition sc_getServiceEntryStatus :: "'w api \<Rightarrow> Reconciler \<Rightarrow> ServiceConfig \<Rightarrow> ('w, SubStatus) call" where
  "sc_getServiceEntryStatus api r sc =
     gbind (count_list (ap_ServiceEntry api) (sc_selector r sc)) (\<lambda>count. gret (sub_status 1 count))"

definition sc_getWorkloadEntryStatus :: "'w api \<Rightarrow> Reconciler \<Rightarrow> ServiceConfig \<Rightarrow> ('w, SubStatus) call" where
  "sc_getWorkloadEntryStatus api r sc =
     gbind (attempt (kGet (ap_ConfiguredService api) (sc_key sc))) (\<lambda>res.
       case res of
         Inl _ \<Rightarrow> gret zero_status
       | Inr cs \<Rightarrow>
           let insCount = int (length (cs_Instances (cs_Spec cs))) in
           if insCount = 0 then gret zero_status
           else gbind (count_list (ap_WorkloadEntry api) (sc_selector r sc)) (\<lambda>count.
                  gret (sub_status insCount count)))"

text \<open>An error of \<open>getSubset\<close> is logged, and no subset is left.\<close>

definition sc_subsets_or_none :: "'w api \<Rightarrow> Reconciler \<Rightarrow> ServiceConfig \<Rightarrow> ('w, Subset list) call" where
  "sc_subsets_or_none api r sc =
     gbind (gcatch (sc_getSubset api r sc)) (\<lambda>res. gret (case res of Inl _ \<Rightarrow> [] | Inr subsets \<Rightarrow> subsets))"

definition sc_getVirtualServiceStatus :: "'w api \<Rightarrow> Reconciler \<Rightarrow> ServiceConfig \<Rightarrow> ('w, SubStatus) call" where
  "sc_getVirtualServiceStatus api r sc =
     gbind (sc_subsets_or_none api r sc) (\<lambda>subsets.
       if length subsets = 0 then gret zero_status
       else gbind (count_list (ap_VirtualService api) (sc_selector r sc)) (\<lambda>count. gret (sub_status 1 count)))"

definition sc_getDestinationRuleStatus :: "'w api \<Rightarrow> Reconciler \<Rightarrow> ServiceConfig \<Rightarrow> ('w, SubStatus) call" where
  "sc_getDestinationRuleStatus api r sc =
     gbind (sc_subsets_or_none api r sc) (\<lambda>subsets.
       if length subsets = 0 then gret zero_status
       else gbind (count_list (ap_DestinationRule api) (sc_selector r sc)) (\<lambda>count. gret (sub_status 1 count)))"

definition sc_buildStatus :: "'w api \<Rightarrow> Reconciler \<Rightarrow> ServiceConfig \<Rightarrow> ('w, ServiceConfigStatus) call" where
  "sc_buildStatus api r sc =
     gbind (sc_getServiceEntryStatus api r sc) (\<lambda>serviceEntry.
     gbind (sc_getWorkloadEntryStatus api r sc) (\<lambda>workloadEntry.
     gbind (sc_getVirtualServiceStatus api r sc) (\<lambda>virtualService.
     gbind (sc_getDestinationRuleStatus api r sc) (\<lambda>destinationRule.
     let status = \<lparr>st_ServiceEntry = serviceEntry, st_WorkloadEntry = workloadEntry,
                   st_VirtualService = virtualService, st_DestinationRule = destinationRule\<rparr> in
     gbind (orPanic (calcPhase status)) (\<lambda>phase.
     gret \<lparr>scs_LastUpdateTime = None, scs_Phase = phase, scs_Status = Some status\<rparr>)))))"

definition sc_updateStatus :: "'w api \<Rightarrow> Reconciler \<Rightarrow> nsname \<Rightarrow> ServiceConfig \<Rightarrow> ('w, unit) call" where
  "sc_updateStatus api r req sc =
     gbind (sc_buildStatus api r sc) (\<lambda>status.
       update_status sc_status (ap_Now api) (ap_ServiceConfig api) req status sc)"

section \<open>Reconcile\<close>

definition sc_Reconcile :: "'w api \<Rightarrow> nsname \<Rightarrow> ('w \<times> Reconciler, unit) call" where
  "sc_Reconcile api req =
     gbind (on_world (\<lambda>r. attempt (kGet (ap_ServiceConfig api) req))) (\<lambda>res.
       case res of
         Inl err \<Rightarrow> if err = NotFound then gret () else gfail err
       | Inr sc \<Rightarrow>
           gbind (getMeshConfig api) (\<lambda>_.
           gbind (on_world (\<lambda>r. sc_reconcileWorkloadEntry api sc)) (\<lambda>_.
           gbind (on_world (\<lambda>r. sc_reconcileDestinationRule api r sc)) (\<lambda>_.
           gbind (on_world (\<lambda>r. sc_reconcileVirtualService api r sc)) (\<lambda>_.
           gbind (on_world (\<lambda>r. gcatch (sc_updateStatus api r req sc))) (\<lambda>updated.
             case updated of
               Inl err \<Rightarrow> if err = NotFound then gret () else gfail err
             | Inr _ \<Rightarrow> gret ()))))))"

section \<open>Reads\<close>

text \<open>The subsets the ConfiguredService stored in a cluster provides.\<close>

definition stored_subsets :: "Reconciler \<Rightarrow> cluster \<Rightarrow> nsname \<Rightarrow> Subset list" where
  "stored_subsets r C key =
     (case c_ConfiguredService C key of None \<Rightarrow> [] | Some cs \<Rightarrow> cs_getSubset r cs)"

lemma sc_getSubset_view:
  assumes ok: "api_ok api view" and run: "sc_getSubset api r sc w = (x, w')"
  shows "view w' = view w" and "x = Inr subs \<Longrightarrow> subs = stored_subsets r (view w) (sc_key sc)"
proof -
  obtain g w1 where get: "kGet (ap_ConfiguredService api) (sc_key sc) w = (g, w1)" by fastforce
  note law = kube_ok_getD(3,4) [OF api_ok_cs [OF ok] get]
  have "w' = w1" using run get
    by (auto simp: sc_getSubset_def gbind_def attempt_def gret_def gfail_def Let_def split: sum.splits if_splits)
  then show "view w' = view w" using get_keeps_view(2) [OF ok get] by simp
  show "subs = stored_subsets r (view w) (sc_key sc)" if "x = Inr subs"
  proof (cases g)
    case (Inl err)
    with run get that have "err = NotFound" "subs = []"
      by (auto simp: sc_getSubset_def gbind_def attempt_def gret_def gfail_def split: if_splits)
    with Inl law(2) show ?thesis by (simp add: stored_subsets_def)
  next
    case (Inr cs)
    with run get that have "subs = cs_getSubset r cs"
      by (simp add: sc_getSubset_def gbind_def attempt_def gret_def cs_getSubset_def Let_def)
    with law(1) [OF Inr] show ?thesis by (simp add: stored_subsets_def)
  qed
qed

end
