(* ===== verification/CsCorrect.thy ===== *)
theory CsCorrect
  imports CsController
begin

text \<open>
  What the reconciliation of a ConfiguredService leaves in the cluster, for every client that behaves
  as documented (\<open>api_ok\<close>): convergence to the built resources, deletion of the others of the
  service, everything else untouched, idempotence, and the hand-over to a ServiceConfig.
\<close>

section \<open>The shared body\<close>

lemma cs_VirtualService_unfold:
  "cs_reconcileVirtualService api r cs =
     vs.sync_service (ap_SetControllerReference api ''ConfiguredService'') (ap_VirtualService api) (cs_selector r cs) (cs_Meta cs)
       (gret (if cs_getSubset r cs = [] then None
              else Some (cs_buildVirtualService r cs (cs_getSubset r cs))))"
  by (simp add: cs_reconcileVirtualService_def cs_getVirtualServicesMap_def vs.sync_service_def
      run_simps Let_def fun_eq_iff)

lemma cs_DestinationRule_unfold:
  "cs_reconcileDestinationRule api r cs =
     dr.sync_service (ap_SetControllerReference api ''ConfiguredService'') (ap_DestinationRule api) (cs_selector r cs) (cs_Meta cs)
       (gret (if cs_getSubset r cs = [] then None
              else Some (cs_buildDestinationRule r cs (cs_getSubset r cs))))"
  by (simp add: cs_reconcileDestinationRule_def cs_getDestinationRuleMap_def dr.sync_service_def
      run_simps Let_def fun_eq_iff)

lemma cs_ServiceEntry_unfold:
  "cs_reconcileServiceEntry api r cs =
     se.sync_service (ap_SetControllerReference api ''ConfiguredService'') (ap_ServiceEntry api) (cs_selector r cs) (cs_Meta cs)
       (gret (Some (Some (cs_buildServiceEntry r cs))))"
  by (simp add: cs_reconcileServiceEntry_def cs_getServiceEntriesMap_def se.sync_service_def
      run_simps fun_eq_iff)

lemma cs_built_meta:
  "cs_buildVirtualService r cs subs = Some v \<Longrightarrow> vs_Meta v = cs_meta r cs"
  "cs_buildDestinationRule r cs subs = Some d \<Longrightarrow> dr_Meta d = cs_meta r cs"
  "se_Meta (cs_buildServiceEntry r cs) = cs_meta r cs"
  by (auto simp: cs_buildVirtualService_def cs_buildDestinationRule_def cs_buildServiceEntry_def
      bind_eq_Some_conv)

lemma cs_built_key:
  "cs_buildVirtualService r cs subs = Some v \<Longrightarrow>
     okey vs_kind v = (om_Namespace (cs_Meta cs), FormatToDNS1123 (om_Name (cs_Meta cs)))"
  "cs_buildDestinationRule r cs subs = Some d \<Longrightarrow>
     okey dr_kind d = (om_Namespace (cs_Meta cs), FormatToDNS1123 (om_Name (cs_Meta cs)))"
  "okey se_kind (cs_buildServiceEntry r cs) = (om_Namespace (cs_Meta cs), FormatToDNS1123 (om_Name (cs_Meta cs)))"
  by (auto simp: okey_def kind_defs cs_built_meta)

text \<open>The key under which the resources of a service are stored.\<close>

definition cs_key :: "ConfiguredService \<Rightarrow> nsname" where
  "cs_key cs = (om_Namespace (cs_Meta cs), FormatToDNS1123 (om_Name (cs_Meta cs)))"

section \<open>VirtualService\<close>

lemma cs_VirtualService_cases:
  assumes ok: "api_ok api view" and ns: "om_Namespace (cs_Meta cs) \<noteq> []"
    and run: "cs_reconcileVirtualService api r cs w = (x, w')"
  shows "view w' = (view w)\<lparr>c_VirtualService := c_VirtualService (view w')\<rparr>"
    and "k \<noteq> cs_key cs \<Longrightarrow>
      (\<And>o1. c_VirtualService (view w) k = Some o1 \<Longrightarrow> \<not> selects (cs_selector r cs) (vs_Meta o1)) \<Longrightarrow>
      c_VirtualService (view w') k = c_VirtualService (view w) k"
    and "x = Inr u \<Longrightarrow> if cs_getSubset r cs = [] then view w' = view w
      else \<exists>v. cs_buildVirtualService r cs (cs_getSubset r cs) = Some v \<and>
        sync_result vs_kind (cs_selector r cs) v (c_VirtualService (view w)) (c_VirtualService (view w'))"
proof -
  note run' = run [unfolded cs_VirtualService_unfold]
  have wants: "wants_key vs_kind (gret (if cs_getSubset r cs = [] then None
              else Some (cs_buildVirtualService r cs (cs_getSubset r cs)))) (cs_key cs)"
    by (auto simp: wants_key_def gret_def cs_built_key cs_key_def)
  note C = vs.sync_service_cases [OF api_ok_vs [OF ok] api_ok_setref [OF ok] reads_only_gret wants [unfolded cs_key_def]
      cs_selector_simps(1) ns run']
  show frame: "view w' = (view w)\<lparr>c_VirtualService := c_VirtualService (view w')\<rparr>"
    using C(1) unfolding only_changed .
  show "k \<noteq> cs_key cs \<Longrightarrow>
      (\<And>o1. c_VirtualService (view w) k = Some o1 \<Longrightarrow> \<not> selects (cs_selector r cs) (vs_Meta o1)) \<Longrightarrow>
      c_VirtualService (view w') k = c_VirtualService (view w) k"
    using C(2) [where k = k] by (simp add: cs_key_def vs_kind_def)
  show "if cs_getSubset r cs = [] then view w' = view w
      else \<exists>v. cs_buildVirtualService r cs (cs_getSubset r cs) = Some v \<and>
        sync_result vs_kind (cs_selector r cs) v (c_VirtualService (view w)) (c_VirtualService (view w'))"
    if "x = Inr u"
    using C(3) [OF that] frame by (auto simp: gret_def split: if_splits option.splits)
qed

text \<open>
  C7: when the reconciliation of a service that provides some subset returns without error, the
  virtual service built from it is stored (up to the fields the server sets), every other virtual
  service labelled with the service is deleted, and no other object of the cluster has changed. The
  one exception is a stored virtual service of the same name without the label: then the creation
  fails as already existing, the code treats that as success, and nothing has changed.
\<close>

theorem cs_VirtualService_converges:
  assumes "api_ok api view" and "om_Namespace (cs_Meta cs) \<noteq> []"
    and "cs_reconcileVirtualService api r cs w = (Inr (), w')" and "cs_getSubset r cs \<noteq> []"
  shows "\<exists>v. cs_buildVirtualService r cs (cs_getSubset r cs) = Some v \<and>
    sync_result vs_kind (cs_selector r cs) v (c_VirtualService (view w)) (c_VirtualService (view w')) \<and>
    view w' = (view w)\<lparr>c_VirtualService := c_VirtualService (view w')\<rparr>"
  using cs_VirtualService_cases(1,3) [OF assms(1-3)] assms(4) by auto

lemma demo_subsets: "cs_getSubset demo_rc demo_cs \<noteq> []" "om_Namespace (cs_Meta demo_cs) \<noteq> []"
  by (simp_all add: cs_getSubset_def demo_defs)

lemma demo_vs_run:
  "cs_reconcileVirtualService mem_api demo_rc demo_cs empty_world =
     (Inr (), snd (cs_reconcileVirtualService mem_api demo_rc demo_cs empty_world))"
  by (rule run_pair) code_simp

theorem cs_VirtualService_converges_witness:
  "\<exists>v. cs_buildVirtualService demo_rc demo_cs (cs_getSubset demo_rc demo_cs) = Some v \<and>
    sync_result vs_kind (cs_selector demo_rc demo_cs) v (c_VirtualService (mem_view empty_world))
      (c_VirtualService (mem_view (snd (cs_reconcileVirtualService mem_api demo_rc demo_cs empty_world))))"
  using cs_VirtualService_converges [OF mem_api_ok demo_subsets(2) demo_vs_run demo_subsets(1)] by blast

text \<open>
  C9: reconciling again changes no virtual service, whatever the second run returns, provided none
  of the stored virtual services is kept by a finalizer.
\<close>

theorem cs_VirtualService_idempotent:
  assumes "api_ok api view" and "om_Namespace (cs_Meta cs) \<noteq> []"
    and "\<And>k o1. c_VirtualService (view w) k = Some o1 \<Longrightarrow> om_Finalizers (vs_Meta o1) = []"
    and "cs_reconcileVirtualService api r cs w = (Inr (), w1)"
    and "cs_reconcileVirtualService api r cs w1 = (x, w2)"
  shows "c_VirtualService (view w2) = c_VirtualService (view w1)"
proof (rule vs.sync_service_idempotent [OF api_ok_vs [OF assms(1)] api_ok_setref [OF assms(1)] reads_only_gret
      _ _ cs_selector_simps(1) assms(2) cs_selector_simps(2) _ assms(4)[unfolded cs_VirtualService_unfold]
      assms(5)[unfolded cs_VirtualService_unfold]])
  show "okey vs_kind o1 = (om_Namespace (cs_Meta cs), FormatToDNS1123 (om_Name (cs_Meta cs))) \<and>
      selects (cs_selector r cs) (k_Meta vs_kind o1)"
    if "(if cs_getSubset r cs = [] then None else Some (cs_buildVirtualService r cs (cs_getSubset r cs))) =
      Some (Some o1)" for o1
    using that cs_built_meta(1) cs_built_key(1) cs_selects_own
    by (auto simp: kind_defs split: if_splits)
qed (use assms(3) in \<open>auto simp: gret_def vs_kind_def\<close>)

theorem cs_VirtualService_idempotent_witness:
  "c_VirtualService (mem_view (snd (cs_reconcileVirtualService mem_api demo_rc demo_cs
      (snd (cs_reconcileVirtualService mem_api demo_rc demo_cs empty_world))))) =
   c_VirtualService (mem_view (snd (cs_reconcileVirtualService mem_api demo_rc demo_cs empty_world)))"
  by (rule cs_VirtualService_idempotent [OF mem_api_ok demo_subsets(2) _ demo_vs_run surjective_pairing])
    (simp add: mem_view_def mem_objs_def empty_world_def)

section \<open>DestinationRule\<close>

lemma cs_DestinationRule_cases:
  assumes ok: "api_ok api view" and ns: "om_Namespace (cs_Meta cs) \<noteq> []"
    and run: "cs_reconcileDestinationRule api r cs w = (x, w')"
  shows "view w' = (view w)\<lparr>c_DestinationRule := c_DestinationRule (view w')\<rparr>"
    and "k \<noteq> cs_key cs \<Longrightarrow>
      (\<And>o1. c_DestinationRule (view w) k = Some o1 \<Longrightarrow> \<not> selects (cs_selector r cs) (dr_Meta o1)) \<Longrightarrow>
      c_DestinationRule (view w') k = c_DestinationRule (view w) k"
    and "x = Inr u \<Longrightarrow> if cs_getSubset r cs = [] then view w' = view w
      else \<exists>v. cs_buildDestinationRule r cs (cs_getSubset r cs) = Some v \<and>
        sync_result dr_kind (cs_selector r cs) v (c_DestinationRule (view w)) (c_DestinationRule (view w'))"
proof -
  note run' = run [unfolded cs_DestinationRule_unfold]
  have wants: "wants_key dr_kind (gret (if cs_getSubset r cs = [] then None
              else Some (cs_buildDestinationRule r cs (cs_getSubset r cs)))) (cs_key cs)"
    by (auto simp: wants_key_def gret_def cs_built_key cs_key_def)
  note C = dr.sync_service_cases [OF api_ok_dr [OF ok] api_ok_setref [OF ok] reads_only_gret wants [unfolded cs_key_def]
      cs_selector_simps(1) ns run']
  show frame: "view w' = (view w)\<lparr>c_DestinationRule := c_DestinationRule (view w')\<rparr>"
    using C(1) unfolding only_changed .
  show "k \<noteq> cs_key cs \<Longrightarrow>
      (\<And>o1. c_DestinationRule (view w) k = Some o1 \<Longrightarrow> \<not> selects (cs_selector r cs) (dr_Meta o1)) \<Longrightarrow>
      c_DestinationRule (view w') k = c_DestinationRule (view w) k"
    using C(2) [where k = k] by (simp add: cs_key_def dr_kind_def)
  show "if cs_getSubset r cs = [] then view w' = view w
      else \<exists>v. cs_buildDestinationRule r cs (cs_getSubset r cs) = Some v \<and>
        sync_result dr_kind (cs_selector r cs) v (c_DestinationRule (view w)) (c_DestinationRule (view w'))"
    if "x = Inr u"
    using C(3) [OF that] frame by (auto simp: gret_def split: if_splits option.splits)
qed

text \<open>
  The destination rule of a service converges in the same way.
\<close>

theorem cs_DestinationRule_converges:
  assumes "api_ok api view" and "om_Namespace (cs_Meta cs) \<noteq> []"
    and "cs_reconcileDestinationRule api r cs w = (Inr (), w')" and "cs_getSubset r cs \<noteq> []"
  shows "\<exists>v. cs_buildDestinationRule r cs (cs_getSubset r cs) = Some v \<and>
    sync_result dr_kind (cs_selector r cs) v (c_DestinationRule (view w)) (c_DestinationRule (view w')) \<and>
    view w' = (view w)\<lparr>c_DestinationRule := c_DestinationRule (view w')\<rparr>"
  using cs_DestinationRule_cases(1,3) [OF assms(1-3)] assms(4) by auto

lemma demo_dr_run:
  "cs_reconcileDestinationRule mem_api demo_rc demo_cs empty_world =
     (Inr (), snd (cs_reconcileDestinationRule mem_api demo_rc demo_cs empty_world))"
  by (rule run_pair) code_simp

theorem cs_DestinationRule_converges_witness:
  "\<exists>v. cs_buildDestinationRule demo_rc demo_cs (cs_getSubset demo_rc demo_cs) = Some v \<and>
    sync_result dr_kind (cs_selector demo_rc demo_cs) v (c_DestinationRule (mem_view empty_world))
      (c_DestinationRule (mem_view (snd (cs_reconcileDestinationRule mem_api demo_rc demo_cs empty_world))))"
  using cs_DestinationRule_converges [OF mem_api_ok demo_subsets(2) demo_dr_run demo_subsets(1)] by blast

section \<open>ServiceEntry\<close>

lemma cs_ServiceEntry_cases:
  assumes ok: "api_ok api view" and ns: "om_Namespace (cs_Meta cs) \<noteq> []"
    and run: "cs_reconcileServiceEntry api r cs w = (x, w')"
  shows "view w' = (view w)\<lparr>c_ServiceEntry := c_ServiceEntry (view w')\<rparr>"
    and "k \<noteq> cs_key cs \<Longrightarrow>
      (\<And>o1. c_ServiceEntry (view w) k = Some o1 \<Longrightarrow> \<not> selects (cs_selector r cs) (se_Meta o1)) \<Longrightarrow>
      c_ServiceEntry (view w') k = c_ServiceEntry (view w) k"
    and "x = Inr u \<Longrightarrow> sync_result se_kind (cs_selector r cs) (cs_buildServiceEntry r cs)
      (c_ServiceEntry (view w)) (c_ServiceEntry (view w'))"
proof -
  note run' = run [unfolded cs_ServiceEntry_unfold]
  have wants: "wants_key se_kind (gret (Some (Some (cs_buildServiceEntry r cs)))) (cs_key cs)"
    by (auto simp: wants_key_def gret_def cs_built_key cs_key_def)
  note C = se.sync_service_cases [OF api_ok_se [OF ok] api_ok_setref [OF ok] reads_only_gret
      wants [unfolded cs_key_def] cs_selector_simps(1) ns run']
  show "view w' = (view w)\<lparr>c_ServiceEntry := c_ServiceEntry (view w')\<rparr>"
    using C(1) unfolding only_changed .
  show "k \<noteq> cs_key cs \<Longrightarrow>
      (\<And>o1. c_ServiceEntry (view w) k = Some o1 \<Longrightarrow> \<not> selects (cs_selector r cs) (se_Meta o1)) \<Longrightarrow>
      c_ServiceEntry (view w') k = c_ServiceEntry (view w) k"
    using C(2) [where k = k] by (simp add: cs_key_def se_kind_def)
  show "sync_result se_kind (cs_selector r cs) (cs_buildServiceEntry r cs)
      (c_ServiceEntry (view w)) (c_ServiceEntry (view w'))" if "x = Inr u"
    using C(3) [OF that] by (auto simp: gret_def split: option.splits)
qed

text \<open>
  The service entry of every service converges in the same way, with or without subsets.
\<close>

theorem cs_ServiceEntry_converges:
  assumes "api_ok api view" and "om_Namespace (cs_Meta cs) \<noteq> []"
    and "cs_reconcileServiceEntry api r cs w = (Inr (), w')"
  shows "sync_result se_kind (cs_selector r cs) (cs_buildServiceEntry r cs)
      (c_ServiceEntry (view w)) (c_ServiceEntry (view w')) \<and>
    view w' = (view w)\<lparr>c_ServiceEntry := c_ServiceEntry (view w')\<rparr>"
  using cs_ServiceEntry_cases(1,3) [OF assms] by simp

lemma demo_se_run:
  "cs_reconcileServiceEntry mem_api demo_rc demo_cs empty_world =
     (Inr (), snd (cs_reconcileServiceEntry mem_api demo_rc demo_cs empty_world))"
  by (rule run_pair) code_simp

theorem cs_ServiceEntry_converges_witness:
  "sync_result se_kind (cs_selector demo_rc demo_cs) (cs_buildServiceEntry demo_rc demo_cs)
      (c_ServiceEntry (mem_view empty_world))
      (c_ServiceEntry (mem_view (snd (cs_reconcileServiceEntry mem_api demo_rc demo_cs empty_world))))"
  using cs_ServiceEntry_converges [OF mem_api_ok demo_subsets(2) demo_se_run] by blast

section \<open>WorkloadEntry\<close>

definition cs_workload_keys :: "Reconciler \<Rightarrow> ConfiguredService \<Rightarrow> Instance list \<Rightarrow> nsname set" where
  "cs_workload_keys r cs instances =
     okey we_kind ` set (List.map_filter (cs_buildWorkloadEntry r cs) instances)"

text \<open>
  What is stored under the key of an instance: the entry built for an instance with that key, up to
  the weight, unless an entry of that name without the label was there.
\<close>

definition workload_done ::
  "Reconciler \<Rightarrow> ConfiguredService \<Rightarrow> (nsname \<Rightarrow> WorkloadEntry option) \<Rightarrow> nsname \<Rightarrow> WorkloadEntry \<Rightarrow> bool" where
  "workload_done r cs M k o1 \<longleftrightarrow>
     (\<exists>o0. M k = Some o0 \<and> \<not> selects (cs_selector r cs) (we_Meta o0)) \<or>
     (\<exists>ins \<in> set (cs_Instances (cs_Spec cs)). \<exists>we weight. cs_buildWorkloadEntry r cs ins = Some we \<and>
        okey we_kind we = k \<and> \<not> compareWorkloadEntry (with_weight weight we) o1)"

definition workloads_synced ::
  "Reconciler \<Rightarrow> ConfiguredService \<Rightarrow> (nsname \<Rightarrow> WorkloadEntry option) \<Rightarrow> (nsname \<Rightarrow> WorkloadEntry option) \<Rightarrow> bool" where
  "workloads_synced r cs M M' \<longleftrightarrow>
     (\<forall>ins \<in> set (cs_Instances (cs_Spec cs)). \<exists>we o1. cs_buildWorkloadEntry r cs ins = Some we \<and>
        M' (okey we_kind we) = Some o1 \<and> workload_done r cs M (okey we_kind we) o1) \<and>
     (\<forall>k. k \<notin> cs_workload_keys r cs (cs_Instances (cs_Spec cs)) \<longrightarrow>
        (case M k of
           None \<Rightarrow> M' k = None
         | Some o1 \<Rightarrow> if selects (cs_selector r cs) (we_Meta o1)
                      then om_Finalizers (we_Meta o1) = [] \<longrightarrow> M' k = None
                      else M' k = Some o1))"

lemma with_weight_simps [simp]:
  "we_Meta (with_weight x we) = we_Meta we" "okey we_kind (with_weight x we) = okey we_kind we"
  "with_weight (we_Weight (we_Spec we)) we = we"
  by (simp_all add: with_weight_def okey_def we_kind_def)

text \<open>Owner references are not compared.\<close>

lemma compare_owned:
  assumes "m = (we_Meta we)\<lparr>om_OwnerReferences := refs\<rparr>"
  shows "compareWorkloadEntry (with_weight x (we\<lparr>we_Meta := m\<rparr>)) o1 = compareWorkloadEntry (with_weight x we) o1"
  using assms by (simp add: compareWorkloadEntry_def with_weight_def)

lemma cs_workload_meta:
  "cs_buildWorkloadEntry r cs ins = Some we \<Longrightarrow> om_Namespace (we_Meta we) = om_Namespace (cs_Meta cs) \<and>
     om_Labels (we_Meta we) = cs_labels r cs"
  by (auto simp: cs_buildWorkloadEntry_def)

lemma cs_weights_view:
  assumes ok: "api_ok api view" and run: "cs_getInstanceWeight api cs w = (x, w')"
  shows "view w' = view w"
proof -
  obtain g w1 where get: "kGet (ap_ServiceConfig api) (om_Namespace (cs_Meta cs), om_Name (cs_Meta cs)) w = (g, w1)"
    by fastforce
  have loop: "gfold (\<lambda>ins m. gbind (orPanic (ic_Port ins)) (\<lambda>port.
      gret (map_put (workload_name (om_Name (cs_Meta cs)) (ic_Host ins) port) (ic_Weight ins) m))) xs m w1
      = (x, w') \<Longrightarrow> w' = w1" for xs m
    by (rule gfold_rel [where R = "\<lambda>s t. t = s" and f = "\<lambda>ins m. gbind (orPanic (ic_Port ins)) (\<lambda>port.
      gret (map_put (workload_name (om_Name (cs_Meta cs)) (ic_Host ins) port) (ic_Weight ins) m))"])
      (auto simp: gbind_def orPanic_def gret_def split: option.splits)
  from run get have "w' = w1"
    by (cases g) (auto simp: cs_getInstanceWeight_def gbind_def attempt_def gret_def dest: loop)
  then show ?thesis using get_keeps_view(3) [OF ok get] by simp
qed

definition keyed_map :: "ConfiguredService \<Rightarrow> (string, WorkloadEntry) gomap \<Rightarrow> bool" where
  "keyed_map cs fm \<longleftrightarrow> (\<forall>n o1. map_of fm n = Some o1 \<longrightarrow> okey we_kind o1 = (om_Namespace (cs_Meta cs), n))"

text \<open>One instance: its key is the only one written, and what is written there is the built entry.\<close>

lemma cs_workload_step_cases:
  assumes ok: "api_ok api view" and run: "cs_workload_step api r cs weights ins fm w = (x, w')"
    and good: "keyed_map cs fm"
  obtains (stopped) e where "x = Inl e" and "view w' = view w"
  | (kept) we where "cs_buildWorkloadEntry r cs ins = Some we" and "map_of fm (om_Name (we_Meta we)) = None"
      and "x = Inr fm" and "view w' = view w" and "c_WorkloadEntry (view w) (okey we_kind we) \<noteq> None"
  | (created) we o1 where "cs_buildWorkloadEntry r cs ins = Some we" and "map_of fm (om_Name (we_Meta we)) = None"
      and "x = Inr fm" and "c_WorkloadEntry (view w) (okey we_kind we) = None"
      and "view w' = (view w)\<lparr>c_WorkloadEntry := (c_WorkloadEntry (view w))(okey we_kind we \<mapsto> o1)\<rparr>"
      and "\<exists>weight. \<not> compareWorkloadEntry (with_weight weight we) o1"
  | (found) we fnd o1 where "cs_buildWorkloadEntry r cs ins = Some we"
      and "map_of fm (om_Name (we_Meta we)) = Some fnd" and "x = Inr (map_del (om_Name (we_Meta we)) fm)"
      and "view w' = view w \<and> o1 = fnd \<or>
        view w' = (view w)\<lparr>c_WorkloadEntry := (c_WorkloadEntry (view w))(okey we_kind we \<mapsto> o1)\<rparr>"
      and "\<exists>weight. \<not> compareWorkloadEntry (with_weight weight we) o1"
proof (cases "cs_buildWorkloadEntry r cs ins")
  case None
  with run show thesis by (intro stopped [of Panic]) (simp_all add: cs_workload_step_def run_simps)
next
  case (Some we)
  note kube = api_ok_we [OF ok]
  show thesis
  proof (cases "ap_SetControllerReference api ''ConfiguredService'' (cs_Meta cs) (we_Meta we)")
    case (Inl e)
    with run Some show thesis
      by (intro stopped [of "Fail e"]) (simp_all add: cs_workload_step_def set_owner_def we_kind_def run_simps)
  next
    case (Inr m)
    define new where "new = we\<lparr>we_Meta := m\<rparr>"
    have m: "m = (we_Meta we)\<lparr>om_OwnerReferences := om_OwnerReferences m\<rparr>"
      using api_ok_setref [OF ok] Inr unfolding setref_ok_def by blast
    have name: "om_Name m = om_Name (we_Meta we)" and "om_Namespace m = om_Namespace (we_Meta we)"
      by (subst m; simp)+
    then have key: "okey we_kind new = okey we_kind we" by (simp add: new_def okey_def we_kind_def)
    have cmp: "compareWorkloadEntry (with_weight y new) o1 = compareWorkloadEntry (with_weight y we) o1" for y o1
      unfolding new_def by (rule compare_owned [OF m])
    have new0: "with_weight (we_Weight (we_Spec new)) new = new" by simp
    from run Some Inr have run2: "(case map_of fm (om_Name (we_Meta we)) of
         None \<Rightarrow> gbind (attempt (kCreate (ap_WorkloadEntry api) new)) (\<lambda>res.
             case res of Inl e \<Rightarrow> if e = AlreadyExists then gret fm else gfail e | Inr _ \<Rightarrow> gret fm)
       | Some fnd \<Rightarrow> gbind (if compareWorkloadEntry new fnd then cs_updateWorkloadEntry api weights new fnd else gret ())
             (\<lambda>_. gret (map_del (om_Name (we_Meta we)) fm))) w = (x, w')"
      by (cases "map_of fm (om_Name (we_Meta we))")
        (auto simp: cs_workload_step_def set_owner_def we_kind_def run_simps new_def name split: if_splits)
    show thesis
    proof (cases "map_of fm (om_Name (we_Meta we))")
      case none: None
      obtain r1 w1 where cr: "kCreate (ap_WorkloadEntry api) new w = (r1, w1)" by fastforce
      note law = kube_ok_createD [OF kube cr, unfolded only_changed key]
      show thesis
      proof (cases r1)
        case (Inl e)
        have v: "view w1 = view w" using law(1,2) Inl by simp
        show thesis
        proof (cases "e = AlreadyExists")
          case True
          with run2 none cr Inl have "x = Inr fm" "w' = w1" by (simp_all add: gbind_def attempt_def gret_def)
          with v law(3) Inl True Some none show thesis by (intro kept [of we]) simp_all
        next
          case False
          with run2 none cr Inl have "x = Inl (Fail e)" "w' = w1" by (simp_all add: gbind_def attempt_def gfail_def)
          with v show thesis by (intro stopped) simp_all
        qed
      next
        case (Inr o1)
        with run2 none cr have "x = Inr fm" "w' = w1" by (simp_all add: gbind_def attempt_def gret_def)
        moreover have "\<not> compareWorkloadEntry new o1"
          using law(4) [OF Inr] we.compare_same [of o1 new new] we.compare_self [of new] by (simp add: we_kind_def)
        then have "\<not> compareWorkloadEntry (with_weight (we_Weight (we_Spec new)) we) o1"
          using cmp new0 by metis
        ultimately show thesis using law(1,4) Inr Some none by (intro created [of we o1]) auto
      qed
    next
      case fnd: (Some fnd)
      have fk: "okey we_kind fnd = okey we_kind we"
        using good fnd cs_workload_meta [OF Some] by (simp add: keyed_map_def okey_def we_kind_def)
      show thesis
      proof (cases "compareWorkloadEntry new fnd")
        case False
        with run2 fnd have "x = Inr (map_del (om_Name (we_Meta we)) fm)" "w' = w"
          by (simp_all add: gbind_def gret_def)
        moreover have "\<not> compareWorkloadEntry (with_weight (we_Weight (we_Spec new)) we) fnd"
          using cmp new0 False by metis
        ultimately show thesis using Some fnd by (intro found [of we fnd fnd]) auto
      next
        case True
        define wanted where "wanted = (case map_of weights (om_Name (we_Meta new)) of
          None \<Rightarrow> new | Some weight \<Rightarrow> with_weight weight new)"
        have wanted: "\<exists>y. wanted = with_weight y new"
          unfolding wanted_def by (metis new0 option.case_eq_if)
        obtain r1 w1 where up: "update_found we_kind (ap_WorkloadEntry api) wanted fnd w = (r1, w1)" by fastforce
        have up': "cs_updateWorkloadEntry api weights new fnd w = (r1, w1)"
          using up by (simp add: cs_updateWorkloadEntry_def wanted_def)
        note law = we.update_found_cases [OF kube up, unfolded only_changed fk]
        show thesis
        proof (cases r1)
          case (Inl e)
          with run2 fnd True up' have "x = Inl e" "w' = w1" by (simp_all add: gbind_def)
          with law(1,2) Inl show thesis by (intro stopped [of e]) auto
        next
          case (Inr u)
          with run2 fnd True up' have "x = Inr (map_del (om_Name (we_Meta we)) fm)" "w' = w1"
            by (simp_all add: gbind_def gret_def)
          moreover from law(3) [OF Inr] obtain o1 where
            "c_WorkloadEntry (view w1) = (c_WorkloadEntry (view w))(okey we_kind we \<mapsto> o1)"
            and "\<not> compareWorkloadEntry wanted o1" by (auto simp: we_kind_def)
          moreover from this wanted cmp have "\<exists>y. \<not> compareWorkloadEntry (with_weight y we) o1" by metis
          ultimately show thesis using Some fnd law(1) by (intro found [of we fnd o1]) auto
        qed
      qed
    qed
  qed
qed

text \<open>
  The invariant of the loop: \<open>D\<close> are the keys of the instances seen so far; the map holds what was
  found under the other keys, and only the keys in \<open>D\<close> have been written.
\<close>

definition workload_inv ::
  "Reconciler \<Rightarrow> ConfiguredService \<Rightarrow> (nsname \<Rightarrow> WorkloadEntry option) \<Rightarrow> nsname set \<Rightarrow>
   (string, WorkloadEntry) gomap \<Rightarrow> (nsname \<Rightarrow> WorkloadEntry option) \<Rightarrow> bool" where
  "workload_inv r cs M0 D fm M \<longleftrightarrow> wf_map fm \<and>
     (\<forall>n o1. map_of fm n = Some o1 \<longleftrightarrow> (om_Namespace (cs_Meta cs), n) \<notin> D \<and>
        M0 (om_Namespace (cs_Meta cs), n) = Some o1 \<and> selects (cs_selector r cs) (we_Meta o1)) \<and>
     (\<forall>k. k \<notin> D \<longrightarrow> M k = M0 k) \<and>
     (\<forall>k \<in> D. \<exists>o1. M k = Some o1 \<and> workload_done r cs M0 k o1)"

lemma workload_inv_update:
  assumes "workload_inv r cs M0 D fm M" and "k0 = (om_Namespace (cs_Meta cs), n0)"
    and "M' k0 = Some o1" and "workload_done r cs M0 k0 o1" and "\<And>k. k \<noteq> k0 \<Longrightarrow> M' k = M k"
    and "fm' = map_del n0 fm \<or> map_of fm n0 = None \<and> fm' = fm"
  shows "workload_inv r cs M0 (insert k0 D) fm' M'"
proof -
  have "wf_map fm'" using assms(1,6) by (auto simp: workload_inv_def)
  moreover have "map_of fm' n = (if n = n0 then None else map_of fm n)" for n
    using assms(6) by auto
  moreover have "M' k = M0 k" if "k \<notin> insert k0 D" for k
    using that assms(1,5) unfolding workload_inv_def by (metis insert_iff)
  moreover have "\<exists>o1. M' k = Some o1 \<and> workload_done r cs M0 k o1" if "k \<in> insert k0 D" for k
    using that assms(1,3,4,5) unfolding workload_inv_def by (cases "k = k0") auto
  ultimately show ?thesis
    using assms(1,2) unfolding workload_inv_def by auto
qed

lemma cs_workload_loop:
  assumes ok: "api_ok api view" and ns: "om_Namespace (cs_Meta cs) \<noteq> []"
    and keyed: "\<And>k o1. M0 k = Some o1 \<Longrightarrow> okey we_kind o1 = k"
    and "set xs \<subseteq> set (cs_Instances (cs_Spec cs))"
    and "workload_inv r cs M0 D fm (c_WorkloadEntry (view w))"
    and "gfold (cs_workload_step api r cs weights) xs fm w = (x, w')"
  shows "view w' = (view w)\<lparr>c_WorkloadEntry := c_WorkloadEntry (view w')\<rparr> \<and>
    (case x of Inl e \<Rightarrow> True
     | Inr fm' \<Rightarrow> workload_inv r cs M0 (D \<union> cs_workload_keys r cs xs) fm' (c_WorkloadEntry (view w')) \<and>
         list_all (\<lambda>ins. cs_buildWorkloadEntry r cs ins \<noteq> None) xs)"
  using assms(4-6)
proof (induction xs arbitrary: D fm w)
  case Nil
  then show ?case by (auto simp: cs_workload_keys_def List.map_filter_def)
next
  case (Cons ins xs)
  define ns where "ns = om_Namespace (cs_Meta cs)"
  let ?M = "c_WorkloadEntry (view w)"
  obtain x1 w1 where step: "cs_workload_step api r cs weights ins fm w = (x1, w1)" by fastforce
  have good: "keyed_map cs fm"
    using Cons.prems(2) keyed unfolding workload_inv_def keyed_map_def by blast
  have key: "okey we_kind we = (ns, om_Name (we_Meta we))" if "cs_buildWorkloadEntry r cs ins = Some we" for we
    using cs_workload_meta [OF that] by (simp add: okey_def we_kind_def ns_def)
  have is_done: "workload_done r cs M0 (okey we_kind we) o1"
    if "cs_buildWorkloadEntry r cs ins = Some we" "\<exists>y. \<not> compareWorkloadEntry (with_weight y we) o1" for we o1
    using that Cons.prems(1) unfolding workload_done_def by auto
  have frame1: "view w1 = (view w)\<lparr>c_WorkloadEntry := c_WorkloadEntry (view w1)\<rparr>"
    and next1: "x1 = Inr fm1 \<Longrightarrow> \<exists>we. cs_buildWorkloadEntry r cs ins = Some we \<and>
      workload_inv r cs M0 (insert (okey we_kind we) D) fm1 (c_WorkloadEntry (view w1))" for fm1
  proof -
    have "view w1 = (view w)\<lparr>c_WorkloadEntry := c_WorkloadEntry (view w1)\<rparr> \<and>
      (\<forall>fm1. x1 = Inr fm1 \<longrightarrow> (\<exists>we. cs_buildWorkloadEntry r cs ins = Some we \<and>
      workload_inv r cs M0 (insert (okey we_kind we) D) fm1 (c_WorkloadEntry (view w1))))"
      using ok step good
    proof (cases rule: cs_workload_step_cases)
      case (stopped e)
      then show ?thesis by simp
    next
      case (kept we)
      obtain o1 where o1: "?M (okey we_kind we) = Some o1" using kept(5) by blast
      have "workload_done r cs M0 (okey we_kind we) o1"
      proof (cases "okey we_kind we \<in> D")
        case True
        then show ?thesis using Cons.prems(2) o1 unfolding workload_inv_def by force
      next
        case False
        then have "M0 (okey we_kind we) = Some o1" using Cons.prems(2) o1 unfolding workload_inv_def by force
        moreover from this False have "\<not> selects (cs_selector r cs) (we_Meta o1)"
          using Cons.prems(2) kept(2) key [OF kept(1)] unfolding workload_inv_def ns_def by force
        ultimately show ?thesis unfolding workload_done_def by blast
      qed
      then have "workload_inv r cs M0 (insert (okey we_kind we) D) fm ?M"
        using kept(2) o1 key [OF kept(1)]
        by (intro workload_inv_update [OF Cons.prems(2)]) (auto simp: ns_def)
      with kept show ?thesis by auto
    next
      case (created we o1)
      then have "workload_inv r cs M0 (insert (okey we_kind we) D) fm (c_WorkloadEntry (view w1))"
        using key [OF created(1)] is_done [OF created(1,6)]
        by (intro workload_inv_update [OF Cons.prems(2)]) (auto simp: ns_def)
      with created show ?thesis by auto
    next
      case (found we fnd o1)
      have "?M (okey we_kind we) = Some fnd"
        using found(2) Cons.prems(2) key [OF found(1)] unfolding workload_inv_def ns_def by force
      with found(4) have "c_WorkloadEntry (view w1) = ?M(okey we_kind we \<mapsto> o1)" by auto
      then have "workload_inv r cs M0 (insert (okey we_kind we) D) (map_del (om_Name (we_Meta we)) fm)
          (c_WorkloadEntry (view w1))"
        using key [OF found(1)] is_done [OF found(1,5)]
        by (intro workload_inv_update [OF Cons.prems(2)]) (auto simp: ns_def)
      with found(1,3,4) show ?thesis by auto
    qed
    then show "view w1 = (view w)\<lparr>c_WorkloadEntry := c_WorkloadEntry (view w1)\<rparr>"
      and "x1 = Inr fm1 \<Longrightarrow> \<exists>we. cs_buildWorkloadEntry r cs ins = Some we \<and>
      workload_inv r cs M0 (insert (okey we_kind we) D) fm1 (c_WorkloadEntry (view w1))" for fm1
      by blast+
  qed
  show ?case
  proof (cases x1)
    case (Inl e)
    with step Cons.prems(3) have "x = Inl e" "w' = w1" by simp_all
    with frame1 show ?thesis by simp
  next
    case (Inr fm1)
    then obtain we where we: "cs_buildWorkloadEntry r cs ins = Some we"
      and inv: "workload_inv r cs M0 (insert (okey we_kind we) D) fm1 (c_WorkloadEntry (view w1))"
      using next1 by blast
    from step Inr Cons.prems(3) have run: "gfold (cs_workload_step api r cs weights) xs fm1 w1 = (x, w')" by simp
    have sub: "set xs \<subseteq> set (cs_Instances (cs_Spec cs))" using Cons.prems(1) by simp
    note IH = Cons.IH [OF sub inv run]
    have "view w' = (view w)\<lparr>c_WorkloadEntry := c_WorkloadEntry (view w')\<rparr>"
      by (rule only_changed_trans(9) [OF IH [THEN conjunct1] frame1])
    moreover have "cs_workload_keys r cs (ins # xs) = insert (okey we_kind we) (cs_workload_keys r cs xs)"
      using we by (simp add: cs_workload_keys_def List.map_filter_def)
    then have "case x of Inl e \<Rightarrow> True
     | Inr fm' \<Rightarrow> workload_inv r cs M0 (D \<union> cs_workload_keys r cs (ins # xs)) fm' (c_WorkloadEntry (view w')) \<and>
         list_all (\<lambda>ins. cs_buildWorkloadEntry r cs ins \<noteq> None) (ins # xs)"
      using IH [THEN conjunct2] we by (simp split: sum.splits)
    ultimately show ?thesis ..
  qed
qed

lemma list_map_run:
  assumes "list_map K c lo w = (x, w')"
  obtains (failed) e where "kList c lo w = (Inl e, w')" and "x = Inl (Fail e)"
  | (listed) xs where "kList c lo w = (Inr xs, w')" and "x = Inr (found_map K xs)"
  using assms by (auto simp: list_map_def gbind_def orFail_def gret_def split: prod.splits sum.splits)

text \<open>The deletion phase turns the invariant of the loop into the specification.\<close>

lemma workloads_pruned:
  assumes ok: "api_ok api view"
    and keyed: "\<And>k o1. M0 k = Some o1 \<Longrightarrow> okey we_kind o1 = k"
    and inv: "workload_inv r cs M0 (cs_workload_keys r cs (cs_Instances (cs_Spec cs))) fm (c_WorkloadEntry (view w))"
    and built: "list_all (\<lambda>ins. cs_buildWorkloadEntry r cs ins \<noteq> None) (cs_Instances (cs_Spec cs))"
    and ns: "om_Namespace (cs_Meta cs) \<noteq> []"
    and run: "delete_unused (ap_WorkloadEntry api) fm w = (x, w')"
  shows "view w' = (view w)\<lparr>c_WorkloadEntry := c_WorkloadEntry (view w')\<rparr>"
    and "x = Inr u \<Longrightarrow> workloads_synced r cs M0 (c_WorkloadEntry (view w'))"
proof -
  define ns where "ns = om_Namespace (cs_Meta cs)"
  define D where "D = cs_workload_keys r cs (cs_Instances (cs_Spec cs))"
  have wf: "distinct (map fst fm)" using inv by (simp add: workload_inv_def wf_map_def)
  have mem: "(n, o1) \<in> set fm \<longleftrightarrow> (ns, n) \<notin> D \<and> M0 (ns, n) = Some o1 \<and> selects (cs_selector r cs) (we_Meta o1)" for n o1
    using inv map_of_eq_Some_iff [OF wf] unfolding workload_inv_def ns_def D_def by blast
  have away: "c_WorkloadEntry (view w) k = M0 k" if "k \<notin> D" for k
    using inv that unfolding workload_inv_def D_def by blast
  have stored: "\<forall>p \<in> set fm. okey we_kind (snd p) = (ns, fst p) \<and>
      c_WorkloadEntry (view w) (ns, fst p) = Some (snd p)"
    using mem keyed away by (metis prod.collapse)
  have meta: "k_Meta we_kind = we_Meta" by (simp add: we_kind_def)
  note del = we.delete_unused_stored [OF api_ok_we [OF ok] run wf stored, unfolded only_changed meta]
  show "view w' = (view w)\<lparr>c_WorkloadEntry := c_WorkloadEntry (view w')\<rparr>" by (rule del(1))
  show "workloads_synced r cs M0 (c_WorkloadEntry (view w'))" if x: "x = Inr u"
    unfolding workloads_synced_def
  proof (intro conjI ballI allI impI)
    fix ins
    assume ins: "ins \<in> set (cs_Instances (cs_Spec cs))"
    then obtain we where we: "cs_buildWorkloadEntry r cs ins = Some we"
      using built by (auto simp: list_all_iff)
    with ins have k: "okey we_kind we \<in> D"
      unfolding D_def cs_workload_keys_def by (force simp: List.map_filter_def)
    then obtain o1 where o1: "c_WorkloadEntry (view w) (okey we_kind we) = Some o1"
      "workload_done r cs M0 (okey we_kind we) o1"
      using inv unfolding workload_inv_def D_def by blast
    have "okey we_kind we \<notin> Pair ns ` fst ` set fm" using k mem by force
    then have "c_WorkloadEntry (view w') (okey we_kind we) = Some o1" using del(2) o1(1) by metis
    with we o1(2) show "\<exists>we o1. cs_buildWorkloadEntry r cs ins = Some we \<and>
        c_WorkloadEntry (view w') (okey we_kind we) = Some o1 \<and> workload_done r cs M0 (okey we_kind we) o1"
      by blast
  next
    fix k
    assume "k \<notin> cs_workload_keys r cs (cs_Instances (cs_Spec cs))"
    then have k: "k \<notin> D" by (simp add: D_def)
    show "case M0 k of None \<Rightarrow> c_WorkloadEntry (view w') k = None
      | Some o1 \<Rightarrow> if selects (cs_selector r cs) (we_Meta o1)
          then om_Finalizers (we_Meta o1) = [] \<longrightarrow> c_WorkloadEntry (view w') k = None
          else c_WorkloadEntry (view w') k = Some o1"
    proof (cases "\<exists>o1. M0 k = Some o1 \<and> selects (cs_selector r cs) (we_Meta o1)")
      case True
      then obtain o1 where o1: "M0 k = Some o1" "selects (cs_selector r cs) (we_Meta o1)" by blast
      have kk: "k = (ns, snd k)"
        using keyed [OF o1(1)] o1(2) ns by (cases k) (auto simp: selects_def ns_def okey_def we_kind_def)
      with k o1 mem have "(snd k, o1) \<in> set fm" by metis
      then have "om_Finalizers (we_Meta o1) = [] \<longrightarrow> c_WorkloadEntry (view w') k = None"
        using del(3) [OF x] kk by auto
      with o1 show ?thesis by simp
    next
      case False
      then have "k \<notin> Pair ns ` fst ` set fm" using mem by auto
      then have "c_WorkloadEntry (view w') k = M0 k" using del(2) away [OF k] by metis
      with False show ?thesis by (auto split: option.splits)
    qed
  qed
qed

lemma cs_WorkloadEntry_cases:
  assumes ok: "api_ok api view" and ns: "om_Namespace (cs_Meta cs) \<noteq> []"
    and run: "cs_reconcileWorkloadEntry api r cs w = (x, w')"
  shows "view w' = (view w)\<lparr>c_WorkloadEntry := c_WorkloadEntry (view w')\<rparr>"
    and "x = Inr u \<Longrightarrow> workloads_synced r cs (c_WorkloadEntry (view w)) (c_WorkloadEntry (view w'))"
proof -
  have "view w' = (view w)\<lparr>c_WorkloadEntry := c_WorkloadEntry (view w')\<rparr> \<and>
    (x = Inr () \<longrightarrow> workloads_synced r cs (c_WorkloadEntry (view w)) (c_WorkloadEntry (view w')))"
    using run unfolding cs_reconcileWorkloadEntry_def cs_getWorkloadEntriesMap_def
  proof (cases rule: gbind_cases)
    case (aborted e)
    then show ?thesis
      by (auto elim!: list_map_run dest: list_keeps_view(9) [OF ok])
  next
    case (returned fm w1)
    from returned(1) obtain xs where lst: "kList (ap_WorkloadEntry api) (cs_selector r cs) w = (Inr xs, w1)"
      and fm: "fm = found_map we_kind xs" by (auto elim!: list_map_run)
    have v1: "view w1 = view w" using list_keeps_view(9) [OF ok lst] .
    define M0 where "M0 = c_WorkloadEntry (view w)"
    have keyed: "okey we_kind o1 = k" if "M0 k = Some o1" for k o1
      using kube_ok_key [OF api_ok_we [OF ok]] that by (simp add: M0_def)
    from returned(2) show ?thesis
    proof (cases rule: gbind_cases)
      case (aborted e)
      then show ?thesis using cs_weights_view [OF ok aborted(1)] v1 by simp
    next
      case (returned weights w2)
      have v2: "view w2 = view w" using cs_weights_view [OF ok returned(1)] v1 by simp
      have inv0: "workload_inv r cs M0 {} fm (c_WorkloadEntry (view w2))"
        using we.found_map_listed [OF api_ok_we [OF ok] lst cs_selector_simps(1) ns] v2
        by (simp add: workload_inv_def M0_def fm we_kind_def)
      from returned(2) show ?thesis
      proof (cases rule: gbind_cases)
        case (aborted e)
        then show ?thesis
          using cs_workload_loop [OF ok ns keyed subset_refl inv0 aborted(1)] v2 by simp
      next
        case (returned fm' w3)
        note loop = cs_workload_loop [OF ok ns keyed subset_refl inv0 returned(1)]
        have frame3: "view w3 = (view w)\<lparr>c_WorkloadEntry := c_WorkloadEntry (view w3)\<rparr>"
          using loop v2 by simp
        have inv: "workload_inv r cs M0 (cs_workload_keys r cs (cs_Instances (cs_Spec cs))) fm' (c_WorkloadEntry (view w3))"
          and built: "list_all (\<lambda>ins. cs_buildWorkloadEntry r cs ins \<noteq> None) (cs_Instances (cs_Spec cs))"
          using loop by simp_all
        note P = workloads_pruned [OF ok keyed inv built ns returned(2)]
        show ?thesis
          using only_changed_trans(9) [OF P(1) frame3] P(2) by (simp add: M0_def)
      qed
    qed
  qed
  then show "view w' = (view w)\<lparr>c_WorkloadEntry := c_WorkloadEntry (view w')\<rparr>"
    and "x = Inr u \<Longrightarrow> workloads_synced r cs (c_WorkloadEntry (view w)) (c_WorkloadEntry (view w'))"
    by simp_all
qed

text \<open>
  C8: when the reconciliation of the workload entries of a service returns without error, every
  instance has a port and its entry is stored (with whatever weight a ServiceConfig gave it), every
  other entry labelled with the service is deleted, and nothing else in the cluster has changed;
  two instances with the same name, host and port share one entry.
\<close>

theorem cs_WorkloadEntry_converges:
  assumes "api_ok api view" and "om_Namespace (cs_Meta cs) \<noteq> []"
    and "cs_reconcileWorkloadEntry api r cs w = (Inr (), w')"
  shows "workloads_synced r cs (c_WorkloadEntry (view w)) (c_WorkloadEntry (view w')) \<and>
    view w' = (view w)\<lparr>c_WorkloadEntry := c_WorkloadEntry (view w')\<rparr>"
  using cs_WorkloadEntry_cases(1,2) [OF assms] by simp

lemma demo_we_run:
  "cs_reconcileWorkloadEntry mem_api demo_rc demo_cs empty_world =
     (Inr (), snd (cs_reconcileWorkloadEntry mem_api demo_rc demo_cs empty_world))"
  by (rule run_pair) code_simp

theorem cs_WorkloadEntry_converges_witness:
  "workloads_synced demo_rc demo_cs (c_WorkloadEntry (mem_view empty_world))
    (c_WorkloadEntry (mem_view (snd (cs_reconcileWorkloadEntry mem_api demo_rc demo_cs empty_world))))"
  using cs_WorkloadEntry_converges [OF mem_api_ok demo_subsets(2) demo_we_run] by blast

section \<open>Sidecars\<close>

definition sidecar_only :: "('w \<Rightarrow> cluster) \<Rightarrow> 'w \<Rightarrow> 'w \<Rightarrow> bool" where
  "sidecar_only view w w' \<longleftrightarrow> view w' = (view w)\<lparr>c_Sidecar := c_Sidecar (view w')\<rparr>"

lemma sidecar_only_refl: "view w' = view w \<Longrightarrow> sidecar_only view w w'"
  by (simp add: sidecar_only_def)

lemma sidecar_only_trans: "sidecar_only view w u \<Longrightarrow> sidecar_only view u w' \<Longrightarrow> sidecar_only view w w'"
  unfolding sidecar_only_def by (rule only_changed_trans(10))

lemma sidecar_only_create:
  assumes "api_ok api view" and "kCreate (ap_Sidecar api) sd w = (x, w')"
  shows "sidecar_only view w w'"
  using kube_ok_createD(1) [OF api_ok_sd [OF assms(1)] assms(2)]
  unfolding sidecar_only_def only_changed .

lemma list_or_empty_run:
  assumes "list_or_empty c lo w = (x, w')"
  obtains r where "kList c lo w = (r, w')"
  using assms by (auto simp: list_or_empty_def gbind_def attempt_def gret_def split: prod.splits)

lemma cs_init_sidecars_only:
  assumes ok: "api_ok api view" and run: "cs_initDefaultSidecarsByDeploy api r w = (x, w')"
  shows "sidecar_only view w w'"
proof -
  let ?body = "\<lambda>dep. case map_of (om_Labels (dep_Meta dep)) (mc_SidecarSelectLabel (mc_Spec (rc_MeshConfig r))) of
             None \<Rightarrow> gret ()
           | Some appName \<Rightarrow>
               gbind (attempt (kCreate (ap_Sidecar api)
                  (cs_buildSidecar r (om_Namespace (dep_Meta dep)) appName))) (\<lambda>_. gret ())"
  have body: "sidecar_only view s t" if "?body dep s = (y, t)" for dep s y t
    using that by (auto simp: gbind_def attempt_def gret_def sidecar_only_refl
        split: option.splits prod.splits dest: sidecar_only_create [OF ok])
  from run show ?thesis
    unfolding cs_initDefaultSidecarsByDeploy_def
  proof (cases rule: gbind_cases)
    case (aborted e)
    then show ?thesis using list_keeps_view(12) [OF ok]
      by (metis list_or_empty_run sidecar_only_refl)
  next
    case (returned deps u)
    have "sidecar_only view w u"
      using returned(1) list_keeps_view(12) [OF ok] by (metis list_or_empty_run sidecar_only_refl)
    moreover have "sidecar_only view u w'"
      by (rule gforeach_rel [where R = "sidecar_only view", OF _ _ _ returned(2)])
        (auto intro: sidecar_only_refl sidecar_only_trans body)
    ultimately show ?thesis by (rule sidecar_only_trans)
  qed
qed

text \<open>What one namespace needs: nothing when the sidecar is there, and otherwise a failure.\<close>

lemma cs_sidecar_step_cases:
  assumes ok: "api_ok api view" and run: "cs_sidecar_step api r app ns w = (x, w')"
  shows "sidecar_only view w w'"
    and "x = Inr u \<Longrightarrow> view w' = view w \<and> c_Sidecar (view w) (ns, app) \<noteq> None"
    and "c_Sidecar (view w) (ns, app) = None \<Longrightarrow> c_Sidecar (view w') (ns, app) \<noteq> None \<Longrightarrow> x = Inl (Fail NotFound)"
proof -
  obtain g w1 where get: "kGet (ap_Sidecar api) (ns, app) w = (g, w1)" by fastforce
  note law = kube_ok_getD [OF api_ok_sd [OF ok] get]
  have v1: "view w1 = view w" using get_keeps_view(10) [OF ok get] .
  have "sidecar_only view w w' \<and>
    (x = Inr () \<longrightarrow> view w' = view w \<and> c_Sidecar (view w) (ns, app) \<noteq> None) \<and>
    (c_Sidecar (view w) (ns, app) = None \<longrightarrow> c_Sidecar (view w') (ns, app) \<noteq> None \<longrightarrow> x = Inl (Fail NotFound))"
  proof (cases g)
    case (Inr sd)
    with run get have "x = Inr ()" "w' = w1"
      by (simp_all add: cs_sidecar_step_def gbind_def attempt_def gret_def)
    with v1 law(3) [OF Inr] show ?thesis by (simp add: sidecar_only_refl)
  next
    case (Inl err)
    show ?thesis
    proof (cases "err = NotFound")
      case False
      with run get Inl have "x = Inl (Fail err)" "w' = w1"
        by (simp_all add: cs_sidecar_step_def gbind_def attempt_def gfail_def)
      with v1 show ?thesis by (simp add: sidecar_only_refl)
    next
      case True
      obtain r2 w2 where cr: "kCreate (ap_Sidecar api) (cs_buildSidecar r ns app) w1 = (r2, w2)" by fastforce
      have "sidecar_only view w w2" using sidecar_only_create [OF ok cr] v1 by (simp add: sidecar_only_def)
      moreover have "w' = w2" "x = (case r2 of Inl e \<Rightarrow> Inl (Fail e) | Inr _ \<Rightarrow> Inl (Fail NotFound))"
        using run get Inl True cr
        by (auto simp: cs_sidecar_step_def gbind_def attempt_def gfail_def split: sum.splits)
      ultimately show ?thesis
        using kube_ok_createD(2) [OF api_ok_sd [OF ok] cr] v1 by (auto split: sum.splits)
    qed
  qed
  then show "sidecar_only view w w'"
    "x = Inr u \<Longrightarrow> view w' = view w \<and> c_Sidecar (view w) (ns, app) \<noteq> None"
    "c_Sidecar (view w) (ns, app) = None \<Longrightarrow> c_Sidecar (view w') (ns, app) \<noteq> None \<Longrightarrow> x = Inl (Fail NotFound)"
    by simp_all
qed

text \<open>
  A missing sidecar makes the step fail even when it has just been created: the code falls
  through to \<open>return err\<close> with the error of the read. So the first reconciliation of a service in a
  namespace without sidecar never goes on to its workload entries, and reports that the object
  was not found.
\<close>

theorem cs_sidecar_created_is_error:
  assumes "api_ok api view" and "c_Sidecar (view w) (ns, appName) = None"
    and "cs_sidecar_step api r appName ns w = (x, w')"
  shows "x \<noteq> Inr () \<and> (c_Sidecar (view w') (ns, appName) = None \<or> x = Inl (Fail NotFound))"
  using cs_sidecar_step_cases(2,3) [OF assms(1,3)] assms(2)
  by (cases "c_Sidecar (view w') (ns, appName)") auto

theorem cs_sidecar_created_is_error_witness:
  "fst (cs_sidecar_step mem_api demo_rc ''shop'' ''apps'' empty_world) \<noteq> Inr ()"
  using cs_sidecar_created_is_error [OF mem_api_ok _ surjective_pairing, of empty_world "''apps''" "''shop''" demo_rc]
  by (simp add: mem_view_def mem_objs_def empty_world_def)

lemma opt_same: "op_InitDefaultSidecars (rc_Opt r) \<Longrightarrow> r\<lparr>rc_Opt := (rc_Opt r)\<lparr>op_InitDefaultSidecars := True\<rparr>\<rparr> = r"
  by (cases r; cases "rc_Opt r") auto

lemma cs_reconcileSidecar_only:
  assumes ok: "api_ok api view" and run: "cs_reconcileSidecar api cs (w, r) = (x, (w', r'))"
  shows "sidecar_only view w w'"
    and "r' = r\<lparr>rc_Opt := (rc_Opt r)\<lparr>op_InitDefaultSidecars := True\<rparr>\<rparr>"
proof -
  define phase1 where "phase1 = (\<lambda>(w, r).
         if \<not> op_InitDefaultSidecars (rc_Opt r) then
           (case cs_initDefaultSidecarsByDeploy api r w of
              (x, w') \<Rightarrow> (x, (w', r\<lparr>rc_Opt := (rc_Opt r)\<lparr>op_InitDefaultSidecars := True\<rparr>\<rparr>)))
         else (Inr (), (w, r)))"
  have first: "sidecar_only view w u \<and> r1 = r\<lparr>rc_Opt := (rc_Opt r)\<lparr>op_InitDefaultSidecars := True\<rparr>\<rparr>"
    if "phase1 (w, r) = (y, (u, r1))" for y u r1
    using that cs_init_sidecars_only [OF ok]
    by (auto simp: phase1_def opt_same sidecar_only_refl split: if_splits prod.splits)
  have steps: "sidecar_only view s t" if "cs_sidecar_step api r1 app n s = (y, t)" for r1 app n s y t
    using cs_sidecar_step_cases(1) [OF ok that] .
  have second: "sidecar_only view u u'"
    if "(let appName = cs_getAppName r1 cs in
       if appName = [] then gret ()
       else gbind (cs_getAppNamespace api r1 appName) (\<lambda>namespaces.
              gforeach (cs_sidecar_step api r1 appName) namespaces)) u = (y, u')" for r1 u y u'
  proof (cases "cs_getAppName r1 cs = []")
    case True
    with that show ?thesis by (simp add: gret_def sidecar_only_refl)
  next
    case False
    with that have "gbind (cs_getAppNamespace api r1 (cs_getAppName r1 cs)) (\<lambda>namespaces.
              gforeach (cs_sidecar_step api r1 (cs_getAppName r1 cs)) namespaces) u = (y, u')"
      by (simp add: Let_def)
    moreover have pods: "sidecar_only view u v" if "cs_getAppNamespace api r1 app u = (z, v)" for app z v
      using that list_keeps_view(11) [OF ok] unfolding cs_getAppNamespace_def
      by (auto elim!: gbind_cases list_or_empty_run simp: gret_def intro!: sidecar_only_refl)
    ultimately show ?thesis
    proof (cases rule: gbind_cases)
      case (aborted e)
      then show ?thesis using pods by blast
    next
      case (returned nss v)
      have "sidecar_only view v u'"
        by (rule gforeach_rel [where R = "sidecar_only view", OF _ _ _ returned(2)])
          (auto intro: sidecar_only_refl sidecar_only_trans steps)
      with pods [OF returned(1)] show ?thesis by (rule sidecar_only_trans)
    qed
  qed
  have "sidecar_only view w w' \<and> r' = r\<lparr>rc_Opt := (rc_Opt r)\<lparr>op_InitDefaultSidecars := True\<rparr>\<rparr>"
    using run unfolding cs_reconcileSidecar_def phase1_def [symmetric]
  proof (cases rule: gbind_cases)
    case (aborted e)
    then show ?thesis using first by simp
  next
    case (returned y t)
    obtain u r1 where t: "t = (u, r1)" by (cases t)
    with returned(2) have r1: "r1 = r'" and run2: "(let appName = cs_getAppName r1 cs in
       if appName = [] then gret ()
       else gbind (cs_getAppNamespace api r1 appName) (\<lambda>namespaces.
              gforeach (cs_sidecar_step api r1 appName) namespaces)) u = (x, w')"
      by (auto simp: on_world_def split: prod.splits)
    show ?thesis
      using first [OF returned(1) [unfolded t]] sidecar_only_trans [OF _ second [OF run2]] r1 by simp
  qed
  then show "sidecar_only view w w'"
    and "r' = r\<lparr>rc_Opt := (rc_Opt r)\<lparr>op_InitDefaultSidecars := True\<rparr>\<rparr>"
    by simp_all
qed

section \<open>Reconcile\<close>

text \<open>
  The specification of a successful reconciliation: \<open>r\<close> is the reconciler after it (with the mesh
  configuration it read), \<open>C\<close> and \<open>C'\<close> are the cluster before and after.
\<close>

definition cs_reconciled :: "Reconciler \<Rightarrow> ConfiguredService \<Rightarrow> cluster \<Rightarrow> cluster \<Rightarrow> bool" where
  "cs_reconciled r cs C C' \<longleftrightarrow>
     workloads_synced r cs (c_WorkloadEntry C) (c_WorkloadEntry C') \<and>
     sync_result se_kind (cs_selector r cs) (cs_buildServiceEntry r cs) (c_ServiceEntry C) (c_ServiceEntry C') \<and>
     (if c_ServiceConfig C (om_Namespace (cs_Meta cs), om_Name (cs_Meta cs)) = None \<and> cs_getSubset r cs \<noteq> [] then
        (\<exists>d v. cs_buildDestinationRule r cs (cs_getSubset r cs) = Some d \<and>
           sync_result dr_kind (cs_selector r cs) d (c_DestinationRule C) (c_DestinationRule C') \<and>
           cs_buildVirtualService r cs (cs_getSubset r cs) = Some v \<and>
           sync_result vs_kind (cs_selector r cs) v (c_VirtualService C) (c_VirtualService C'))
      else c_DestinationRule C' = c_DestinationRule C \<and> c_VirtualService C' = c_VirtualService C) \<and>
     C' = C\<lparr>c_Sidecar := c_Sidecar C', c_WorkloadEntry := c_WorkloadEntry C', c_ServiceEntry := c_ServiceEntry C',
            c_DestinationRule := c_DestinationRule C', c_VirtualService := c_VirtualService C'\<rparr>"

text \<open>The last part: destination rule and virtual service, when no ServiceConfig takes over.\<close>

definition cs_routing_part :: "'w api \<Rightarrow> ConfiguredService \<Rightarrow> ('w \<times> Reconciler, unit) call" where
  "cs_routing_part api cs =
     gbind (on_world (\<lambda>r. attempt (kGet (ap_ServiceConfig api)
               (om_Namespace (cs_Meta cs), om_Name (cs_Meta cs))))) (\<lambda>sc.
             case sc of
               Inr _ \<Rightarrow> gret ()
             | Inl err \<Rightarrow>
                 if err = NotFound then
                   gbind (on_world (\<lambda>r. cs_reconcileDestinationRule api r cs)) (\<lambda>_.
                   on_world (\<lambda>r. cs_reconcileVirtualService api r cs))
                 else gret ())"

lemma changed_twice:
  "x = y\<lparr>c_VirtualService := c_VirtualService x\<rparr> \<Longrightarrow> y = z\<lparr>c_DestinationRule := c_DestinationRule y\<rparr> \<Longrightarrow>
     x = z\<lparr>c_DestinationRule := c_DestinationRule x, c_VirtualService := c_VirtualService x\<rparr> \<and>
     c_DestinationRule x = c_DestinationRule y \<and> c_VirtualService y = c_VirtualService z"
  by (cases x; cases y; cases z) simp

lemma cs_routing_part_cases:
  assumes ok: "api_ok api view" and ns: "om_Namespace (cs_Meta cs) \<noteq> []"
    and run: "cs_routing_part api cs (w, r) = (x, (w', r'))"
  defines "key \<equiv> (om_Namespace (cs_Meta cs), om_Name (cs_Meta cs))"
  shows "r' = r"
    and "view w' = (view w)\<lparr>c_DestinationRule := c_DestinationRule (view w'), c_VirtualService := c_VirtualService (view w')\<rparr>"
    and "c_ServiceConfig (view w) key \<noteq> None \<Longrightarrow> view w' = view w"
    and "x = Inr u \<Longrightarrow> get_available (ap_ServiceConfig api) \<Longrightarrow>
      if c_ServiceConfig (view w) key = None \<and> cs_getSubset r cs \<noteq> [] then
        (\<exists>d v. cs_buildDestinationRule r cs (cs_getSubset r cs) = Some d \<and>
           sync_result dr_kind (cs_selector r cs) d (c_DestinationRule (view w)) (c_DestinationRule (view w')) \<and>
           cs_buildVirtualService r cs (cs_getSubset r cs) = Some v \<and>
           sync_result vs_kind (cs_selector r cs) v (c_VirtualService (view w)) (c_VirtualService (view w')))
      else view w' = view w"
proof -
  obtain g w1 where get: "kGet (ap_ServiceConfig api) key w = (g, w1)" by fastforce
  note law = kube_ok_getD [OF api_ok_sc [OF ok] get]
  have v1: "view w1 = view w" using get_keeps_view(3) [OF ok get] .
  have all: "r' = r \<and>
    view w' = (view w)\<lparr>c_DestinationRule := c_DestinationRule (view w'), c_VirtualService := c_VirtualService (view w')\<rparr> \<and>
    (c_ServiceConfig (view w) key \<noteq> None \<longrightarrow> view w' = view w) \<and>
    (x = Inr () \<longrightarrow> get_available (ap_ServiceConfig api) \<longrightarrow>
      (if c_ServiceConfig (view w) key = None \<and> cs_getSubset r cs \<noteq> [] then
        (\<exists>d v. cs_buildDestinationRule r cs (cs_getSubset r cs) = Some d \<and>
           sync_result dr_kind (cs_selector r cs) d (c_DestinationRule (view w)) (c_DestinationRule (view w')) \<and>
           cs_buildVirtualService r cs (cs_getSubset r cs) = Some v \<and>
           sync_result vs_kind (cs_selector r cs) v (c_VirtualService (view w)) (c_VirtualService (view w')))
      else view w' = view w))"
  proof (cases "g = Inl NotFound")
    case False
    with run get have res: "x = Inr ()" "w' = w1" "r' = r"
      by (auto simp: cs_routing_part_def key_def gbind_def on_world_def attempt_def gret_def split: sum.splits if_splits)
    have "c_ServiceConfig (view w) key \<noteq> None" if "get_available (ap_ServiceConfig api)"
    proof (cases g)
      case (Inl e)
      with that get False show ?thesis unfolding get_available_def by (metis fst_conv)
    next
      case (Inr sc)
      then show ?thesis using law(3) by simp
    qed
    with res v1 show ?thesis by auto
  next
    case True
    with run get have run2: "gbind (on_world (\<lambda>r. cs_reconcileDestinationRule api r cs)) (\<lambda>_.
                   on_world (\<lambda>r. cs_reconcileVirtualService api r cs)) (w1, r) = (x, (w', r'))"
      by (simp add: cs_routing_part_def key_def gbind_def on_world_def attempt_def)
    have none: "c_ServiceConfig (view w) key = None" using law(4) True .
    obtain x2 w2 where dr: "cs_reconcileDestinationRule api r cs w1 = (x2, w2)" by fastforce
    note D = cs_DestinationRule_cases(1,3) [OF ok ns dr]
    show ?thesis
    proof (cases x2)
      case (Inl e)
      with run2 dr have "x = Inl e" "w' = w2" "r' = r" by (auto simp: gbind_def on_world_def)
      with D(1) v1 none show ?thesis by auto
    next
      case (Inr u2)
      with run2 dr have vs: "cs_reconcileVirtualService api r cs w2 = (x, w')" and r': "r' = r"
        by (auto simp: gbind_def on_world_def split: prod.splits)
      note V = cs_VirtualService_cases(1,3) [OF ok ns vs]
      have frame: "view w' = (view w)\<lparr>c_DestinationRule := c_DestinationRule (view w'), c_VirtualService := c_VirtualService (view w')\<rparr> \<and>
          c_DestinationRule (view w') = c_DestinationRule (view w2) \<and> c_VirtualService (view w2) = c_VirtualService (view w)"
        using changed_twice [OF V(1) D(1)] unfolding v1 .
      show ?thesis
      proof (intro conjI impI)
        assume "x = Inr ()"
        show "if c_ServiceConfig (view w) key = None \<and> cs_getSubset r cs \<noteq> [] then
        (\<exists>d v. cs_buildDestinationRule r cs (cs_getSubset r cs) = Some d \<and>
           sync_result dr_kind (cs_selector r cs) d (c_DestinationRule (view w)) (c_DestinationRule (view w')) \<and>
           cs_buildVirtualService r cs (cs_getSubset r cs) = Some v \<and>
           sync_result vs_kind (cs_selector r cs) v (c_VirtualService (view w)) (c_VirtualService (view w')))
          else view w' = view w"
        proof (cases "cs_getSubset r cs = []")
          case True
          then show ?thesis using V(2) [OF \<open>x = Inr ()\<close>] D(2) [OF Inr] v1 by simp
        next
          case False
          then show ?thesis using V(2) [OF \<open>x = Inr ()\<close>] D(2) [OF Inr] v1 none frame by auto
        qed
      qed (use r' frame none in auto)
    qed
  qed
  show "r' = r" using all by blast
  show "view w' = (view w)\<lparr>c_DestinationRule := c_DestinationRule (view w'), c_VirtualService := c_VirtualService (view w')\<rparr>"
    using all by blast
  show "c_ServiceConfig (view w) key \<noteq> None \<Longrightarrow> view w' = view w" using all by blast
  show "x = Inr u \<Longrightarrow> get_available (ap_ServiceConfig api) \<Longrightarrow>
      if c_ServiceConfig (view w) key = None \<and> cs_getSubset r cs \<noteq> [] then
        (\<exists>d v. cs_buildDestinationRule r cs (cs_getSubset r cs) = Some d \<and>
           sync_result dr_kind (cs_selector r cs) d (c_DestinationRule (view w)) (c_DestinationRule (view w')) \<and>
           cs_buildVirtualService r cs (cs_getSubset r cs) = Some v \<and>
           sync_result vs_kind (cs_selector r cs) v (c_VirtualService (view w)) (c_VirtualService (view w')))
      else view w' = view w" using all by auto
qed

text \<open>The four parts of the reconciliation write four disjoint parts of the cluster.\<close>

lemma changed_parts:
  assumes "b = a\<lparr>c_Sidecar := c_Sidecar b\<rparr>" and "c = b\<lparr>c_WorkloadEntry := c_WorkloadEntry c\<rparr>"
    and "d = c\<lparr>c_ServiceEntry := c_ServiceEntry d\<rparr>"
    and "e = d\<lparr>c_DestinationRule := c_DestinationRule e, c_VirtualService := c_VirtualService e\<rparr>"
  shows "e = a\<lparr>c_Sidecar := c_Sidecar e, c_WorkloadEntry := c_WorkloadEntry e, c_ServiceEntry := c_ServiceEntry e,
            c_DestinationRule := c_DestinationRule e, c_VirtualService := c_VirtualService e\<rparr>"
    and "c_WorkloadEntry b = c_WorkloadEntry a" and "c_WorkloadEntry e = c_WorkloadEntry c"
    and "c_ServiceEntry c = c_ServiceEntry a" and "c_ServiceEntry e = c_ServiceEntry d"
    and "c_ServiceConfig d = c_ServiceConfig a"
    and "c_DestinationRule d = c_DestinationRule a" and "c_VirtualService d = c_VirtualService a"
  using assms by (cases a; cases b; cases c; cases d; cases e; simp)+

lemma cs_Reconcile_parts:
  "cs_Reconcile api req =
     gbind (on_world (\<lambda>r. attempt (kGet (ap_ConfiguredService api) req))) (\<lambda>res.
       case res of
         Inl err \<Rightarrow> if err = NotFound then gret () else gfail err
       | Inr cs \<Rightarrow>
           gbind (getMeshConfig api) (\<lambda>_.
           gbind (cs_reconcileSidecar api cs) (\<lambda>_.
           gbind (on_world (\<lambda>r. cs_reconcileWorkloadEntry api r cs)) (\<lambda>_.
           gbind (on_world (\<lambda>r. cs_reconcileServiceEntry api r cs)) (\<lambda>_.
           cs_routing_part api cs)))))"
  unfolding cs_Reconcile_def cs_routing_part_def ..

text \<open>What follows the reads of the service and of the mesh configuration.\<close>

lemma cs_Reconcile_tail:
  assumes ok: "api_ok api view" and ns: "om_Namespace (cs_Meta cs) \<noteq> []"
    and run: "gbind (cs_reconcileSidecar api cs) (\<lambda>_.
           gbind (on_world (\<lambda>r. cs_reconcileWorkloadEntry api r cs)) (\<lambda>_.
           gbind (on_world (\<lambda>r. cs_reconcileServiceEntry api r cs)) (\<lambda>_.
           cs_routing_part api cs))) (w, r) = (x, (w', r'))"
  shows "c_ServiceConfig (view w) (om_Namespace (cs_Meta cs), om_Name (cs_Meta cs)) \<noteq> None \<Longrightarrow>
      c_DestinationRule (view w') = c_DestinationRule (view w) \<and> c_VirtualService (view w') = c_VirtualService (view w)"
    and "x = Inr u \<Longrightarrow> get_available (ap_ServiceConfig api) \<Longrightarrow> cs_reconciled r' cs (view w) (view w')"
    and "rc_MeshConfig r' = rc_MeshConfig r"
proof -
  define key where "key = (om_Namespace (cs_Meta cs), om_Name (cs_Meta cs))"
  have "(c_ServiceConfig (view w) key \<noteq> None \<longrightarrow>
      c_DestinationRule (view w') = c_DestinationRule (view w) \<and> c_VirtualService (view w') = c_VirtualService (view w)) \<and>
    (x = Inr () \<longrightarrow> get_available (ap_ServiceConfig api) \<longrightarrow> cs_reconciled r' cs (view w) (view w')) \<and>
    rc_MeshConfig r' = rc_MeshConfig r"
    using run
  proof (cases rule: gbind_cases)
    case (aborted e)
    note S = cs_reconcileSidecar_only [OF ok aborted(1), unfolded sidecar_only_def]
    show ?thesis using S(2) aborted(2) by (subst (1 2) S(1)) simp
  next
    case (returned u1 t1)
    obtain w1 r1 where t1: "t1 = (w1, r1)" by (cases t1)
    note S = cs_reconcileSidecar_only [OF ok returned(1) [unfolded t1], unfolded sidecar_only_def]
    have r1: "rc_MeshConfig r1 = rc_MeshConfig r" using S(2) by simp
    from returned(2) show ?thesis
      unfolding t1
    proof (cases rule: gbind_cases)
      case (aborted e)
      then have "r' = r1" and run: "cs_reconcileWorkloadEntry api r1 cs w1 = (Inl e, w')"
        by (auto elim!: on_worldE)
      note W = cs_WorkloadEntry_cases(1) [OF ok ns run]
      show ?thesis using aborted(2) r1 \<open>r' = r1\<close> by (subst (1 2) W, subst (1 2) S(1)) simp
    next
      case (returned u2 t2)
      then obtain w2 where t2: "t2 = (w2, r1)" and we: "cs_reconcileWorkloadEntry api r1 cs w1 = (Inr u2, w2)"
        by (auto elim!: on_worldE)
      note W = cs_WorkloadEntry_cases [OF ok ns we]
      from returned(2) show ?thesis
        unfolding t2
      proof (cases rule: gbind_cases)
        case (aborted e)
        then have "r' = r1" and run: "cs_reconcileServiceEntry api r1 cs w2 = (Inl e, w')"
          by (auto elim!: on_worldE)
        note E = cs_ServiceEntry_cases(1) [OF ok ns run]
        show ?thesis using aborted(2) r1 \<open>r' = r1\<close>
          by (subst (1 2) E, subst (1 2) W(1), subst (1 2) S(1)) simp
      next
        case (returned u3 t3)
        then obtain w3 where t3: "t3 = (w3, r1)" and se: "cs_reconcileServiceEntry api r1 cs w2 = (Inr u3, w3)"
          by (auto elim!: on_worldE)
        note E = cs_ServiceEntry_cases(1,3) [OF ok ns se]
        note R = cs_routing_part_cases [OF ok ns returned(2) [unfolded t3], folded key_def]
        note parts = changed_parts [OF S(1) W(1) E(1) R(2)]
        have "cs_reconciled r' cs (view w) (view w')" if "x = Inr ()" "get_available (ap_ServiceConfig api)"
          unfolding cs_reconciled_def key_def [symmetric]
        proof (intro conjI)
          show "workloads_synced r' cs (c_WorkloadEntry (view w)) (c_WorkloadEntry (view w'))"
            using W(2) R(1) parts(2,3) by simp
          show "sync_result se_kind (cs_selector r' cs) (cs_buildServiceEntry r' cs)
              (c_ServiceEntry (view w)) (c_ServiceEntry (view w'))"
            using E(2) R(1) parts(4,5) by simp
          show "if c_ServiceConfig (view w) key = None \<and> cs_getSubset r' cs \<noteq> []
            then \<exists>d v. cs_buildDestinationRule r' cs (cs_getSubset r' cs) = Some d \<and>
                sync_result dr_kind (cs_selector r' cs) d (c_DestinationRule (view w)) (c_DestinationRule (view w')) \<and>
                cs_buildVirtualService r' cs (cs_getSubset r' cs) = Some v \<and>
                sync_result vs_kind (cs_selector r' cs) v (c_VirtualService (view w)) (c_VirtualService (view w'))
            else c_DestinationRule (view w') = c_DestinationRule (view w) \<and>
                c_VirtualService (view w') = c_VirtualService (view w)"
            using R(4) [OF that] R(1) parts(6-8) by (auto split: if_splits)
        qed (rule parts(1))
        moreover have "c_DestinationRule (view w') = c_DestinationRule (view w) \<and>
            c_VirtualService (view w') = c_VirtualService (view w)" if "c_ServiceConfig (view w) key \<noteq> None"
          using that R(3) parts(6-8) by simp
        ultimately show ?thesis using R(1) r1 by simp
      qed
    qed
  qed
  then show "c_ServiceConfig (view w) (om_Namespace (cs_Meta cs), om_Name (cs_Meta cs)) \<noteq> None \<Longrightarrow>
      c_DestinationRule (view w') = c_DestinationRule (view w) \<and> c_VirtualService (view w') = c_VirtualService (view w)"
    and "x = Inr u \<Longrightarrow> get_available (ap_ServiceConfig api) \<Longrightarrow> cs_reconciled r' cs (view w) (view w')"
    and "rc_MeshConfig r' = rc_MeshConfig r"
    by (simp_all add: key_def)
qed

lemma cs_Reconcile_run:
  assumes ok: "api_ok api view" and run: "cs_Reconcile api req (w, r) = (x, (w', r'))"
  obtains (untouched) "view w' = view w" and "x = Inr () \<Longrightarrow> c_ConfiguredService (view w) req = None"
  | (tail) cs w1 r1 where "c_ConfiguredService (view w) req = Some cs"
      and "req = (om_Namespace (cs_Meta cs), om_Name (cs_Meta cs))" and "view w1 = view w"
      and "c_MeshConfig (view w) (op_MeshConfigNamespace (rc_Opt r), op_MeshConfigName (rc_Opt r)) = Some (rc_MeshConfig r1)"
      and "gbind (cs_reconcileSidecar api cs) (\<lambda>_.
           gbind (on_world (\<lambda>r. cs_reconcileWorkloadEntry api r cs)) (\<lambda>_.
           gbind (on_world (\<lambda>r. cs_reconcileServiceEntry api r cs)) (\<lambda>_.
           cs_routing_part api cs))) (w1, r1) = (x, (w', r'))"
proof -
  obtain g w0 where get: "kGet (ap_ConfiguredService api) req w = (g, w0)" by fastforce
  note law = kube_ok_getD [OF api_ok_cs [OF ok] get]
  have v0: "view w0 = view w" using get_keeps_view(2) [OF ok get] .
  show thesis
  proof (cases g)
    case (Inl err)
    with run get have "w' = w0" "x = Inr () \<Longrightarrow> err = NotFound"
      by (auto simp: cs_Reconcile_parts gbind_def on_world_def attempt_def gret_def gfail_def split: if_splits)
    with v0 law(4) Inl show thesis by (intro untouched) auto
  next
    case (Inr cs)
    have stored: "c_ConfiguredService (view w) req = Some cs" using law(3) Inr .
    have key: "req = (om_Namespace (cs_Meta cs), om_Name (cs_Meta cs))"
      using kube_ok_key [OF api_ok_cs [OF ok] stored] by (simp add: okey_def cs_kind_def)
    obtain y w1 r1 where mesh: "getMeshConfig api (w0, r) = (y, (w1, r1))" by (metis surj_pair)
    note M = getMeshConfig_view [OF ok mesh]
    from run get Inr have run2: "gbind (getMeshConfig api) (\<lambda>_.
           gbind (cs_reconcileSidecar api cs) (\<lambda>_.
           gbind (on_world (\<lambda>r. cs_reconcileWorkloadEntry api r cs)) (\<lambda>_.
           gbind (on_world (\<lambda>r. cs_reconcileServiceEntry api r cs)) (\<lambda>_.
           cs_routing_part api cs)))) (w0, r) = (x, (w', r'))"
      by (simp add: cs_Reconcile_parts gbind_def [of "on_world _" "case_sum _ _"] on_world_def attempt_def)
    show thesis
    proof (cases y)
      case (Inl e)
      with run2 mesh have "x = Inl e" "w' = w1" by (auto simp: gbind_def)
      with M(1) v0 show thesis by (intro untouched) auto
    next
      case (Inr u)
      with run2 mesh have "gbind (cs_reconcileSidecar api cs) (\<lambda>_.
           gbind (on_world (\<lambda>r. cs_reconcileWorkloadEntry api r cs)) (\<lambda>_.
           gbind (on_world (\<lambda>r. cs_reconcileServiceEntry api r cs)) (\<lambda>_.
           cs_routing_part api cs))) (w1, r1) = (x, (w', r'))"
        by (simp add: gbind_Inr)
      with M(1) M(3) [OF Inr] v0 show thesis by (intro tail [OF stored key, of w1 r1]) simp_all
    qed
  qed
qed

lemma cs_Reconcile_stored:
  assumes "api_ok api view" and "fst req \<noteq> []" and "get_available (ap_ServiceConfig api)"
    and "c_ConfiguredService (view w) req = Some cs"
    and "cs_Reconcile api req (w, r) = (Inr (), (w', r'))"
  shows "cs_reconciled r' cs (view w) (view w') \<and>
    c_MeshConfig (view w) (op_MeshConfigNamespace (rc_Opt r), op_MeshConfigName (rc_Opt r)) = Some (rc_MeshConfig r')"
  using assms(1,5)
proof (cases rule: cs_Reconcile_run)
  case untouched
  then show ?thesis using assms(4) by simp
next
  case (tail cs1 w1 r1)
  then have "cs1 = cs" using assms(4) by simp
  have ns: "om_Namespace (cs_Meta cs1) \<noteq> []" using tail(2) assms(2) by auto
  show ?thesis
    using cs_Reconcile_tail(2,3) [OF assms(1) ns tail(5)] tail(3,4) assms(3) \<open>cs1 = cs\<close> by simp
qed

text \<open>
  C2: a reconciliation of a stored ConfiguredService that returns without error, when the
  ServiceConfig can be read, brings every resource of the service in line with the mesh
  configuration stored in the cluster: workload entries and service entry always; destination rule
  and virtual service when there is no ServiceConfig of that name and some subset is provided (and
  otherwise they are left alone); sidecars apart, nothing else has changed.
\<close>

theorem cs_Reconcile_converges:
  assumes "api_ok api view" and "fst req \<noteq> []" and "get_available (ap_ServiceConfig api)"
    and "c_ConfiguredService (view w) req = Some cs"
    and "cs_Reconcile api req (w, r) = (Inr (), (w', r'))"
  shows "cs_reconciled r' cs (view w) (view w') \<and>
    c_MeshConfig (view w) (op_MeshConfigNamespace (rc_Opt r), op_MeshConfigName (rc_Opt r)) = Some (rc_MeshConfig r')"
  by (rule cs_Reconcile_stored [OF assms])

text \<open>
  C10: while a ServiceConfig of the same name is stored, the controller of the ConfiguredService
  writes neither destination rules nor virtual services, whatever its result: they belong to the
  controller of the ServiceConfig.
\<close>

theorem cs_Reconcile_handover:
  assumes "api_ok api view" and "fst req \<noteq> []" and "c_ServiceConfig (view w) req \<noteq> None"
    and "cs_Reconcile api req (w, r) = (x, (w', r'))"
  shows "c_DestinationRule (view w') = c_DestinationRule (view w) \<and>
    c_VirtualService (view w') = c_VirtualService (view w)"
  using assms(1,4)
proof (cases rule: cs_Reconcile_run)
  case untouched
  then show ?thesis by simp
next
  case (tail cs1 w1 r1)
  have ns: "om_Namespace (cs_Meta cs1) \<noteq> []" using tail(2) assms(2) by auto
  show ?thesis
    using cs_Reconcile_tail(1) [OF assms(1) ns tail(5)] tail(2,3) assms(3) by simp
qed

definition demo_run where
  "demo_run = cs_Reconcile mem_api (''mesh'', ''svc'') (demo_world, demo_rc)"

lemma demo_run_ok: "cs_Reconcile mem_api (''mesh'', ''svc'') (demo_world, demo_rc) =
    (Inr (), (fst (snd demo_run), snd (snd demo_run)))"
proof -
  have "fst demo_run = Inr ()" by code_simp
  then show ?thesis by (cases demo_run) (auto simp: demo_run_def)
qed

theorem cs_Reconcile_converges_witness:
  "cs_reconciled (snd (snd demo_run)) demo_cs (mem_view demo_world) (mem_view (fst (snd demo_run)))"
proof -
  have "get_available (ap_ServiceConfig mem_api)" by (simp add: mem_api_def mem_get_available)
  moreover have "c_ConfiguredService (mem_view demo_world) (''mesh'', ''svc'') = Some demo_cs"
    by (simp add: mem_view_def mem_objs_def demo_world_def okey_def cs_kind_def demo_cs_def)
  ultimately show ?thesis
    using cs_Reconcile_converges [OF mem_api_ok _ _ _ demo_run_ok] by simp
qed

theorem cs_Reconcile_handover_witness:
  "c_VirtualService (mem_view (fst (snd (cs_Reconcile mem_api (''mesh'', ''svc'')
      (demo_world\<lparr>mw_ServiceConfig := [demo_sc]\<rparr>, demo_rc))))) (''mesh'', ''svc'') = None"
proof -
  define w where "w = demo_world\<lparr>mw_ServiceConfig := [demo_sc]\<rparr>"
  have "c_ServiceConfig (mem_view w) (''mesh'', ''svc'') \<noteq> None"
    by (simp add: w_def mem_view_def mem_objs_def okey_def sc_kind_def demo_sc_def)
  moreover have "c_VirtualService (mem_view w) (''mesh'', ''svc'') = None"
    by (simp add: w_def mem_view_def mem_objs_def demo_world_def empty_world_def)
  moreover obtain x w' r' where run: "cs_Reconcile mem_api (''mesh'', ''svc'') (w, demo_rc) = (x, (w', r'))"
    by (metis surj_pair)
  ultimately show ?thesis
    using cs_Reconcile_handover [OF mem_api_ok _ _ run] by (simp add: w_def [symmetric])
qed

end
