(* ===== verification/ScCorrect.thy ===== *)
theory ScCorrect
  imports ScController CsCorrect
begin

text \<open>
  What the reconciliation of a ServiceConfig leaves in the cluster: the destination rule and the virtual
  service of the subsets that the stored ConfiguredService provides, the weights, and the status.
\<close>

section \<open>DestinationRule and VirtualService\<close>

lemma sc_built_meta:
  "sc_buildVirtualService r sc subs = Some v \<Longrightarrow> vs_Meta v = sc_meta r sc"
  "sc_buildDestinationRule r sc subs = Some d \<Longrightarrow> dr_Meta d = sc_meta r sc"
  by (auto simp: sc_buildVirtualService_def sc_buildDestinationRule_def bind_eq_Some_conv Let_def)

lemma sc_built_key:
  "sc_buildVirtualService r sc subs = Some v \<Longrightarrow>
     okey vs_kind v = (om_Namespace (sc_Meta sc), FormatToDNS1123 (om_Name (sc_Meta sc)))"
  "sc_buildDestinationRule r sc subs = Some d \<Longrightarrow>
     okey dr_kind d = (om_Namespace (sc_Meta sc), FormatToDNS1123 (om_Name (sc_Meta sc)))"
  by (auto simp: okey_def kind_defs sc_built_meta)

lemma sc_VirtualService_unfold:
  "sc_reconcileVirtualService api r sc =
     vs.sync_service (ap_SetControllerReference api ''ServiceConfig'') (ap_VirtualService api) (sc_selector r sc) (sc_Meta sc)
       (gbind (sc_getSubset api r sc) (\<lambda>subs.
          gret (if subs = [] then None else Some (sc_buildVirtualService r sc subs))))"
  unfolding sc_reconcileVirtualService_def sc_getVirtualServicesMap_def vs.sync_service_def gbind_assoc
  by (intro arg_cong2 [where f = gbind] refl ext) (simp add: run_simps)

lemma sc_VirtualService_read:
  fixes r :: Reconciler and sc :: ServiceConfig
  assumes ok: "api_ok api view"
  defines "read \<equiv> gbind (sc_getSubset api r sc) (\<lambda>subs.
          gret (if subs = [] then None else Some (sc_buildVirtualService r sc subs)))"
  shows "reads_only (\<lambda>w. c_VirtualService (view w)) (\<lambda>w. (view w)\<lparr>c_VirtualService := Map.empty\<rparr>) read"
    and "wants_key vs_kind read (om_Namespace (sc_Meta sc), FormatToDNS1123 (om_Name (sc_Meta sc)))"
    and "read w = (Inr wanted, w') \<Longrightarrow> wanted =
      (let subs = stored_subsets r (view w) (sc_key sc) in
       if subs = [] then None else Some (sc_buildVirtualService r sc subs))"
proof -
  have run: "view w' = view w \<and> (\<forall>wanted. x = Inr wanted \<longrightarrow> wanted =
      (let subs = stored_subsets r (view w) (sc_key sc) in
       if subs = [] then None else Some (sc_buildVirtualService r sc subs)))" if rd: "read w = (x, w')" for w x w'
    using rd unfolding read_def
  proof (cases rule: gbind_cases)
    case (aborted e)
    then show ?thesis using sc_getSubset_view(1) [OF ok aborted(1)] by simp
  next
    case (returned subs t)
    then show ?thesis using sc_getSubset_view [OF ok returned(1)] by (auto simp: gret_def Let_def)
  qed
  show "reads_only (\<lambda>w. c_VirtualService (view w)) (\<lambda>w. (view w)\<lparr>c_VirtualService := Map.empty\<rparr>) read"
    unfolding reads_only_def using run by metis
  show "wants_key vs_kind read (om_Namespace (sc_Meta sc), FormatToDNS1123 (om_Name (sc_Meta sc)))"
    unfolding wants_key_def
  proof (intro allI impI)
    fix w o1 w'
    assume "read w = (Inr (Some (Some o1)), w')"
    from run [OF this] have "sc_buildVirtualService r sc (stored_subsets r (view w) (sc_key sc)) = Some o1"
      by (simp add: Let_def split: if_splits)
    then show "okey vs_kind o1 = (om_Namespace (sc_Meta sc), FormatToDNS1123 (om_Name (sc_Meta sc)))"
      by (rule sc_built_key)
  qed
  show "read w = (Inr wanted, w') \<Longrightarrow> wanted =
      (let subs = stored_subsets r (view w) (sc_key sc) in
       if subs = [] then None else Some (sc_buildVirtualService r sc subs))"
    using run by blast
qed

lemma sc_VirtualService_cases:
  assumes ok: "api_ok api view" and ns: "om_Namespace (sc_Meta sc) \<noteq> []"
    and run: "sc_reconcileVirtualService api r sc w = (x, w')"
  shows "view w' = (view w)\<lparr>c_VirtualService := c_VirtualService (view w')\<rparr>"
    and "x = Inr u \<Longrightarrow> (let subs = stored_subsets r (view w) (sc_key sc) in
      if subs = [] then view w' = view w
      else \<exists>v. sc_buildVirtualService r sc subs = Some v \<and>
        sync_result vs_kind (sc_selector r sc) v (c_VirtualService (view w)) (c_VirtualService (view w')))"
proof -
  note read = sc_VirtualService_read [OF ok, where r = r and sc = sc]
  note C = vs.sync_service_cases [OF api_ok_vs [OF ok] api_ok_setref [OF ok] read(1,2)
      sc_selector_simps(1) ns run [unfolded sc_VirtualService_unfold], unfolded only_changed]
  show frame: "view w' = (view w)\<lparr>c_VirtualService := c_VirtualService (view w')\<rparr>" using C(1) .
  show "let subs = stored_subsets r (view w) (sc_key sc) in
      if subs = [] then view w' = view w
      else \<exists>v. sc_buildVirtualService r sc subs = Some v \<and>
        sync_result vs_kind (sc_selector r sc) v (c_VirtualService (view w)) (c_VirtualService (view w'))" if "x = Inr u"
  proof -
    from C(3) [OF that] obtain wl wanted wr where same: "c_VirtualService (view wl) = c_VirtualService (view w)"
      "view wl = (view w)\<lparr>c_VirtualService := c_VirtualService (view wl)\<rparr>"
      and rd: "gbind (sc_getSubset api r sc) (\<lambda>subs.
          gret (if subs = [] then None else Some (sc_buildVirtualService r sc subs))) wl = (Inr wanted, wr)"
      and res: "case wanted of None \<Rightarrow> c_VirtualService (view w') = c_VirtualService (view w)
       | Some v \<Rightarrow> \<exists>o1. v = Some o1 \<and> sync_result vs_kind (sc_selector r sc) o1
           (c_VirtualService (view w)) (c_VirtualService (view w'))"
      by blast
    have "view wl = view w" using same by simp
    with read(3) [OF rd] res frame show ?thesis by (auto simp: Let_def split: if_splits)
  qed
qed

lemma sc_DestinationRule_unfold:
  "sc_reconcileDestinationRule api r sc =
     dr.sync_service (ap_SetControllerReference api ''ServiceConfig'') (ap_DestinationRule api) (sc_selector r sc) (sc_Meta sc)
       (gbind (sc_getSubset api r sc) (\<lambda>subs.
          gret (if subs = [] then None else Some (sc_buildDestinationRule r sc subs))))"
  unfolding sc_reconcileDestinationRule_def sc_getDestinationRuleMap_def dr.sync_service_def gbind_assoc
  by (intro arg_cong2 [where f = gbind] refl ext) (simp add: run_simps)

lemma sc_DestinationRule_read:
  fixes r :: Reconciler and sc :: ServiceConfig
  assumes ok: "api_ok api view"
  defines "read \<equiv> gbind (sc_getSubset api r sc) (\<lambda>subs.
          gret (if subs = [] then None else Some (sc_buildDestinationRule r sc subs)))"
  shows "reads_only (\<lambda>w. c_DestinationRule (view w)) (\<lambda>w. (view w)\<lparr>c_DestinationRule := Map.empty\<rparr>) read"
    and "wants_key dr_kind read (om_Namespace (sc_Meta sc), FormatToDNS1123 (om_Name (sc_Meta sc)))"
    and "read w = (Inr wanted, w') \<Longrightarrow> wanted =
      (let subs = stored_subsets r (view w) (sc_key sc) in
       if subs = [] then None else Some (sc_buildDestinationRule r sc subs))"
proof -
  have run: "view w' = view w \<and> (\<forall>wanted. x = Inr wanted \<longrightarrow> wanted =
      (let subs = stored_subsets r (view w) (sc_key sc) in
       if subs = [] then None else Some (sc_buildDestinationRule r sc subs)))" if rd: "read w = (x, w')" for w x w'
    using rd unfolding read_def
  proof (cases rule: gbind_cases)
    case (aborted e)
    then show ?thesis using sc_getSubset_view(1) [OF ok aborted(1)] by simp
  next
    case (returned subs t)
    then show ?thesis using sc_getSubset_view [OF ok returned(1)] by (auto simp: gret_def Let_def)
  qed
  show "reads_only (\<lambda>w. c_DestinationRule (view w)) (\<lambda>w. (view w)\<lparr>c_DestinationRule := Map.empty\<rparr>) read"
    unfolding reads_only_def using run by metis
  show "wants_key dr_kind read (om_Namespace (sc_Meta sc), FormatToDNS1123 (om_Name (sc_Meta sc)))"
    unfolding wants_key_def
  proof (intro allI impI)
    fix w o1 w'
    assume "read w = (Inr (Some (Some o1)), w')"
    from run [OF this] have "sc_buildDestinationRule r sc (stored_subsets r (view w) (sc_key sc)) = Some o1"
      by (simp add: Let_def split: if_splits)
    then show "okey dr_kind o1 = (om_Namespace (sc_Meta sc), FormatToDNS1123 (om_Name (sc_Meta sc)))"
      by (rule sc_built_key)
  qed
  show "read w = (Inr wanted, w') \<Longrightarrow> wanted =
      (let subs = stored_subsets r (view w) (sc_key sc) in
       if subs = [] then None else Some (sc_buildDestinationRule r sc subs))"
    using run by blast
qed

lemma sc_DestinationRule_cases:
  assumes ok: "api_ok api view" and ns: "om_Namespace (sc_Meta sc) \<noteq> []"
    and run: "sc_reconcileDestinationRule api r sc w = (x, w')"
  shows "view w' = (view w)\<lparr>c_DestinationRule := c_DestinationRule (view w')\<rparr>"
    and "x = Inr u \<Longrightarrow> (let subs = stored_subsets r (view w) (sc_key sc) in
      if subs = [] then view w' = view w
      else \<exists>v. sc_buildDestinationRule r sc subs = Some v \<and>
        sync_result dr_kind (sc_selector r sc) v (c_DestinationRule (view w)) (c_DestinationRule (view w')))"
proof -
  note read = sc_DestinationRule_read [OF ok, where r = r and sc = sc]
  note C = dr.sync_service_cases [OF api_ok_dr [OF ok] api_ok_setref [OF ok] read(1,2)
      sc_selector_simps(1) ns run [unfolded sc_DestinationRule_unfold], unfolded only_changed]
  show frame: "view w' = (view w)\<lparr>c_DestinationRule := c_DestinationRule (view w')\<rparr>" using C(1) .
  show "let subs = stored_subsets r (view w) (sc_key sc) in
      if subs = [] then view w' = view w
      else \<exists>v. sc_buildDestinationRule r sc subs = Some v \<and>
        sync_result dr_kind (sc_selector r sc) v (c_DestinationRule (view w)) (c_DestinationRule (view w'))" if "x = Inr u"
  proof -
    from C(3) [OF that] obtain wl wanted wr where same: "c_DestinationRule (view wl) = c_DestinationRule (view w)"
      "view wl = (view w)\<lparr>c_DestinationRule := c_DestinationRule (view wl)\<rparr>"
      and rd: "gbind (sc_getSubset api r sc) (\<lambda>subs.
          gret (if subs = [] then None else Some (sc_buildDestinationRule r sc subs))) wl = (Inr wanted, wr)"
      and res: "case wanted of None \<Rightarrow> c_DestinationRule (view w') = c_DestinationRule (view w)
       | Some v \<Rightarrow> \<exists>o1. v = Some o1 \<and> sync_result dr_kind (sc_selector r sc) o1
           (c_DestinationRule (view w)) (c_DestinationRule (view w'))"
      by blast
    have "view wl = view w" using same by simp
    with read(3) [OF rd] res frame show ?thesis by (auto simp: Let_def split: if_splits)
  qed
qed

text \<open>
  When the reconciliation of the virtual service of a ServiceConfig returns without error, the
  virtual service built for the subsets that the stored ConfiguredService provides is stored, every
  other one labelled with the service is deleted, and nothing else has changed; if no subset is
  provided (or there is no ConfiguredService) nothing changes at all.
\<close>

theorem sc_VirtualService_converges:
  assumes "api_ok api view" and "om_Namespace (sc_Meta sc) \<noteq> []"
    and "sc_reconcileVirtualService api r sc w = (Inr (), w')"
  shows "(let subs = stored_subsets r (view w) (sc_key sc) in
      if subs = [] then view w' = view w
      else \<exists>v. sc_buildVirtualService r sc subs = Some v \<and>
        sync_result vs_kind (sc_selector r sc) v (c_VirtualService (view w)) (c_VirtualService (view w'))) \<and>
    view w' = (view w)\<lparr>c_VirtualService := c_VirtualService (view w')\<rparr>"
  using sc_VirtualService_cases(1,2) [OF assms] by simp

lemma demo_sc_ns: "om_Namespace (sc_Meta demo_sc) \<noteq> []"
  by (simp add: demo_sc_def)

lemma demo_sc_vs_run:
  "sc_reconcileVirtualService mem_api demo_rc demo_sc demo_world =
     (Inr (), snd (sc_reconcileVirtualService mem_api demo_rc demo_sc demo_world))"
  by (rule run_pair) code_simp

theorem sc_VirtualService_converges_witness:
  "\<exists>v. sync_result vs_kind (sc_selector demo_rc demo_sc) v (c_VirtualService (mem_view demo_world))
    (c_VirtualService (mem_view (snd (sc_reconcileVirtualService mem_api demo_rc demo_sc demo_world))))"
proof -
  have "stored_subsets demo_rc (mem_view demo_world) (sc_key demo_sc) = cs_getSubset demo_rc demo_cs"
    by (simp add: stored_subsets_def mem_view_def mem_objs_def demo_world_def okey_def cs_kind_def sc_key_def
        demo_cs_def demo_sc_def)
  then show ?thesis
    using sc_VirtualService_converges [OF mem_api_ok demo_sc_ns demo_sc_vs_run] demo_subsets(1)
    by (auto simp: Let_def)
qed

end
