(* ===== verification/MeshConfigController.thy ===== *)
theory MeshConfigController
  imports CsController
begin

text \<open>
  \<^verbatim>\<open>controllers/meshconfig\<close>: when the mesh configuration changes, its generation is written into every
  ServiceAccessor, ServiceConfig and ConfiguredService, so that their controllers run again. The
  code has one copy of the loop for each of the three kinds; what the loop needs of a kind is the
  interface \<open>stamped_kind\<close>.
\<close>

section \<open>Operations\<close>

record 'o stamp_kind = "'o kind" +
  k_Stamped :: "'o \<Rightarrow> int64"
  k_Stamp :: "int64 \<Rightarrow> 'o \<Rightarrow> 'o"

text \<open>
  The function that is retried on conflict, on the captured variable \<open>x\<close>: after a failed update the
  object is read again into it, and the new generation is not set anew.
\<close>

definition stamp_closure ::
  "('o, 'z) kind_scheme \<Rightarrow> ('w, 'o) kclient \<Rightarrow> 'o \<Rightarrow> 'w \<Rightarrow> (kerr + unit) \<times> 'o \<times> 'w" where
  "stamp_closure K c x w =
     (case kUpdate c x w of
        (Inr answer, w') \<Rightarrow> (Inr (), answer, w')
      | (Inl updateErr, w') \<Rightarrow>
          (case kGet c (okey K x) w' of
             (Inl getErr, w'') \<Rightarrow> (Inl getErr, x, w'')
           | (Inr fresh, w'') \<Rightarrow> (Inl updateErr, fresh, w'')))"

text \<open>One round of the loop; a failure is logged and the loop goes on.\<close>

definition stamp_step :: "'o stamp_kind \<Rightarrow> ('w, 'o) kclient \<Rightarrow> int64 \<Rightarrow> 'o \<Rightarrow> ('w, unit) call" where
  "stamp_step K c gen item =
     (if k_Stamped K item \<noteq> gen
      then (\<lambda>w. case kRetry c (stamp_closure K c) (k_Stamp K gen item) w of (_, _, w') \<Rightarrow> (Inr (), w'))
      else gret ())"

definition stamp_all :: "'o stamp_kind \<Rightarrow> ('w, 'o) kclient \<Rightarrow> int64 \<Rightarrow> ('w, unit) call" where
  "stamp_all K c gen =
     gbind (list_or_empty c (everywhere [])) (\<lambda>items. gforeach (stamp_step K c gen) items)"

definition sa_stamp :: "ServiceAccessor stamp_kind" where
  "sa_stamp = \<lparr>k_Meta = sa_Meta, k_SetMeta = (\<lambda>m v. v\<lparr>sa_Meta := m\<rparr>),
     k_Stamped = (\<lambda>sa. sa_MeshConfigGeneration (sa_Spec sa)),
     k_Stamp = (\<lambda>g sa. sa\<lparr>sa_Spec := (sa_Spec sa)\<lparr>sa_MeshConfigGeneration := g\<rparr>\<rparr>)\<rparr>"

definition sc_stamp :: "ServiceConfig stamp_kind" where
  "sc_stamp = \<lparr>k_Meta = sc_Meta, k_SetMeta = (\<lambda>m v. v\<lparr>sc_Meta := m\<rparr>),
     k_Stamped = (\<lambda>sc. sc_MeshConfigGeneration (sc_Spec sc)),
     k_Stamp = (\<lambda>g sc. sc\<lparr>sc_Spec := (sc_Spec sc)\<lparr>sc_MeshConfigGeneration := g\<rparr>\<rparr>)\<rparr>"

definition cs_stamp :: "ConfiguredService stamp_kind" where
  "cs_stamp = \<lparr>k_Meta = cs_Meta, k_SetMeta = (\<lambda>m v. v\<lparr>cs_Meta := m\<rparr>),
     k_Stamped = (\<lambda>cs. cs_MeshConfigGeneration (cs_Spec cs)),
     k_Stamp = (\<lambda>g cs. cs\<lparr>cs_Spec := (cs_Spec cs)\<lparr>cs_MeshConfigGeneration := g\<rparr>\<rparr>)\<rparr>"

lemmas stamp_kind_defs = sa_stamp_def sc_stamp_def cs_stamp_def

definition mc_Reconcile :: "'w api \<Rightarrow> nsname \<Rightarrow> ('w, unit) call" where
  "mc_Reconcile api req =
     gbind (attempt (kGet (ap_MeshConfig api) req)) (\<lambda>res.
       case res of
         Inl err \<Rightarrow> if err = NotFound then gret () else gfail err
       | Inr instance1 \<Rightarrow>
           let gen = om_Generation (mc_Meta instance1) in
           gbind (stamp_all sa_stamp (ap_ServiceAccessor api) gen) (\<lambda>_.
           gbind (stamp_all sc_stamp (ap_ServiceConfig api) gen) (\<lambda>_.
           stamp_all cs_stamp (ap_ConfiguredService api) gen)))"

section \<open>What the loop does\<close>

text \<open>
  A loop over objects with distinct keys, each round of which touches its own key only: every
  object is where its own round left it.
\<close>

definition own_key ::
  "('w \<Rightarrow> 'k \<Rightarrow> 'o option) \<Rightarrow> ('w \<Rightarrow> 'r) \<Rightarrow> ('o \<Rightarrow> 'k) \<Rightarrow> ('o \<Rightarrow> 'o option \<Rightarrow> bool) \<Rightarrow> ('o \<Rightarrow> ('w, unit) call) \<Rightarrow> 'o \<Rightarrow> bool" where
  "own_key objs rest key P f x \<longleftrightarrow>
     (\<forall>w r w'. f x w = (r, w') \<longrightarrow> objs w (key x) = Some x \<longrightarrow>
        r = Inr () \<and> rest w' = rest w \<and> (\<forall>k. k \<noteq> key x \<longrightarrow> objs w' k = objs w k) \<and>
        P x (objs w' (key x)))"

lemma gforeach_keyed:
  assumes "\<forall>x \<in> set xs. own_key objs rest key P f x"
    and "distinct (map key xs)" and "\<forall>x \<in> set xs. objs w (key x) = Some x"
    and "gforeach f xs w = (r, w')"
  shows "r = Inr () \<and> rest w' = rest w \<and> (\<forall>x \<in> set xs. P x (objs w' (key x))) \<and>
    (\<forall>k. k \<notin> key ` set xs \<longrightarrow> objs w' k = objs w k)"
  using assms
proof (induction xs arbitrary: w)
  case Nil
  then show ?case by simp
next
  case (Cons x xs)
  obtain r1 w1 where step: "f x w = (r1, w1)" by fastforce
  have s: "r1 = Inr ()" "rest w1 = rest w" "\<forall>k. k \<noteq> key x \<longrightarrow> objs w1 k = objs w k" "P x (objs w1 (key x))"
    using Cons.prems(1,3) step unfolding own_key_def by (meson list.set_intros(1))+
  have "\<forall>y \<in> set xs. objs w1 (key y) = Some y"
    using Cons.prems(2,3) s(3)
    by (metis distinct.simps(2) image_eqI image_set list.set_intros(2) list.simps(9))
  then have tl: "r = Inr () \<and> rest w' = rest w1 \<and> (\<forall>y \<in> set xs. P y (objs w' (key y))) \<and>
    (\<forall>k. k \<notin> key ` set xs \<longrightarrow> objs w' k = objs w1 k)"
    using Cons.prems(1,2,4) step s(1) by (intro Cons.IH) simp_all
  moreover have "objs w' (key x) = objs w1 (key x)" using tl Cons.prems(2) by auto
  ultimately show ?case using s by auto
qed

text \<open>
  The fate of a stored object: it keeps its contents, or these with the new generation. The server
  assigns versions anew.
\<close>

definition stamped_or_same :: "'o stamp_kind \<Rightarrow> int64 \<Rightarrow> 'o \<Rightarrow> 'o option \<Rightarrow> bool" where
  "stamped_or_same K gen o1 v \<longleftrightarrow>
     (\<exists>o'. v = Some o' \<and> (same_object K o' o1 \<or> same_object K o' (k_Stamp K gen o1)))"

definition all_stamped_or_same ::
  "'o stamp_kind \<Rightarrow> int64 \<Rightarrow> (nsname \<Rightarrow> 'o option) \<Rightarrow> (nsname \<Rightarrow> 'o option) \<Rightarrow> bool" where
  "all_stamped_or_same K gen M M' \<longleftrightarrow>
     (\<forall>k. case M k of None \<Rightarrow> M' k = None | Some o1 \<Rightarrow> stamped_or_same K gen o1 (M' k))"

locale stamped_kind = object_kind K for K :: "'o stamp_kind" +
  assumes meta_stamp: "k_Meta K (k_Stamp K g o1) = k_Meta K o1"
    and stamped_stamp: "k_Stamped K (k_Stamp K g o1) = g"
    and stamped_set: "k_Stamped K (k_SetMeta K m o1) = k_Stamped K o1"
begin

lemma okey_stamp: "okey K (k_Stamp K g o1) = okey K o1"
  by (simp add: okey_def meta_stamp)

lemma same_refl: "same_object K o1 o1"
  by (simp add: same_object_def)

lemma same_trans: "same_object K a b \<Longrightarrow> same_object K b c \<Longrightarrow> same_object K a c"
  by (simp add: same_object_def)

lemma same_stamped: "same_object K a b \<Longrightarrow> k_Stamped K a = k_Stamped K b"
  unfolding same_object_def by (metis stamped_set)

lemma same_key: "same_object K a b \<Longrightarrow> okey K a = okey K b"
proof -
  assume "same_object K a b"
  then have "strip_meta (k_Meta K a) = strip_meta (k_Meta K b)"
    unfolding same_object_def by (metis meta_set)
  then show "okey K a = okey K b" by (cases "k_Meta K a"; cases "k_Meta K b") (simp add: okey_def strip_meta_def)
qed

text \<open>One call of the retried function, then all of them.\<close>

lemma closure_cases:
  assumes ok: "kube_ok K c objs rest" and cur: "objs w (okey K item) = Some cur"
    and x: "x = item \<or> x = cur" and run: "stamp_closure K c x w = (r, x', w')"
  shows "rest w' = rest w" and "k \<noteq> okey K item \<Longrightarrow> objs w' k = objs w k"
    and "r = Inl e \<Longrightarrow> objs w' = objs w \<and> (x' = item \<or> x' = cur)"
    and "\<exists>o'. objs w' (okey K item) = Some o' \<and> (same_object K o' cur \<or>
      same_object K o' item \<and> om_ResourceVersion (k_Meta K item) \<in> {0, om_ResourceVersion (k_Meta K cur)})"
proof -
  have key: "okey K x = okey K item" using x kube_ok_key [OF ok cur] by auto
  obtain u w1 where upd: "kUpdate c x w = (u, w1)" by fastforce
  note U = kube_ok_updateD [OF ok upd]
  have "rest w' = rest w \<and> (k \<noteq> okey K item \<longrightarrow> objs w' k = objs w k) \<and>
    (r = Inl e \<longrightarrow> objs w' = objs w \<and> (x' = item \<or> x' = cur)) \<and>
    (\<exists>o'. objs w' (okey K item) = Some o' \<and> (same_object K o' cur \<or>
      same_object K o' item \<and> om_ResourceVersion (k_Meta K item) \<in> {0, om_ResourceVersion (k_Meta K cur)}))"
  proof (cases u)
    case (Inr answer)
    with run upd have "r = Inr ()" "w' = w1" by (simp_all add: stamp_closure_def)
    with U(1) U(3,4) [OF Inr] key x cur show ?thesis by auto
  next
    case (Inl updateErr)
    obtain g w2 where get: "kGet c (okey K x) w1 = (g, w2)" by fastforce
    note G = kube_ok_getD [OF ok get]
    from run upd get Inl have w: "w' = w2" and "(case g of Inl _ \<Rightarrow> x' = x | Inr fresh \<Rightarrow> x' = fresh)"
      by (auto simp: stamp_closure_def split: sum.splits)
    then have "x' = item \<or> x' = cur"
      using x G(3) U(2) [OF Inl] key cur by (cases g) auto
    with U(1,2) Inl G(1,2) w cur show ?thesis by (auto intro: same_refl)
  qed
  then show "rest w' = rest w" "k \<noteq> okey K item \<Longrightarrow> objs w' k = objs w k"
    "r = Inl e \<Longrightarrow> objs w' = objs w \<and> (x' = item \<or> x' = cur)"
    "\<exists>o'. objs w' (okey K item) = Some o' \<and> (same_object K o' cur \<or>
      same_object K o' item \<and> om_ResourceVersion (k_Meta K item) \<in> {0, om_ResourceVersion (k_Meta K cur)})"
    by blast+
qed

lemma closure_retry:
  assumes ok: "kube_ok K c objs rest" and cur: "objs w (okey K item) = Some cur"
    and run: "kRetry c (stamp_closure K c) item w = (r, x', w')"
  shows "rest w' = rest w \<and> (\<forall>k. k \<noteq> okey K item \<longrightarrow> objs w' k = objs w k) \<and>
    (\<exists>o'. objs w' (okey K item) = Some o' \<and> (same_object K o' cur \<or>
      same_object K o' item \<and> om_ResourceVersion (k_Meta K item) \<in> {0, om_ResourceVersion (k_Meta K cur)}))"
proof (rule retry_ok_invariant [where c = c and f = "stamp_closure K c" and x = item and w = w
      and I = "\<lambda>x v. objs v = objs w \<and> rest v = rest w \<and> (x = item \<or> x = cur)"
      and Q = "\<lambda>r x' w'. rest w' = rest w \<and> (\<forall>k. k \<noteq> okey K item \<longrightarrow> objs w' k = objs w k) \<and>
    (\<exists>o'. objs w' (okey K item) = Some o' \<and> (same_object K o' cur \<or>
      same_object K o' item \<and> om_ResourceVersion (k_Meta K item) \<in> {0, om_ResourceVersion (k_Meta K cur)}))"
      and r = r and x' = x' and w' = w'])
  show "retry_ok c" using ok by (simp add: kube_ok_def)
  show "kRetry c (stamp_closure K c) item w = (r, x', w')" by (rule run)
next
  fix x v q x1 v1
  assume I: "objs v = objs w \<and> rest v = rest w \<and> (x = item \<or> x = cur)"
    and step: "stamp_closure K c x v = (q, x1, v1)"
  have cur': "objs v (okey K item) = Some cur" using I cur by simp
  note C = closure_cases [OF ok cur' _ step]
  show "objs v1 = objs w \<and> rest v1 = rest w \<and> (x1 = item \<or> x1 = cur)" if "q = Inl Conflict"
    using C(1) C(3) [OF _ that] I by simp
  show "rest v1 = rest w \<and> (\<forall>k. k \<noteq> okey K item \<longrightarrow> objs v1 k = objs w k) \<and>
    (\<exists>o'. objs v1 (okey K item) = Some o' \<and> (same_object K o' cur \<or>
      same_object K o' item \<and> om_ResourceVersion (k_Meta K item) \<in> {0, om_ResourceVersion (k_Meta K cur)}))"
    using C(1,2,4) I by simp
qed simp

text \<open>On a reliable client the first attempt succeeds.\<close>

lemma closure_reliable:
  assumes ok: "kube_ok K c objs rest" and rel: "reliable K c objs" and cur: "objs w (okey K item) = Some item"
    and run: "kRetry c (stamp_closure K c) (k_Stamp K gen item) w = (r, x', w')"
  shows "\<exists>o'. objs w' (okey K item) = Some o' \<and> same_object K o' (k_Stamp K gen item)"
proof -
  have "objs w (okey K (k_Stamp K gen item)) = Some item" using cur by (simp add: okey_stamp)
  then obtain o' w1 where upd: "kUpdate c (k_Stamp K gen item) w = (Inr o', w1)"
    using rel unfolding reliable_def by (metis meta_stamp)
  obtain n where "retry_attempts n (stamp_closure K c) (k_Stamp K gen item) w = (r, x', w')"
    using ok run unfolding kube_ok_def retry_ok_def by metis
  then have "w' = w1" using upd by (cases n) (auto simp: stamp_closure_def)
  with kube_ok_updateD(4) [OF ok upd refl] show ?thesis by (auto simp: okey_stamp)
qed

lemma step_cases:
  assumes ok: "kube_ok K c objs rest" and run: "stamp_step K c gen item w = (r, w')"
    and cur: "objs w (okey K item) = Some item"
  shows "r = Inr ()" and "rest w' = rest w" and "k \<noteq> okey K item \<Longrightarrow> objs w' k = objs w k"
    and "stamped_or_same K gen item (objs w' (okey K item))"
    and "reliable K c objs \<Longrightarrow> \<exists>o'. objs w' (okey K item) = Some o' \<and> k_Stamped K o' = gen"
proof -
  have "r = Inr () \<and> rest w' = rest w \<and> (\<forall>k. k \<noteq> okey K item \<longrightarrow> objs w' k = objs w k) \<and>
    stamped_or_same K gen item (objs w' (okey K item)) \<and>
    (reliable K c objs \<longrightarrow> (\<exists>o'. objs w' (okey K item) = Some o' \<and> k_Stamped K o' = gen))"
  proof (cases "k_Stamped K item = gen")
    case True
    with run cur show ?thesis
      by (auto simp: stamp_step_def gret_def stamped_or_same_def intro: same_refl)
  next
    case False
    obtain q x' w1 where re: "kRetry c (stamp_closure K c) (k_Stamp K gen item) w = (q, x', w1)"
      by (cases "kRetry c (stamp_closure K c) (k_Stamp K gen item) w") auto
    with run False have "r = Inr ()" "w1 = w'" by (auto simp: stamp_step_def)
    moreover have "objs w (okey K (k_Stamp K gen item)) = Some item" using cur by (simp add: okey_stamp)
    note R = closure_retry [OF ok this re]
    moreover have "\<exists>o'. objs w' (okey K item) = Some o' \<and> k_Stamped K o' = gen" if "reliable K c objs"
      using closure_reliable [OF ok that cur re] \<open>w1 = w'\<close> by (metis same_stamped stamped_stamp)
    ultimately show ?thesis by (auto simp: stamped_or_same_def okey_stamp)
  qed
  then show "r = Inr ()" "rest w' = rest w" "k \<noteq> okey K item \<Longrightarrow> objs w' k = objs w k"
    "stamped_or_same K gen item (objs w' (okey K item))"
    "reliable K c objs \<Longrightarrow> \<exists>o'. objs w' (okey K item) = Some o' \<and> k_Stamped K o' = gen"
    by blast+
qed

lemma step_own_key:
  assumes "kube_ok K c objs rest"
  shows "own_key objs rest (okey K) (\<lambda>o1 v. stamped_or_same K gen o1 v \<and>
    (reliable K c objs \<longrightarrow> (\<exists>o'. v = Some o' \<and> k_Stamped K o' = gen))) (stamp_step K c gen) x"
  unfolding own_key_def
proof (intro allI impI)
  fix w r w'
  assume "stamp_step K c gen x w = (r, w')" and "objs w (okey K x) = Some x"
  note S = step_cases [OF assms this]
  show "r = Inr () \<and> rest w' = rest w \<and> (\<forall>k. k \<noteq> okey K x \<longrightarrow> objs w' k = objs w k) \<and>
    stamped_or_same K gen x (objs w' (okey K x)) \<and>
    (reliable K c objs \<longrightarrow> (\<exists>o'. objs w' (okey K x) = Some o' \<and> k_Stamped K o' = gen))"
    using S(1-5) by blast
qed

lemma stamp_all_spec:
  assumes ok: "kube_ok K c objs rest" and run: "stamp_all K c gen w = (r, w')"
  shows "r = Inr ()" and "rest w' = rest w" and "all_stamped_or_same K gen (objs w) (objs w')"
    and "reliable K c objs \<Longrightarrow> objs w' k = Some o1 \<Longrightarrow> k_Stamped K o1 = gen"
proof -
  obtain l w1 where list: "kList c (everywhere []) w = (l, w1)" by fastforce
  note L = kube_ok_listD [OF ok list]
  define items where "items = (case l of Inl _ \<Rightarrow> [] | Inr items \<Rightarrow> items)"
  have loop: "gforeach (stamp_step K c gen) items w1 = (r, w')"
    using run list by (simp add: stamp_all_def list_or_empty_def gbind_def attempt_def gret_def items_def)
  have dist: "distinct (map (okey K) items)" using L(3) by (cases l) (simp_all add: items_def)
  have mem: "\<forall>x \<in> set items. objs w1 (okey K x) = Some x"
    using L(1,4) by (cases l) (simp_all add: items_def)
  note G = gforeach_keyed [OF ballI [OF step_own_key [OF ok]] dist mem loop]
  show "r = Inr ()" "rest w' = rest w" using G L(2) by simp_all
  show "all_stamped_or_same K gen (objs w) (objs w')"
    unfolding all_stamped_or_same_def
  proof (intro allI)
    fix k
    show "case objs w k of None \<Rightarrow> objs w' k = None | Some o1 \<Rightarrow> stamped_or_same K gen o1 (objs w' k)"
    proof (cases "k \<in> okey K ` set items")
      case True
      then obtain x where "x \<in> set items" "k = okey K x" by blast
      with G mem L(1) show ?thesis by auto
    next
      case False
      with G have "objs w' k = objs w k" using L(1) by (cases k) simp
      then show ?thesis by (auto simp: stamped_or_same_def intro: same_refl split: option.splits)
    qed
  qed
  show "k_Stamped K o1 = gen" if rel: "reliable K c objs" and o1: "objs w' k = Some o1"
  proof -
    obtain its where l: "l = Inr its" using rel list unfolding reliable_def by (metis prod.inject)
    have "k \<in> okey K ` set items"
    proof (rule ccontr)
      assume k: "k \<notin> okey K ` set items"
      with G o1 have "objs w1 k = Some o1" by (cases k) simp
      with kube_ok_key [OF ok this] L(1) L(4) [OF l, of o1] have "o1 \<in> set items"
        by (simp add: items_def l selects_def everywhere_def)
      with k kube_ok_key [OF ok o1] show False by blast
    qed
    with G rel o1 show ?thesis by fastforce
  qed
qed

text \<open>An object that is out of date when its update is sent keeps the generation it has.\<close>

lemma stale_step:
  assumes ok: "kube_ok K c objs rest" and cur: "objs w (okey K item) = Some cur"
    and stale: "om_ResourceVersion (k_Meta K item) \<notin> {0, om_ResourceVersion (k_Meta K cur)}"
    and run: "stamp_step K c gen item w = (r, w')"
  shows "r = Inr () \<and> (\<exists>o'. objs w' (okey K item) = Some o' \<and> k_Stamped K o' = k_Stamped K cur)"
proof (cases "k_Stamped K item = gen")
  case True
  with run cur show ?thesis by (simp add: stamp_step_def gret_def)
next
  case False
  obtain q x' w1 where re: "kRetry c (stamp_closure K c) (k_Stamp K gen item) w = (q, x', w1)"
    by (cases "kRetry c (stamp_closure K c) (k_Stamp K gen item) w") auto
  with run False have "r = Inr ()" "w1 = w'" by (auto simp: stamp_step_def)
  moreover have "objs w (okey K (k_Stamp K gen item)) = Some cur" using cur by (simp add: okey_stamp)
  note closure_retry [OF ok this re]
  ultimately show ?thesis using stale same_stamped by (auto simp: okey_stamp meta_stamp)
qed

end

interpretation sa_st: stamped_kind sa_stamp by unfold_locales (auto simp: sa_stamp_def)
interpretation sc_st: stamped_kind sc_stamp by unfold_locales (auto simp: sc_stamp_def)
interpretation cs_st: stamped_kind cs_stamp by unfold_locales (auto simp: cs_stamp_def)

section \<open>Reconcile\<close>

text \<open>The laws of a client do not depend on the stamp.\<close>

lemma stamp_as_kind:
  "k_Meta sa_stamp = k_Meta sa_kind" "k_Meta sc_stamp = k_Meta sc_kind" "k_Meta cs_stamp = k_Meta cs_kind"
  "okey sa_stamp = okey sa_kind" "okey sc_stamp = okey sc_kind" "okey cs_stamp = okey cs_kind"
  "same_object sa_stamp = same_object sa_kind" "same_object sc_stamp = same_object sc_kind"
  "same_object cs_stamp = same_object cs_kind"
  by (simp_all add: fun_eq_iff okey_def same_object_def stamp_kind_defs plain_kind_defs)

lemma kube_ok_stamp:
  "kube_ok sa_stamp c objs1 rest1 = kube_ok sa_kind c objs1 rest1"
  "kube_ok sc_stamp d objs2 rest2 = kube_ok sc_kind d objs2 rest2"
  "kube_ok cs_stamp e objs3 rest3 = kube_ok cs_kind e objs3 rest3"
  unfolding kube_ok_def reads_ok_def writes_ok_def stamp_as_kind by (rule refl)+

definition stamps :: "int64 \<Rightarrow> cluster \<Rightarrow> cluster \<Rightarrow> bool" where
  "stamps gen C C' \<longleftrightarrow>
     all_stamped_or_same sa_stamp gen (c_ServiceAccessor C) (c_ServiceAccessor C') \<and>
     all_stamped_or_same sc_stamp gen (c_ServiceConfig C) (c_ServiceConfig C') \<and>
     all_stamped_or_same cs_stamp gen (c_ConfiguredService C) (c_ConfiguredService C') \<and>
     C' = C\<lparr>c_ServiceAccessor := c_ServiceAccessor C', c_ServiceConfig := c_ServiceConfig C',
             c_ConfiguredService := c_ConfiguredService C'\<rparr>"

definition stamped_cluster :: "int64 \<Rightarrow> cluster \<Rightarrow> bool" where
  "stamped_cluster gen C \<longleftrightarrow>
     (\<forall>k. pred_option (\<lambda>o1. k_Stamped sa_stamp o1 = gen) (c_ServiceAccessor C k) \<and>
          pred_option (\<lambda>o1. k_Stamped sc_stamp o1 = gen) (c_ServiceConfig C k) \<and>
          pred_option (\<lambda>o1. k_Stamped cs_stamp o1 = gen) (c_ConfiguredService C k))"

definition reliable_api :: "'w api \<Rightarrow> ('w \<Rightarrow> cluster) \<Rightarrow> bool" where
  "reliable_api api view \<longleftrightarrow>
     reliable sa_stamp (ap_ServiceAccessor api) (\<lambda>w. c_ServiceAccessor (view w)) \<and>
     reliable sc_stamp (ap_ServiceConfig api) (\<lambda>w. c_ServiceConfig (view w)) \<and>
     reliable cs_stamp (ap_ConfiguredService api) (\<lambda>w. c_ConfiguredService (view w))"

lemma mc_loops:
  assumes ok: "api_ok api view"
    and run: "gbind (stamp_all sa_stamp (ap_ServiceAccessor api) gen) (\<lambda>_.
           gbind (stamp_all sc_stamp (ap_ServiceConfig api) gen) (\<lambda>_.
           stamp_all cs_stamp (ap_ConfiguredService api) gen)) w = (x, w')"
  shows "x = Inr ()" and "stamps gen (view w) (view w')"
    and "reliable_api api view \<Longrightarrow> stamped_cluster gen (view w')"
proof -
  note kinds = api_ok_sa [OF ok, folded kube_ok_stamp] api_ok_sc [OF ok, folded kube_ok_stamp]
    api_ok_cs [OF ok, folded kube_ok_stamp]
  obtain r1 w1 where a: "stamp_all sa_stamp (ap_ServiceAccessor api) gen w = (r1, w1)" by fastforce
  note A = sa_st.stamp_all_spec [OF kinds(1) a, unfolded only_changed]
  obtain r2 w2 where b: "stamp_all sc_stamp (ap_ServiceConfig api) gen w1 = (r2, w2)" by fastforce
  note B = sc_st.stamp_all_spec [OF kinds(2) b, unfolded only_changed]
  obtain r3 w3 where c: "stamp_all cs_stamp (ap_ConfiguredService api) gen w2 = (r3, w3)" by fastforce
  note C = cs_st.stamp_all_spec [OF kinds(3) c, unfolded only_changed]
  have end3: "x = r3" "w' = w3" using run a b c A(1) B(1) by (simp_all add: gbind_def)
  then show "x = Inr ()" using C(1) by simp
  have f: "c_ServiceAccessor (view w3) = c_ServiceAccessor (view w1)"
    "c_ServiceConfig (view w1) = c_ServiceConfig (view w)"
    "c_ServiceConfig (view w3) = c_ServiceConfig (view w2)"
    "c_ConfiguredService (view w2) = c_ConfiguredService (view w)"
    using arg_cong [OF B(2), of c_ServiceAccessor] arg_cong [OF C(2), of c_ServiceAccessor]
      arg_cong [OF A(2), of c_ServiceConfig] arg_cong [OF C(2), of c_ServiceConfig]
      arg_cong [OF A(2), of c_ConfiguredService] arg_cong [OF B(2), of c_ConfiguredService]
    by simp_all
  show "stamps gen (view w) (view w')"
    unfolding stamps_def end3
  proof (intro conjI)
    show "all_stamped_or_same sa_stamp gen (c_ServiceAccessor (view w)) (c_ServiceAccessor (view w3))"
      using A(3) f by simp
    show "all_stamped_or_same sc_stamp gen (c_ServiceConfig (view w)) (c_ServiceConfig (view w3))"
      using B(3) f by simp
    show "all_stamped_or_same cs_stamp gen (c_ConfiguredService (view w)) (c_ConfiguredService (view w3))"
      using C(3) f by simp
    show "view w3 = (view w)\<lparr>c_ServiceAccessor := c_ServiceAccessor (view w3),
      c_ServiceConfig := c_ServiceConfig (view w3), c_ConfiguredService := c_ConfiguredService (view w3)\<rparr>"
      using A(2) B(2) C(2) by (cases "view w"; cases "view w1"; cases "view w2"; cases "view w3") simp
  qed
  show "stamped_cluster gen (view w')" if "reliable_api api view"
    using A(4) B(4) C(4) that f unfolding stamped_cluster_def reliable_api_def end3
    by (auto simp: pred_option_def)
qed

text \<open>
  C22: a reconciliation of the mesh configuration writes nothing but generations: every stored
  ServiceAccessor, ServiceConfig and ConfiguredService keeps its contents, or gets exactly the
  generation of the configuration; none appears or disappears, no other kind is touched, and the
  only error it can report is that of reading the configuration.
\<close>

theorem mc_Reconcile_stamps:
  assumes "api_ok api view" and "mc_Reconcile api req w = (x, w')"
  shows "case c_MeshConfig (view w) req of
      None \<Rightarrow> view w' = view w
    | Some m \<Rightarrow> view w' = view w \<or> x = Inr () \<and> stamps (om_Generation (mc_Meta m)) (view w) (view w')"
proof -
  obtain g w1 where get: "kGet (ap_MeshConfig api) req w = (g, w1)" by fastforce
  note same = get_keeps_view(1) [OF assms(1) get]
  note G = kube_ok_getD(3) [OF api_ok_mc [OF assms(1)] get]
  show ?thesis
  proof (cases g)
    case (Inl e)
    with assms(2) get have "w' = w1"
      by (auto simp: mc_Reconcile_def gbind_def attempt_def gret_def gfail_def split: if_splits)
    with same show ?thesis by (simp split: option.splits)
  next
    case (Inr m)
    with assms(2) get have "gbind (stamp_all sa_stamp (ap_ServiceAccessor api) (om_Generation (mc_Meta m))) (\<lambda>_.
           gbind (stamp_all sc_stamp (ap_ServiceConfig api) (om_Generation (mc_Meta m))) (\<lambda>_.
           stamp_all cs_stamp (ap_ConfiguredService api) (om_Generation (mc_Meta m)))) w1 = (x, w')"
      by (simp add: mc_Reconcile_def gbind_def [of "attempt _"] attempt_def Let_def)
    with mc_loops(1,2) [OF assms(1) this] G [OF Inr] same show ?thesis by simp
  qed
qed

text \<open>
  C23: when the API answers every list and takes every update that is up to date, a reconciliation
  that returns without error leaves every ServiceAccessor, ServiceConfig and ConfiguredService of
  the cluster with the generation of the mesh configuration.
\<close>

theorem mc_Reconcile_propagates:
  assumes "api_ok api view" and "reliable_api api view" and "get_available (ap_MeshConfig api)"
    and "c_MeshConfig (view w) req = Some m" and "mc_Reconcile api req w = (x, w')"
  shows "x = Inr () \<and> stamped_cluster (om_Generation (mc_Meta m)) (view w')"
proof -
  obtain g w1 where get: "kGet (ap_MeshConfig api) req w = (g, w1)" by fastforce
  have "g = Inr m" by (rule get_available_stored [OF api_ok_mc [OF assms(1)] assms(3,4) get])
  with assms(5) get have "gbind (stamp_all sa_stamp (ap_ServiceAccessor api) (om_Generation (mc_Meta m))) (\<lambda>_.
           gbind (stamp_all sc_stamp (ap_ServiceConfig api) (om_Generation (mc_Meta m))) (\<lambda>_.
           stamp_all cs_stamp (ap_ConfiguredService api) (om_Generation (mc_Meta m)))) w1 = (x, w')"
    by (simp add: mc_Reconcile_def gbind_def [of "attempt _"] attempt_def Let_def)
  from mc_loops(1,3) [OF assms(1) this] assms(2) show ?thesis by simp
qed

text \<open>
  An object that somebody else has changed since it was listed is not stamped: the first update
  fails with a conflict, the object is read again without setting the generation anew, and the
  repeated update sends it as it was. The reconciliation reports success all the same.
\<close>

theorem mc_conflict_keeps_generation:
  assumes "api_ok api view" and "c_ServiceConfig (view w) (okey sc_kind item) = Some cur"
    and "om_ResourceVersion (sc_Meta item) \<noteq> 0"
    and "om_ResourceVersion (sc_Meta item) \<noteq> om_ResourceVersion (sc_Meta cur)"
    and "stamp_step sc_stamp (ap_ServiceConfig api) gen item w = (r, w')"
  shows "r = Inr () \<and> (\<exists>o1. c_ServiceConfig (view w') (okey sc_kind item) = Some o1 \<and>
    sc_MeshConfigGeneration (sc_Spec o1) = sc_MeshConfigGeneration (sc_Spec cur))"
  using sc_st.stale_step [OF api_ok_sc [OF assms(1), folded kube_ok_stamp] _ _ assms(5)] assms(2-4)
  by (simp add: stamp_as_kind) (simp add: sc_stamp_def sc_kind_def)

section \<open>A run\<close>

lemma reliable_stamp:
  "reliable sa_stamp c objs1 = reliable sa_kind c objs1"
  "reliable sc_stamp d objs2 = reliable sc_kind d objs2"
  "reliable cs_stamp e objs3 = reliable cs_kind e objs3"
  unfolding reliable_def stamp_as_kind by (rule refl)+

lemma mem_reliable_api: "reliable_api mem_api mem_view"
  by (simp add: reliable_api_def reliable_stamp mem_api_def mem_view_def mem_reliable)

definition stamp_world :: mem_world where
  "stamp_world = demo_world\<lparr>mw_MeshConfig := [demo_mesh\<lparr>mc_Meta := (mc_Meta demo_mesh)\<lparr>om_Generation := 7\<rparr>\<rparr>],
     mw_ServiceConfig := [demo_sc\<lparr>sc_Meta := (sc_Meta demo_sc)\<lparr>om_ResourceVersion := 3\<rparr>\<rparr>],
     mw_ServiceAccessor := [\<lparr>sa_Meta = new_meta ''shop'' ''mesh'' [],
       sa_Spec = \<lparr>sa_AccessHosts = [], sa_MeshConfigGeneration = 0\<rparr>\<rparr>]\<rparr>"

lemma stamp_world_mesh: "c_MeshConfig (mem_view stamp_world) (''sym-admin'', ''sym-meshconfig'') =
    Some (demo_mesh\<lparr>mc_Meta := (mc_Meta demo_mesh)\<lparr>om_Generation := 7\<rparr>\<rparr>)"
  by (simp add: mem_view_def mem_objs_def stamp_world_def okey_def mc_kind_def demo_defs new_meta_def)

lemma stamp_run: "mc_Reconcile mem_api (''sym-admin'', ''sym-meshconfig'') stamp_world =
    (Inr (), snd (mc_Reconcile mem_api (''sym-admin'', ''sym-meshconfig'') stamp_world))"
  by (rule run_pair) code_simp

theorem mc_Reconcile_stamps_witness:
  "mem_view (snd (mc_Reconcile mem_api (''sym-admin'', ''sym-meshconfig'') stamp_world)) = mem_view stamp_world \<or>
   stamps 7 (mem_view stamp_world)
     (mem_view (snd (mc_Reconcile mem_api (''sym-admin'', ''sym-meshconfig'') stamp_world)))"
  using mc_Reconcile_stamps [OF mem_api_ok stamp_run] unfolding stamp_world_mesh by (simp add: demo_mesh_def)

theorem mc_Reconcile_propagates_witness:
  "stamped_cluster 7 (mem_view (snd (mc_Reconcile mem_api (''sym-admin'', ''sym-meshconfig'') stamp_world)))"
  using mc_Reconcile_propagates [OF mem_api_ok mem_reliable_api _ stamp_world_mesh stamp_run]
  by (simp add: mem_api_def demo_mesh_def)

text \<open>The ServiceConfig was listed at version 2, and has version 3 when it is written.\<close>

theorem mc_conflict_keeps_generation_witness:
  "\<exists>o1. c_ServiceConfig (mem_view (snd (stamp_step sc_stamp (ap_ServiceConfig mem_api) 7
      (demo_sc\<lparr>sc_Meta := (sc_Meta demo_sc)\<lparr>om_ResourceVersion := 2\<rparr>\<rparr>) stamp_world))) (''mesh'', ''svc'') = Some o1 \<and>
    sc_MeshConfigGeneration (sc_Spec o1) = 0"
proof -
  let ?item = "demo_sc\<lparr>sc_Meta := (sc_Meta demo_sc)\<lparr>om_ResourceVersion := 2\<rparr>\<rparr>"
  have key: "okey sc_kind ?item = (''mesh'', ''svc'')" by code_simp
  have cur: "c_ServiceConfig (mem_view stamp_world) (okey sc_kind ?item) =
      Some (demo_sc\<lparr>sc_Meta := (sc_Meta demo_sc)\<lparr>om_ResourceVersion := 3\<rparr>\<rparr>)"
    by (simp add: mem_view_def mem_objs_def stamp_world_def okey_def sc_kind_def demo_defs new_meta_def)
  have run: "stamp_step sc_stamp (ap_ServiceConfig mem_api) 7 ?item stamp_world =
      (Inr (), snd (stamp_step sc_stamp (ap_ServiceConfig mem_api) 7 ?item stamp_world))"
    by (rule run_pair) code_simp
  show ?thesis
    using mc_conflict_keeps_generation [OF mem_api_ok cur _ _ run] unfolding key
    by (simp add: demo_sc_def)
qed

end
