(* ===== verification/SaController.thy ===== *)
theory SaController
  imports CsCorrect
begin

text \<open>
  \<^verbatim>\<open>controllers/serviceaccessor\<close>: the services an application may call, as the egress hosts of a
  sidecar in every namespace that has a pod of the application.
\<close>

section \<open>Operations\<close>

definition sa_buildHosts :: "Reconciler \<Rightarrow> string \<Rightarrow> string list \<Rightarrow> string list" where
  "sa_buildHosts r namespace accessHosts =
     (let defaults = mc_SidecarDefaultHosts (mc_Spec (rc_MeshConfig r)) in
      (if 0 < length defaults then defaults else []) @
      map (\<lambda>svc. namespace @ ''/'' @ FormatToDNS1123 svc) accessHosts)"

definition sa_buildEgress :: "Reconciler \<Rightarrow> ServiceAccessor \<Rightarrow> EgressListener list" where
  "sa_buildEgress r sa =
     [\<lparr>eg_Hosts = sa_buildHosts r (om_Namespace (sa_Meta sa)) (sa_AccessHosts (sa_Spec sa))\<rparr>]"

definition sa_buildSidecar :: "Reconciler \<Rightarrow> string \<Rightarrow> ServiceAccessor \<Rightarrow> Sidecar" where
  "sa_buildSidecar r namespace sa =
     \<lparr>sd_Meta = new_meta (om_Name (sa_Meta sa)) namespace [],
      sd_Spec = \<lparr>sd_WorkloadSelector =
          [(mc_SidecarSelectLabel (mc_Spec (rc_MeshConfig r)), om_Name (sa_Meta sa))],
        sd_Egress = sa_buildEgress r sa, sd_OutboundTrafficPolicy = ALLOW_ANY, sd_Other = []\<rparr>\<rparr>"

text \<open>As in the ConfiguredService controller, a created sidecar is followed by the error of the read.\<close>

definition sa_reconcileSidecar ::
  "'w api \<Rightarrow> Reconciler \<Rightarrow> string \<Rightarrow> ServiceAccessor \<Rightarrow> ('w, unit) call" where
  "sa_reconcileSidecar api r namespace sa =
     (let sidecar = sa_buildSidecar r namespace sa in
      gbind (attempt (kGet (ap_Sidecar api) (namespace, om_Name (sd_Meta sidecar)))) (\<lambda>res.
        case res of
          Inl err \<Rightarrow>
            if err = NotFound then
              gbind (attempt (kCreate (ap_Sidecar api) sidecar)) (\<lambda>created.
                case created of Inl createErr \<Rightarrow> gfail createErr | Inr _ \<Rightarrow> gfail err)
            else gfail err
        | Inr found \<Rightarrow>
            if compareSidecar sidecar found then update_found sd_kind (ap_Sidecar api) sidecar found
            else gret ()))"

definition sa_getAppNamespace :: "'w api \<Rightarrow> Reconciler \<Rightarrow> string \<Rightarrow> ('w, string list) call" where
  "sa_getAppNamespace api r appName =
     gbind (list_or_empty (ap_Pod api)
        (everywhere [(mc_SidecarSelectLabel (mc_Spec (rc_MeshConfig r)), appName)])) (\<lambda>pods.
       gret (if 0 < length pods then map (\<lambda>pod. om_Namespace (pod_Meta pod)) pods else []))"

text \<open>The accessors of the name of the request, in every namespace; the error of a sidecar is dropped.\<close>

definition sa_sidecar_step :: "'w api \<Rightarrow> Reconciler \<Rightarrow> ServiceAccessor \<Rightarrow> string \<Rightarrow> ('w, unit) call" where
  "sa_sidecar_step api r sa namespace =
     gbind (gcatch (sa_reconcileSidecar api r namespace sa)) (\<lambda>_. gret ())"

definition sa_accessor_step :: "'w api \<Rightarrow> Reconciler \<Rightarrow> ServiceAccessor \<Rightarrow> ('w, unit) call" where
  "sa_accessor_step api r sa =
     gbind (sa_getAppNamespace api r (om_Name (sa_Meta sa))) (\<lambda>namespaces.
       gforeach (sa_sidecar_step api r sa) namespaces)"

definition sa_Reconcile :: "'w api \<Rightarrow> nsname \<Rightarrow> ('w \<times> Reconciler, unit) call" where
  "sa_Reconcile api req =
     gbind (getMeshConfig api) (\<lambda>_.
     on_world (\<lambda>r.
       gbind (attempt (kList (ap_ServiceAccessor api)
           \<lparr>lo_Namespace = [], lo_MatchLabels = [], lo_MatchFields = [(''name'', snd req)]\<rparr>)) (\<lambda>res.
         case res of
           Inl err \<Rightarrow> if err = NotFound then gret () else gfail err
         | Inr items \<Rightarrow> gforeach (sa_accessor_step api r) items)))"

section \<open>One sidecar\<close>

text \<open>What a stored sidecar must satisfy: the comparison finds nothing to update.\<close>

definition grants :: "Reconciler \<Rightarrow> ServiceAccessor \<Rightarrow> nsname \<Rightarrow> Sidecar option \<Rightarrow> bool" where
  "grants r sa k v \<longleftrightarrow>
     (case v of None \<Rightarrow> False | Some sd \<Rightarrow> \<not> compareSidecar (sa_buildSidecar r (fst k) sa) sd)"

lemma sa_sidecar_key: "okey sd_kind (sa_buildSidecar r namespace sa) = (namespace, om_Name (sa_Meta sa))"
  by (simp add: okey_def sd_kind_def sa_buildSidecar_def)

lemma sd_compare: "k_Compare sd_kind = compareSidecar"
  by (simp add: sd_kind_def)

lemma sa_reconcileSidecar_cases:
  assumes ok: "api_ok api view" and run: "sa_reconcileSidecar api r namespace sa w = (x, w')"
  shows "view w' = (view w)\<lparr>c_Sidecar := c_Sidecar (view w')\<rparr>"
    and "k \<noteq> (namespace, om_Name (sa_Meta sa)) \<Longrightarrow> c_Sidecar (view w') k = c_Sidecar (view w) k"
    and "x = Inr u \<Longrightarrow> c_Sidecar (view w) (namespace, om_Name (sa_Meta sa)) \<noteq> None \<and>
           grants r sa (namespace, om_Name (sa_Meta sa)) (c_Sidecar (view w') (namespace, om_Name (sa_Meta sa)))"
    and "x \<noteq> Inl Panic"
    and "reliable sd_kind (ap_Sidecar api) (\<lambda>w. c_Sidecar (view w)) \<Longrightarrow>
           grants r sa (namespace, om_Name (sa_Meta sa)) (c_Sidecar (view w') (namespace, om_Name (sa_Meta sa)))"
proof -
  define key where "key = (namespace, om_Name (sa_Meta sa))"
  define sd where "sd = sa_buildSidecar r namespace sa"
  have sdkey: "okey sd_kind sd = key" by (simp add: sd_def key_def sa_sidecar_key)
  have sdname: "om_Name (sd_Meta sd) = om_Name (sa_Meta sa)" by (simp add: sd_def sa_buildSidecar_def)
  have self: "\<not> compareSidecar sd sd" using sd.compare_self [of sd] by (simp add: sd_compare)
  note law = api_ok_sd [OF ok]
  obtain g w1 where get: "kGet (ap_Sidecar api) key w = (g, w1)" by fastforce
  have v1: "view w1 = view w" using get_keeps_view(10) [OF ok get] .
  note G = kube_ok_getD(3,4) [OF law get]
  have all: "view w' = (view w)\<lparr>c_Sidecar := c_Sidecar (view w')\<rparr> \<and>
    (\<forall>k. k \<noteq> key \<longrightarrow> c_Sidecar (view w') k = c_Sidecar (view w) k) \<and>
    (x = Inr () \<longrightarrow> c_Sidecar (view w) key \<noteq> None \<and> grants r sa key (c_Sidecar (view w') key)) \<and>
    x \<noteq> Inl Panic \<and>
    (reliable sd_kind (ap_Sidecar api) (\<lambda>w. c_Sidecar (view w)) \<longrightarrow> grants r sa key (c_Sidecar (view w') key))"
  proof (cases g)
    case (Inl err)
    show ?thesis
    proof (cases "err = NotFound")
      case False
      with run get Inl have "x = Inl (Fail err)" "w' = w1"
        by (simp_all add: sa_reconcileSidecar_def Let_def gbind_def attempt_def gfail_def sd_def [symmetric]
            sdname key_def)
      moreover have "\<not> reliable sd_kind (ap_Sidecar api) (\<lambda>w. c_Sidecar (view w))"
        using False get Inl unfolding reliable_def get_available_def by (metis fst_conv)
      ultimately show ?thesis using v1 by simp
    next
      case True
      obtain r2 w2 where cr: "kCreate (ap_Sidecar api) sd w1 = (r2, w2)" by fastforce
      note C = kube_ok_createD [OF law cr, unfolded sdkey only_changed]
      have x: "w' = w2" "x = (case r2 of Inl e \<Rightarrow> Inl (Fail e) | Inr _ \<Rightarrow> Inl (Fail NotFound))"
        using run get Inl True cr
        by (auto simp: sa_reconcileSidecar_def Let_def gbind_def attempt_def gfail_def sd_def [symmetric]
            sdname key_def split: sum.splits)
      show ?thesis
      proof (cases r2)
        case (Inl e)
        have "\<not> reliable sd_kind (ap_Sidecar api) (\<lambda>w. c_Sidecar (view w))"
          using G(2) True \<open>g = Inl err\<close> cr Inl sdkey v1 unfolding reliable_def
          by (metis Inl_Inr_False prod.inject)
        with C(1,2) Inl x v1 show ?thesis by simp
      next
        case (Inr o')
        have "\<not> compareSidecar sd o'"
          using C(4) [OF Inr] self sd.compare_same [of o' sd sd] by (simp add: sd_compare)
        with C(1) C(4) [OF Inr] Inr x v1 show ?thesis by (simp add: grants_def sd_def key_def)
      qed
    qed
  next
    case (Inr found)
    have fkey: "okey sd_kind found = key" using kube_ok_key [OF law] G(1) [OF Inr] by simp
    show ?thesis
    proof (cases "compareSidecar sd found")
      case False
      with run get Inr have "x = Inr ()" "w' = w1"
        by (simp_all add: sa_reconcileSidecar_def Let_def gbind_def attempt_def gret_def sd_def [symmetric]
            sdname key_def)
      with v1 G(1) [OF Inr] False show ?thesis by (simp add: grants_def sd_def key_def)
    next
      case True
      with run get Inr have up: "update_found sd_kind (ap_Sidecar api) sd found w1 = (x, w')"
        by (simp add: sa_reconcileSidecar_def Let_def gbind_def attempt_def sd_def [symmetric]
            sdname key_def)
      note U = sd.update_found_cases [OF law up, unfolded fkey only_changed sd_compare]
      have np: "x \<noteq> Inl Panic" using up by (auto simp: update_found_def split: prod.splits sum.splits)
      have good: "\<exists>u. x = Inr u" if rel: "reliable sd_kind (ap_Sidecar api) (\<lambda>w. c_Sidecar (view w))"
        using sd.update_found_reliable [OF law rel _ up] G(1) [OF Inr] v1 fkey by simp
      have frame: "view w' = (view w)\<lparr>c_Sidecar := c_Sidecar (view w')\<rparr>" using U(1) v1 by simp
      show ?thesis
      proof (cases x)
        case (Inl e)
        with good have "\<not> reliable sd_kind (ap_Sidecar api) (\<lambda>w. c_Sidecar (view w))" by auto
        with U(2) [OF Inl] v1 np Inl show ?thesis by (intro conjI frame) simp_all
      next
        case (Inr u)
        from U(3) [OF Inr] v1 obtain o1 where c: "c_Sidecar (view w') = (c_Sidecar (view w))(key \<mapsto> o1)"
          and fit: "\<not> compareSidecar sd o1" by auto
        have "grants r sa key (Some o1)" using fit by (simp add: grants_def sd_def key_def)
        then have g1: "grants r sa key (c_Sidecar (view w') key)" unfolding c by simp
        have g2: "\<forall>k. k \<noteq> key \<longrightarrow> c_Sidecar (view w') k = c_Sidecar (view w) k" unfolding c by simp
        have g3: "c_Sidecar (view w) key \<noteq> None" using G(1) [OF \<open>g = Inr found\<close>] by simp
        show ?thesis by (intro conjI impI frame g1 g2 g3 np)
      qed
    qed
  qed
  from all show "view w' = (view w)\<lparr>c_Sidecar := c_Sidecar (view w')\<rparr>" by (elim conjE)
  from all have "\<forall>k. k \<noteq> key \<longrightarrow> c_Sidecar (view w') k = c_Sidecar (view w) k" by (elim conjE)
  then show "k \<noteq> (namespace, om_Name (sa_Meta sa)) \<Longrightarrow> c_Sidecar (view w') k = c_Sidecar (view w) k"
    unfolding key_def by (elim allE impE)
  from all have "x = Inr () \<longrightarrow> c_Sidecar (view w) key \<noteq> None \<and> grants r sa key (c_Sidecar (view w') key)"
    by (elim conjE)
  then show "x = Inr u \<Longrightarrow> c_Sidecar (view w) (namespace, om_Name (sa_Meta sa)) \<noteq> None \<and>
       grants r sa (namespace, om_Name (sa_Meta sa)) (c_Sidecar (view w') (namespace, om_Name (sa_Meta sa)))"
    unfolding key_def by simp
  from all show "x \<noteq> Inl Panic" by (elim conjE)
  from all have "reliable sd_kind (ap_Sidecar api) (\<lambda>w. c_Sidecar (view w)) \<longrightarrow>
      grants r sa key (c_Sidecar (view w') key)" by (elim conjE)
  then show "reliable sd_kind (ap_Sidecar api) (\<lambda>w. c_Sidecar (view w)) \<Longrightarrow>
       grants r sa (namespace, om_Name (sa_Meta sa)) (c_Sidecar (view w') (namespace, om_Name (sa_Meta sa)))"
    unfolding key_def by (rule mp)
qed

section \<open>All sidecars of an application\<close>

lemma sa_sidecar_step_cases:
  assumes ok: "api_ok api view" and run: "sa_sidecar_step api r sa namespace w = (x, w')"
  shows "x = Inr ()" and "view w' = (view w)\<lparr>c_Sidecar := c_Sidecar (view w')\<rparr>"
    and "k \<noteq> (namespace, om_Name (sa_Meta sa)) \<Longrightarrow> c_Sidecar (view w') k = c_Sidecar (view w) k"
    and "reliable sd_kind (ap_Sidecar api) (\<lambda>w. c_Sidecar (view w)) \<Longrightarrow>
           grants r sa (namespace, om_Name (sa_Meta sa)) (c_Sidecar (view w') (namespace, om_Name (sa_Meta sa)))"
proof -
  obtain y w1 where one: "sa_reconcileSidecar api r namespace sa w = (y, w1)" by fastforce
  note C = sa_reconcileSidecar_cases [OF ok one]
  have "x = Inr () \<and> w' = w1"
    using run one C(4) unfolding sa_sidecar_step_def gbind_def gcatch_def gret_def
    by (cases y) (auto split: abort.splits)
  then show "x = Inr ()" and "view w' = (view w)\<lparr>c_Sidecar := c_Sidecar (view w')\<rparr>"
    and "k \<noteq> (namespace, om_Name (sa_Meta sa)) \<Longrightarrow> c_Sidecar (view w') k = c_Sidecar (view w) k"
    and "reliable sd_kind (ap_Sidecar api) (\<lambda>w. c_Sidecar (view w)) \<Longrightarrow>
           grants r sa (namespace, om_Name (sa_Meta sa)) (c_Sidecar (view w') (namespace, om_Name (sa_Meta sa)))"
    using C(1,2,5) by blast+
qed

text \<open>The loop over the namespaces; a namespace may occur more than once.\<close>

lemma sa_namespaces_loop:
  assumes ok: "api_ok api view" and run: "gforeach (sa_sidecar_step api r sa) namespaces w = (x, w')"
  shows "x = Inr () \<and> view w' = (view w)\<lparr>c_Sidecar := c_Sidecar (view w')\<rparr> \<and>
    (\<forall>k. k \<notin> (\<lambda>ns. (ns, om_Name (sa_Meta sa))) ` set namespaces \<longrightarrow>
       c_Sidecar (view w') k = c_Sidecar (view w) k) \<and>
    (reliable sd_kind (ap_Sidecar api) (\<lambda>w. c_Sidecar (view w)) \<longrightarrow>
       (\<forall>ns \<in> set namespaces. grants r sa (ns, om_Name (sa_Meta sa))
          (c_Sidecar (view w') (ns, om_Name (sa_Meta sa)))))"
  using run
proof (induction namespaces arbitrary: w)
  case Nil
  then show ?case by simp
next
  case (Cons ns namespaces)
  obtain y w1 where step: "sa_sidecar_step api r sa ns w = (y, w1)" by fastforce
  note S = sa_sidecar_step_cases [OF ok step]
  from Cons.prems step S(1) have tl: "gforeach (sa_sidecar_step api r sa) namespaces w1 = (x, w')" by simp
  note I = Cons.IH [OF tl]
  define name where "name = om_Name (sa_Meta sa)"
  from I have I1: "x = Inr ()" by (elim conjE)
  from I have I2: "view w' = (view w1)\<lparr>c_Sidecar := c_Sidecar (view w')\<rparr>" by (elim conjE)
  from I have I3: "\<forall>k. k \<notin> (\<lambda>ns. (ns, name)) ` set namespaces \<longrightarrow>
      c_Sidecar (view w') k = c_Sidecar (view w1) k" unfolding name_def by (elim conjE)
  from I have I4: "reliable sd_kind (ap_Sidecar api) (\<lambda>w. c_Sidecar (view w)) \<longrightarrow>
       (\<forall>ns \<in> set namespaces. grants r sa (ns, name) (c_Sidecar (view w') (ns, name)))"
    unfolding name_def by (elim conjE)
  have frame: "view w' = (view w)\<lparr>c_Sidecar := c_Sidecar (view w')\<rparr>"
    by (rule only_changed_trans(10) [OF I2 S(2)])
  have others: "\<forall>k. k \<notin> (\<lambda>ns. (ns, name)) ` set (ns # namespaces) \<longrightarrow>
      c_Sidecar (view w') k = c_Sidecar (view w) k"
  proof (intro allI impI)
    fix k
    assume k: "k \<notin> (\<lambda>ns. (ns, name)) ` set (ns # namespaces)"
    then have "k \<noteq> (ns, name)" and "k \<notin> (\<lambda>ns. (ns, name)) ` set namespaces" by auto
    with I3 S(3) [folded name_def] show "c_Sidecar (view w') k = c_Sidecar (view w) k" by metis
  qed
  have ok1: "\<forall>n \<in> set (ns # namespaces). grants r sa (n, name) (c_Sidecar (view w') (n, name))"
    if rel: "reliable sd_kind (ap_Sidecar api) (\<lambda>w. c_Sidecar (view w))"
  proof
    fix n
    assume n: "n \<in> set (ns # namespaces)"
    show "grants r sa (n, name) (c_Sidecar (view w') (n, name))"
    proof (cases "n \<in> set namespaces")
      case True
      then show ?thesis using I4 rel by blast
    next
      case False
      with n have "n = ns" by simp
      from False have "(n, name) \<notin> (\<lambda>ns. (ns, name)) ` set namespaces" by auto
      then have "c_Sidecar (view w') (n, name) = c_Sidecar (view w1) (n, name)"
        by (rule I3 [rule_format])
      with S(4) [OF rel] \<open>n = ns\<close> show ?thesis by (simp add: name_def)
    qed
  qed
  show ?case
    by (intro conjI impI I1 frame others [unfolded name_def] ok1 [unfolded name_def])
qed

text \<open>The namespaces with a pod of an application.\<close>

definition app_namespaces :: "Reconciler \<Rightarrow> cluster \<Rightarrow> string \<Rightarrow> string set" where
  "app_namespaces r C app = {ns. \<exists>name pod. c_Pod C (ns, name) = Some pod \<and>
     map_of (om_Labels (pod_Meta pod)) (mc_SidecarSelectLabel (mc_Spec (rc_MeshConfig r))) = Some app}"

lemma sa_getAppNamespace_cases:
  assumes ok: "api_ok api view" and run: "sa_getAppNamespace api r app w = (x, w')"
  shows "\<exists>namespaces. x = Inr namespaces \<and> view w' = view w \<and>
    set namespaces \<subseteq> app_namespaces r (view w) app \<and>
    (reliable pod_kind (ap_Pod api) (\<lambda>w. c_Pod (view w)) \<longrightarrow> app_namespaces r (view w) app \<subseteq> set namespaces)"
proof -
  let ?lo = "everywhere [(mc_SidecarSelectLabel (mc_Spec (rc_MeshConfig r)), app)]"
  obtain l w1 where list: "kList (ap_Pod api) ?lo w = (l, w1)" by fastforce
  note L = kube_ok_listD [OF api_ok_pod [OF ok] list]
  have v: "view w1 = view w" using list_keeps_view(11) [OF ok list] .
  define pods where "pods = (case l of Inl _ \<Rightarrow> [] | Inr items \<Rightarrow> items)"
  have x: "x = Inr (map (\<lambda>pod. om_Namespace (pod_Meta pod)) pods)" "w' = w1"
    using run list by (auto simp: sa_getAppNamespace_def list_or_empty_def gbind_def attempt_def gret_def pods_def)
  have sel: "selects ?lo (k_Meta pod_kind p) \<longleftrightarrow>
      map_of (om_Labels (pod_Meta p)) (mc_SidecarSelectLabel (mc_Spec (rc_MeshConfig r))) = Some app" for p
    by (simp add: selects_def everywhere_def pod_kind_def)
  have key: "okey pod_kind p = (om_Namespace (pod_Meta p), om_Name (pod_Meta p))" for p
    by (simp add: okey_def pod_kind_def)
  have "om_Namespace (pod_Meta p) \<in> app_namespaces r (view w) app" if "p \<in> set pods" for p
  proof (cases l)
    case (Inr xs)
    with that L(4) [OF Inr, of p] sel key show ?thesis by (auto simp: pods_def app_namespaces_def)
  qed (use that in \<open>simp add: pods_def\<close>)
  moreover have "app_namespaces r (view w) app \<subseteq> (\<lambda>pod. om_Namespace (pod_Meta pod)) ` set pods"
    if rel: "reliable pod_kind (ap_Pod api) (\<lambda>w. c_Pod (view w))"
  proof
    fix ns
    assume "ns \<in> app_namespaces r (view w) app"
    then obtain name p where p: "c_Pod (view w) (ns, name) = Some p"
      "map_of (om_Labels (pod_Meta p)) (mc_SidecarSelectLabel (mc_Spec (rc_MeshConfig r))) = Some app"
      unfolding app_namespaces_def by blast
    obtain xs where l: "l = Inr xs" using rel list unfolding reliable_def by (metis prod.inject)
    have k: "okey pod_kind p = (ns, name)" by (rule kube_ok_key [OF api_ok_pod [OF ok] p(1)])
    then have "p \<in> set pods" using L(4) [OF l, of p] sel p by (simp add: pods_def l)
    with k key show "ns \<in> (\<lambda>pod. om_Namespace (pod_Meta pod)) ` set pods" by force
  qed
  ultimately show ?thesis using x v by auto
qed

lemma distinct_set_singleton:
  assumes "set xs = {x}" and "distinct xs"
  shows "xs = [x]"
proof (cases xs)
  case (Cons a ys)
  with assms have "a = x" and "set ys \<subseteq> {x}" and "x \<notin> set ys" by auto
  then have "ys = []" by (cases ys) auto
  with Cons \<open>a = x\<close> show ?thesis by simp
qed (use assms in simp)

definition only_accessor :: "cluster \<Rightarrow> string \<Rightarrow> ServiceAccessor \<Rightarrow> bool" where
  "only_accessor C name sa \<longleftrightarrow>
     (\<exists>ns. c_ServiceAccessor C (ns, name) = Some sa) \<and>
     (\<forall>ns s. c_ServiceAccessor C (ns, name) = Some s \<longrightarrow> s = sa)"

definition sa_reliable :: "'w api \<Rightarrow> ('w \<Rightarrow> cluster) \<Rightarrow> bool" where
  "sa_reliable api view \<longleftrightarrow>
     reliable mc_kind (ap_MeshConfig api) (\<lambda>w. c_MeshConfig (view w)) \<and>
     reliable sa_kind (ap_ServiceAccessor api) (\<lambda>w. c_ServiceAccessor (view w)) \<and>
     reliable pod_kind (ap_Pod api) (\<lambda>w. c_Pod (view w)) \<and>
     reliable sd_kind (ap_Sidecar api) (\<lambda>w. c_Sidecar (view w))"

text \<open>Every sidecar of the application is there and grants what the accessor says; others are as before.\<close>

definition sa_granted :: "Reconciler \<Rightarrow> ServiceAccessor \<Rightarrow> cluster \<Rightarrow> cluster \<Rightarrow> bool" where
  "sa_granted r sa C C' \<longleftrightarrow>
     (let name = om_Name (sa_Meta sa) in
      (\<forall>ns \<in> app_namespaces r C name. grants r sa (ns, name) (c_Sidecar C' (ns, name))) \<and>
      (\<forall>k. k \<notin> (\<lambda>ns. (ns, name)) ` app_namespaces r C name \<longrightarrow> c_Sidecar C' k = c_Sidecar C k) \<and>
      C' = C\<lparr>c_Sidecar := c_Sidecar C'\<rparr>)"

lemma sa_accessor_step_cases:
  assumes ok: "api_ok api view" and rel: "sa_reliable api view"
    and run: "sa_accessor_step api r sa w = (x, w')"
  shows "x = Inr () \<and> sa_granted r sa (view w) (view w')"
proof -
  obtain y w1 where ns: "sa_getAppNamespace api r (om_Name (sa_Meta sa)) w = (y, w1)" by fastforce
  from sa_getAppNamespace_cases [OF ok ns] rel obtain namespaces where y: "y = Inr namespaces"
    and v: "view w1 = view w" and set: "set namespaces = app_namespaces r (view w) (om_Name (sa_Meta sa))"
    unfolding sa_reliable_def by blast
  have "gforeach (sa_sidecar_step api r sa) namespaces w1 = (x, w')"
    using run ns y by (simp add: sa_accessor_step_def gbind_def)
  note I = sa_namespaces_loop [OF ok this, unfolded v set]
  have "reliable sd_kind (ap_Sidecar api) (\<lambda>w. c_Sidecar (view w))" using rel by (simp add: sa_reliable_def)
  with I show ?thesis unfolding sa_granted_def Let_def by blast
qed

text \<open>
  C21: when the API answers and takes what is up to date, the reconciliation of the only ServiceAccessor of
  its name ends without error and leaves, in every namespace with a pod of the application, a
  sidecar that lets it reach exactly the hosts of the accessor and the mesh's defaults, whether or
  not there was one before; no other sidecar and nothing else in the cluster changes.
\<close>

theorem sa_Reconcile_grants:
  assumes "api_ok api view" and "sa_reliable api view" and "only_accessor (view w) (snd req) sa"
    and "c_MeshConfig (view w) (op_MeshConfigNamespace (rc_Opt r), op_MeshConfigName (rc_Opt r)) = Some m"
    and "sa_Reconcile api req (w, r) = (x, (w', r'))"
  shows "x = Inr () \<and> rc_MeshConfig r' = m \<and> sa_granted r' sa (view w) (view w')"
proof -
  note ok = assms(1)
  have rel: "get_available (ap_MeshConfig api)"
    using assms(2) by (simp add: sa_reliable_def reliable_def)
  obtain y w1 r1 where get: "getMeshConfig api (w, r) = (y, (w1, r1))"
    by (cases "getMeshConfig api (w, r)") auto
  note M = getMeshConfig_view [OF ok get]
  have y: "y = Inr ()"
  proof -
    obtain g w2 where k: "kGet (ap_MeshConfig api) (op_MeshConfigNamespace (rc_Opt r), op_MeshConfigName (rc_Opt r)) w
        = (g, w2)" by fastforce
    with get_available_stored [OF api_ok_mc [OF ok] rel assms(4) k] get show ?thesis
      by (simp add: getMeshConfig_def)
  qed
  have m: "rc_MeshConfig r1 = m" using M(3) [OF y] assms(4) by simp
  define lo where "lo = \<lparr>lo_Namespace = [], lo_MatchLabels = [], lo_MatchFields = [(''name'', snd req)]\<rparr>"
  obtain l w2 where list: "kList (ap_ServiceAccessor api) lo w1 = (l, w2)" by fastforce
  note L = kube_ok_listD [OF api_ok_sa [OF ok] list]
  have v2: "view w2 = view w" using list_keeps_view(4) [OF ok list] M(1) by simp
  obtain items where l: "l = Inr items"
    using assms(2) list unfolding sa_reliable_def reliable_def by (metis prod.inject)
  have "set items = {sa}"
  proof -
    have mem: "s \<in> set items \<longleftrightarrow> c_ServiceAccessor (view w) (om_Namespace (sa_Meta s), om_Name (sa_Meta s)) = Some s \<and>
        om_Name (sa_Meta s) = snd req" for s
      using L(4) [OF l, of s] M(1) by (simp add: okey_def sa_kind_def selects_def lo_def)
    obtain ns where sa: "c_ServiceAccessor (view w) (ns, snd req) = Some sa"
      using assms(3) unfolding only_accessor_def by blast
    have "om_Namespace (sa_Meta sa) = ns \<and> om_Name (sa_Meta sa) = snd req"
      using kube_ok_key [OF api_ok_sa [OF ok] sa] by (simp add: okey_def sa_kind_def)
    with sa have "sa \<in> set items" using mem by simp
    moreover have "s = sa" if "s \<in> set items" for s
    proof -
      have "c_ServiceAccessor (view w) (om_Namespace (sa_Meta s), snd req) = Some s"
        using that mem [of s] by metis
      then show ?thesis using assms(3) unfolding only_accessor_def by blast
    qed
    ultimately show ?thesis by blast
  qed
  moreover have "distinct items" using L(3) [OF l] by (simp add: distinct_map)
  ultimately have items: "items = [sa]"
    by (rule distinct_set_singleton)
  obtain z w3 where step: "sa_accessor_step api r1 sa w2 = (z, w3)" by fastforce
  note S = sa_accessor_step_cases [OF ok assms(2) step, unfolded v2]
  have "x = z" "w' = w3" "r' = r1"
    using assms(5) get y list l items step S
    by (auto simp: sa_Reconcile_def gbind_def on_world_def attempt_def lo_def)
  with S m show ?thesis by simp
qed

section \<open>A run\<close>

text \<open>An application with two pods in one namespace and one accessor.\<close>

definition demo_sa :: ServiceAccessor where
  "demo_sa = \<lparr>sa_Meta = new_meta ''shop'' ''mesh'' [],
     sa_Spec = \<lparr>sa_AccessHosts = [''Order_Service''], sa_MeshConfigGeneration = 0\<rparr>\<rparr>"

definition sa_world :: mem_world where
  "sa_world = demo_world\<lparr>mw_ServiceAccessor := [demo_sa],
     mw_Pod := [\<lparr>pod_Meta = new_meta ''shop-1'' ''apps'' [(''app'', ''shop'')]\<rparr>,
                \<lparr>pod_Meta = new_meta ''shop-2'' ''apps'' [(''app'', ''shop'')]\<rparr>]\<rparr>"

lemma sa_world_view:
  "c_MeshConfig (mem_view sa_world) (op_MeshConfigNamespace (rc_Opt demo_rc), op_MeshConfigName (rc_Opt demo_rc))
     = Some demo_mesh"
  "only_accessor (mem_view sa_world) ''shop'' demo_sa"
  by (auto simp: only_accessor_def mem_view_def mem_objs_def sa_world_def demo_world_def empty_world_def okey_def
      plain_kind_defs demo_defs demo_sa_def new_meta_def)

lemma mem_sa_reliable: "sa_reliable mem_api mem_view"
  by (simp add: sa_reliable_def mem_api_def mem_view_def mem_reliable)

definition sa_run where
  "sa_run = sa_Reconcile mem_api (''mesh'', ''shop'') (sa_world, demo_rc)"

lemma sa_run_ok: "sa_Reconcile mem_api (''mesh'', ''shop'') (sa_world, demo_rc) =
    (fst sa_run, (fst (snd sa_run), snd (snd sa_run)))"
  by (simp add: sa_run_def)

theorem sa_Reconcile_grants_witness:
  "fst sa_run = Inr () \<and> sa_granted (snd (snd sa_run)) demo_sa (mem_view sa_world) (mem_view (fst (snd sa_run)))"
  using sa_Reconcile_grants [OF mem_api_ok mem_sa_reliable _ sa_world_view(1) sa_run_ok] sa_world_view(2)
  by simp

end
