(* ===== verification/AmcController.thy ===== *)
theory AmcController
  imports StatusSync CsController
begin

text \<open>
  \<^verbatim>\<open>controllers/appmeshconfig\<close>: the status of an AppMeshConfig, counted over the services it lists. It
  writes nothing but that status.
\<close>

section \<open>Operations\<close>

definition amc_options :: "Reconciler \<Rightarrow> AppMeshConfig \<Rightarrow> Service \<Rightarrow> list_options" where
  "amc_options r cr svc = \<lparr>lo_Namespace = om_Namespace (amc_Meta cr),
     lo_MatchLabels = [(op_SelectLabel (rc_Opt r), sv_OriginalName svc)], lo_MatchFields = []\<rparr>"

text \<open>The count is nil until the first list succeeds, and nil as soon as one fails.\<close>

fun amc_count_loop ::
  "('w, 'o) kclient \<Rightarrow> (Service \<Rightarrow> list_options) \<Rightarrow> Service list \<Rightarrow> int option \<Rightarrow> ('w, int option) call" where
  "amc_count_loop c opts [] count = gret count"
| "amc_count_loop c opts (svc # svcs) count =
     gbind (attempt (kList c (opts svc))) (\<lambda>res.
       case res of
         Inl _ \<Rightarrow> gret None
       | Inr items \<Rightarrow> amc_count_loop c opts svcs
           (Some ((case count of None \<Rightarrow> 0 | Some n \<Rightarrow> n) + int (length items))))"

definition amc_count :: "Reconciler \<Rightarrow> AppMeshConfig \<Rightarrow> ('w, 'o) kclient \<Rightarrow> ('w, int option) call" where
  "amc_count r cr c = amc_count_loop c (amc_options r cr) (amc_Services cr) None"

definition amc_getServiceEntryStatus :: "'w api \<Rightarrow> Reconciler \<Rightarrow> AppMeshConfig \<Rightarrow> ('w, SubStatus) call" where
  "amc_getServiceEntryStatus api r cr =
     (let svcCount = int (length (amc_Services cr)) in
      gbind (amc_count r cr (ap_ServiceEntry api)) (\<lambda>count. gret (sub_status svcCount count)))"

definition amc_getWorkloadEntryStatus :: "'w api \<Rightarrow> Reconciler \<Rightarrow> AppMeshConfig \<Rightarrow> ('w, SubStatus) call" where
  "amc_getWorkloadEntryStatus api r cr =
     (let insCount = fold (\<lambda>svc insCount. insCount + int (length (sv_Instances svc))) (amc_Services cr) 0 in
      gbind (amc_count r cr (ap_WorkloadEntry api)) (\<lambda>count. gret (sub_status insCount count)))"

text \<open>Skipped when the first service has no subsets.\<close>

definition amc_no_subsets :: "AppMeshConfig \<Rightarrow> bool" where
  "amc_no_subsets cr \<longleftrightarrow>
     length (amc_Services cr) = 0 \<or> length (sv_Subsets (hd (amc_Services cr))) = 0"

definition amc_getVirtualServiceStatus :: "'w api \<Rightarrow> Reconciler \<Rightarrow> AppMeshConfig \<Rightarrow> ('w, SubStatus) call" where
  "amc_getVirtualServiceStatus api r cr =
     (let svcCount = int (length (amc_Services cr)) in
      if amc_no_subsets cr then gret zero_status
      else gbind (amc_count r cr (ap_VirtualService api)) (\<lambda>count. gret (sub_status svcCount count)))"

definition amc_getDestinationRuleStatus :: "'w api \<Rightarrow> Reconciler \<Rightarrow> AppMeshConfig \<Rightarrow> ('w, SubStatus) call" where
  "amc_getDestinationRuleStatus api r cr =
     (let svcCount = int (length (amc_Services cr)) in
      if amc_no_subsets cr then gret zero_status
      else gbind (amc_count r cr (ap_DestinationRule api)) (\<lambda>count. gret (sub_status svcCount count)))"

definition amc_buildStatus :: "'w api \<Rightarrow> Reconciler \<Rightarrow> AppMeshConfig \<Rightarrow> ('w, ServiceConfigStatus) call" where
  "amc_buildStatus api r cr =
     gbind (amc_getServiceEntryStatus api r cr) (\<lambda>serviceEntry.
     gbind (amc_getWorkloadEntryStatus api r cr) (\<lambda>workloadEntry.
     gbind (amc_getVirtualServiceStatus api r cr) (\<lambda>virtualService.
     gbind (amc_getDestinationRuleStatus api r cr) (\<lambda>destinationRule.
     let status = \<lparr>st_ServiceEntry = serviceEntry, st_WorkloadEntry = workloadEntry,
                   st_VirtualService = virtualService, st_DestinationRule = destinationRule\<rparr> in
     gbind (orPanic (calcPhase status)) (\<lambda>phase.
     gret \<lparr>scs_LastUpdateTime = None, scs_Phase = phase, scs_Status = Some status\<rparr>)))))"

definition amc_updateStatus :: "'w api \<Rightarrow> Reconciler \<Rightarrow> nsname \<Rightarrow> AppMeshConfig \<Rightarrow> ('w, unit) call" where
  "amc_updateStatus api r req cr =
     gbind (amc_buildStatus api r cr) (\<lambda>status.
       update_status amc_status (ap_Now api) (ap_AppMeshConfig api) req status cr)"

definition amc_Reconcile :: "'w api \<Rightarrow> nsname \<Rightarrow> ('w \<times> Reconciler, unit) call" where
  "amc_Reconcile api req =
     gbind (getMeshConfig api) (\<lambda>_.
     gbind (on_world (\<lambda>r. attempt (kGet (ap_AppMeshConfig api) req))) (\<lambda>res.
       case res of
         Inl err \<Rightarrow> if err = NotFound then gret () else gfail err
       | Inr instance1 \<Rightarrow> on_world (\<lambda>r. amc_updateStatus api r req instance1)))"

section \<open>Counting\<close>

text \<open>What the count of a kind is, when the lists succeed: objects of two services with the same name count twice.\<close>

lemma amc_count_loop_spec:
  assumes ok: "kube_ok K c objs rest" and rel: "reliable K c objs"
  shows "amc_count_loop c opts svcs count w = (x, w') \<Longrightarrow>
    objs w' = objs w \<and> rest w' = rest w \<and>
    x = Inr (if svcs = [] then count
             else Some ((case count of None \<Rightarrow> 0 | Some n \<Rightarrow> n) +
               (\<Sum>svc\<leftarrow>svcs. int (matching K (objs w) (opts svc)))))"
proof (induction svcs arbitrary: count w)
  case Nil
  then show ?case by (simp add: gret_def)
next
  case (Cons svc svcs)
  obtain l w1 where list: "kList c (opts svc) w = (l, w1)" by fastforce
  obtain items where l: "l = Inr items" using rel list unfolding reliable_def by (metis prod.inject)
  have run1: "count_list c (opts svc) w = (Inr (Some (int (length items))), w1)"
    using list l by (simp add: count_list_def gbind_def attempt_def gret_def)
  note L = count_list_spec [OF ok run1]
  then have n: "int (length items) = int (matching K (objs w) (opts svc))"
    by auto
  have "amc_count_loop c opts svcs (Some ((case count of None \<Rightarrow> 0 | Some n \<Rightarrow> n) + int (length items))) w1 = (x, w')"
    using Cons.prems list l by (simp add: gbind_def attempt_def)
  from Cons.IH [OF this] L(1,2) n show ?case by simp
qed

definition amc_found :: "('o, 'z) kind_scheme \<Rightarrow> Reconciler \<Rightarrow> AppMeshConfig \<Rightarrow> (nsname \<Rightarrow> 'o option) \<Rightarrow> int option" where
  "amc_found K r cr M =
     (if amc_Services cr = [] then None
      else Some (\<Sum>svc\<leftarrow>amc_Services cr. int (matching K M (amc_options r cr svc))))"

lemma amc_count_spec:
  assumes "kube_ok K c objs rest" and "reliable K c objs" and "amc_count r cr c w = (x, w')"
  shows "objs w' = objs w" and "rest w' = rest w" and "x = Inr (amc_found K r cr (objs w))"
  using amc_count_loop_spec [OF assms(1,2) assms(3) [unfolded amc_count_def]] by (simp_all add: amc_found_def)

text \<open>The status an AppMeshConfig should have, read off the cluster.\<close>

definition amc_expected :: "Reconciler \<Rightarrow> cluster \<Rightarrow> AppMeshConfig \<Rightarrow> Status" where
  "amc_expected r C cr =
     (let svcCount = int (length (amc_Services cr)) in
      \<lparr>st_ServiceEntry = sub_status svcCount (amc_found se_kind r cr (c_ServiceEntry C)),
       st_WorkloadEntry = sub_status (\<Sum>svc\<leftarrow>amc_Services cr. int (length (sv_Instances svc)))
         (amc_found we_kind r cr (c_WorkloadEntry C)),
       st_VirtualService = (if amc_no_subsets cr then zero_status
         else sub_status svcCount (amc_found vs_kind r cr (c_VirtualService C))),
       st_DestinationRule = (if amc_no_subsets cr then zero_status
         else sub_status svcCount (amc_found dr_kind r cr (c_DestinationRule C)))\<rparr>)"

lemma fold_instances: "fold (\<lambda>svc n. n + int (length (sv_Instances svc))) svcs n =
    n + (\<Sum>svc\<leftarrow>svcs. int (length (sv_Instances svc)))"
  by (induction svcs arbitrary: n) simp_all

definition counts_reliable :: "'w api \<Rightarrow> ('w \<Rightarrow> cluster) \<Rightarrow> bool" where
  "counts_reliable api view \<longleftrightarrow>
     reliable se_kind (ap_ServiceEntry api) (\<lambda>w. c_ServiceEntry (view w)) \<and>
     reliable we_kind (ap_WorkloadEntry api) (\<lambda>w. c_WorkloadEntry (view w)) \<and>
     reliable vs_kind (ap_VirtualService api) (\<lambda>w. c_VirtualService (view w)) \<and>
     reliable dr_kind (ap_DestinationRule api) (\<lambda>w. c_DestinationRule (view w))"

lemma amc_buildStatus_spec:
  assumes ok: "api_ok api view" and rel: "counts_reliable api view"
    and run: "amc_buildStatus api r cr w = (x, w')"
  shows "view w' = view w \<and> (\<exists>phase. calcPhase (amc_expected r (view w) cr) = Some phase \<and>
    x = Inr \<lparr>scs_LastUpdateTime = None, scs_Phase = phase, scs_Status = Some (amc_expected r (view w) cr)\<rparr>)"
proof -
  obtain a wa where A: "amc_count r cr (ap_ServiceEntry api) w = (a, wa)" by fastforce
  obtain b wb where B: "amc_count r cr (ap_WorkloadEntry api) wa = (b, wb)" by fastforce
  obtain c wc where C: "amc_count r cr (ap_VirtualService api) wb = (c, wc)" by fastforce
  obtain d wd where D: "amc_count r cr (ap_DestinationRule api) wc = (d, wd)" by fastforce
  note rels = rel [unfolded counts_reliable_def]
  note A1 = amc_count_spec [OF api_ok_se [OF ok] conjunct1 [OF rels] A]
  note B1 = amc_count_spec [OF api_ok_we [OF ok] conjunct1 [OF conjunct2 [OF rels]] B]
  note C1 = amc_count_spec [OF api_ok_vs [OF ok] conjunct1 [OF conjunct2 [OF conjunct2 [OF rels]]] C]
  note D1 = amc_count_spec [OF api_ok_dr [OF ok] conjunct2 [OF conjunct2 [OF conjunct2 [OF rels]]] D]
  have v: "view wa = view w" "view wb = view wa" "view wc = view wb" "view wd = view wc"
    using A1(1,2) B1(1,2) C1(1,2) D1(1,2) unfolding only_changed by simp_all
  have "amc_found K r cr M = None \<longleftrightarrow> amc_Services cr = []" for K :: "('o, 'z) kind_scheme" and M
    by (simp add: amc_found_def)
  then have phase: "calcPhase (amc_expected r (view w) cr) \<noteq> None"
    by (auto simp: calcPhase_def amc_expected_def Let_def sub_status_def zero_status_def amc_no_subsets_def
        split: option.splits)
  show ?thesis
  proof (cases "amc_no_subsets cr")
    case True
    have "x = (case calcPhase (amc_expected r (view w) cr) of None \<Rightarrow> Inl Panic
        | Some p \<Rightarrow> Inr \<lparr>scs_LastUpdateTime = None, scs_Phase = p, scs_Status = Some (amc_expected r (view w) cr)\<rparr>)"
      "w' = wb"
      using run A B A1(3) B1(3) True v
      by (auto simp: amc_buildStatus_def amc_getServiceEntryStatus_def amc_getWorkloadEntryStatus_def
          amc_getVirtualServiceStatus_def amc_getDestinationRuleStatus_def gbind_def gret_def orPanic_def Let_def
          amc_expected_def fold_instances split: option.splits)
    with phase v show ?thesis by (auto split: option.splits)
  next
    case False
    have "x = (case calcPhase (amc_expected r (view w) cr) of None \<Rightarrow> Inl Panic
        | Some p \<Rightarrow> Inr \<lparr>scs_LastUpdateTime = None, scs_Phase = p, scs_Status = Some (amc_expected r (view w) cr)\<rparr>)"
      "w' = wd"
      using run A B C D A1(3) B1(3) C1(3) D1(3) False v
      by (auto simp: amc_buildStatus_def amc_getServiceEntryStatus_def amc_getWorkloadEntryStatus_def
          amc_getVirtualServiceStatus_def amc_getDestinationRuleStatus_def gbind_def gret_def orPanic_def Let_def
          amc_expected_def fold_instances split: option.splits)
    with phase v show ?thesis by (auto split: option.splits)
  qed
qed

text \<open>
  An AppMeshConfig without services never gets a phase other than \<open>Unknown\<close>, on any cluster and with any
  client: its counts are never set, and the phase takes a missing count for a failed list.
\<close>

theorem amc_no_services_unknown:
  assumes "amc_Services cr = []"
  shows "\<exists>status. fst (amc_buildStatus api r cr w) = Inr status \<and> scs_Phase status = ConfigStatusUnknown"
  using assms
  by (simp add: amc_buildStatus_def amc_getServiceEntryStatus_def amc_getWorkloadEntryStatus_def
      amc_getVirtualServiceStatus_def amc_getDestinationRuleStatus_def amc_no_subsets_def amc_count_def
      gbind_def gret_def orPanic_def Let_def calcPhase_def sub_status_def)

definition demo_amc :: "Service list \<Rightarrow> AppMeshConfig" where
  "demo_amc svcs = \<lparr>amc_Meta = new_meta ''shop'' ''mesh'' [], amc_Services = svcs, amc_Status = empty_status\<rparr>"

theorem amc_no_services_unknown_witness:
  "\<exists>status. fst (amc_buildStatus mem_api demo_rc (demo_amc []) empty_world) = Inr status \<and>
    scs_Phase status = ConfigStatusUnknown"
  by (rule amc_no_services_unknown) (simp add: demo_amc_def)

text \<open>
  C24: a reconciliation that returns without error, on lists that succeed, leaves in the stored
  AppMeshConfig the status that the cluster has: for every kind, how many objects the listed services
  want and how many carry their labels; its services are untouched, and nothing else changes.
\<close>

theorem amc_Reconcile_status:
  assumes "api_ok api view" and "counts_reliable api view" and "get_available (ap_AppMeshConfig api)"
    and "status_ok amc_status (ap_AppMeshConfig api) (\<lambda>w. c_AppMeshConfig (view w))
           (\<lambda>w. (view w)\<lparr>c_AppMeshConfig := Map.empty\<rparr>)"
    and "c_AppMeshConfig (view w) req = Some cr"
    and "amc_Reconcile api req (w, r) = (Inr (), (w', r'))"
  shows "\<exists>cr'. view w' = (view w)\<lparr>c_AppMeshConfig := (c_AppMeshConfig (view w))(req \<mapsto> cr')\<rparr> \<and>
    scs_Status (amc_Status cr') = Some (amc_expected r' (view w) cr) \<and> amc_Services cr' = amc_Services cr"
proof -
  note ok = assms(1)
  note law = api_ok_amc [OF ok]
  obtain y w1 r1 where get: "getMeshConfig api (w, r) = (y, (w1, r1))"
    by (cases "getMeshConfig api (w, r)") auto
  note M = getMeshConfig_view [OF ok get]
  obtain g w2 where g: "kGet (ap_AppMeshConfig api) req w1 = (g, w2)" by fastforce
  have v2: "view w2 = view w" using get_keeps_view(5) [OF ok g] M(1) by simp
  have gcr: "g = Inr cr" using get_available_stored [OF law assms(3) _ g] assms(5) M(1) by simp
  have y: "y = Inr ()" using assms(6) get by (cases y) (auto simp: amc_Reconcile_def gbind_def)
  have run: "amc_updateStatus api r1 req cr w2 = (Inr (), w')" and r': "r' = r1"
    using assms(6) get y g gcr
    by (auto simp: amc_Reconcile_def gbind_def on_world_def attempt_def split: prod.splits)
  obtain b w3 where build: "amc_buildStatus api r1 cr w2 = (b, w3)" by fastforce
  from amc_buildStatus_spec [OF ok assms(2) build, unfolded v2] obtain phase where v3: "view w3 = view w"
    and b: "b = Inr \<lparr>scs_LastUpdateTime = None, scs_Phase = phase, scs_Status = Some (amc_expected r1 (view w) cr)\<rparr>"
    by blast
  define status where "status = \<lparr>scs_LastUpdateTime = None, scs_Phase = phase,
    scs_Status = Some (amc_expected r1 (view w) cr)\<rparr>"
  have up: "update_status amc_status (ap_Now api) (ap_AppMeshConfig api) req status cr w3 = (Inr (), w')"
    using run build b by (simp add: amc_updateStatus_def gbind_def status_def)
  have key: "okey amc_status cr = req"
    using kube_ok_key [OF law assms(5)] by (simp add: okey_def amc_status_def amc_kind_def)
  note U = amc_has.update_status_cases [OF law [folded kube_ok_status] assms(4) key up, unfolded v3 only_changed]
  have k: "k_Status amc_status = amc_Status" by (simp add: amc_status_def)
  show ?thesis
  proof (cases "scs_Status status = scs_Status (amc_Status cr)")
    case True
    with U(5) k have same: "c_AppMeshConfig (view w') = c_AppMeshConfig (view w)" by simp
    have "view w' = (view w)\<lparr>c_AppMeshConfig := (c_AppMeshConfig (view w))(req \<mapsto> cr)\<rparr>"
      using U(1) same assms(5) by (simp add: fun_upd_idem)
    with True r' show ?thesis by (intro exI [of _ cr]) (simp add: status_def)
  next
    case False
    with U(4) k obtain o' time where o': "c_AppMeshConfig (view w') = (c_AppMeshConfig (view w))(req \<mapsto> o')"
      "same_object amc_status o' (k_SetStatus amc_status (status\<lparr>scs_LastUpdateTime := time\<rparr>) cr)"
      unfolding status_written_def using assms(5) by auto
    from o'(2) have "amc_Status o' = status\<lparr>scs_LastUpdateTime := time\<rparr>" "amc_Services o' = amc_Services cr"
      unfolding same_object_def amc_status_def by (cases o'; cases cr; simp)+
    with U(1) o'(1) r' show ?thesis by (intro exI [of _ o']) (simp add: status_def)
  qed
qed

text \<open>An AppMeshConfig with one service, of which the service entry exists.\<close>

definition amc_service :: Service where
  "amc_service = \<lparr>sv_Name = ''svc'', sv_OriginalName = ''svc'', sv_Ports = [], sv_Instances = [demo_instance],
     sv_Policy = None, sv_Subsets = []\<rparr>"

definition amc_world :: mem_world where
  "amc_world = demo_world\<lparr>mw_AppMeshConfig := [demo_amc [amc_service]],
     mw_ServiceEntry := [cs_buildServiceEntry demo_rc demo_cs]\<rparr>"

definition amc_run where
  "amc_run = amc_Reconcile mem_api (''mesh'', ''shop'') (amc_world, demo_rc)"

lemma amc_run_ok: "amc_Reconcile mem_api (''mesh'', ''shop'') (amc_world, demo_rc) =
    (Inr (), (fst (snd amc_run), snd (snd amc_run)))"
proof -
  have "fst amc_run = Inr ()" by code_simp
  then show ?thesis by (cases amc_run) (auto simp: amc_run_def)
qed

lemma amc_world_view: "c_AppMeshConfig (mem_view amc_world) (''mesh'', ''shop'') = Some (demo_amc [amc_service])"
  by (simp add: mem_view_def mem_objs_def amc_world_def okey_def amc_kind_def demo_amc_def)

lemma mem_counts_reliable: "counts_reliable mem_api mem_view"
  by (simp add: counts_reliable_def mem_api_def mem_view_def mem_reliable)

theorem amc_Reconcile_status_witness:
  "\<exists>cr'. c_AppMeshConfig (mem_view (fst (snd amc_run))) (''mesh'', ''shop'') = Some cr' \<and>
    scs_Status (amc_Status cr') =
      Some (amc_expected (snd (snd amc_run)) (mem_view amc_world) (demo_amc [amc_service]))"
  using amc_Reconcile_status [OF mem_api_ok mem_counts_reliable _ mem_api_status_ok(2) amc_world_view amc_run_ok]
  by (auto simp: mem_api_def)

end
