(* ===== verification/AdapterTypes.thy ===== *)
theory AdapterTypes
  imports Utils
begin

text \<open>
  \<^verbatim>\<open>pkg/adapter/types\<close> and the adapter's constants: services and instances as the registry describes
  them (the Dubbo side), the events the registry and the configuration center send, and the
  configurators. The maps of instances never hold a nil pointer (every instance put into one comes
  out of a call that returned no error).
\<close>

section \<open>Services\<close>

record DPort =
  dp_Protocol :: string
  dp_Port :: string

text \<open>The service of an instance is a pointer that nothing reads; here it is the name of that service.\<close>

record DInstance =
  di_Service :: "string option"
  di_Host :: string
  di_Port :: "DPort option"
  di_Labels :: labels

record DService =
  dv_Name :: string
  dv_Ports :: "DPort list"
  dv_Instances :: "(string, DInstance) gomap"

datatype ServiceEventType =
    ServiceAdded
  | ServiceDeleted
  | ServiceInstanceAdded
  | ServiceInstanceDeleted
  | ServiceInstancesReplace

record ServiceEvent =
  ev_EventType :: ServiceEventType
  ev_Service :: "DService option"
  ev_Instance :: "DInstance option"
  ev_Instances :: "(string, DInstance) gomap"

text \<open>\<open>func (p *Port) Portoi() int\<close>: zero when \<open>strconv.Atoi\<close> fails.\<close>

definition Portoi :: "DPort \<Rightarrow> int" where
  "Portoi p = (let (port, err) = ParseInt (dp_Port p) 64 in if err \<noteq> None then 0 else port)"

definition AddPort :: "DPort \<Rightarrow> DService \<Rightarrow> DService" where
  "AddPort port s =
     (let exist = list_ex (\<lambda>p. dp_Port p = dp_Port port \<and> dp_Protocol p = dp_Protocol port) (dv_Ports s) in
      if \<not> exist then s\<lparr>dv_Ports := dv_Ports s @ [port]\<rparr> else s)"

definition Hostname :: "DService \<Rightarrow> string" where "Hostname s = dv_Name s"
definition GetPorts :: "DService \<Rightarrow> DPort list" where "GetPorts s = dv_Ports s"
definition GetInstances :: "DService \<Rightarrow> (string, DInstance) gomap" where "GetInstances s = dv_Instances s"

section \<open>Configurators\<close>

datatype ConfigEventType = ConfigEntryAdded | ConfigEntryDeleted | ConfigEntryChanged

record ConfigItem =
  ci_Type :: string
  ci_Enabled :: bool
  ci_Addresses :: "string list"
  ci_ProviderAddresses :: "string list"
  ci_Services :: "string list"
  ci_Applications :: "string list"
  ci_Parameters :: labels
  ci_Side :: string

record ConfiguratorConfig =
  cc_ConfigVersion :: string
  cc_Scope :: string
  cc_Key :: string
  cc_Enabled :: bool
  cc_Configs :: "ConfigItem list"

record ConfigEvent =
  ce_EventType :: ConfigEventType
  ce_Path :: string
  ce_ConfigEntry :: "ConfiguratorConfig option"

section \<open>Constants\<close>

definition DubboPortName :: string where "DubboPortName = ''dubbo-http''"
definition DubboProtocol :: string where "DubboProtocol = ''HTTP''"

section \<open>Facts\<close>

lemma AddPort_once:
  "distinct (map (\<lambda>p. (dp_Port p, dp_Protocol p)) (dv_Ports s)) \<Longrightarrow>
   distinct (map (\<lambda>p. (dp_Port p, dp_Protocol p)) (dv_Ports (AddPort port s)))"
  by (auto simp: AddPort_def Let_def list_ex_iff)

lemma AddPort_idem: "AddPort port (AddPort port s) = AddPort port s"
  by (auto simp: AddPort_def Let_def)

end
