(* ===== verification/Convert.thy ===== *)
theory Convert
  imports AdapterTypes MeshApi "HOL-Library.Multiset"
begin

text \<open>
  \<^verbatim>\<open>pkg/adapter/convert\<close>: from the registry's services and the configuration center's configurators to
  ConfiguredServices and ServiceConfigs. \<open>yaml.Unmarshal\<close> is not part of the repository and is the
  argument \<open>unmarshal\<close>. A conversion without a value panics.
\<close>

section \<open>Operations\<close>

definition ToPort :: "DPort option \<Rightarrow> Port" where
  "ToPort port =
     (case port of
        None \<Rightarrow> \<lparr>pt_Name = DubboPortName, pt_Protocol = ''dubbo'', pt_Number = 0\<rparr>
      | Some p \<Rightarrow> \<lparr>pt_Name = DubboPortName, pt_Protocol = dp_Protocol p, pt_Number = ToUint32 (dp_Port p)\<rparr>)"

definition convert_instance :: "DInstance \<Rightarrow> Instance" where
  "convert_instance i =
     \<lparr>in_Host = RemovePort (di_Host i), in_Labels = di_Labels i, in_Port = Some (ToPort (di_Port i)),
      in_Weight = 0\<rparr>"

text \<open>The instances come in the order in which the runtime ranges over the map.\<close>

definition ToConfiguredService :: "string \<Rightarrow> ServiceEvent \<Rightarrow> ConfiguredService option" where
  "ToConfiguredService defaultNamespace s =
     map_option (\<lambda>svc.
       \<lparr>cs_Meta = new_meta (FormatToDNS1123 (dv_Name svc)) defaultNamespace [],
        cs_Spec = \<lparr>cs_OriginalName = dv_Name svc,
          cs_Instances = map (\<lambda>(k, i). convert_instance i) (ev_Instances s), cs_MeshConfigGeneration = 0\<rparr>\<rparr>)
       (ev_Service s)"

text \<open>The parameter \<open>flag_config\<close> of a configurator; an element of the list may be nil.\<close>

record Flag =
  fl_Key :: string
  fl_Weight :: int32

record FlagConfigParameter =
  fp_Flags :: "Flag option list"
  fp_Manual :: bool

definition findConfig :: "string \<Rightarrow> ConfigItem list \<Rightarrow> ConfigItem option" where
  "findConfig side configs =
     find (\<lambda>c. ci_Side c = side \<and> list_ex (\<lambda>a. a = ''0.0.0.0'') (ci_Addresses c)) configs"

definition findDefaultConfig :: "ConfigItem list \<Rightarrow> ConfigItem option" where
  "findDefaultConfig configs = findConfig ''provider'' configs"

definition findFlagConfig :: "ConfigItem list \<Rightarrow> ConfigItem option" where
  "findFlagConfig configs = findConfig ''consumer'' configs"

definition config_policy :: "ConfigItem option \<Rightarrow> Policy" where
  "config_policy defaultConfig =
     (let policy = \<lparr>po_LoadBalancer = [], po_MaxConnections = 0, po_Timeout = [], po_MaxRetries = 0\<rparr> in
      case defaultConfig of
        None \<Rightarrow> policy
      | Some c \<Rightarrow>
          if ci_Enabled c then
            (let policy = (case map_of (ci_Parameters c) ''timeout'' of
                 None \<Rightarrow> policy | Some t \<Rightarrow> policy\<lparr>po_Timeout := t\<rparr>)
             in case map_of (ci_Parameters c) ''retries'' of
                 None \<Rightarrow> policy | Some r \<Rightarrow> policy\<lparr>po_MaxRetries := ToInt32 r\<rparr>)
          else policy)"

definition item_config :: "ConfigItem \<Rightarrow> string \<Rightarrow> InstanceConfig" where
  "item_config ci address =
     (let (h, p) = (case SplitHostPort address of None \<Rightarrow> ([], []) | Some hp \<Rightarrow> hp) in
      \<lparr>ic_Host = h, ic_Port = Some \<lparr>pt_Name = [], pt_Protocol = [], pt_Number = ToUint32 p\<rparr>,
       ic_Weight = ToUint32 (lookup_zero [] (ci_Parameters ci) ''weight'')\<rparr>)"

text \<open>The loop over the configurations; \<open>ci.Addresses[0]\<close> panics when there is no address.\<close>

fun config_instances :: "ConfigItem list \<Rightarrow> InstanceConfig list option" where
  "config_instances [] = Some []"
| "config_instances (ci # cis) =
     (if ci_Enabled ci then
        (case ci_Addresses ci of
           [] \<Rightarrow> None
         | a # _ \<Rightarrow>
             if a \<noteq> ''0.0.0.0'' \<and> ci_Side ci = ''provider''
               then map_option (\<lambda>rest. item_config ci a # rest) (config_instances cis)
             else config_instances cis)
      else config_instances cis)"

definition config_routes ::
  "(string \<Rightarrow> FlagConfigParameter option) \<Rightarrow> ConfigItem option \<Rightarrow> Destination list option" where
  "config_routes unmarshal flagConfig =
     (case flagConfig of
        None \<Rightarrow> Some []
      | Some c \<Rightarrow>
          (case map_of (ci_Parameters c) ''flag_config'' of
             None \<Rightarrow> Some []
           | Some fc \<Rightarrow>
               (case unmarshal fc of
                  None \<Rightarrow> Some []
                | Some fcp \<Rightarrow>
                    if ci_Enabled c \<and> fp_Manual fcp
                    then those (map (map_option (\<lambda>f. \<lparr>ds_Subset = fl_Key f, ds_Weight = fl_Weight f\<rparr>)) (fp_Flags fcp))
                    else Some [])))"

text \<open>The outer option is a panic, the inner one the nil the code returns for an empty key.\<close>

definition ToServiceConfig ::
  "(string \<Rightarrow> FlagConfigParameter option) \<Rightarrow> string \<Rightarrow> ConfiguratorConfig option \<Rightarrow> ServiceConfig option option" where
  "ToServiceConfig unmarshal defaultNamespace cc =
     (case cc of
        None \<Rightarrow> Some None
      | Some cc \<Rightarrow>
          if length (cc_Key cc) = 0 then Some None
          else
            Option.bind (config_instances (cc_Configs cc)) (\<lambda>instanceConfigs.
            Option.bind (config_routes unmarshal (findFlagConfig (cc_Configs cc))) (\<lambda>routes.
            Some (Some
              \<lparr>sc_Meta = new_meta (FormatToDNS1123 (cc_Key cc)) defaultNamespace [],
               sc_Spec = \<lparr>sc_OriginalName = cc_Key cc,
                 sc_Policy = Some (config_policy (findDefaultConfig (cc_Configs cc))),
                 sc_Route = routes, sc_Instances = instanceConfigs,
                 sc_RerouteOption = Some \<lparr>ro_ReroutePolicy = Default, ro_SpecificRoute = []\<rparr>,
                 sc_CanaryRerouteOption = None, sc_MeshConfigGeneration = 0\<rparr>,
               sc_Status = empty_status\<rparr>))))"

section \<open>Facts\<close>

lemma findConfig_side: "findConfig side configs = Some c \<Longrightarrow>
    c \<in> set configs \<and> ci_Side c = side \<and> ''0.0.0.0'' \<in> set (ci_Addresses c)"
  by (auto simp: findConfig_def find_Some_iff list_ex_iff)

text \<open>The first configurator that decides the policy does not give an instance its weight.\<close>

lemma config_instances_None:
  "config_instances cis = None \<longleftrightarrow> list_ex (\<lambda>ci. ci_Enabled ci \<and> ci_Addresses ci = []) cis"
  by (induction cis) (auto split: list.splits)

lemma config_instances_filter:
  assumes "config_instances cis = Some ics"
  shows "ics = map (\<lambda>ci. item_config ci (hd (ci_Addresses ci)))
    (filter (\<lambda>ci. ci_Enabled ci \<and> hd (ci_Addresses ci) \<noteq> ''0.0.0.0'' \<and> ci_Side ci = ''provider'') cis)"
  using assms
  by (induction cis arbitrary: ics) (auto split: list.splits if_splits)

text \<open>
  The ranging order of the map of instances only permutes the instances of the ConfiguredService:
  name, namespace and original name are the same, and every instance occurs as often.
\<close>

theorem ToConfiguredService_order:
  assumes "mset (ev_Instances s) = mset insts"
  shows "rel_option (\<lambda>a b. cs_Meta a = cs_Meta b \<and>
      cs_OriginalName (cs_Spec a) = cs_OriginalName (cs_Spec b) \<and>
      mset (cs_Instances (cs_Spec a)) = mset (cs_Instances (cs_Spec b)))
    (ToConfiguredService ns s) (ToConfiguredService ns (s\<lparr>ev_Instances := insts\<rparr>))"
proof -
  have "mset (map f (ev_Instances s)) = mset (map f insts)" for f :: "string \<times> DInstance \<Rightarrow> Instance"
    using assms by simp
  then show ?thesis by (cases "ev_Service s") (simp_all add: ToConfiguredService_def)
qed

text \<open>
  A ServiceConfig can be made of a configurator with a key unless an enabled item has no address, or
  a flag of a manual flag configuration is null; then the conversion panics.
\<close>

theorem ToServiceConfig_panics:
  assumes "cc_Key cc \<noteq> []"
  shows "ToServiceConfig unmarshal ns (Some cc) = None \<longleftrightarrow>
    list_ex (\<lambda>ci. ci_Enabled ci \<and> ci_Addresses ci = []) (cc_Configs cc) \<or>
    config_routes unmarshal (findFlagConfig (cc_Configs cc)) = None"
  using assms config_instances_None [of "cc_Configs cc"]
  by (cases "config_instances (cc_Configs cc)"; cases "config_routes unmarshal (findFlagConfig (cc_Configs cc))")
    (simp_all add: ToServiceConfig_def)

text \<open>A configurator with a disabled item without address, and then an enabled one.\<close>

definition demo_item :: "bool \<Rightarrow> string list \<Rightarrow> labels \<Rightarrow> ConfigItem" where
  "demo_item enabled addresses params = \<lparr>ci_Type = [], ci_Enabled = enabled, ci_Addresses = addresses,
     ci_ProviderAddresses = [], ci_Services = [], ci_Applications = [], ci_Parameters = params,
     ci_Side = ''provider''\<rparr>"

definition demo_config :: "ConfigItem list \<Rightarrow> ConfiguratorConfig" where
  "demo_config items = \<lparr>cc_ConfigVersion = ''v2.7'', cc_Scope = ''service'', cc_Key = ''com.foo.Svc'',
     cc_Enabled = True, cc_Configs = items\<rparr>"

theorem ToServiceConfig_panics_witness:
  "ToServiceConfig (\<lambda>_. None) ''sym-admin'' (Some (demo_config [demo_item False [] []])) \<noteq> None \<and>
   ToServiceConfig (\<lambda>_. None) ''sym-admin'' (Some (demo_config [demo_item True [] []])) = None"
  by (subst (1 2) ToServiceConfig_panics)
    (simp_all add: demo_config_def demo_item_def config_routes_def findFlagConfig_def findConfig_def)

text \<open>Two instances in the two orders.\<close>

definition demo_event :: ServiceEvent where
  "demo_event = \<lparr>ev_EventType = ServiceInstancesReplace,
     ev_Service = Some \<lparr>dv_Name = ''com.foo.Svc'', dv_Ports = [], dv_Instances = []\<rparr>, ev_Instance = None,
     ev_Instances =
       [(''a'', \<lparr>di_Service = None, di_Host = ''10.0.0.1:20880'', di_Port = None, di_Labels = []\<rparr>),
        (''b'', \<lparr>di_Service = None, di_Host = ''10.0.0.2:20880'', di_Port = None, di_Labels = []\<rparr>)]\<rparr>"

theorem ToConfiguredService_order_witness:
  "rel_option (\<lambda>a b. cs_Meta a = cs_Meta b \<and>
      cs_OriginalName (cs_Spec a) = cs_OriginalName (cs_Spec b) \<and>
      mset (cs_Instances (cs_Spec a)) = mset (cs_Instances (cs_Spec b)))
    (ToConfiguredService ''ns'' demo_event)
    (ToConfiguredService ''ns'' (demo_event\<lparr>ev_Instances := rev (ev_Instances demo_event)\<rparr>))"
  by (rule ToConfiguredService_order) simp

end
