(* ===== verification/EventHandlers.thy ===== *)
theory EventHandlers
  imports Convert CsController "HOL-Library.List_Lexorder" "HOL-Library.Char_ord"
begin

text \<open>
  \<^verbatim>\<open>pkg/adapter/handler\<close>: what the adapter does with an event. The single-cluster handler writes
  ConfiguredServices, ServiceConfigs and ServiceAccessors through the functions of \<^verbatim>\<open>crd_handler.go\<close>
  (whose locks order the writes of one kind; a model of calls one after the other has no use for
  them); the multi-cluster handler runs the handlers of all clusters and waits for them; the log
  handler only logs. Conversions are computed once before the retried function and not in it: they
  depend on the event alone.
\<close>

section \<open>The functions of \<^verbatim>\<open>crd_handler.go\<close>\<close>

definition no_answer :: "('w \<Rightarrow> (kerr + 'a) \<times> 'w) \<Rightarrow> 'w \<Rightarrow> (kerr + unit) \<times> 'w" where
  "no_answer m w = (case m w of (Inl e, w') \<Rightarrow> (Inl e, w') | (Inr _, w') \<Rightarrow> (Inr (), w'))"

definition createConfiguredService where
  "createConfiguredService api cs = no_answer (kCreate (ap_ConfiguredService api) cs)"

definition updateConfiguredService where
  "updateConfiguredService api cs = no_answer (kUpdate (ap_ConfiguredService api) cs)"

definition getConfiguredService where
  "getConfiguredService api namespace name = kGet (ap_ConfiguredService api) (namespace, name)"

definition deleteConfiguredService where
  "deleteConfiguredService api cs = kDelete (ap_ConfiguredService api) cs"

definition createScopedAccessServices where
  "createScopedAccessServices api sa = no_answer (kCreate (ap_ServiceAccessor api) sa)"

definition updateScopedAccessServices where
  "updateScopedAccessServices api sa = no_answer (kUpdate (ap_ServiceAccessor api) sa)"

definition getScopedAccessServices where
  "getScopedAccessServices api namespace name = kGet (ap_ServiceAccessor api) (namespace, name)"

definition createServiceConfig where
  "createServiceConfig api sc = no_answer (kCreate (ap_ServiceConfig api) sc)"

definition updateServiceConfig where
  "updateServiceConfig api sc = no_answer (kUpdate (ap_ServiceConfig api) sc)"

definition getServiceConfig where
  "getServiceConfig api namespace name = kGet (ap_ServiceConfig api) (namespace, name)"

definition deleteServiceConfig where
  "deleteServiceConfig api sc = kDelete (ap_ServiceConfig api) sc"

section \<open>Create or replace\<close>

text \<open>
  The retried functions share one shape: read the object; create it when it is not found; leave it when
  its spec is already the wanted one (the ServiceAccessors only); replace its spec and update it.
\<close>

definition upsert ::
  "('w \<Rightarrow> (kerr + 'o) \<times> 'w) \<Rightarrow> ('w \<Rightarrow> (kerr + unit) \<times> 'w) \<Rightarrow> ('o \<Rightarrow> bool) \<Rightarrow>
   ('o \<Rightarrow> 'w \<Rightarrow> (kerr + unit) \<times> 'w) \<Rightarrow> 'w \<Rightarrow> (kerr + unit) \<times> 'w" where
  "upsert get create same update w =
     (case get w of
        (Inl err, w') \<Rightarrow> if err = NotFound then create w' else (Inl err, w')
      | (Inr found, w') \<Rightarrow> if same found then (Inr (), w') else update found w')"

text \<open>\<open>retry.RetryOnConflict(retry.DefaultRetry, fn)\<close> with its error dropped; \<open>fn\<close> captures no variable.\<close>

definition retried ::
  "('w, 'o) kclient \<Rightarrow> 'o \<Rightarrow> ('w \<Rightarrow> (kerr + unit) \<times> 'w) \<Rightarrow> ('w, unit) call" where
  "retried c x fn w =
     (case kRetry c (\<lambda>y v. case fn v of (r, v') \<Rightarrow> (r, y, v')) x w of (_, _, w') \<Rightarrow> (Inr (), w'))"

section \<open>The single-cluster handler\<close>

definition defaultNamespace :: string where "defaultNamespace = ''sym-admin''"

definition sh_ReplaceInstances :: "'w api \<Rightarrow> ServiceEvent \<Rightarrow> ('w, unit) call" where
  "sh_ReplaceInstances api event =
     gbind (orPanic (ToConfiguredService defaultNamespace event)) (\<lambda>cs.
     retried (ap_ConfiguredService api) cs
       (upsert (getConfiguredService api (om_Namespace (cs_Meta cs)) (om_Name (cs_Meta cs)))
          (createConfiguredService api cs) (\<lambda>_. False)
          (\<lambda>foundCs. updateConfiguredService api (foundCs\<lparr>cs_Spec := cs_Spec cs\<rparr>))))"

definition named_cs :: "string \<Rightarrow> ConfiguredService" where
  "named_cs name = \<lparr>cs_Meta = new_meta name defaultNamespace [],
     cs_Spec = \<lparr>cs_OriginalName = [], cs_Instances = [], cs_MeshConfigGeneration = 0\<rparr>\<rparr>"

definition sh_DeleteService :: "'w api \<Rightarrow> ServiceEvent \<Rightarrow> ('w, unit) call" where
  "sh_DeleteService api event =
     gbind (orPanic (ev_Service event)) (\<lambda>svc.
       let cs = named_cs (FormatToDNS1123 (dv_Name svc)) in
       retried (ap_ConfiguredService api) cs (deleteConfiguredService api cs))"

text \<open>The values of the label \<open>app\<close> of the instances, each once, in the order of some range.\<close>

definition changed_scopes :: "ServiceEvent \<Rightarrow> string list" where
  "changed_scopes e =
     remdups (List.map_filter (\<lambda>(k, ins). map_of (di_Labels ins) ''app'') (ev_Instances e))"

definition scoped_accessor :: "string \<Rightarrow> string list \<Rightarrow> ServiceAccessor" where
  "scoped_accessor scope services =
     \<lparr>sa_Meta = new_meta (FormatToDNS1123 scope) defaultNamespace [],
      sa_Spec = \<lparr>sa_AccessHosts = sort services, sa_MeshConfigGeneration = 0\<rparr>\<rparr>"

definition sh_ReplaceScope :: "'w api \<Rightarrow> (string \<Rightarrow> string list) \<Rightarrow> string \<Rightarrow> ('w, unit) call" where
  "sh_ReplaceScope api getScopedServices changedScope =
     (let sas = scoped_accessor changedScope (getScopedServices changedScope) in
      retried (ap_ServiceAccessor api) sas
        (upsert (getScopedAccessServices api (om_Namespace (sa_Meta sas)) (om_Name (sa_Meta sas)))
           (createScopedAccessServices api sas) (\<lambda>found. sa_Spec found = sa_Spec sas)
           (\<lambda>foundSas. updateScopedAccessServices api (foundSas\<lparr>sa_Spec := sa_Spec sas\<rparr>))))"

definition sh_ReplaceAccessorInstances ::
  "'w api \<Rightarrow> ServiceEvent \<Rightarrow> (string \<Rightarrow> string list) \<Rightarrow> ('w, unit) call" where
  "sh_ReplaceAccessorInstances api e getScopedServices =
     gforeach (sh_ReplaceScope api getScopedServices) (changed_scopes e)"

text \<open>A configuration without a key makes the retried function fail; nothing happens then.\<close>

definition sh_ChangeConfigEntry ::
  "'w api \<Rightarrow> (string \<Rightarrow> FlagConfigParameter option) \<Rightarrow> ConfigEvent \<Rightarrow> ('w, unit) call" where
  "sh_ChangeConfigEntry api unmarshal e =
     gbind (orPanic (ToServiceConfig unmarshal defaultNamespace (ce_ConfigEntry e))) (\<lambda>res.
       case res of
         None \<Rightarrow> gret ()
       | Some sc \<Rightarrow>
           retried (ap_ServiceConfig api) sc
             (upsert (getServiceConfig api defaultNamespace (FormatToDNS1123 (om_Name (sc_Meta sc))))
                (createServiceConfig api sc) (\<lambda>_. False)
                (\<lambda>foundSc. updateServiceConfig api (foundSc\<lparr>sc_Spec := sc_Spec sc\<rparr>))))"

definition sh_AddConfigEntry ::
  "'w api \<Rightarrow> (string \<Rightarrow> FlagConfigParameter option) \<Rightarrow> ConfigEvent \<Rightarrow> ('w, unit) call" where
  "sh_AddConfigEntry api unmarshal e = sh_ChangeConfigEntry api unmarshal e"

definition named_sc :: "string \<Rightarrow> ServiceConfig" where
  "named_sc name = \<lparr>sc_Meta = new_meta name defaultNamespace [],
     sc_Spec = \<lparr>sc_OriginalName = [], sc_Policy = None, sc_Route = [], sc_Instances = [],
       sc_RerouteOption = None, sc_CanaryRerouteOption = None, sc_MeshConfigGeneration = 0\<rparr>,
     sc_Status = empty_status\<rparr>"

definition sh_DeleteConfigEntry :: "'w api \<Rightarrow> ConfigEvent \<Rightarrow> ('w, unit) call" where
  "sh_DeleteConfigEntry api e =
     (let serviceName = FormatToDNS1123 (ResolveServiceName (ce_Path e)) in
      retried (ap_ServiceConfig api) (named_sc serviceName) (\<lambda>w.
        case getServiceConfig api defaultNamespace serviceName w of
          (Inl err, w') \<Rightarrow> (Inl err, w')
        | (Inr sc, w') \<Rightarrow> deleteServiceConfig api sc w'))"

section \<open>Handlers\<close>

text \<open>The interface \<open>component.EventHandler\<close>.\<close>

record 'w event_handler =
  h_AddService :: "ServiceEvent \<Rightarrow> ('w, unit) call"
  h_DeleteService :: "ServiceEvent \<Rightarrow> ('w, unit) call"
  h_AddInstance :: "ServiceEvent \<Rightarrow> ('w, unit) call"
  h_ReplaceInstances :: "ServiceEvent \<Rightarrow> ('w, unit) call"
  h_DeleteInstance :: "ServiceEvent \<Rightarrow> ('w, unit) call"
  h_ReplaceAccessorInstances :: "ServiceEvent \<Rightarrow> (string \<Rightarrow> string list) \<Rightarrow> ('w, unit) call"
  h_AddConfigEntry :: "ConfigEvent \<Rightarrow> ('w, unit) call"
  h_ChangeConfigEntry :: "ConfigEvent \<Rightarrow> ('w, unit) call"
  h_DeleteConfigEntry :: "ConfigEvent \<Rightarrow> ('w, unit) call"

definition single_handler :: "'w api \<Rightarrow> (string \<Rightarrow> FlagConfigParameter option) \<Rightarrow> 'w event_handler" where
  "single_handler api unmarshal =
     \<lparr>h_AddService = (\<lambda>_. gret ()), h_DeleteService = sh_DeleteService api, h_AddInstance = (\<lambda>_. gret ()),
      h_ReplaceInstances = sh_ReplaceInstances api, h_DeleteInstance = (\<lambda>_. gret ()),
      h_ReplaceAccessorInstances = sh_ReplaceAccessorInstances api,
      h_AddConfigEntry = sh_AddConfigEntry api unmarshal,
      h_ChangeConfigEntry = sh_ChangeConfigEntry api unmarshal,
      h_DeleteConfigEntry = sh_DeleteConfigEntry api\<rparr>"

text \<open>
  The handlers of the clusters run concurrently, each on its own cluster; the model runs them in the
  order of the list.
\<close>

definition mh_ReplaceInstances :: "'w event_handler list \<Rightarrow> ServiceEvent \<Rightarrow> ('w, unit) call" where
  "mh_ReplaceInstances handlers event = gforeach (\<lambda>h. h_ReplaceInstances h event) handlers"

definition mh_DeleteService :: "'w event_handler list \<Rightarrow> ServiceEvent \<Rightarrow> ('w, unit) call" where
  "mh_DeleteService handlers event = gforeach (\<lambda>h. h_DeleteService h event) handlers"

definition mh_ReplaceAccessorInstances ::
  "'w event_handler list \<Rightarrow> ServiceEvent \<Rightarrow> (string \<Rightarrow> string list) \<Rightarrow> ('w, unit) call" where
  "mh_ReplaceAccessorInstances handlers event getScopedServices =
     gforeach (\<lambda>h. h_ReplaceAccessorInstances h event getScopedServices) handlers"

definition mh_ChangeConfigEntry :: "'w event_handler list \<Rightarrow> ConfigEvent \<Rightarrow> ('w, unit) call" where
  "mh_ChangeConfigEntry handlers e = gforeach (\<lambda>h. h_ChangeConfigEntry h e) handlers"

definition mh_AddConfigEntry :: "'w event_handler list \<Rightarrow> ConfigEvent \<Rightarrow> ('w, unit) call" where
  "mh_AddConfigEntry handlers e = mh_ChangeConfigEntry handlers e"

definition mh_DeleteConfigEntry :: "'w event_handler list \<Rightarrow> ConfigEvent \<Rightarrow> ('w, unit) call" where
  "mh_DeleteConfigEntry handlers e = gforeach (\<lambda>h. h_DeleteConfigEntry h e) handlers"

definition multi_handler :: "'w event_handler list \<Rightarrow> 'w event_handler" where
  "multi_handler handlers =
     \<lparr>h_AddService = (\<lambda>_. gret ()), h_DeleteService = mh_DeleteService handlers, h_AddInstance = (\<lambda>_. gret ()),
      h_ReplaceInstances = mh_ReplaceInstances handlers, h_DeleteInstance = (\<lambda>_. gret ()),
      h_ReplaceAccessorInstances = mh_ReplaceAccessorInstances handlers,
      h_AddConfigEntry = mh_AddConfigEntry handlers, h_ChangeConfigEntry = mh_ChangeConfigEntry handlers,
      h_DeleteConfigEntry = mh_DeleteConfigEntry handlers\<rparr>"

definition log_handler :: "'w event_handler" where
  "log_handler =
     \<lparr>h_AddService = (\<lambda>_. gret ()), h_DeleteService = (\<lambda>_. gret ()), h_AddInstance = (\<lambda>_. gret ()),
      h_ReplaceInstances = (\<lambda>_. gret ()), h_DeleteInstance = (\<lambda>_. gret ()),
      h_ReplaceAccessorInstances = (\<lambda>_ _. gret ()), h_AddConfigEntry = (\<lambda>_. gret ()),
      h_ChangeConfigEntry = (\<lambda>_. gret ()), h_DeleteConfigEntry = (\<lambda>_. gret ())\<rparr>"

section \<open>What create or replace leaves\<close>

text \<open>An object is stored under a key and has the spec of the wanted one; nothing else of the kind changed.\<close>

definition stored_spec ::
  "('o \<Rightarrow> 'o \<Rightarrow> 'o) \<Rightarrow> 'o \<Rightarrow> nsname \<Rightarrow> (nsname \<Rightarrow> 'o option) \<Rightarrow> (nsname \<Rightarrow> 'o option) \<Rightarrow> bool" where
  "stored_spec put new key M M' \<longleftrightarrow> (\<exists>o'. M' = M(key \<mapsto> o') \<and> put new o' = o')"

locale spec_kind = object_kind K for K :: "('o, 'z) kind_scheme" +
  fixes put :: "'o \<Rightarrow> 'o \<Rightarrow> 'o"
  assumes set_self: "k_SetMeta K (k_Meta K o1) o1 = o1"
    and put_meta: "k_Meta K (put new found) = k_Meta K found"
    and put_set: "put new (k_SetMeta K m found) = k_SetMeta K m (put new found)"
    and put_put: "put new (put new found) = put new found"
    and put_self: "put new new = new"
begin

lemma put_same: "same_object K o1 (put new found) \<Longrightarrow> put new o1 = o1"
proof -
  assume "same_object K o1 (put new found)"
  then have eq: "k_SetMeta K (strip_meta (k_Meta K o1)) o1 =
      k_SetMeta K (strip_meta (k_Meta K (put new found))) (put new found)"
    by (simp add: same_object_def)
  have "put new (k_SetMeta K (strip_meta (k_Meta K o1)) o1) = k_SetMeta K (strip_meta (k_Meta K o1)) o1"
    unfolding eq by (simp add: put_set put_put)
  then have "k_SetMeta K (strip_meta (k_Meta K o1)) (put new o1) = k_SetMeta K (strip_meta (k_Meta K o1)) o1"
    by (simp add: put_set)
  then have "k_SetMeta K (k_Meta K o1) (put new o1) = k_SetMeta K (k_Meta K o1) o1"
    by (metis set_set)
  then show ?thesis by (metis put_meta set_self)
qed

lemma okey_put: "okey K (put new found) = okey K found"
  by (simp add: okey_def put_meta)

lemma upsert_cases:
  assumes ok: "kube_ok K c objs rest" and key: "okey K new = key"
    and same: "\<forall>found. same found \<longrightarrow> put new found = found"
    and run: "upsert (kGet c key) (no_answer (kCreate c new)) same
      (\<lambda>found. no_answer (kUpdate c (put new found))) w = (r, w')"
  shows "rest w' = rest w" and "r = Inl e \<Longrightarrow> objs w' = objs w"
    and "r = Inr u \<Longrightarrow> stored_spec put new key (objs w) (objs w')"
    and "reliable K c objs \<Longrightarrow> \<exists>u. r = Inr u"
proof -
  obtain g w1 where get: "kGet c key w = (g, w1)" by fastforce
  note G = kube_ok_getD [OF ok get]
  have "rest w' = rest w \<and> (r = Inl e \<longrightarrow> objs w' = objs w) \<and>
    (r = Inr () \<longrightarrow> stored_spec put new key (objs w) (objs w')) \<and> (reliable K c objs \<longrightarrow> r = Inr ())"
  proof (cases g)
    case (Inl err)
    show ?thesis
    proof (cases "err = NotFound")
      case False
      have "\<not> reliable K c objs"
        using False get Inl unfolding reliable_def get_available_def by (metis fst_conv)
      with False run get Inl G(1,2) show ?thesis by (auto simp: upsert_def)
    next
      case True
      obtain q w2 where cr: "kCreate c new w1 = (q, w2)" by fastforce
      note C = kube_ok_createD [OF ok cr, unfolded key]
      have r: "w' = w2" "r = (case q of Inl e \<Rightarrow> Inl e | Inr _ \<Rightarrow> Inr ())"
        using run get Inl True cr by (auto simp: upsert_def no_answer_def split: sum.splits)
      have good: "\<exists>o'. q = Inr o'" if "reliable K c objs"
      proof -
        have "objs w1 (okey K new) = None" using G(1,4) Inl True key by simp
        with that cr show ?thesis unfolding reliable_def by (metis prod.inject)
      qed
      show ?thesis
      proof (cases q)
        case (Inl e)
        with r C(1,2) G(1,2) good show ?thesis by auto
      next
        case (Inr o')
        with C(4) have "objs w' = (objs w)(key \<mapsto> o')" and "put new o' = o'"
          using r G(1) put_same [of o' new new] by (auto simp: put_self)
        with r C(1) G(2) Inr show ?thesis unfolding stored_spec_def by auto
      qed
    qed
  next
    case (Inr found)
    have cur: "objs w1 key = Some found" using G(1,3) Inr by simp
    have fkey: "okey K found = key" by (rule kube_ok_key [OF ok cur])
    show ?thesis
    proof (cases "same found")
      case True
      with run get Inr have r: "r = Inr ()" "w' = w1" by (simp_all add: upsert_def)
      have "objs w = (objs w)(key \<mapsto> found)" using cur G(1) by (simp add: fun_upd_idem)
      with r G(1,2) same True show ?thesis unfolding stored_spec_def by metis
    next
      case False
      obtain q w2 where up: "kUpdate c (put new found) w1 = (q, w2)" by fastforce
      note U = kube_ok_updateD [OF ok up, unfolded okey_put fkey]
      have r: "w' = w2" "r = (case q of Inl e \<Rightarrow> Inl e | Inr _ \<Rightarrow> Inr ())"
        using run get Inr False up by (auto simp: upsert_def no_answer_def split: sum.splits)
      have good: "\<exists>o'. q = Inr o'" if "reliable K c objs"
      proof -
        have "objs w1 (okey K (put new found)) = Some found" using cur by (simp add: okey_put fkey)
        with that up show ?thesis unfolding reliable_def by (metis put_meta prod.inject)
      qed
      show ?thesis
      proof (cases q)
        case (Inl e)
        with r U(1,2) G(1,2) good show ?thesis by auto
      next
        case (Inr o')
        with U(4) have "objs w' = (objs w)(key \<mapsto> o')" and "put new o' = o'"
          using r G(1) put_same [of o' new found] by auto
        with r U(1) G(2) Inr show ?thesis unfolding stored_spec_def by auto
      qed
    qed
  qed
  then show "rest w' = rest w" "r = Inl e \<Longrightarrow> objs w' = objs w"
    "r = Inr u \<Longrightarrow> stored_spec put new key (objs w) (objs w')" "reliable K c objs \<Longrightarrow> \<exists>u. r = Inr u"
    by auto
qed

lemma retried_upsert:
  fixes new :: 'o
  assumes ok: "kube_ok K c objs rest" and key: "okey K new = key"
    and same: "\<forall>found. same found \<longrightarrow> put new found = found"
    and run: "retried c x (upsert (kGet c key) (no_answer (kCreate c new)) same
      (\<lambda>found. no_answer (kUpdate c (put new found)))) w = (r, w')"
  shows "r = Inr ()" and "rest w' = rest w"
    and "objs w' = objs w \<or> stored_spec put new key (objs w) (objs w')"
    and "reliable K c objs \<Longrightarrow> stored_spec put new key (objs w) (objs w')"
proof -
  define fn where "fn = upsert (kGet c key) (no_answer (kCreate c new)) same
      (\<lambda>found. no_answer (kUpdate c (put new found)))"
  define cl where "cl = (\<lambda>(y :: 'o) v. case fn v of (r, v') \<Rightarrow> (r, y, v'))"
  note C = upsert_cases [OF ok key same, folded fn_def]
  obtain q x' w1 where re: "kRetry c cl x w = (q, x', w1)" by (cases "kRetry c cl x w") auto
  have r: "r = Inr ()" "w' = w1" using run re by (simp_all add: retried_def fn_def cl_def)
  have "rest w1 = rest w \<and> (case q of Inl _ \<Rightarrow> objs w1 = objs w \<and> \<not> reliable K c objs
      | Inr _ \<Rightarrow> stored_spec put new key (objs w) (objs w1))"
  proof (rule retry_ok_invariant [where c = c and f = cl and x = x and w = w
        and I = "\<lambda>x v. objs v = objs w \<and> rest v = rest w"
        and Q = "\<lambda>q x' w1. rest w1 = rest w \<and> (case q of Inl _ \<Rightarrow> objs w1 = objs w \<and> \<not> reliable K c objs
      | Inr _ \<Rightarrow> stored_spec put new key (objs w) (objs w1))"])
    show "retry_ok c" using ok by (simp add: kube_ok_def)
    show "kRetry c cl x w = (q, x', w1)" by (rule re)
  next
    fix y v p y1 v1
    assume I: "objs v = objs w \<and> rest v = rest w" and step: "cl y v = (p, y1, v1)"
    from step have fn: "fn v = (p, v1)" by (auto simp: cl_def split: prod.splits)
    show "objs v1 = objs w \<and> rest v1 = rest w" if "p = Inl Conflict"
      using C(1,2) [OF fn] that I by simp
    show "rest v1 = rest w \<and> (case p of Inl _ \<Rightarrow> objs v1 = objs w \<and> \<not> reliable K c objs
      | Inr _ \<Rightarrow> stored_spec put new key (objs w) (objs v1))"
      using C [OF fn] I by (cases p) auto
  qed simp
  then show "r = Inr ()" "rest w' = rest w"
    "objs w' = objs w \<or> stored_spec put new key (objs w) (objs w')"
    "reliable K c objs \<Longrightarrow> stored_spec put new key (objs w) (objs w')"
    using r by (cases q; simp)+
qed

end

definition put_cs :: "ConfiguredService \<Rightarrow> ConfiguredService \<Rightarrow> ConfiguredService" where
  "put_cs new found = found\<lparr>cs_Spec := cs_Spec new\<rparr>"

definition put_sc :: "ServiceConfig \<Rightarrow> ServiceConfig \<Rightarrow> ServiceConfig" where
  "put_sc new found = found\<lparr>sc_Spec := sc_Spec new\<rparr>"

definition put_sa :: "ServiceAccessor \<Rightarrow> ServiceAccessor \<Rightarrow> ServiceAccessor" where
  "put_sa new found = found\<lparr>sa_Spec := sa_Spec new\<rparr>"

interpretation cs_sp: spec_kind cs_kind put_cs by unfold_locales (auto simp: cs_kind_def put_cs_def)
interpretation sc_sp: spec_kind sc_kind put_sc by unfold_locales (auto simp: sc_kind_def put_sc_def)
interpretation sa_sp: spec_kind sa_kind put_sa by unfold_locales (auto simp: sa_kind_def put_sa_def)

section \<open>Services, configurations and accessors\<close>

lemma sh_ReplaceInstances_run:
  assumes "api_ok api view" and "ToConfiguredService defaultNamespace event = Some cs"
    and "sh_ReplaceInstances api event w = (x, w')"
  shows "x = Inr () \<and> view w' = (view w)\<lparr>c_ConfiguredService := c_ConfiguredService (view w')\<rparr> \<and>
    (c_ConfiguredService (view w') = c_ConfiguredService (view w) \<and>
       \<not> reliable cs_kind (ap_ConfiguredService api) (\<lambda>w. c_ConfiguredService (view w)) \<or>
     stored_spec put_cs cs (defaultNamespace, om_Name (cs_Meta cs))
       (c_ConfiguredService (view w)) (c_ConfiguredService (view w')))"
proof -
  have ns: "om_Namespace (cs_Meta cs) = defaultNamespace"
    using assms(2) by (auto simp: ToConfiguredService_def)
  have key: "okey cs_kind cs = (defaultNamespace, om_Name (cs_Meta cs))"
    by (simp add: okey_def cs_kind_def ns)
  have run: "retried (ap_ConfiguredService api) cs (upsert (kGet (ap_ConfiguredService api) (defaultNamespace, om_Name (cs_Meta cs)))
      (no_answer (kCreate (ap_ConfiguredService api) cs)) (\<lambda>_. False)
      (\<lambda>found. no_answer (kUpdate (ap_ConfiguredService api) (put_cs cs found)))) w = (x, w')"
    using assms(2,3) by (simp add: sh_ReplaceInstances_def gbind_def orPanic_def ns getConfiguredService_def
        createConfiguredService_def updateConfiguredService_def put_cs_def)
  note R = cs_sp.retried_upsert [OF api_ok_cs [OF assms(1)] key _ run, simplified]
  have frame: "view w' = (view w)\<lparr>c_ConfiguredService := c_ConfiguredService (view w')\<rparr>"
    using R(2) unfolding only_changed .
  show ?thesis using R(1,3,4) by (intro conjI frame) auto
qed

text \<open>
  C19: an event with the instances of a service is written in one step or not at all: the handler does
  not fail, and afterwards the ConfiguredService of the service is unchanged or stored with exactly the
  converted instances (and it is stored when the API takes what is up to date); no other object of
  the cluster changes, and the repeated attempts after a conflict do not write anything else.
\<close>

theorem sh_ReplaceInstances_stores:
  assumes "api_ok api view" and "ToConfiguredService defaultNamespace event = Some cs"
    and "sh_ReplaceInstances api event w = (x, w')"
  shows "x = Inr () \<and> view w' = (view w)\<lparr>c_ConfiguredService := c_ConfiguredService (view w')\<rparr> \<and>
    (c_ConfiguredService (view w') = c_ConfiguredService (view w) \<and>
       \<not> reliable cs_kind (ap_ConfiguredService api) (\<lambda>w. c_ConfiguredService (view w)) \<or>
     stored_spec put_cs cs (defaultNamespace, om_Name (cs_Meta cs))
       (c_ConfiguredService (view w)) (c_ConfiguredService (view w')))"
  by (rule sh_ReplaceInstances_run [OF assms])

lemma sh_ChangeConfigEntry_run:
  assumes "api_ok api view" and "ToServiceConfig unmarshal defaultNamespace (ce_ConfigEntry e) = Some (Some sc)"
    and "sh_ChangeConfigEntry api unmarshal e w = (x, w')"
  shows "x = Inr () \<and> view w' = (view w)\<lparr>c_ServiceConfig := c_ServiceConfig (view w')\<rparr> \<and>
    (c_ServiceConfig (view w') = c_ServiceConfig (view w) \<and>
       \<not> reliable sc_kind (ap_ServiceConfig api) (\<lambda>w. c_ServiceConfig (view w)) \<or>
     stored_spec put_sc sc (defaultNamespace, om_Name (sc_Meta sc))
       (c_ServiceConfig (view w)) (c_ServiceConfig (view w')))"
proof -
  obtain cc where cc: "ce_ConfigEntry e = Some cc" and meta: "sc_Meta sc = new_meta (FormatToDNS1123 (cc_Key cc)) defaultNamespace []"
    using assms(2) by (auto simp: ToServiceConfig_def bind_eq_Some_conv split: option.splits if_splits)
  have name: "FormatToDNS1123 (om_Name (sc_Meta sc)) = om_Name (sc_Meta sc)"
    by (simp add: meta FormatToDNS1123_idem)
  have key: "okey sc_kind sc = (defaultNamespace, om_Name (sc_Meta sc))"
    by (simp add: okey_def sc_kind_def meta)
  have run: "retried (ap_ServiceConfig api) sc (upsert (kGet (ap_ServiceConfig api) (defaultNamespace, om_Name (sc_Meta sc)))
      (no_answer (kCreate (ap_ServiceConfig api) sc)) (\<lambda>_. False)
      (\<lambda>found. no_answer (kUpdate (ap_ServiceConfig api) (put_sc sc found)))) w = (x, w')"
    using assms(2,3) by (simp add: sh_ChangeConfigEntry_def gbind_def orPanic_def name getServiceConfig_def
        createServiceConfig_def updateServiceConfig_def put_sc_def)
  note R = sc_sp.retried_upsert [OF api_ok_sc [OF assms(1)] key _ run, simplified]
  have frame: "view w' = (view w)\<lparr>c_ServiceConfig := c_ServiceConfig (view w')\<rparr>"
    using R(2) unfolding only_changed .
  show ?thesis using R(1,3,4) by (intro conjI frame) auto
qed

text \<open>
  An added or changed configuration is written in the same way, as the ServiceConfig of the service
  its key names.
\<close>

theorem sh_ChangeConfigEntry_stores:
  assumes "api_ok api view" and "ToServiceConfig unmarshal defaultNamespace (ce_ConfigEntry e) = Some (Some sc)"
    and "sh_ChangeConfigEntry api unmarshal e w = (x, w')"
  shows "x = Inr () \<and> view w' = (view w)\<lparr>c_ServiceConfig := c_ServiceConfig (view w')\<rparr> \<and>
    (c_ServiceConfig (view w') = c_ServiceConfig (view w) \<and>
       \<not> reliable sc_kind (ap_ServiceConfig api) (\<lambda>w. c_ServiceConfig (view w)) \<or>
     stored_spec put_sc sc (defaultNamespace, om_Name (sc_Meta sc))
       (c_ServiceConfig (view w)) (c_ServiceConfig (view w')))"
  by (rule sh_ChangeConfigEntry_run [OF assms])

lemma sh_ReplaceScope_cases:
  fixes f :: "string \<Rightarrow> string list"
  assumes ok: "api_ok api view" and run: "sh_ReplaceScope api f scope w = (x, w')"
  defines "key \<equiv> (defaultNamespace, FormatToDNS1123 scope)"
  shows "x = Inr ()" and "view w' = (view w)\<lparr>c_ServiceAccessor := c_ServiceAccessor (view w')\<rparr>"
    and "k \<noteq> key \<Longrightarrow> c_ServiceAccessor (view w') k = c_ServiceAccessor (view w) k"
    and "reliable sa_kind (ap_ServiceAccessor api) (\<lambda>w. c_ServiceAccessor (view w)) \<Longrightarrow>
      \<exists>sa. c_ServiceAccessor (view w') key = Some sa \<and> sa_Spec sa = sa_Spec (scoped_accessor scope (f scope))"
proof -
  define sas where "sas = scoped_accessor scope (f scope)"
  have meta: "sa_Meta sas = new_meta (FormatToDNS1123 scope) defaultNamespace []"
    by (simp add: sas_def scoped_accessor_def)
  have k: "okey sa_kind sas = key" by (simp add: okey_def sa_kind_def meta key_def)
  have run': "retried (ap_ServiceAccessor api) sas (upsert (kGet (ap_ServiceAccessor api) key)
      (no_answer (kCreate (ap_ServiceAccessor api) sas)) (\<lambda>found. sa_Spec found = sa_Spec sas)
      (\<lambda>found. no_answer (kUpdate (ap_ServiceAccessor api) (put_sa sas found)))) w = (x, w')"
    using run by (simp add: sh_ReplaceScope_def sas_def [symmetric] Let_def getScopedAccessServices_def meta
        createScopedAccessServices_def updateScopedAccessServices_def put_sa_def key_def)
  have same: "\<forall>found. sa_Spec found = sa_Spec sas \<longrightarrow> put_sa sas found = found"
    by (auto simp: put_sa_def)
  note R = sa_sp.retried_upsert [OF api_ok_sa [OF ok] k same run']
  show "x = Inr ()" by (rule R(1))
  show "view w' = (view w)\<lparr>c_ServiceAccessor := c_ServiceAccessor (view w')\<rparr>"
    using R(2) unfolding only_changed .
  show "c_ServiceAccessor (view w') k = c_ServiceAccessor (view w) k" if "k \<noteq> key"
    using R(3) that unfolding stored_spec_def by (metis fun_upd_other)
  show "\<exists>sa. c_ServiceAccessor (view w') key = Some sa \<and> sa_Spec sa = sa_Spec (scoped_accessor scope (f scope))"
    if "reliable sa_kind (ap_ServiceAccessor api) (\<lambda>w. c_ServiceAccessor (view w))"
  proof -
    from R(4) [OF that] obtain o' where "c_ServiceAccessor (view w') = (c_ServiceAccessor (view w))(key \<mapsto> o')"
      and "put_sa sas o' = o'" unfolding stored_spec_def by blast
    then have "c_ServiceAccessor (view w') key = Some o'" and "sa_Spec o' = sa_Spec sas"
      by (simp_all add: put_sa_def) (metis ServiceAccessor.select_convs(2) ServiceAccessor.surjective ServiceAccessor.update_convs(2))
    then show ?thesis by (auto simp: sas_def)
  qed
qed

definition scope_key :: "string \<Rightarrow> nsname" where
  "scope_key scope = (defaultNamespace, FormatToDNS1123 scope)"

lemma sh_ReplaceScopes_loop:
  assumes ok: "api_ok api view" and run: "gforeach (sh_ReplaceScope api f) scopes w = (x, w')"
  shows "x = Inr () \<and> view w' = (view w)\<lparr>c_ServiceAccessor := c_ServiceAccessor (view w')\<rparr> \<and>
    (\<forall>k. k \<notin> scope_key ` set scopes \<longrightarrow> c_ServiceAccessor (view w') k = c_ServiceAccessor (view w) k) \<and>
    (reliable sa_kind (ap_ServiceAccessor api) (\<lambda>w. c_ServiceAccessor (view w)) \<longrightarrow>
     distinct (map FormatToDNS1123 scopes) \<longrightarrow>
     (\<forall>scope \<in> set scopes. \<exists>sa. c_ServiceAccessor (view w') (scope_key scope) = Some sa \<and>
        sa_AccessHosts (sa_Spec sa) = sort (f scope)))"
  using run
proof (induction scopes arbitrary: w)
  case Nil
  then show ?case by simp
next
  case (Cons s scopes)
  obtain y w1 where step: "sh_ReplaceScope api f s w = (y, w1)" by fastforce
  note S = sh_ReplaceScope_cases [OF ok step, folded scope_key_def]
  from Cons.prems step S(1) have tl: "gforeach (sh_ReplaceScope api f) scopes w1 = (x, w')" by simp
  note I = Cons.IH [OF tl]
  from I have I1: "x = Inr ()" by (elim conjE)
  from I have I2: "view w' = (view w1)\<lparr>c_ServiceAccessor := c_ServiceAccessor (view w')\<rparr>" by (elim conjE)
  from I have I3: "\<forall>k. k \<notin> scope_key ` set scopes \<longrightarrow>
      c_ServiceAccessor (view w') k = c_ServiceAccessor (view w1) k" by (elim conjE)
  from I have I4: "reliable sa_kind (ap_ServiceAccessor api) (\<lambda>w. c_ServiceAccessor (view w)) \<longrightarrow>
     distinct (map FormatToDNS1123 scopes) \<longrightarrow>
     (\<forall>scope \<in> set scopes. \<exists>sa. c_ServiceAccessor (view w') (scope_key scope) = Some sa \<and>
        sa_AccessHosts (sa_Spec sa) = sort (f scope))" by (elim conjE)
  have frame: "view w' = (view w)\<lparr>c_ServiceAccessor := c_ServiceAccessor (view w')\<rparr>"
    by (rule only_changed_trans(4) [OF I2 S(2)])
  have others: "\<forall>k. k \<notin> scope_key ` set (s # scopes) \<longrightarrow>
      c_ServiceAccessor (view w') k = c_ServiceAccessor (view w) k"
  proof (intro allI impI)
    fix k
    assume "k \<notin> scope_key ` set (s # scopes)"
    then have "k \<noteq> scope_key s" and "k \<notin> scope_key ` set scopes" by auto
    with I3 S(3) show "c_ServiceAccessor (view w') k = c_ServiceAccessor (view w) k" by metis
  qed
  have stored: "\<forall>scope \<in> set (s # scopes). \<exists>sa. c_ServiceAccessor (view w') (scope_key scope) = Some sa \<and>
        sa_AccessHosts (sa_Spec sa) = sort (f scope)"
    if rel: "reliable sa_kind (ap_ServiceAccessor api) (\<lambda>w. c_ServiceAccessor (view w))"
      and dist: "distinct (map FormatToDNS1123 (s # scopes))"
  proof -
    have "scope_key s \<notin> scope_key ` set scopes" using dist by (auto simp: scope_key_def)
    then have "c_ServiceAccessor (view w') (scope_key s) = c_ServiceAccessor (view w1) (scope_key s)"
      by (rule I3 [rule_format])
    with S(4) [OF rel] have "\<exists>sa. c_ServiceAccessor (view w') (scope_key s) = Some sa \<and>
        sa_AccessHosts (sa_Spec sa) = sort (f s)" by (auto simp: scoped_accessor_def)
    moreover have "distinct (map FormatToDNS1123 scopes)" using dist by simp
    ultimately show ?thesis using I4 rel by simp
  qed
  show ?case by (intro conjI impI I1 frame others stored)
qed

text \<open>
  C16: when the accessors of a service change, the ServiceAccessors of the scopes concerned, and no
  others, are brought in line with the registry: when the API takes what is up to date and no two of
  the scopes have the same normal form, each lists exactly the services its scope accesses, sorted.
\<close>

theorem sh_ReplaceAccessorInstances_scopes:
  assumes "api_ok api view" and "sh_ReplaceAccessorInstances api e f w = (x, w')"
  shows "x = Inr () \<and> view w' = (view w)\<lparr>c_ServiceAccessor := c_ServiceAccessor (view w')\<rparr> \<and>
    (\<forall>k. k \<notin> scope_key ` set (changed_scopes e) \<longrightarrow>
       c_ServiceAccessor (view w') k = c_ServiceAccessor (view w) k) \<and>
    (reliable sa_kind (ap_ServiceAccessor api) (\<lambda>w. c_ServiceAccessor (view w)) \<longrightarrow>
     distinct (map FormatToDNS1123 (changed_scopes e)) \<longrightarrow>
     (\<forall>scope \<in> set (changed_scopes e). \<exists>sa.
        c_ServiceAccessor (view w') (scope_key scope) = Some sa \<and>
        sa_AccessHosts (sa_Spec sa) = sort (f scope)))"
  by (rule sh_ReplaceScopes_loop [OF assms(1) assms(2) [unfolded sh_ReplaceAccessorInstances_def]])

section \<open>Runs\<close>

definition demo_converted :: ConfiguredService where
  "demo_converted = the (ToConfiguredService defaultNamespace demo_event)"

lemma demo_converted: "ToConfiguredService defaultNamespace demo_event = Some demo_converted"
  by (simp add: demo_converted_def ToConfiguredService_def demo_event_def)

lemma replace_run: "sh_ReplaceInstances mem_api demo_event empty_world =
    (fst (sh_ReplaceInstances mem_api demo_event empty_world), snd (sh_ReplaceInstances mem_api demo_event empty_world))"
  by simp

lemma mem_cs_reliable: "reliable cs_kind (ap_ConfiguredService mem_api) (\<lambda>w. c_ConfiguredService (mem_view w))"
  "reliable sc_kind (ap_ServiceConfig mem_api) (\<lambda>w. c_ServiceConfig (mem_view w))"
  "reliable sa_kind (ap_ServiceAccessor mem_api) (\<lambda>w. c_ServiceAccessor (mem_view w))"
  by (simp_all add: mem_api_def mem_view_def mem_reliable)

theorem sh_ReplaceInstances_stores_witness:
  "stored_spec put_cs demo_converted (defaultNamespace, om_Name (cs_Meta demo_converted))
    (c_ConfiguredService (mem_view empty_world))
    (c_ConfiguredService (mem_view (snd (sh_ReplaceInstances mem_api demo_event empty_world))))"
  using sh_ReplaceInstances_stores [OF mem_api_ok demo_converted replace_run] mem_cs_reliable(1) by blast

definition demo_entry :: ConfigEvent where
  "demo_entry = \<lparr>ce_EventType = ConfigEntryAdded, ce_Path = ''/dubbo/config/dubbo/com.foo.Svc.configurators'',
     ce_ConfigEntry = Some (demo_config [demo_item True [''0.0.0.0''] [(''timeout'', ''2s'')],
       demo_item True [''10.0.0.1:20880''] [(''weight'', ''40'')]])\<rparr>"

definition demo_sconfig :: ServiceConfig where
  "demo_sconfig = the (the (ToServiceConfig (\<lambda>_. None) defaultNamespace (ce_ConfigEntry demo_entry)))"

lemma demo_sconfig: "ToServiceConfig (\<lambda>_. None) defaultNamespace (ce_ConfigEntry demo_entry) = Some (Some demo_sconfig)"
  by (simp add: demo_sconfig_def ToServiceConfig_def demo_entry_def demo_config_def demo_item_def
      config_routes_def findFlagConfig_def findConfig_def)

theorem sh_ChangeConfigEntry_stores_witness:
  "stored_spec put_sc demo_sconfig (defaultNamespace, om_Name (sc_Meta demo_sconfig))
    (c_ServiceConfig (mem_view empty_world))
    (c_ServiceConfig (mem_view (snd (sh_ChangeConfigEntry mem_api (\<lambda>_. None) demo_entry empty_world))))"
  using sh_ChangeConfigEntry_stores [OF mem_api_ok demo_sconfig, of empty_world
      "fst (sh_ChangeConfigEntry mem_api (\<lambda>_. None) demo_entry empty_world)"
      "snd (sh_ChangeConfigEntry mem_api (\<lambda>_. None) demo_entry empty_world)"] mem_cs_reliable(2) by simp

definition demo_access :: ServiceEvent where
  "demo_access = demo_event\<lparr>ev_Instances :=
     [(''a'', \<lparr>di_Service = None, di_Host = ''10.0.0.9'', di_Port = None, di_Labels = [(''app'', ''shop'')]\<rparr>)]\<rparr>"

theorem sh_ReplaceAccessorInstances_scopes_witness:
  "\<exists>sa. c_ServiceAccessor (mem_view (snd (sh_ReplaceAccessorInstances mem_api demo_access
      (\<lambda>_. [''com.foo.Svc'', ''com.bar.Svc'']) empty_world))) (defaultNamespace, ''shop'') = Some sa \<and>
    sa_AccessHosts (sa_Spec sa) = [''com.bar.Svc'', ''com.foo.Svc'']"
proof -
  have scopes: "changed_scopes demo_access = [''shop'']"
    by (simp add: changed_scopes_def demo_access_def List.map_filter_def)
  have "FormatToDNS1123 ''shop'' = ''shop''" by code_simp
  moreover have "sort [''com.foo.Svc'', ''com.bar.Svc''] = [''com.bar.Svc'', ''com.foo.Svc'']" by code_simp
  ultimately show ?thesis
    using sh_ReplaceAccessorInstances_scopes [OF mem_api_ok, of demo_access "\<lambda>_. [''com.foo.Svc'', ''com.bar.Svc'']"
        empty_world "fst (sh_ReplaceAccessorInstances mem_api demo_access (\<lambda>_. [''com.foo.Svc'', ''com.bar.Svc'']) empty_world)"
        "snd (sh_ReplaceAccessorInstances mem_api demo_access (\<lambda>_. [''com.foo.Svc'', ''com.bar.Svc'']) empty_world)"]
      mem_cs_reliable(3) by (simp add: scopes scope_key_def)
qed

end
