(* ===== verification/PathCache.thy ===== *)
theory PathCache
  imports AdapterTypes "HOL-Library.Multiset"
begin

text \<open>
  \<^verbatim>\<open>pkg/adapter/zookeeper\<close>: the cache of a ZooKeeper path. The connection is a parameter. What the code
  hands to its worker pool (waiting for a watch, announcing a child, sending a notification) is a
  bag of pending tasks; the goroutine of the cache takes one message at a time, in any order of the
  tasks that are ready, which is the step relation.
\<close>

section \<open>ZooKeeper and tasks\<close>

record acl =
  acl_Perms :: int
  acl_Scheme :: string
  acl_ID :: string

text \<open>
  What the code uses of a connection: whether a read that sets a watch succeeds, the children of a
  node, the creation of a node, and a transaction of creations with the number of its results.
  \<open>zk_expires\<close> says that the session may be lost: the library then ends every watch, with an event that
  is none of the node's (\<open>EventNotWatching\<close>) or with a closed channel.
\<close>

record 'w zkconn =
  zk_GetW :: "string \<Rightarrow> 'w \<Rightarrow> bool \<times> 'w"
  zk_ChildrenW :: "string \<Rightarrow> 'w \<Rightarrow> string list option \<times> 'w"
  zk_Create :: "string \<Rightarrow> acl list \<Rightarrow> 'w \<Rightarrow> bool \<times> 'w"
  zk_Multi :: "(string \<times> acl list) list \<Rightarrow> 'w \<Rightarrow> nat option \<times> 'w"
  zk_expires :: bool

datatype zk_event =
    EventNodeDataChanged string
  | EventNodeChildrenChanged string
  | EventNodeDeleted string
  | EventOther string

datatype PathCacheEvent =
    PathCacheEventAdded string
  | PathCacheEventDeleted string
  | PathCacheEventChanged string
  | PathCacheEventChildrenReplaced "string list"

text \<open>A one-shot watch set by \<open>ChildrenW\<close> or \<open>GetW\<close>, and the tasks of the worker pool.\<close>

datatype watch = ChildWatch string | NodeWatch string

datatype task = Forward watch | AddChild string | Notify PathCacheEvent | StopRequest

record path_cache =
  pc_Path :: string
  pc_Cached :: "(string, bool) gomap"
  pc_zkEventCounter :: int64
  pc_autoFillNode :: bool
  pc_running :: bool
  pc_tasks :: "task multiset"

definition PermAll :: int where "PermAll = 31"

definition worldACL :: "int \<Rightarrow> acl list" where
  "worldACL perms = [\<lparr>acl_Perms = perms, acl_Scheme = ''world'', acl_ID = ''anyone''\<rparr>]"

section \<open>Operations\<close>

definition deepCopySlice :: "string list \<Rightarrow> string list" where
  "deepCopySlice src = (if length src < 1 then [] else map (\<lambda>s. s) src)"

definition schedule :: "task \<Rightarrow> path_cache \<Rightarrow> path_cache" where
  "schedule t p = p\<lparr>pc_tasks := add_mset t (pc_tasks p)\<rparr>"

definition set_cached :: "string \<Rightarrow> bool \<Rightarrow> path_cache \<Rightarrow> path_cache" where
  "set_cached k b p = p\<lparr>pc_Cached := map_put k b (pc_Cached p)\<rparr>"

text \<open>\<open>watch\<close>: set a watch on a node and wait for it; false when that fails.\<close>

definition pc_watch :: "'w zkconn \<Rightarrow> string \<Rightarrow> path_cache \<times> 'w \<Rightarrow> bool \<times> path_cache \<times> 'w" where
  "pc_watch conn path pw =
     (case pw of (p, w) \<Rightarrow>
        case zk_GetW conn path w of (ok, w') \<Rightarrow>
          if ok then (True, schedule (Forward (NodeWatch path)) p, w') else (False, p, w'))"

definition pc_watchAndAddChildren :: "'w zkconn \<Rightarrow> path_cache \<times> 'w \<Rightarrow> bool \<times> path_cache \<times> 'w" where
  "pc_watchAndAddChildren conn pw =
     (case pw of (p, w) \<Rightarrow>
        case zk_ChildrenW conn (pc_Path p) w of
          (None, w') \<Rightarrow> (False, p, w')
        | (Some cch, w') \<Rightarrow>
            (let children = deepCopySlice cch;
                 p = schedule (Forward (ChildWatch (pc_Path p))) p;
                 p = fold (\<lambda>child p.
                       let fp = Join (pc_Path p) child in
                       if \<not> lookup_zero False (pc_Cached p) fp then schedule (AddChild fp) p else p) children p
             in (True, p, w')))"

definition pc_watchChildren :: "'w zkconn \<Rightarrow> path_cache \<times> 'w \<Rightarrow> bool \<times> path_cache \<times> 'w" where
  "pc_watchChildren conn pw =
     (case pw of (p, w) \<Rightarrow>
        case zk_ChildrenW conn (pc_Path p) w of
          (None, w') \<Rightarrow> (False, p, w')
        | (Some cch, w') \<Rightarrow>
            (let children = deepCopySlice cch;
                 p = p\<lparr>pc_Cached := fold (\<lambda>child cached. map_put child True cached) children []\<rparr>;
                 p = schedule (Forward (ChildWatch (pc_Path p))) p;
                 p = schedule (Notify (PathCacheEventChildrenReplaced children)) p
             in (True, p, w')))"

definition pc_onChildAdd :: "'w zkconn \<Rightarrow> string \<Rightarrow> path_cache \<times> 'w \<Rightarrow> path_cache \<times> 'w" where
  "pc_onChildAdd conn child pw =
     (case pc_watch conn child pw of
        (False, p, w') \<Rightarrow> (p, w')
      | (True, p, w') \<Rightarrow> (schedule (Notify (PathCacheEventAdded child)) (set_cached child True p), w'))"

definition pc_onChildDeleted :: "string \<Rightarrow> path_cache \<Rightarrow> path_cache" where
  "pc_onChildDeleted child p = schedule (Notify (PathCacheEventDeleted child)) (set_cached child False p)"

definition pc_onNodeChanged :: "'w zkconn \<Rightarrow> string \<Rightarrow> path_cache \<times> 'w \<Rightarrow> path_cache \<times> 'w" where
  "pc_onNodeChanged conn path pw =
     (case pw of (p, w) \<Rightarrow>
        case zk_GetW conn path w of (ok, w') \<Rightarrow>
          (schedule (Notify (PathCacheEventChanged path))
             (if ok then schedule (Forward (NodeWatch path)) p else p), w'))"

definition pc_onEvent :: "'w zkconn \<Rightarrow> bool \<Rightarrow> zk_event \<Rightarrow> path_cache \<times> 'w \<Rightarrow> path_cache \<times> 'w" where
  "pc_onEvent conn isSvcPath event pw =
     (let (p, w) =
        (case event of
           EventNodeDataChanged path \<Rightarrow> pc_onNodeChanged conn path pw
         | EventNodeChildrenChanged path \<Rightarrow>
             snd (if isSvcPath then pc_watchAndAddChildren conn pw else pc_watchChildren conn pw)
         | EventNodeDeleted path \<Rightarrow> (case pw of (p, w) \<Rightarrow> (pc_onChildDeleted path p, w))
         | EventOther path \<Rightarrow> pw)
      in (p\<lparr>pc_zkEventCounter := pc_zkEventCounter p + 1\<rparr>, w))"

definition zk_create :: "'w zkconn \<Rightarrow> string \<Rightarrow> 'w \<Rightarrow> bool \<times> 'w" where
  "zk_create conn path w = zk_Create conn path (worldACL PermAll) w"

text \<open>\<open>NewPathCache\<close>: no cache when the children cannot be watched; a failed creation is only logged.\<close>

definition NewPathCache ::
  "'w zkconn \<Rightarrow> string \<Rightarrow> bool \<Rightarrow> bool \<Rightarrow> 'w \<Rightarrow> path_cache option \<times> 'w" where
  "NewPathCache conn path isSvcPath autoFillNode w =
     (let p = \<lparr>pc_Path = path, pc_Cached = [], pc_zkEventCounter = 0, pc_autoFillNode = autoFillNode,
               pc_running = True, pc_tasks = {#}\<rparr>;
          w1 = (if pc_autoFillNode p then snd (zk_create conn (pc_Path p) w) else w)
      in case (if isSvcPath then pc_watchAndAddChildren conn (p, w1) else pc_watchChildren conn (p, w1)) of
           (False, p', w') \<Rightarrow> (None, w')
         | (True, p', w') \<Rightarrow> (Some p', w'))"

text \<open>\<open>Stop\<close> asks the goroutine to end; when it does it closes the channel of the notifications.\<close>

definition pc_Stop :: "path_cache \<Rightarrow> path_cache" where "pc_Stop p = schedule StopRequest p"

definition IgnoredHostNames :: "string list" where "IgnoredHostNames = [''metadata'', ''config'']"

definition Ignore :: "string \<Rightarrow> bool" where
  "Ignore path = list_ex (\<lambda>v. EqualFold v path) IgnoredHostNames"

text \<open>The creation of a path with its ancestors in one transaction; nothing in the repository calls it.\<close>

fun ancestor_paths :: "string \<Rightarrow> string list \<Rightarrow> string list" where
  "ancestor_paths prefix [] = []"
| "ancestor_paths prefix (e # es) = (prefix @ ''/'' @ e) # ancestor_paths (prefix @ ''/'' @ e) es"

definition createRecursivelyIfNecessary :: "'w zkconn \<Rightarrow> string \<Rightarrow> 'w \<Rightarrow> bool \<times> 'w" where
  "createRecursivelyIfNecessary conn path w =
     (let path = rev (dropWhile (\<lambda>c. c = CHR ''/'') (rev path));
          elements = SplitChar (CHR ''/'') path in
      if length elements = 0 then (True, w)
      else case zk_Multi conn (map (\<lambda>p. (p, worldACL PermAll)) (ancestor_paths [] (tl elements))) w of
             (None, w') \<Rightarrow> (False, w') | (Some n, w') \<Rightarrow> (True, w'))"

section \<open>The goroutine of a cache\<close>

text \<open>
  The event that a watch can fire: a change of what it watches, the deletion of the node, or, where the
  session may be lost, any event that the cache does not support.
\<close>

fun fires :: "bool \<Rightarrow> watch \<Rightarrow> zk_event \<Rightarrow> bool" where
  "fires lost wt (EventOther q) \<longleftrightarrow> lost"
| "fires lost (ChildWatch p) e \<longleftrightarrow> e = EventNodeChildrenChanged p \<or> e = EventNodeDeleted p"
| "fires lost (NodeWatch p) e \<longleftrightarrow> e = EventNodeDataChanged p \<or> e = EventNodeDeleted p"

definition finish :: "task \<Rightarrow> path_cache \<Rightarrow> path_cache" where
  "finish t p = p\<lparr>pc_tasks := pc_tasks p - {#t#}\<rparr>"

text \<open>
  One step: the goroutine receives a child to add, an event or the request to stop, or the consumer
  receives a notification; between two steps the ensemble may change in any way and the owner may
  stop the cache. Nothing is received from a cache that has ended. A watch whose channel is closed
  without an event ends in the worker pool alone (\<open>forward\<close> with \<open>ok\<close> false).
\<close>

inductive pc_step ::
  "'w zkconn \<Rightarrow> bool \<Rightarrow> path_cache \<times> 'w \<Rightarrow> PathCacheEvent list \<Rightarrow> path_cache \<times> 'w \<Rightarrow> bool"
  for conn :: "'w zkconn" and isSvcPath :: bool where
  add: "pc_running p \<Longrightarrow> AddChild child \<in># pc_tasks p \<Longrightarrow>
    pc_step conn isSvcPath (p, w) [] (pc_onChildAdd conn child (finish (AddChild child) p, w))"
| event: "pc_running p \<Longrightarrow> Forward wt \<in># pc_tasks p \<Longrightarrow> fires (zk_expires conn) wt e \<Longrightarrow>
    pc_step conn isSvcPath (p, w) [] (pc_onEvent conn isSvcPath e (finish (Forward wt) p, w))"
| closed: "zk_expires conn \<Longrightarrow> Forward wt \<in># pc_tasks p \<Longrightarrow>
    pc_step conn isSvcPath (p, w) [] (finish (Forward wt) p, w)"
| notify: "pc_running p \<Longrightarrow> Notify e \<in># pc_tasks p \<Longrightarrow>
    pc_step conn isSvcPath (p, w) [e] (finish (Notify e) p, w)"
| stop: "pc_running p \<Longrightarrow> StopRequest \<in># pc_tasks p \<Longrightarrow>
    pc_step conn isSvcPath (p, w) [] ((finish StopRequest p)\<lparr>pc_running := False\<rparr>, w)"
| owner: "pc_step conn isSvcPath (p, w) [] (pc_Stop p, w)"
| zookeeper: "pc_step conn isSvcPath (p, w) [] (p, w')"

inductive_cases pc_stepE: "pc_step conn isSvcPath s out s'"

text \<open>Steps from a state, with the notifications the consumer receives.\<close>

inductive pc_steps ::
  "'w zkconn \<Rightarrow> bool \<Rightarrow> path_cache \<times> 'w \<Rightarrow> PathCacheEvent list \<Rightarrow> path_cache \<times> 'w \<Rightarrow> bool"
  for conn :: "'w zkconn" and isSvcPath :: bool and s :: "path_cache \<times> 'w" where
  start: "pc_steps conn isSvcPath s [] s"
| step: "pc_steps conn isSvcPath s outs s' \<Longrightarrow> pc_step conn isSvcPath s' out s'' \<Longrightarrow>
    pc_steps conn isSvcPath s (outs @ out) s''"

text \<open>The states of a cache from its creation on.\<close>

definition pc_run ::
  "'w zkconn \<Rightarrow> string \<Rightarrow> bool \<Rightarrow> bool \<Rightarrow> PathCacheEvent list \<Rightarrow> path_cache \<times> 'w \<Rightarrow> bool" where
  "pc_run conn path isSvcPath autoFillNode outs s \<longleftrightarrow>
     (\<exists>w p w'. NewPathCache conn path isSvcPath autoFillNode w = (Some p, w') \<and>
        pc_steps conn isSvcPath (p, w') outs s)"

text \<open>
  A send on the closed channel of the notifications panics; the worker pool recovers from it, and the
  notification is lost.
\<close>

definition pc_panics :: "path_cache \<Rightarrow> bool" where
  "pc_panics p \<longleftrightarrow> \<not> pc_running p \<and> (\<exists>e. Notify e \<in># pc_tasks p)"

section \<open>What the operations schedule\<close>

lemma schedule_simps [simp]:
  "pc_tasks (schedule t p) = add_mset t (pc_tasks p)"
  "pc_Path (schedule t p) = pc_Path p"
  "pc_Cached (schedule t p) = pc_Cached p"
  "pc_tasks (set_cached k b p) = pc_tasks p"
  "pc_Path (set_cached k b p) = pc_Path p"
  "pc_Cached (set_cached k b p) = map_put k b (pc_Cached p)"
  "pc_tasks (finish t p) = pc_tasks p - {#t#}"
  "pc_Path (finish t p) = pc_Path p"
  "pc_Cached (finish t p) = pc_Cached p"
  "pc_tasks (pc_Stop p) = add_mset StopRequest (pc_tasks p)"
  "pc_Path (pc_Stop p) = pc_Path p"
  "pc_Cached (pc_Stop p) = pc_Cached p"
  by (simp_all add: schedule_def set_cached_def finish_def pc_Stop_def)

lemma deepCopySlice_id [simp]: "deepCopySlice src = src"
  by (cases src) (simp_all add: deepCopySlice_def)

text \<open>The children that are not cached, announced one by one.\<close>

definition new_children :: "path_cache \<Rightarrow> string list \<Rightarrow> string list" where
  "new_children p children =
     filter (\<lambda>fp. \<not> lookup_zero False (pc_Cached p) fp) (map (Join (pc_Path p)) children)"

lemma announce_children:
  "fold (\<lambda>child p. let fp = Join (pc_Path p) child in
       if \<not> lookup_zero False (pc_Cached p) fp then schedule (AddChild fp) p else p) children p =
     p\<lparr>pc_tasks := pc_tasks p + mset (map AddChild (new_children p children))\<rparr>"
  by (induction children arbitrary: p) (simp_all add: new_children_def schedule_def Let_def)

lemma pc_watchAndAddChildren_cases:
  "pc_watchAndAddChildren conn (p, w) = (ok, p', w') \<Longrightarrow>
     pc_Path p' = pc_Path p \<and> pc_Cached p' = pc_Cached p \<and>
     (if ok then \<exists>children. pc_tasks p' = add_mset (Forward (ChildWatch (pc_Path p)))
          (pc_tasks p + mset (map AddChild (new_children p children)))
      else p' = p)"
  unfolding pc_watchAndAddChildren_def announce_children
  by (cases "zk_ChildrenW conn (pc_Path p) w"; cases "fst (zk_ChildrenW conn (pc_Path p) w)")
    (auto simp: announce_children new_children_def Let_def)

lemma pc_watchChildren_cases:
  "pc_watchChildren conn (p, w) = (ok, p', w') \<Longrightarrow>
     pc_Path p' = pc_Path p \<and>
     (if ok then \<exists>children.
        pc_tasks p' = add_mset (Notify (PathCacheEventChildrenReplaced children))
          (add_mset (Forward (ChildWatch (pc_Path p))) (pc_tasks p)) \<and>
        pc_Cached p' = fold (\<lambda>child cached. map_put child True cached) children []
      else p' = p)"
  by (cases "zk_ChildrenW conn (pc_Path p) w"; cases "fst (zk_ChildrenW conn (pc_Path p) w)")
    (auto simp: pc_watchChildren_def Let_def)

lemma pc_watch_cases:
  "pc_watch conn path (p, w) = (ok, p', w') \<Longrightarrow>
     p' = (if ok then schedule (Forward (NodeWatch path)) p else p) \<and> ok = fst (zk_GetW conn path w)"
  by (cases "zk_GetW conn path w") (auto simp: pc_watch_def split: if_splits)

section \<open>One watch on the children, and how it is lost\<close>

fun on_children :: "task \<Rightarrow> bool" where
  "on_children (Forward (ChildWatch q)) = True"
| "on_children t = False"

definition child_watches :: "path_cache \<Rightarrow> task multiset" where
  "child_watches p = filter_mset on_children (pc_tasks p)"

lemma child_watches_finish:
  "child_watches (finish t p) = child_watches p - (if on_children t then {#t#} else {#})"
  by (auto simp: child_watches_def filter_diff_mset)

lemma child_watches_simps [simp]:
  "child_watches (schedule (Forward (NodeWatch q)) p) = child_watches p"
  "child_watches (schedule (Forward (ChildWatch q)) p) = add_mset (Forward (ChildWatch q)) (child_watches p)"
  "child_watches (schedule (AddChild c) p) = child_watches p"
  "child_watches (schedule (Notify e) p) = child_watches p"
  "child_watches (set_cached k b p) = child_watches p"
  "child_watches (pc_Stop p) = child_watches p"
  "child_watches (p\<lparr>pc_running := r\<rparr>) = child_watches p"
  "child_watches (p\<lparr>pc_zkEventCounter := n\<rparr>) = child_watches p"
  by (simp_all add: child_watches_def)

text \<open>What the consumer may still hear of: the children and lists on their way to it.\<close>

fun announces :: "path_cache \<Rightarrow> PathCacheEvent \<Rightarrow> bool" where
  "announces p (PathCacheEventAdded c) \<longleftrightarrow> AddChild c \<in># pc_tasks p \<or> Notify (PathCacheEventAdded c) \<in># pc_tasks p"
| "announces p (PathCacheEventChildrenReplaced l) \<longleftrightarrow> Notify (PathCacheEventChildrenReplaced l) \<in># pc_tasks p"
| "announces p e \<longleftrightarrow> True"

lemma announces_simps [simp]:
  "announces (schedule (Forward wt) p) x \<longleftrightarrow> announces p x"
  "announces (schedule (Notify (PathCacheEventChanged c)) p) x \<longleftrightarrow> announces p x"
  "announces (schedule (Notify (PathCacheEventDeleted c)) p) x \<longleftrightarrow> announces p x"
  "announces (schedule (Notify (PathCacheEventAdded c)) p) x \<longleftrightarrow> announces p x \<or> x = PathCacheEventAdded c"
  "announces (set_cached k b p) x \<longleftrightarrow> announces p x"
  "announces (pc_Stop p) x \<longleftrightarrow> announces p x"
  "announces (p\<lparr>pc_running := r\<rparr>) x \<longleftrightarrow> announces p x"
  "announces (p\<lparr>pc_zkEventCounter := n\<rparr>) x \<longleftrightarrow> announces p x"
  by (cases x; auto)+

lemma announces_finish: "announces (finish t p) x \<Longrightarrow> announces p x"
  by (cases x) (auto dest: in_diffD)

text \<open>An event that is not about the children re-arms no watch on them and announces nothing.\<close>

lemma pc_onEvent_other:
  assumes "pc_onEvent conn isSvc e (p, w) = (p', w')" and "\<And>q. e \<noteq> EventNodeChildrenChanged q"
  shows "pc_Path p' = pc_Path p \<and> child_watches p' = child_watches p \<and> announces p' = announces p"
  using assms
  by (cases e) (auto simp: pc_onEvent_def pc_onNodeChanged_def pc_onChildDeleted_def Let_def fun_eq_iff
      split: prod.splits if_splits)

lemma child_watches_AddChild [simp]: "filter_mset on_children (mset (map AddChild cs)) = {#}"
  by (induction cs) simp_all

lemma pc_onEvent_children:
  assumes "pc_onEvent conn isSvc (EventNodeChildrenChanged q) (p, w) = (p', w')"
  shows "pc_Path p' = pc_Path p \<and>
    (child_watches p' = child_watches p \<or>
     child_watches p' = add_mset (Forward (ChildWatch (pc_Path p))) (child_watches p))"
proof -
  obtain ok p1 w1 where run: "(if isSvc then pc_watchAndAddChildren conn (p, w) else pc_watchChildren conn (p, w)) = (ok, p1, w1)"
    by (metis prod_cases3)
  with assms have p': "p' = p1\<lparr>pc_zkEventCounter := pc_zkEventCounter p1 + 1\<rparr>"
    by (simp add: pc_onEvent_def Let_def)
  have "pc_Path p1 = pc_Path p \<and> (child_watches p1 = child_watches p \<or>
     child_watches p1 = add_mset (Forward (ChildWatch (pc_Path p))) (child_watches p))"
  proof (cases isSvc)
    case True
    with run pc_watchAndAddChildren_cases [of conn p w ok p1 w1] show ?thesis
      by (auto simp: child_watches_def split: if_splits)
  next
    case False
    with run pc_watchChildren_cases [of conn p w ok p1 w1] show ?thesis
      by (auto simp: child_watches_def split: if_splits)
  qed
  then show ?thesis by (simp add: p')
qed

lemma pc_onChildAdd_cases:
  assumes "pc_onChildAdd conn c (p, w) = (p', w')"
  shows "pc_Path p' = pc_Path p \<and> child_watches p' = child_watches p \<and>
    (\<forall>x. announces p' x \<longrightarrow> announces p x \<or> x = PathCacheEventAdded c)"
  using assms
  by (auto simp: pc_onChildAdd_def dest!: pc_watch_cases split: prod.splits bool.splits if_splits)

lemma on_children_watch: "on_children t \<longleftrightarrow> (\<exists>q. t = Forward (ChildWatch q))"
  by (cases t rule: on_children.cases) auto

text \<open>At most one watch on the children is set, and it is set on the path of the cache.\<close>

definition one_child_watch :: "path_cache \<Rightarrow> bool" where
  "one_child_watch p \<longleftrightarrow> child_watches p = {#} \<or> child_watches p = {#Forward (ChildWatch (pc_Path p))#}"

lemma one_child_watch_finish: "one_child_watch p \<Longrightarrow> one_child_watch (finish t p)"
  by (cases "t = Forward (ChildWatch (pc_Path p))") (auto simp: one_child_watch_def child_watches_finish)

lemma finish_child_watch:
  assumes "one_child_watch p" and "Forward (ChildWatch q) \<in># pc_tasks p"
  shows "q = pc_Path p \<and> child_watches (finish (Forward (ChildWatch q)) p) = {#}"
proof -
  have "Forward (ChildWatch q) \<in># child_watches p" using assms(2) by (simp add: child_watches_def)
  with assms(1) show ?thesis by (auto simp: one_child_watch_def child_watches_finish)
qed

lemma one_child_watch_step:
  assumes "pc_step conn isSvc s out s'" and "one_child_watch (fst s)"
  shows "pc_Path (fst s') = pc_Path (fst s) \<and> one_child_watch (fst s')"
  using assms
proof (induction rule: pc_step.induct)
  case (add p c w)
  show ?case
    using pc_onChildAdd_cases [of conn c "finish (AddChild c) p" w] add(3)
    by (cases "pc_onChildAdd conn c (finish (AddChild c) p, w)")
      (simp add: one_child_watch_def child_watches_finish)
next
  case (event p wt e w)
  obtain p' w' where run: "pc_onEvent conn isSvc e (finish (Forward wt) p, w) = (p', w')" by fastforce
  show ?case
  proof (cases "\<exists>q. e = EventNodeChildrenChanged q")
    case True
    then obtain q where e: "e = EventNodeChildrenChanged q" by blast
    with event(3) have wt: "wt = ChildWatch q" by (cases wt) auto
    with finish_child_watch event(2,4) have "child_watches (finish (Forward wt) p) = {#}" by simp
    with pc_onEvent_children [OF run [unfolded e]] run show ?thesis by (auto simp: one_child_watch_def)
  next
    case False
    with pc_onEvent_other [OF run] have "pc_Path p' = pc_Path p \<and> child_watches p' = child_watches (finish (Forward wt) p)"
      by simp
    with one_child_watch_finish [OF event(4), of "Forward wt"] run show ?thesis by (simp add: one_child_watch_def)
  qed
next
  case (closed wt p w)
  then show ?case by (simp add: one_child_watch_finish)
qed (auto simp: one_child_watch_def child_watches_finish)

text \<open>Without a watch on the children the cache only delivers what it has scheduled before.\<close>

lemma quiet_step:
  assumes "pc_step conn isSvc s out s'" and "child_watches (fst s) = {#}"
  shows "child_watches (fst s') = {#} \<and> (\<forall>x. announces (fst s') x \<or> x \<in> set out \<longrightarrow> announces (fst s) x)"
  using assms
proof (induction rule: pc_step.induct)
  case (add p c w)
  obtain p' w' where run: "pc_onChildAdd conn c (finish (AddChild c) p, w) = (p', w')" by fastforce
  from pc_onChildAdd_cases [OF run] add(2,3) run show ?case
    by (auto simp: child_watches_finish dest: announces_finish)
next
  case (event p wt e w)
  obtain p' w' where run: "pc_onEvent conn isSvc e (finish (Forward wt) p, w) = (p', w')" by fastforce
  have wt: "\<not> on_children (Forward wt)"
    using event(2,4) by (auto simp: child_watches_def filter_mset_eq_conv)
  with event(3) have "e \<noteq> EventNodeChildrenChanged q" for q by (cases wt) auto
  from pc_onEvent_other [OF run this] run event(4) wt show ?case
    by (auto simp: child_watches_finish dest: announces_finish)
next
  case (notify p e w)
  then show ?case by (cases e) (auto simp: child_watches_finish dest: announces_finish)
qed (auto simp: child_watches_finish dest: announces_finish)

lemma quiet_steps:
  assumes "pc_steps conn isSvc s outs s'" and "child_watches (fst s) = {#}"
  shows "child_watches (fst s') = {#} \<and> (\<forall>x. announces (fst s') x \<or> x \<in> set outs \<longrightarrow> announces (fst s) x)"
  using assms
proof (induction rule: pc_steps.induct)
  case (step outs s' out s'')
  with quiet_step [OF step(2)] show ?case by auto
qed simp

lemma NewPathCache_cases:
  assumes "NewPathCache conn path isSvc auto w = (Some p, w')"
  shows "pc_Path p = path \<and> one_child_watch p \<and> (isSvc \<longrightarrow> pc_Cached p = [])"
proof -
  define p0 where "p0 = \<lparr>pc_Path = path, pc_Cached = [], pc_zkEventCounter = 0, pc_autoFillNode = auto,
               pc_running = True, pc_tasks = {#}\<rparr>"
  define w1 where "w1 = (if auto then snd (zk_create conn path w) else w)"
  have run: "(if isSvc then pc_watchAndAddChildren conn (p0, w1) else pc_watchChildren conn (p0, w1)) = (True, p, w')"
    using assms by (auto simp: NewPathCache_def Let_def p0_def w1_def split: prod.splits bool.splits if_splits)
  show ?thesis
    using run pc_watchAndAddChildren_cases [of conn p0 w1 True p w'] pc_watchChildren_cases [of conn p0 w1 True p w']
    by (auto simp: p0_def one_child_watch_def child_watches_def split: if_splits)
qed

lemma pc_run_one_watch:
  assumes "pc_run conn path isSvc auto outs s"
  shows "pc_Path (fst s) = path \<and> one_child_watch (fst s)"
proof -
  obtain w p w' where new: "NewPathCache conn path isSvc auto w = (Some p, w')"
    and steps: "pc_steps conn isSvc (p, w') outs s" using assms by (auto simp: pc_run_def)
  show ?thesis using steps
  proof (induction rule: pc_steps.induct)
    case start
    with NewPathCache_cases [OF new] show ?case by simp
  next
    case (step outs s' out s'')
    with one_child_watch_step [OF step(2)] show ?case by simp
  qed
qed

lemma pc_steps_Cons:
  assumes "pc_step conn isSvc s out s1" and "pc_steps conn isSvc s1 outs s2"
  shows "pc_steps conn isSvc s (out @ outs) s2"
  using assms(2)
proof (induction rule: pc_steps.induct)
  case start
  from pc_steps.step [OF pc_steps.start assms(1)] show ?case by simp
next
  case (step outs s' out' s'')
  from pc_steps.step [OF step(3) step(2)] show ?case by simp
qed

text \<open>
  C32: a cache whose own node is deleted is blind for good. Whatever happens afterwards, the node's creation
  anew included, the consumer is told of no child and of no list of children that was not already on
  its way when the deletion was processed, for the deletion uses up the only watch on the children.
\<close>

theorem pc_deleted_root_is_blind:
  assumes "pc_run conn path isSvc auto outs (p, w)" and "pc_running p"
    and "Forward (ChildWatch path) \<in># pc_tasks p"
    and "pc_onEvent conn isSvc (EventNodeDeleted path) (finish (Forward (ChildWatch path)) p, w) = s"
    and "pc_steps conn isSvc s later s'"
  shows "pc_steps conn isSvc (p, w) later s' \<and>
    (\<forall>c. PathCacheEventAdded c \<in> set later \<longrightarrow>
       AddChild c \<in># pc_tasks p \<or> Notify (PathCacheEventAdded c) \<in># pc_tasks p) \<and>
    (\<forall>l. PathCacheEventChildrenReplaced l \<in> set later \<longrightarrow>
       Notify (PathCacheEventChildrenReplaced l) \<in># pc_tasks p)"
proof -
  let ?p = "finish (Forward (ChildWatch path)) p"
  have "pc_Path p = path" "one_child_watch p" using pc_run_one_watch [OF assms(1)] by simp_all
  with finish_child_watch assms(3) have none: "child_watches ?p = {#}" by simp
  obtain p1 w1 where s: "s = (p1, w1)" by fastforce
  note run = assms(4) [unfolded s]
  from pc_onEvent_other [OF run] none have quiet: "child_watches (fst s) = {#}" "announces p1 = announces ?p"
    by (simp_all add: s)
  note Q = quiet_steps [OF assms(5) quiet(1)]
  have first: "pc_step conn isSvc (p, w) [] s"
    using pc_step.event [OF assms(2,3), where conn = conn and e = "EventNodeDeleted path" and w = w and isSvcPath = isSvc] assms(4) by simp
  have told: "announces p x" if "x \<in> set later" for x
    using Q that announces_finish quiet(2) by (auto simp: s)
  from pc_steps_Cons [OF first assms(5)] told [of "PathCacheEventAdded _"] told [of "PathCacheEventChildrenReplaced _"]
  show ?thesis by simp
qed

lemma in_minus_other: "a \<noteq> b \<Longrightarrow> a \<in># M - {#b#} \<longleftrightarrow> a \<in># M"
  by (simp add: in_diff_count)

section \<open>Every cached child is watched\<close>

definition cached_watched :: "path_cache \<Rightarrow> bool" where
  "cached_watched p \<longleftrightarrow> (\<forall>c. lookup_zero False (pc_Cached p) c \<longrightarrow> Forward (NodeWatch c) \<in># pc_tasks p)"

definition reads_succeed :: "'w zkconn \<Rightarrow> bool" where
  "reads_succeed conn \<longleftrightarrow> (\<forall>path w. fst (zk_GetW conn path w))"

lemma lookup_put [simp]:
  "lookup_zero z (map_put k v m) k' = (if k' = k then v else lookup_zero z m k')"
  by (simp add: lookup_zero_def map_of_put)

lemma cached_watched_step:
  assumes "reads_succeed conn" and "\<not> zk_expires conn" and "pc_step conn True s out s'"
    and "cached_watched (fst s)"
  shows "cached_watched (fst s')"
  using assms(3,4)
proof (induction rule: pc_step.induct)
  case (add p c w)
  obtain ok p1 w1 where watch: "pc_watch conn c (finish (AddChild c) p, w) = (ok, p1, w1)" by (metis prod_cases3)
  with assms(1) pc_watch_cases [OF watch] add(3) show ?case
    by (auto simp: pc_onChildAdd_def reads_succeed_def cached_watched_def in_minus_other)
next
  case (event p wt e w)
  show ?case
  proof (cases e)
    case (EventNodeDataChanged q)
    with event(3) have "wt = NodeWatch q" by (cases wt) auto
    moreover obtain w1 where "zk_GetW conn q w = (True, w1)"
      using assms(1) by (metis reads_succeed_def prod.collapse)
    ultimately show ?thesis using event(4) EventNodeDataChanged
      by (auto simp: pc_onEvent_def pc_onNodeChanged_def cached_watched_def)
        (metis in_minus_other task.inject(1) watch.inject(2))+
  next
    case (EventNodeChildrenChanged q)
    with event(3) have wt: "wt = ChildWatch q" by (cases wt) auto
    obtain ok p1 w1 where run: "pc_watchAndAddChildren conn (finish (Forward wt) p, w) = (ok, p1, w1)"
      by (metis prod_cases3)
    from pc_watchAndAddChildren_cases [OF run] run event(4) wt EventNodeChildrenChanged show ?thesis
      by (auto simp: pc_onEvent_def cached_watched_def in_minus_other split: if_splits)
  next
    case (EventNodeDeleted q)
    with event(3,4) show ?thesis
      by (cases wt) (auto simp: pc_onEvent_def pc_onChildDeleted_def cached_watched_def in_minus_other)
  next
    case (EventOther q)
    with event(3) assms(2) show ?thesis by (cases wt) auto
  qed
next
  case (closed wt p w)
  with assms(2) show ?case by simp
qed (auto simp: cached_watched_def in_minus_other)

lemma pc_run_cached_watched:
  assumes "reads_succeed conn" and "\<not> zk_expires conn" and "pc_run conn path True auto outs s"
  shows "cached_watched (fst s)"
proof -
  obtain w0 p0 w1 where new: "NewPathCache conn path True auto w0 = (Some p0, w1)"
    and steps: "pc_steps conn True (p0, w1) outs s" using assms(3) by (auto simp: pc_run_def)
  show ?thesis using steps
  proof (induction rule: pc_steps.induct)
    case start
    with NewPathCache_cases [OF new] show ?case by (simp add: cached_watched_def lookup_zero_def)
  next
    case (step outs s' out s'')
    from cached_watched_step [OF assms(1,2) step(2,3)] show ?case .
  qed
qed

text \<open>
  C12: as long as the session lives and the reads that set a watch succeed, every child that the cache of a
  service path has as present is watched, in every state that can be reached: its deletion will reach
  the cache. A lost session takes the watches and leaves the children (\<open>pc_session_loss_unnoticed\<close>).
\<close>

theorem pc_cached_children_watched:
  assumes "reads_succeed conn" and "\<not> zk_expires conn" and "pc_run conn path True auto outs (p, w)"
    and "lookup_zero False (pc_Cached p) child"
  shows "Forward (NodeWatch child) \<in># pc_tasks p"
  using pc_run_cached_watched [OF assms(1,2,3)] assms(4) by (simp add: cached_watched_def)

section \<open>A lost session\<close>

lemma pc_run_step:
  "pc_run conn path isSvc auto outs s \<Longrightarrow> pc_step conn isSvc s out s' \<Longrightarrow> pc_run conn path isSvc auto (outs @ out) s'"
  by (auto simp: pc_run_def intro: pc_steps.step)

text \<open>
  Where the session may be lost, the cache sets no new watch for one that ends with it: from every state
  there is a run to one with the same children as present and not a single watch, and there only the
  owner's request to stop and what was scheduled before can still be received.
\<close>

lemma lose_one:
  assumes "zk_expires conn" and "pc_run conn path isSvc auto outs (p, w)" and "Forward wt \<in># pc_tasks p"
    and "pc_running p"
  shows "\<exists>p'. pc_run conn path isSvc auto outs (p', w) \<and> pc_Cached p' = pc_Cached p \<and> pc_running p' \<and>
    pc_tasks p' = pc_tasks p - {#Forward wt#}"
proof -
  let ?p = "(finish (Forward wt) p)\<lparr>pc_zkEventCounter := pc_zkEventCounter (finish (Forward wt) p) + 1\<rparr>"
  have "pc_step conn isSvc (p, w) [] (pc_onEvent conn isSvc (EventOther []) (finish (Forward wt) p, w))"
    by (rule pc_step.event) (use assms in simp_all)
  from pc_run_step [OF assms(2) this] have "pc_run conn path isSvc auto outs (?p, w)" by (simp add: pc_onEvent_def)
  then show ?thesis using assms(4) by (intro exI [of _ ?p]) (simp add: finish_def)
qed

lemma pc_session_loss_unnoticed:
  assumes "zk_expires conn" and "pc_run conn path isSvc auto outs (p, w)" and "pc_running p"
  shows "\<exists>p'. pc_run conn path isSvc auto outs (p', w) \<and> pc_Cached p' = pc_Cached p \<and> pc_running p' \<and>
    (\<forall>wt. Forward wt \<notin># pc_tasks p')"
  using assms(2,3)
proof (induction "size (pc_tasks p)" arbitrary: p rule: less_induct)
  case less
  show ?case
  proof (cases "\<exists>wt. Forward wt \<in># pc_tasks p")
    case True
    then obtain wt where wt: "Forward wt \<in># pc_tasks p" ..
    from lose_one [OF assms(1) less(2) wt less(3)] obtain p1 where p1: "pc_run conn path isSvc auto outs (p1, w)"
      "pc_Cached p1 = pc_Cached p" "pc_running p1" "pc_tasks p1 = pc_tasks p - {#Forward wt#}" by blast
    with wt have "size (pc_tasks p1) < size (pc_tasks p)" by (simp add: size_Diff1_less)
    from less(1) [OF this p1(1,3)] p1(2) show ?thesis by simp
  qed (use less in blast)
qed

section \<open>Orders of delivery\<close>

text \<open>
  The notifications of a cache are sent by separate goroutines: the consumer may receive them in any order,
  and one that is on its way when the cache is stopped ends in a panic.
\<close>

lemma pc_stop_panics:
  assumes "pc_running p" and "Notify e \<in># pc_tasks p"
  shows "\<exists>p'. pc_steps conn isSvc (p, w) [] (p', w) \<and> pc_panics p'"
proof -
  let ?q = "(finish StopRequest (pc_Stop p))\<lparr>pc_running := False\<rparr>"
  have "pc_step conn isSvc (pc_Stop p, w) [] (?q, w)"
    using assms(1) by (intro pc_step.stop) (simp_all add: pc_Stop_def schedule_def)
  from pc_steps.step [OF pc_steps.step [OF pc_steps.start pc_step.owner] this]
  have "pc_steps conn isSvc (p, w) [] (?q, w)" by simp
  moreover have "pc_panics ?q" using assms(2) by (auto simp: pc_panics_def)
  ultimately show ?thesis by blast
qed

lemma cached_children:
  "lookup_zero False (fold (\<lambda>child. map_put child True) cs m) c \<longleftrightarrow> c \<in> set cs \<or> lookup_zero False m c"
  by (induction cs arbitrary: m) auto

text \<open>
  C33: the consumer can be left with an outdated list of children. When a list is still on its way and the
  children change, both notifications are pending and the newer may be received first: the
  consumer's last word is then the older list, although the cache itself holds the newer one.
\<close>

theorem pc_lists_overtake:
  assumes "pc_run conn path False auto outs (p, w)" and "pc_running p"
    and "Notify (PathCacheEventChildrenReplaced old) \<in># pc_tasks p"
    and "Forward (ChildWatch path) \<in># pc_tasks p"
    and "zk_ChildrenW conn path w = (Some new, w')"
  shows "\<exists>p'. pc_run conn path False auto
      (outs @ [PathCacheEventChildrenReplaced new, PathCacheEventChildrenReplaced old]) (p', w') \<and>
    (\<forall>c. lookup_zero False (pc_Cached p') c \<longleftrightarrow> c \<in> set new)"
proof -
  let ?fwd = "Forward (ChildWatch path)"
  let ?old = "PathCacheEventChildrenReplaced old" and ?new = "PathCacheEventChildrenReplaced new"
  have path: "pc_Path p = path" using pc_run_one_watch [OF assms(1)] by simp
  obtain p1 w1 where run: "pc_onEvent conn False (EventNodeChildrenChanged path) (finish ?fwd p, w) = (p1, w1)"
    by fastforce
  have w1: "w1 = w'" and cached: "pc_Cached p1 = fold (\<lambda>child cached. map_put child True cached) new []"
    and running: "pc_running p1"
    and tasks: "pc_tasks p1 = add_mset (Notify ?new) (add_mset ?fwd (pc_tasks p - {#?fwd#}))"
    using run path assms(2,5)
    by (auto simp: pc_onEvent_def pc_watchChildren_def Let_def schedule_def finish_def)
  let ?p2 = "finish (Notify ?new) p1"
  have "pc_step conn False (p, w) [] (p1, w')"
    using pc_step.event [OF assms(2,4), where conn = conn and e = "EventNodeChildrenChanged path" and w = w and isSvcPath = False] run w1 by simp
  moreover have "pc_step conn False (p1, w') [?new] (?p2, w')"
    using running tasks by (intro pc_step.notify) simp_all
  moreover have "pc_step conn False (?p2, w') [?old] (finish (Notify ?old) ?p2, w')"
    using running tasks assms(3) by (intro pc_step.notify) (simp_all add: finish_def in_minus_other)
  ultimately have "pc_run conn path False auto (((outs @ []) @ [?new]) @ [?old]) (finish (Notify ?old) ?p2, w')"
    using assms(1) by (intro pc_run_step)
  moreover have "lookup_zero False (pc_Cached (finish (Notify ?old) ?p2)) c \<longleftrightarrow> c \<in> set new" for c
    by (simp add: cached cached_children) (simp add: lookup_zero_def)
  ultimately show ?thesis by (intro exI [of _ "finish (Notify ?old) ?p2"]) simp
qed

section \<open>A run\<close>

text \<open>An ensemble with one child, where every call succeeds.\<close>

definition demo_zk :: "string list zkconn" where
  "demo_zk = \<lparr>zk_GetW = (\<lambda>_ w. (True, w)), zk_ChildrenW = (\<lambda>_ w. (Some w, w)),
     zk_Create = (\<lambda>_ _ w. (True, w)), zk_Multi = (\<lambda>ops w. (Some (length ops), w)),
     zk_expires = False\<rparr>"

definition demo_cache :: "bool \<Rightarrow> path_cache" where
  "demo_cache isSvc =
     (if isSvc then
        \<lparr>pc_Path = ''/dubbo'', pc_Cached = [], pc_zkEventCounter = 0, pc_autoFillNode = True, pc_running = True,
         pc_tasks = {#AddChild ''/dubbo/a'', Forward (ChildWatch ''/dubbo'')#}\<rparr>
      else
        \<lparr>pc_Path = ''/dubbo'', pc_Cached = [(''a'', True)], pc_zkEventCounter = 0, pc_autoFillNode = True,
         pc_running = True,
         pc_tasks = {#Notify (PathCacheEventChildrenReplaced [''a'']), Forward (ChildWatch ''/dubbo'')#}\<rparr>)"

lemma demo_new: "NewPathCache demo_zk ''/dubbo'' isSvc True [''a''] = (Some (demo_cache isSvc), [''a''])"
proof -
  have "Join ''/dubbo'' ''a'' = ''/dubbo/a''" by code_simp
  then show ?thesis
    by (cases isSvc) (simp_all add: NewPathCache_def demo_zk_def demo_cache_def zk_create_def pc_watchChildren_def
        pc_watchAndAddChildren_def schedule_def lookup_zero_def Let_def)
qed

lemma demo_run: "pc_run demo_zk ''/dubbo'' isSvc True [] (demo_cache isSvc, w)"
  using pc_steps.step [OF pc_steps.start pc_step.zookeeper] demo_new by (fastforce simp: pc_run_def)

theorem pc_lists_overtake_witness:
  "\<exists>p'. pc_run demo_zk ''/dubbo'' False True
      ([] @ [PathCacheEventChildrenReplaced [''a'', ''b''], PathCacheEventChildrenReplaced [''a'']]) (p', [''a'', ''b'']) \<and>
    (\<forall>c. lookup_zero False (pc_Cached p') c \<longleftrightarrow> c \<in> set [''a'', ''b''])"
  by (rule pc_lists_overtake [OF demo_run [of False "[''a'', ''b'']"]]) (simp_all add: demo_cache_def demo_zk_def)

theorem pc_cached_children_watched_witness:
  "Forward (NodeWatch ''/dubbo/a'') \<in># pc_tasks (fst (pc_onChildAdd demo_zk ''/dubbo/a''
     (finish (AddChild ''/dubbo/a'') (demo_cache True), [''a''])))"
proof -
  let ?s = "pc_onChildAdd demo_zk ''/dubbo/a'' (finish (AddChild ''/dubbo/a'') (demo_cache True), [''a''])"
  have "pc_run demo_zk ''/dubbo'' True True ([] @ []) ?s"
    by (rule pc_run_step [OF demo_run pc_step.add]) (simp_all add: demo_cache_def)
  then have "pc_run demo_zk ''/dubbo'' True True [] (fst ?s, snd ?s)" by simp
  then show ?thesis
    by (rule pc_cached_children_watched [rotated 2])
      (simp_all add: reads_succeed_def demo_zk_def pc_onChildAdd_def pc_watch_def demo_cache_def lookup_zero_def)
qed

text \<open>The node of a provider list is deleted and created again with a child: nothing is heard of it.\<close>

theorem pc_deleted_root_is_blind_witness:
  "PathCacheEventChildrenReplaced [''a''] \<in> set [PathCacheEventChildrenReplaced [''a'']] \<and>
   Notify (PathCacheEventChildrenReplaced [''a'']) \<in># pc_tasks (demo_cache False)"
proof -
  let ?p = "demo_cache False" and ?a = "PathCacheEventChildrenReplaced [''a'']"
  let ?s = "pc_onEvent demo_zk False (EventNodeDeleted ''/dubbo'') (finish (Forward (ChildWatch ''/dubbo'')) ?p, [''a''])"
  let ?q = "fst ?s"
  have "pc_step demo_zk False (?q, snd ?s) [?a] (finish (Notify ?a) ?q, snd ?s)"
    by (rule pc_step.notify) (simp_all add: pc_onEvent_def pc_onChildDeleted_def demo_cache_def schedule_def set_cached_def finish_def)
  from pc_steps.step [OF pc_steps.start this]
  have "pc_steps demo_zk False ?s [?a] (finish (Notify ?a) ?q, snd ?s)" by simp
  from pc_deleted_root_is_blind [OF demo_run _ _ refl this] show ?thesis
    by (simp add: demo_cache_def)
qed

end
