(* ===== verification/PathCacheRest.thy ===== *)
theory PathCacheRest
  imports PathCache
begin

text \<open>
  Between two events of ZooKeeper a path cache comes to rest: the steps it makes of its own end, and
  what they end in has every child that the last event listed, watched and announced.
\<close>

section \<open>Own steps\<close>

text \<open>
  The steps of \<open>pc_step\<close> that are the cache's own: the event counter stands, so that none is an event of
  ZooKeeper, something pending changes, and the owner asks for no stop.
\<close>

definition own_step ::
  "'w zkconn \<Rightarrow> path_cache \<times> 'w \<Rightarrow> PathCacheEvent list \<Rightarrow> path_cache \<times> 'w \<Rightarrow> bool" where
  "own_step conn s out s' \<longleftrightarrow> pc_step conn True s out s' \<and>
     pc_zkEventCounter (fst s') = pc_zkEventCounter (fst s) \<and> pc_tasks (fst s') \<noteq> pc_tasks (fst s) \<and>
     count (pc_tasks (fst s')) StopRequest \<le> count (pc_tasks (fst s)) StopRequest"

text \<open>Runs of own steps, with their number; the ensemble may change before each of them.\<close>

inductive own_steps ::
  "'w zkconn \<Rightarrow> nat \<Rightarrow> path_cache \<times> 'w \<Rightarrow> PathCacheEvent list \<Rightarrow> path_cache \<times> 'w \<Rightarrow> bool"
  for conn :: "'w zkconn" where
  rest: "own_steps conn 0 s [] s"
| work: "own_step conn (p, w') out s' \<Longrightarrow> own_steps conn n s' outs s'' \<Longrightarrow>
    own_steps conn (Suc n) (p, w) (out @ outs) s''"

lemmas announced = announce_children [unfolded Let_def]

lemma event_counts:
  "pc_zkEventCounter (fst (pc_onEvent conn isSvc e (p, w))) = pc_zkEventCounter p + 1"
  by (cases e) (simp_all add: pc_onEvent_def pc_onNodeChanged_def pc_watchAndAddChildren_def announced
      pc_watchChildren_def pc_onChildDeleted_def set_cached_def schedule_def Let_def split: prod.split option.split)

text \<open>Which of the rules they are: a child is added, a notification received, or a stop.\<close>

lemma own_step_cases:
  assumes "own_step conn (p, w) out s'" and "\<not> zk_expires conn"
  obtains (add) child where "pc_running p" "AddChild child \<in># pc_tasks p" "out = []"
      "s' = pc_onChildAdd conn child (finish (AddChild child) p, w)"
    | (notify) e where "pc_running p" "Notify e \<in># pc_tasks p" "out = [e]" "s' = (finish (Notify e) p, w)"
    | (stop) "pc_running p" "StopRequest \<in># pc_tasks p" "out = []"
      "s' = ((finish StopRequest p)\<lparr>pc_running := False\<rparr>, w)"
proof -
  have step: "pc_step conn True (p, w) out s'" and count: "pc_zkEventCounter (fst s') = pc_zkEventCounter p"
    and new: "pc_tasks (fst s') \<noteq> pc_tasks p"
    and noStop: "count (pc_tasks (fst s')) StopRequest \<le> count (pc_tasks p) StopRequest"
    using assms(1) by (simp_all add: own_step_def)
  from step show ?thesis
  proof (cases rule: pc_step.cases)
    case (event wt e)
    with count event_counts [of conn True e "finish (Forward wt) p" w] show ?thesis by (simp add: finish_def)
  qed (use assms(2) new noStop that in simp_all)
qed

lemma own_stepI:
  assumes "pc_running p" and "\<not> zk_expires conn"
  shows "AddChild child \<in># pc_tasks p \<Longrightarrow> \<exists>out s'. own_step conn (p, w) out s'"
    and "Notify e \<in># pc_tasks p \<Longrightarrow> \<exists>out s'. own_step conn (p, w) out s'"
    and "StopRequest \<in># pc_tasks p \<Longrightarrow> \<exists>out s'. own_step conn (p, w) out s'"
proof -
  assume child: "AddChild child \<in># pc_tasks p"
  let ?s = "pc_onChildAdd conn child (finish (AddChild child) p, w)"
  obtain ok w1 where "zk_GetW conn child w = (ok, w1)" by fastforce
  then have "pc_zkEventCounter (fst ?s) = pc_zkEventCounter p \<and>
    count (pc_tasks (fst ?s)) (AddChild child) < count (pc_tasks p) (AddChild child) \<and>
    count (pc_tasks (fst ?s)) StopRequest = count (pc_tasks p) StopRequest"
    using child by (cases ok) (simp_all add: pc_onChildAdd_def pc_watch_def set_cached_def schedule_def finish_def)
  moreover from this have "pc_tasks (fst ?s) \<noteq> pc_tasks p" by auto
  ultimately have "own_step conn (p, w) [] ?s"
    using pc_step.add [OF assms(1) child, of conn True w] by (simp add: own_step_def)
  then show "\<exists>out s'. own_step conn (p, w) out s'" by blast
next
  assume e: "Notify e \<in># pc_tasks p"
  then have "pc_tasks p - {#Notify e#} \<noteq> pc_tasks p" by (metis insert_DiffM multi_self_add_other_not_self)
  then have "own_step conn (p, w) [e] (finish (Notify e) p, w)"
    using pc_step.notify [OF assms(1) e, of conn True w] by (simp add: own_step_def finish_def)
  then show "\<exists>out s'. own_step conn (p, w) out s'" by blast
next
  assume t: "StopRequest \<in># pc_tasks p"
  then have "pc_tasks p - {#StopRequest#} \<noteq> pc_tasks p" by (metis insert_DiffM multi_self_add_other_not_self)
  then have "own_step conn (p, w) [] ((finish StopRequest p)\<lparr>pc_running := False\<rparr>, w)"
    using pc_step.stop [OF assms(1) t, of conn True w] by (simp add: own_step_def finish_def)
  then show "\<exists>out s'. own_step conn (p, w) out s'" by blast
qed

section \<open>Own steps end\<close>

text \<open>What is to be worked off: a child to add becomes a watch and an announcement.\<close>

fun effort :: "task \<Rightarrow> nat" where
  "effort (Forward wt) = 0"
| "effort (AddChild child) = 2"
| "effort (Notify e) = 1"
| "effort StopRequest = 1"

definition pending :: "path_cache \<Rightarrow> nat" where
  "pending p = sum_mset (image_mset effort (pc_tasks p))"

lemma pending_simps [simp]:
  "pending (schedule t p) = effort t + pending p" "pending (set_cached k b p) = pending p"
  "pending (p\<lparr>pc_running := r\<rparr>) = pending p"
  by (simp_all add: pending_def)

lemma pending_finish: "t \<in># pc_tasks p \<Longrightarrow> pending p = effort t + pending (finish t p)"
  unfolding pending_def by (drule multi_member_split) auto

lemma own_step_less:
  assumes "own_step conn (p, w) out s'" and "\<not> zk_expires conn"
  shows "pending (fst s') < pending p"
  using assms
proof (cases rule: own_step_cases)
  case (add child)
  have "pending (fst (pc_onChildAdd conn child (finish (AddChild child) p, w))) \<le> 1 + pending (finish (AddChild child) p)"
    by (auto simp: pc_onChildAdd_def pc_watch_def split: prod.splits if_splits)
  with add pending_finish [OF add(2)] show ?thesis by simp
next
  case (notify e)
  with pending_finish [OF notify(2)] show ?thesis by simp
next
  case stop
  with pending_finish [OF stop(2)] show ?thesis by simp
qed

lemma own_steps_bound:
  assumes "own_steps conn n s outs s'" and "\<not> zk_expires conn"
  shows "n + pending (fst s') \<le> pending (fst s)"
  using assms(1)
proof (induction rule: own_steps.induct)
  case (work p w' out s' n outs s'' w)
  with own_step_less [OF work(1) assms(2)] show ?case by simp
qed simp

section \<open>What they end in\<close>

text \<open>A listed child is still to be added, or it is present and, if it is new, announced.\<close>

definition taken_up :: "path_cache \<Rightarrow> PathCacheEvent list \<Rightarrow> bool \<Rightarrow> string \<Rightarrow> bool" where
  "taken_up p outs new fp \<longleftrightarrow> AddChild fp \<in># pc_tasks p \<or>
     lookup_zero False (pc_Cached p) fp \<and>
     (new \<longrightarrow> Notify (PathCacheEventAdded fp) \<in># pc_tasks p \<or> PathCacheEventAdded fp \<in> set outs)"

lemma taken_up_step:
  assumes "own_step conn (p, w) out s'" and "\<not> zk_expires conn" and "reads_succeed conn"
    and "taken_up p outs new fp"
  shows "taken_up (fst s') (outs @ out) new fp"
  using assms(1,2)
proof (cases rule: own_step_cases)
  case (add child)
  obtain w1 where "zk_GetW conn child w = (True, w1)" using assms(3) by (metis reads_succeed_def prod.collapse)
  with add assms(4) show ?thesis
    by (cases "child = fp") (auto simp: pc_onChildAdd_def pc_watch_def taken_up_def in_minus_other)
next
  case (notify e)
  with assms(4) show ?thesis
    by (cases "e = PathCacheEventAdded fp") (auto simp: taken_up_def in_minus_other)
next
  case stop
  with assms(4) show ?thesis by (auto simp: taken_up_def in_minus_other finish_def)
qed

lemma taken_up_steps:
  assumes "own_steps conn n s outs s'" and "\<not> zk_expires conn" and "reads_succeed conn"
    and "taken_up (fst s) outs0 new fp"
  shows "taken_up (fst s') (outs0 @ outs) new fp"
  using assms(1,4)
proof (induction arbitrary: outs0 rule: own_steps.induct)
  case (work p w' out s' n outs s'' w)
  from work(3) [of "outs0 @ out"] taken_up_step [OF work(1) assms(2,3)] work(4) show ?case by simp
qed simp

lemma own_step_child_watch:
  assumes "own_step conn (p, w) out s'" and "\<not> zk_expires conn" and "Forward (ChildWatch q) \<in># pc_tasks p"
  shows "Forward (ChildWatch q) \<in># pc_tasks (fst s')"
  using assms(1,2)
proof (cases rule: own_step_cases)
  case (add child)
  with assms(3) show ?thesis
    by (auto simp: pc_onChildAdd_def pc_watch_def in_minus_other split: prod.splits if_splits)
qed (use assms(3) in \<open>auto simp: in_minus_other finish_def\<close>)

lemma own_steps_child_watch:
  assumes "own_steps conn n s outs s'" and "\<not> zk_expires conn" and "Forward (ChildWatch q) \<in># pc_tasks (fst s)"
  shows "Forward (ChildWatch q) \<in># pc_tasks (fst s')"
  using assms(1,3)
proof (induction rule: own_steps.induct)
  case (work p w' out s' n outs s'' w)
  with own_step_child_watch [OF work(1) assms(2)] show ?case by simp
qed simp

lemma own_steps_cached_watched:
  assumes "own_steps conn n s outs s'" and "\<not> zk_expires conn" and "reads_succeed conn"
    and "cached_watched (fst s)"
  shows "cached_watched (fst s')"
  using assms(1,4)
proof (induction rule: own_steps.induct)
  case (work p w' out s' n outs s'' w)
  have "pc_step conn True (p, w') out s'" using work(1) by (simp add: own_step_def)
  from cached_watched_step [OF assms(3,2) this] work show ?case by simp
qed simp

text \<open>A running cache that can make no step of its own waits for nothing but watches.\<close>

lemma own_step_stuck:
  assumes "\<nexists>w out s'. own_step conn (p, w) out s'" and "pc_running p" and "\<not> zk_expires conn"
  shows "AddChild c \<notin># pc_tasks p \<and> Notify e \<notin># pc_tasks p"
  using own_stepI [OF assms(2,3)] assms(1) by blast

text \<open>The own steps can always be brought to their end, and only a request to stop ends the cache.\<close>

lemma own_steps_end:
  assumes "\<not> zk_expires conn"
  shows "\<exists>n outs p' w'. own_steps conn n (p, w) outs (p', w') \<and> (\<nexists>w out s'. own_step conn (p', w) out s')"
proof (induction "pending p" arbitrary: p w rule: less_induct)
  case less
  show ?case
  proof (cases "\<exists>w out s'. own_step conn (p, w) out s'")
    case True
    then obtain w1 out p2 w2 where one: "own_step conn (p, w1) out (p2, w2)" by auto
    with own_step_less [OF one assms] have "pending p2 < pending p" by simp
    from less [OF this, of w2] own_steps.work [OF one] show ?thesis by blast
  qed (blast intro: own_steps.rest)
qed

lemma own_steps_running:
  assumes "own_steps conn n s outs s'" and "\<not> zk_expires conn"
    and "pc_running (fst s) \<and> StopRequest \<notin># pc_tasks (fst s)"
  shows "pc_running (fst s') \<and> StopRequest \<notin># pc_tasks (fst s')"
  using assms(1,3)
proof (induction rule: own_steps.induct)
  case (work p w' out s' n outs s'' w)
  from work(1) assms(2) have "pc_running (fst s') \<and> StopRequest \<notin># pc_tasks (fst s')"
  proof (cases rule: own_step_cases)
    case (add child)
    with work(4) show ?thesis
      by (auto simp: pc_onChildAdd_def pc_watch_def set_cached_def schedule_def finish_def in_minus_other
          split: prod.splits if_splits)
  qed (use work(4) in \<open>auto simp: finish_def in_minus_other\<close>)
  with work(3) show ?case .
qed

text \<open>The event that says that the children have changed, on the path of a service.\<close>

lemma children_event:
  assumes "zk_ChildrenW conn (pc_Path p) w = (Some children, w')"
  shows "pc_onEvent conn True (EventNodeChildrenChanged q) (p, w) = (p', w'') \<Longrightarrow>
     w'' = w' \<and> pc_running p' = pc_running p \<and> Forward (ChildWatch (pc_Path p)) \<in># pc_tasks p' \<and>
     (\<forall>c \<in> set children. taken_up p' [] (\<not> lookup_zero False (pc_Cached p) (Join (pc_Path p) c)) (Join (pc_Path p) c))"
  using assms
  by (auto simp: pc_onEvent_def pc_watchAndAddChildren_def Let_def announced taken_up_def new_children_def schedule_def image_iff)

text \<open>
  C14: once a service's path has told of a change of its children, the cache takes all of them up. While the
  session lives and the reads that set a watch succeed, the cache makes at most \<open>pending\<close> steps of
  its own (two for a child to add, one for a notification or a request to stop), in whatever order it
  takes them and whatever happens to the ensemble; and where it can make no more without being stopped, every child
  of the list is marked as present and watched, the consumer has been told of each that was not present before, and the
  children are watched again.
\<close>

theorem pc_takes_up_children:
  assumes "reads_succeed conn" and "\<not> zk_expires conn" and "pc_run conn path True auto outs0 (p, w)"
    and "pc_running p" and "Forward (ChildWatch path) \<in># pc_tasks p"
    and "zk_ChildrenW conn path w = (Some children, w')"
    and "pc_onEvent conn True (EventNodeChildrenChanged path) (finish (Forward (ChildWatch path)) p, w) = s"
    and "own_steps conn n s outs (p', w'')"
  shows "n \<le> pending (fst s) \<and>
    ((\<nexists>w out s'. own_step conn (p', w) out s') \<and> pc_running p' \<longrightarrow>
       Forward (ChildWatch path) \<in># pc_tasks p' \<and>
       (\<forall>c \<in> set children. let fp = Join path c in
          lookup_zero False (pc_Cached p') fp \<and> Forward (NodeWatch fp) \<in># pc_tasks p' \<and>
          (lookup_zero False (pc_Cached p) fp \<or> PathCacheEventAdded fp \<in> set outs)))"
proof -
  let ?p = "finish (Forward (ChildWatch path)) p"
  obtain p1 w1 where s: "s = (p1, w1)" by fastforce
  have path: "pc_Path p = path" using pc_run_one_watch [OF assms(3)] by simp
  have E: "Forward (ChildWatch path) \<in># pc_tasks p1"
    "c \<in> set children \<Longrightarrow> taken_up p1 [] (\<not> lookup_zero False (pc_Cached p) (Join path c)) (Join path c)" for c
    using children_event [of conn ?p w children w' path p1 w1] assms(6,7) path s by auto
  have "pc_step conn True (p, w) [] s"
    using pc_step.event [OF assms(4,5), where conn = conn and e = "EventNodeChildrenChanged path" and w = w
        and isSvcPath = True] assms(7) by simp
  from pc_run_cached_watched [OF assms(1,2) pc_run_step [OF assms(3) this]]
  have watched: "cached_watched p'" using own_steps_cached_watched [OF assms(8,2,1)] by simp
  have "n \<le> pending (fst s)" using own_steps_bound [OF assms(8,2)] by simp
  moreover have "Forward (ChildWatch path) \<in># pc_tasks p'"
    using own_steps_child_watch [OF assms(8,2)] E(1) s by simp
  moreover have "let fp = Join path c in
      lookup_zero False (pc_Cached p') fp \<and> Forward (NodeWatch fp) \<in># pc_tasks p' \<and>
      (lookup_zero False (pc_Cached p) fp \<or> PathCacheEventAdded fp \<in> set outs)"
    if "c \<in> set children" and stuck: "\<nexists>w out s'. own_step conn (p', w) out s'" "pc_running p'" for c
    using taken_up_steps [OF assms(8,2,1), of "[]" _ "Join path c"] E(2) [OF that(1)]
      own_step_stuck [OF stuck assms(2)] watched
    by (auto simp: s taken_up_def cached_watched_def Let_def)
  ultimately show ?thesis by blast
qed

text \<open>The path of a service with one child: every end of the own steps has it present, watched and announced.\<close>

theorem pc_takes_up_children_witness:
  "\<exists>n outs p'. n \<le> 4 \<and> own_steps demo_zk n
      (pc_onEvent demo_zk True (EventNodeChildrenChanged ''/dubbo'')
        (finish (Forward (ChildWatch ''/dubbo'')) (demo_cache True), [''a''])) outs p' \<and>
    Forward (NodeWatch ''/dubbo/a'') \<in># pc_tasks (fst p') \<and> PathCacheEventAdded ''/dubbo/a'' \<in> set outs"
proof -
  let ?s = "pc_onEvent demo_zk True (EventNodeChildrenChanged ''/dubbo'')
        (finish (Forward (ChildWatch ''/dubbo'')) (demo_cache True), [''a''])"
  have join: "Join ''/dubbo'' ''a'' = ''/dubbo/a''" by code_simp
  have conn: "\<not> zk_expires demo_zk" "reads_succeed demo_zk" by (simp_all add: demo_zk_def reads_succeed_def)
  have s: "pc_running (fst ?s) \<and> StopRequest \<notin># pc_tasks (fst ?s)" and pending: "pending (fst ?s) = 4"
    by (simp_all add: pc_onEvent_def pc_watchAndAddChildren_def demo_cache_def demo_zk_def finish_def schedule_def
        lookup_zero_def join pending_def)
  obtain n outs p' w' where run: "own_steps demo_zk n ?s outs (p', w')"
    and stuck: "\<nexists>w out s'. own_step demo_zk (p', w) out s'"
    using own_steps_end [OF conn(1), of "fst ?s" "snd ?s"] by auto
  have "pc_running p'" using own_steps_running [OF run conn(1) s] by simp
  moreover have "\<not> lookup_zero False (pc_Cached (demo_cache True)) (Join ''/dubbo'' ''a'')"
    by (simp add: demo_cache_def lookup_zero_def)
  moreover have "pc_running (demo_cache True)" "Forward (ChildWatch ''/dubbo'') \<in># pc_tasks (demo_cache True)"
    "zk_ChildrenW demo_zk ''/dubbo'' [''a''] = (Some [''a''], [''a''])" by (simp_all add: demo_cache_def demo_zk_def)
  note pc_takes_up_children [OF conn(2,1) demo_run [of True "[''a'']"] this refl run]
  ultimately have "n \<le> 4 \<and> Forward (NodeWatch ''/dubbo/a'') \<in># pc_tasks p' \<and> PathCacheEventAdded ''/dubbo/a'' \<in> set outs"
    using stuck by (simp add: pending join Let_def)
  with run show ?thesis by (intro exI [of _ n] exI [of _ outs] exI [of _ "(p', w')"]) simp
qed

end
