(* ===== verification/GoUrl.thy ===== *)
theory GoUrl
  imports GoStrings
begin

text \<open>
  What the registry client uses of Go's \<open>net/url\<close> (the version of the module, Go 1.13): unescaping, the
  parser with all its errors, the port of a host, and the parsed query. Of a parsed URL only the
  host and the raw query are kept: nothing in the repository reads the rest.
\<close>

section \<open>Unescaping\<close>

datatype url_mode = encodePath | encodeHost | encodeZone | encodeUserPassword | encodeQueryComponent | encodeFragment

definition hex_value :: "char \<Rightarrow> nat option" where
  "hex_value c =
     (let n = of_char c :: nat in
      if 48 \<le> n \<and> n \<le> 57 then Some (n - 48)
      else if 97 \<le> n \<and> n \<le> 102 then Some (n - 87)
      else if 65 \<le> n \<and> n \<le> 70 then Some (n - 55) else None)"

definition is_alnum :: "char \<Rightarrow> bool" where
  "is_alnum c \<longleftrightarrow> (let n = of_char c :: nat in
     48 \<le> n \<and> n \<le> 57 \<or> 65 \<le> n \<and> n \<le> 90 \<or> 97 \<le> n \<and> n \<le> 122)"

text \<open>\<open>shouldEscape(c, mode)\<close> in a host or a zone (the only modes that ask).\<close>

definition escaped_in_host :: "char \<Rightarrow> bool" where
  "escaped_in_host c \<longleftrightarrow> \<not> is_alnum c \<and> c \<notin> set ''!$&'' \<and> c \<noteq> CHR 0x27 \<and> c \<notin> set ''()*+,;=:[]<>'' \<and>
     c \<noteq> CHR 0x22 \<and> c \<notin> set ''-_.~''"

text \<open>An escape that a mode refuses, from its two hexadecimal digits.\<close>

definition refused_escape :: "url_mode \<Rightarrow> nat \<Rightarrow> nat \<Rightarrow> bool" where
  "refused_escape mode h l \<longleftrightarrow>
     mode = encodeHost \<and> h < 8 \<and> \<not> (h = 2 \<and> l = 5) \<or>
     mode = encodeZone \<and> \<not> (h = 2 \<and> l = 5) \<and> 16 * h + l \<noteq> 32 \<and> escaped_in_host (char_of (16 * h + l))"

fun unescape :: "url_mode \<Rightarrow> string \<Rightarrow> string option" where
  "unescape mode [] = Some []"
| "unescape mode (c # s) =
     (if c = CHR ''%'' then
        (case s of
           a # b # s' \<Rightarrow>
             (case (hex_value a, hex_value b) of
                (Some h, Some l) \<Rightarrow>
                  if refused_escape mode h l then None
                  else map_option ((#) (char_of (16 * h + l))) (unescape mode s')
              | _ \<Rightarrow> None)
         | _ \<Rightarrow> None)
      else if (mode = encodeHost \<or> mode = encodeZone) \<and> of_char c < (128 :: nat) \<and> escaped_in_host c then None
      else map_option ((#) (if c = CHR ''+'' \<and> mode = encodeQueryComponent then CHR '' '' else c)) (unescape mode s))"

definition QueryUnescape :: "string \<Rightarrow> string option" where
  "QueryUnescape s = unescape encodeQueryComponent s"

section \<open>Parsing\<close>

record url =
  url_Host :: string
  url_RawQuery :: string

text \<open>\<open>split(s, c, cutc)\<close>: the part before the first \<open>c\<close> and the rest, without or with that \<open>c\<close>.\<close>

definition url_split :: "char \<Rightarrow> bool \<Rightarrow> string \<Rightarrow> string \<times> string" where
  "url_split c cutc s =
     (let b = takeWhile (\<lambda>x. x \<noteq> c) s; r = dropWhile (\<lambda>x. x \<noteq> c) s in
      (b, if cutc then tl r else r))"

definition is_letter :: "char \<Rightarrow> bool" where
  "is_letter c \<longleftrightarrow> (let n = of_char c :: nat in 65 \<le> n \<and> n \<le> 90 \<or> 97 \<le> n \<and> n \<le> 122)"

definition is_digit :: "char \<Rightarrow> bool" where
  "is_digit c \<longleftrightarrow> (let n = of_char c :: nat in 48 \<le> n \<and> n \<le> 57)"

text \<open>\<open>getscheme\<close>, with the characters of the scheme read so far; no value is the error of a missing scheme.\<close>

fun getscheme :: "string \<Rightarrow> string \<Rightarrow> string \<Rightarrow> (string \<times> string) option" where
  "getscheme raw acc [] = Some ([], raw)"
| "getscheme raw acc (c # s) =
     (if is_letter c then getscheme raw (acc @ [c]) s
      else if is_digit c \<or> c \<in> set ''+-.'' then
        (if acc = [] then Some ([], raw) else getscheme raw (acc @ [c]) s)
      else if c = CHR '':'' then (if acc = [] then None else Some (acc, s))
      else Some ([], raw))"

definition validOptionalPort :: "string \<Rightarrow> bool" where
  "validOptionalPort port \<longleftrightarrow> port = [] \<or> hd port = CHR '':'' \<and> list_all is_digit (tl port)"

definition validUserinfo :: "string \<Rightarrow> bool" where
  "validUserinfo s \<longleftrightarrow>
     list_all (\<lambda>c. is_alnum c \<or> c \<in> set ''-._:~!$&()*+,;=%@'' \<or> c = CHR 0x27) s"

text \<open>The position of \<open>%25\<close>, which starts the zone of an IPv6 address.\<close>

fun zone_index :: "string \<Rightarrow> nat option" where
  "zone_index [] = None"
| "zone_index (c # s) = (if HasPrefix (c # s) ''%25'' then Some 0 else map_option Suc (zone_index s))"

definition parseHost :: "string \<Rightarrow> string option" where
  "parseHost host =
     (if HasPrefix host ''['' then
        (case last_index_of (CHR '']'') host of
           None \<Rightarrow> None
         | Some i \<Rightarrow>
             if \<not> validOptionalPort (drop (i + 1) host) then None
             else case zone_index (take i host) of
               Some z \<Rightarrow>
                 Option.bind (unescape encodeHost (take z host)) (\<lambda>host1.
                 Option.bind (unescape encodeZone (drop z (take i host))) (\<lambda>host2.
                 Option.bind (unescape encodeHost (drop i host)) (\<lambda>host3.
                 Some (host1 @ host2 @ host3))))
             | None \<Rightarrow> unescape encodeHost host)
      else
        (case last_index_of (CHR '':'') host of
           None \<Rightarrow> unescape encodeHost host
         | Some i \<Rightarrow> if validOptionalPort (drop i host) then unescape encodeHost host else None))"

definition parseAuthority :: "string \<Rightarrow> string option" where
  "parseAuthority authority =
     (case last_index_of (CHR ''@'') authority of
        None \<Rightarrow> parseHost authority
      | Some i \<Rightarrow>
          Option.bind (parseHost (drop (i + 1) authority)) (\<lambda>host.
            let userinfo = take i authority; (name, password) = url_split (CHR '':'') True userinfo in
            if \<not> validUserinfo userinfo then None
            else Option.bind (unescape encodeUserPassword name) (\<lambda>_.
                 Option.bind (unescape encodeUserPassword password) (\<lambda>_. Some host))))"

definition is_ctl :: "char \<Rightarrow> bool" where
  "is_ctl c \<longleftrightarrow> of_char c < (32 :: nat) \<or> of_char c = (127 :: nat)"

text \<open>The part after the scheme and before the query, when it is not opaque: authority and path.\<close>

definition parse_rest :: "bool \<Rightarrow> string \<Rightarrow> string \<Rightarrow> url option" where
  "parse_rest scheme rest query =
     (let (authority, path) = url_split (CHR ''/'') False (drop 2 rest);
          slashes = HasPrefix rest ''//'' \<and> (scheme \<or> \<not> HasPrefix rest ''///'') in
      Option.bind (if slashes then parseAuthority authority else Some []) (\<lambda>host.
      Option.bind (unescape encodePath (if slashes then path else rest)) (\<lambda>_.
      Some \<lparr>url_Host = host, url_RawQuery = query\<rparr>)))"

definition parse_url :: "string \<Rightarrow> url option" where
  "parse_url raw =
     (if list_ex is_ctl raw then None
      else if raw = ''*'' then Some \<lparr>url_Host = [], url_RawQuery = []\<rparr>
      else Option.bind (getscheme raw [] raw) (\<lambda>(scheme, rest).
        let (rest, query) =
          (if HasSuffix rest ''?'' \<and> count_list rest (CHR ''?'') = 1 then (butlast rest, [])
           else url_split (CHR ''?'') True rest) in
        if HasPrefix rest ''/'' then parse_rest (scheme \<noteq> []) rest query
        else if scheme \<noteq> [] then Some \<lparr>url_Host = [], url_RawQuery = query\<rparr>
        else if CHR '':'' \<in> set (fst (url_split (CHR ''/'') True rest)) then None
        else parse_rest False rest query))"

definition url_Parse :: "string \<Rightarrow> url option" where
  "url_Parse raw =
     (let (u, frag) = url_split (CHR ''#'') True raw in
      Option.bind (parse_url u) (\<lambda>url. Option.bind (unescape encodeFragment frag) (\<lambda>_. Some url)))"

section \<open>Port and query\<close>

text \<open>\<open>u.Port()\<close>: the digits after the last colon, if only digits follow it.\<close>

definition url_Port :: "url \<Rightarrow> string" where
  "url_Port u =
     (case last_index_of (CHR '':'') (url_Host u) of
        None \<Rightarrow> []
      | Some i \<Rightarrow> if validOptionalPort (drop i (url_Host u)) then drop (i + 1) (url_Host u) else [])"

fun split_any :: "char set \<Rightarrow> string \<Rightarrow> string list" where
  "split_any ds [] = [[]]"
| "split_any ds (c # s) =
     (if c \<in> ds then [] # split_any ds s
      else (case split_any ds s of w # ws \<Rightarrow> (c # w) # ws | [] \<Rightarrow> [[c]]))"

text \<open>One setting of a query; a setting that is empty or cannot be unescaped is left out.\<close>

definition query_setting :: "string \<Rightarrow> (string \<times> string) option" where
  "query_setting s =
     (if s = [] then None
      else let (key, value) = url_split (CHR ''='') True s in
           Option.bind (QueryUnescape key) (\<lambda>k. Option.bind (QueryUnescape value) (\<lambda>v. Some (k, v))))"

text \<open>\<open>u.Query()\<close>: for every key the list of its values.\<close>

definition add_value :: "string \<times> string \<Rightarrow> (string, string list) gomap \<Rightarrow> (string, string list) gomap" where
  "add_value kv m = (case kv of (k, v) \<Rightarrow> map_put k (lookup_zero [] m k @ [v]) m)"

definition url_Query :: "url \<Rightarrow> (string, string list) gomap" where
  "url_Query u = fold add_value (List.map_filter query_setting (split_any {CHR ''&'', CHR '';''} (url_RawQuery u))) []"

section \<open>What an encoder writes\<close>

text \<open>
  The form encoding of \<open>java.net.URLEncoder\<close>, in which Dubbo writes its URLs as names of nodes: some
  characters stand for themselves, a space is a plus, every other byte is escaped.
\<close>

definition kept :: "char \<Rightarrow> bool" where
  "kept c \<longleftrightarrow> is_alnum c \<or> c \<in> set ''.-*_''"

definition hex_char :: "nat \<Rightarrow> char" where
  "hex_char n = char_of (if n < 10 then 48 + n else 55 + n)"

definition encode_char :: "char \<Rightarrow> string" where
  "encode_char c =
     (if kept c then [c] else if c = CHR '' '' then ''+''
      else [CHR ''%'', hex_char (of_char c div 16), hex_char (of_char c mod 16)])"

definition url_encode :: "string \<Rightarrow> string" where
  "url_encode s = concat (map encode_char s)"

lemma hex_value_char: "n < 16 \<Longrightarrow> hex_value (hex_char n) = Some n"
  by (auto simp: hex_value_def hex_char_def Let_def)

lemma kept_plain: "kept c \<Longrightarrow> c \<noteq> CHR ''%'' \<and> c \<noteq> CHR ''+''"
  by (auto simp: kept_def is_alnum_def Let_def)

lemma unescape_encode_char:
  "unescape encodeQueryComponent (encode_char c @ s) = map_option ((#) c) (unescape encodeQueryComponent s)"
proof -
  have lt: "of_char c < (256 :: nat)" by simp
  have split: "16 * (of_char c div 16) + of_char c mod 16 = (of_char c :: nat)" by simp
  have div: "of_char c div 16 < (16 :: nat)" using lt by (simp add: less_mult_imp_div_less)
  show ?thesis
  proof (cases "kept c \<or> c = CHR '' ''")
    case True
    then show ?thesis using kept_plain [of c] by (auto simp: encode_char_def)
  next
    case False
    then show ?thesis using split div
      by (simp add: encode_char_def hex_value_char refused_escape_def)
  qed
qed

lemma QueryUnescape_encode: "QueryUnescape (url_encode s) = Some s"
  by (induction s) (simp_all add: QueryUnescape_def url_encode_def unescape_encode_char)

section \<open>Parsing the URL of a service\<close>

text \<open>Characters that stand for themselves in a host and a path, and in a query.\<close>

definition name_char :: "char \<Rightarrow> bool" where
  "name_char c \<longleftrightarrow> is_alnum c \<or> c \<in> set ''.-_''"

definition query_char :: "char \<Rightarrow> bool" where
  "query_char c \<longleftrightarrow> \<not> is_ctl c \<and> c \<notin> set ''%+&;=#?''"

lemma unescape_plain:
  assumes "list_all (\<lambda>c. c \<noteq> CHR ''%'' \<and> (mode = encodeQueryComponent \<longrightarrow> c \<noteq> CHR ''+'') \<and>
      (mode = encodeHost \<or> mode = encodeZone \<longrightarrow> \<not> escaped_in_host c)) s"
  shows "unescape mode s = Some s"
  using assms by (induction s) auto

definition service_url :: "string \<Rightarrow> string \<Rightarrow> string \<Rightarrow> string \<Rightarrow> (string \<times> string) list \<Rightarrow> string" where
  "service_url scheme host port path params =
     scheme @ ''://'' @ host @ '':'' @ port @ ''/'' @ path @ ''?'' @ JoinChar (CHR ''&'') (map (\<lambda>(k, v). k @ ''='' @ v) params)"

lemma url_split_append: "c \<notin> set a \<Longrightarrow> url_split c cutc (a @ c # b) = (a, if cutc then b else c # b)"
  by (induction a) (auto simp: url_split_def)

lemma url_split_none: "c \<notin> set a \<Longrightarrow> url_split c cutc a = (a, [])"
  by (induction a) (auto simp: url_split_def Let_def)

lemma getscheme_append:
  "list_all is_letter s \<Longrightarrow> acc @ s \<noteq> [] \<Longrightarrow> getscheme raw acc (s @ CHR '':'' # t) = Some (acc @ s, t)"
  by (induction s arbitrary: acc) (auto simp: is_letter_def is_digit_def Let_def)

lemma index_of_none: "c \<notin> set s \<Longrightarrow> index_of c s = None"
  by (induction s) auto

definition setting :: "string \<times> string \<Rightarrow> string" where
  "setting kv = fst kv @ ''='' @ snd kv"

definition query_of :: "(string \<times> string) list \<Rightarrow> string" where
  "query_of params = JoinChar (CHR ''&'') (map setting params)"

definition plain_params :: "(string \<times> string) list \<Rightarrow> bool" where
  "plain_params params \<longleftrightarrow> list_all (\<lambda>(k, v). list_all query_char k \<and> list_all query_char v) params"

definition plain_url :: "string \<Rightarrow> string \<Rightarrow> string \<Rightarrow> string \<Rightarrow> (string \<times> string) list \<Rightarrow> bool" where
  "plain_url scheme host port path params \<longleftrightarrow>
     scheme \<noteq> [] \<and> list_all is_letter scheme \<and> list_all name_char host \<and> list_all is_digit port \<and>
     list_all name_char path \<and> plain_params params"

lemma class_facts:
  "name_char c \<Longrightarrow> \<not> is_ctl c \<and> \<not> escaped_in_host c \<and> c \<notin> set ''%#?/@:[]+''"
  "is_digit c \<Longrightarrow> \<not> is_ctl c \<and> \<not> escaped_in_host c \<and> c \<notin> set ''%#?/@:[]+''"
  "is_letter c \<Longrightarrow> \<not> is_ctl c \<and> c \<notin> set ''%#?/@:[]+''"
  "query_char c \<Longrightarrow> \<not> is_ctl c \<and> c \<notin> set ''%+&;=#?''"
  by (auto simp: name_char_def is_digit_def is_letter_def is_alnum_def is_ctl_def escaped_in_host_def
      query_char_def Let_def)

lemma query_chars:
  assumes "plain_params params" and "c \<in> set (query_of params)"
  shows "\<not> is_ctl c \<and> c \<notin> set ''#?''"
proof -
  have "set (JoinChar (CHR ''&'') ws) \<subseteq> insert (CHR ''&'') (\<Union> (set ` set ws))" for ws
    by (induction ws rule: JoinChar.induct [of _ "CHR ''&''"]) auto
  then have "c = CHR ''&'' \<or> (\<exists>kv \<in> set params. c \<in> set (setting kv))"
    using assms(2) by (fastforce simp: query_of_def)
  then show ?thesis
  proof
    assume "\<exists>kv \<in> set params. c \<in> set (setting kv)"
    then have "c = CHR ''='' \<or> query_char c"
      using assms(1) by (auto simp: plain_params_def list_all_iff setting_def)
    then show ?thesis using class_facts(4) by (auto simp: is_ctl_def)
  qed (simp add: is_ctl_def)
qed

lemma parse_host_port:
  assumes "list_all name_char host" and "list_all is_digit port"
  shows "parseAuthority (host @ '':'' @ port) = Some (host @ '':'' @ port)"
proof -
  have P: "\<And>c. c \<in> set host \<Longrightarrow> name_char c" "\<And>c. c \<in> set port \<Longrightarrow> is_digit c"
    using assms by (simp_all add: list_all_iff)
  have at: "CHR ''@'' \<notin> set host" "CHR ''@'' \<notin> set port" and colon: "CHR '':'' \<notin> set port"
    and br: "CHR ''['' \<notin> set host"
    using P(1) [THEN class_facts(1)] P(2) [THEN class_facts(2)] by auto
  have none: "last_index_of (CHR ''@'') (host @ '':'' @ port) = None"
    using at by (simp add: last_index_of_def index_of_none)
  have br: "\<not> HasPrefix (host @ '':'' @ port) ''[''"
    using br by (cases host) auto
  have "\<not> escaped_in_host c \<and> c \<noteq> CHR ''%''" if "c \<in> set (host @ '':'' @ port)" for c
  proof -
    from that P have "name_char c \<or> is_digit c \<or> c = CHR '':''" by auto
    moreover have "\<not> escaped_in_host (CHR '':'')" by (simp add: escaped_in_host_def)
    ultimately show ?thesis using class_facts(1,2) [of c] by auto
  qed
  then have "unescape encodeHost (host @ '':'' @ port) = Some (host @ '':'' @ port)"
    by (intro unescape_plain) (simp add: list_all_iff)
  with br colon assms(2) show ?thesis
    by (simp add: parseAuthority_def none [simplified] parseHost_def last_index_of_append validOptionalPort_def)
qed

lemma split_query:
  assumes "CHR ''?'' \<notin> set r" and "CHR ''?'' \<notin> set q"
  shows "(if HasSuffix (r @ CHR ''?'' # q) ''?'' \<and> count_list (r @ CHR ''?'' # q) (CHR ''?'') = 1
       then (butlast (r @ CHR ''?'' # q), []) else url_split (CHR ''?'') True (r @ CHR ''?'' # q)) = (r, q)"
proof (cases q rule: rev_cases)
  case Nil
  with assms have "HasSuffix (r @ CHR ''?'' # q) ''?''" "count_list (r @ CHR ''?'' # q) (CHR ''?'') = 1"
    by (simp_all add: count_list_0_iff)
  with Nil show ?thesis by (simp add: butlast_append)
next
  case (snoc q' c)
  with assms(2) have "\<not> HasSuffix (r @ CHR ''?'' # q) ''?''" by (auto simp: HasSuffix_iff)
  with url_split_append [OF assms(1), of True q] show ?thesis by simp
qed

lemma parse_rest_service:
  assumes "list_all name_char host" and "list_all is_digit port" and "list_all name_char path"
  shows "parse_rest True (''//'' @ host @ '':'' @ port @ ''/'' @ path) q =
    Some \<lparr>url_Host = host @ '':'' @ port, url_RawQuery = q\<rparr>"
proof -
  have P: "\<And>c. c \<in> set host \<Longrightarrow> name_char c" "\<And>c. c \<in> set port \<Longrightarrow> is_digit c" "\<And>c. c \<in> set path \<Longrightarrow> name_char c"
    using assms by (simp_all add: list_all_iff)
  have slash: "CHR ''/'' \<notin> set (host @ '':'' @ port)"
    using P(1) [THEN class_facts(1)] P(2) [THEN class_facts(2)] by auto
  have path: "unescape encodePath (CHR ''/'' # path) = Some (CHR ''/'' # path)"
    using P(3) [THEN class_facts(1)] by (intro unescape_plain) (auto simp: list_all_iff)
  show ?thesis
    using url_split_append [OF slash, of False path] parse_host_port [OF assms(1,2)] path
    by (simp add: parse_rest_def Let_def)
qed

lemma parse_url_hierarchical:
  assumes "\<not> list_ex is_ctl raw" and "raw \<noteq> ''*''" and "getscheme raw [] raw = Some (scheme, rest)"
    and "(if HasSuffix rest ''?'' \<and> count_list rest (CHR ''?'') = 1 then (butlast rest, [])
           else url_split (CHR ''?'') True rest) = (r, q)"
    and "HasPrefix r ''/''" and "scheme \<noteq> []"
  shows "parse_url raw = parse_rest True r q"
  using assms by (simp add: parse_url_def)

lemma url_Parse_service:
  assumes "plain_url scheme host port path params"
  shows "url_Parse (service_url scheme host port path params) =
    Some \<lparr>url_Host = host @ '':'' @ port, url_RawQuery = query_of params\<rparr>"
proof -
  let ?q = "query_of params"
  let ?rest = "''//'' @ host @ '':'' @ port @ ''/'' @ path"
  have P: "\<And>c. c \<in> set scheme \<Longrightarrow> is_letter c" "\<And>c. c \<in> set host \<Longrightarrow> name_char c"
    "\<And>c. c \<in> set port \<Longrightarrow> is_digit c" "\<And>c. c \<in> set path \<Longrightarrow> name_char c"
    using assms by (simp_all add: plain_url_def list_all_iff)
  note F = P(1) [THEN class_facts(3)] P(2) [THEN class_facts(1)] P(3) [THEN class_facts(2)] P(4) [THEN class_facts(1)]
  have Q: "\<And>c. c \<in> set ?q \<Longrightarrow> \<not> is_ctl c \<and> c \<notin> set ''#?''"
    using query_chars [of params] assms by (simp add: plain_url_def)
  have url: "service_url scheme host port path params = scheme @ CHR '':'' # ?rest @ CHR ''?'' # ?q"
    by (simp add: service_url_def query_of_def setting_def [abs_def] split_def)
  let ?url = "scheme @ CHR '':'' # ?rest @ CHR ''?'' # ?q"
  have q: "CHR ''#'' \<notin> set ?q" "CHR ''?'' \<notin> set ?q"
    using Q [of "CHR ''#''"] Q [of "CHR ''?''"] by auto
  have mark: "CHR ''?'' \<notin> set ?rest" and "CHR ''#'' \<notin> set (scheme @ CHR '':'' # ?rest)"
    using F by auto
  with q have hash: "CHR ''#'' \<notin> set ?url" by auto
  have front: "\<not> is_ctl c" if "c \<in> set (scheme @ CHR '':'' # ?rest @ ''?'')" for c
    using F that by (auto simp: is_ctl_def)
  have ctl: "\<not> list_ex is_ctl ?url"
    using Q front by (auto simp: list_ex_iff)
  have scheme: "getscheme ?url [] ?url = Some (scheme, ?rest @ CHR ''?'' # ?q)"
    using assms getscheme_append [of scheme "[]" ?url] by (simp add: plain_url_def)
  have split: "(if HasSuffix (?rest @ CHR ''?'' # ?q) ''?'' \<and> count_list (?rest @ CHR ''?'' # ?q) (CHR ''?'') = 1
       then (butlast (?rest @ CHR ''?'' # ?q), []) else url_split (CHR ''?'') True (?rest @ CHR ''?'' # ?q)) = (?rest, ?q)"
    by (rule split_query [OF mark q(2)])
  have "?url \<noteq> ''*''" by (cases scheme) simp_all
  from parse_url_hierarchical [OF ctl this scheme split] assms have "parse_url ?url = parse_rest True ?rest ?q"
    by (simp add: plain_url_def)
  then show ?thesis
    using assms url_split_none [OF hash] parse_rest_service [of host port path ?q]
    by (simp add: url url_Parse_def plain_url_def)
qed

lemma split_any_join:
  assumes "\<And>w c. w \<in> set ws \<Longrightarrow> c \<in> set w \<Longrightarrow> c \<notin> ds" and "d \<in> ds" and "ws \<noteq> []"
  shows "split_any ds (JoinChar d ws) = ws"
proof -
  have one: "split_any ds w = [w]" if "\<And>c. c \<in> set w \<Longrightarrow> c \<notin> ds" for w
    using that by (induction w) auto
  have more: "split_any ds (w @ d # s) = w # split_any ds s" if "\<And>c. c \<in> set w \<Longrightarrow> c \<notin> ds" for w s
    using that assms(2) by (induction w) auto
  show ?thesis using assms(1,3)
  proof (induction ws)
    case (Cons w ws)
    have w: "\<And>c. c \<in> set w \<Longrightarrow> c \<notin> ds" using Cons.prems(1) [of w] by simp
    have "ws \<noteq> [] \<Longrightarrow> split_any ds (JoinChar d ws) = ws"
      by (rule Cons.IH) (use Cons.prems(1) in auto)
    then show ?case using one [OF w] more [OF w] by (cases ws) simp_all
  qed simp
qed

lemma query_setting_plain:
  assumes "list_all query_char k" and "list_all query_char v"
  shows "query_setting (setting (k, v)) = Some (k, v)"
proof -
  have P: "\<And>c. c \<in> set k \<Longrightarrow> query_char c" "\<And>c. c \<in> set v \<Longrightarrow> query_char c"
    using assms by (simp_all add: list_all_iff)
  have "CHR ''='' \<notin> set k" using P(1) [THEN class_facts(4)] by auto
  moreover have "QueryUnescape k = Some k" "QueryUnescape v = Some v"
    unfolding QueryUnescape_def
    using P(1) [THEN class_facts(4)] P(2) [THEN class_facts(4)]
    by (intro unescape_plain; simp add: list_all_iff)+
  ultimately show ?thesis
    by (simp add: query_setting_def setting_def url_split_append)
qed

lemma url_Query_plain:
  assumes "plain_params params" and "distinct (map fst params)"
  shows "map_of (url_Query \<lparr>url_Host = h, url_RawQuery = query_of params\<rparr>) = map_of (map (\<lambda>(k, v). (k, [v])) params)"
proof -
  have settings: "List.map_filter query_setting (split_any {CHR ''&'', CHR '';''} (query_of params)) = params"
  proof (cases "params = []")
    case True
    then show ?thesis by (simp add: query_of_def query_setting_def List.map_filter_simps)
  next
    case False
    have "c \<notin> {CHR ''&'', CHR '';''}" if "w \<in> set (map setting params)" "c \<in> set w" for w c
    proof -
      from that obtain k v where "(k, v) \<in> set params" and "c \<in> set (setting (k, v))" by auto
      with assms(1) have "c = CHR ''='' \<or> query_char c"
        by (fastforce simp: plain_params_def list_all_iff setting_def)
      with class_facts(4) [of c] show ?thesis by auto
    qed
    from split_any_join [of "map setting params", OF this, where d = "CHR ''&''"] False
    have "split_any {CHR ''&'', CHR '';''} (query_of params) = map setting params"
      by (simp add: query_of_def)
    moreover have "List.map_filter query_setting (map setting params) = params"
      using assms(1) by (induction params) (auto simp: List.map_filter_simps plain_params_def query_setting_plain)
    ultimately show ?thesis by simp
  qed
  have "map_of (fold add_value params m) = map_of m ++ map_of (map (\<lambda>(k, v). (k, [v])) params)"
    if "fst ` set params \<inter> dom (map_of m) = {}" for m
    using that assms(2)
  proof (induction params arbitrary: m)
    case (Cons kv params)
    obtain k v where kv: "kv = (k, v)" by fastforce
    with Cons.prems have "map_of m k = None" by (auto simp: dom_def)
    with kv have add: "add_value kv m = map_put k [v] m"
      by (simp add: add_value_def lookup_zero_def)
    have "map_of (fold add_value params (map_put k [v] m)) =
        map_of (map_put k [v] m) ++ map_of (map (\<lambda>(k, v). (k, [v])) params)"
    proof (rule Cons.IH)
      have "dom (map_of (map_put k [v] m)) = insert k (dom (map_of m))" by auto
      with Cons.prems kv show "fst ` set params \<inter> dom (map_of (map_put k [v] m)) = {}" by simp
      show "distinct (map fst params)" using Cons.prems by simp
    qed
    moreover have "k \<notin> dom (map_of (map (\<lambda>(k, v). (k, [v])) params))"
    proof -
      have "dom (map_of (map (\<lambda>(k, v). (k, [v])) params)) = fst ` set params"
        by (simp add: dom_map_of_conv_image_fst image_image split_def)
      with Cons.prems kv show ?thesis by simp
    qed
    ultimately show ?case using kv add
      by (auto simp: map_add_def fun_eq_iff split: option.split)
  qed simp
  from this [of "[]"] settings show ?thesis by (simp add: url_Query_def)
qed

end
