(* ===== verification/RegistryZk.thy ===== *)
theory RegistryZk
  imports PathCache GoUrl
begin

text \<open>
  \<^verbatim>\<open>pkg/adapter/registry/zk\<close>: the registry client over ZooKeeper. It keeps a path cache on the root of the
  services, one on the providers and one on the consumers of every service, turns what they notify
  into service and accessor events, and remembers which services an application (a scope) accesses.
  An event is sent by a goroutine of its own: the events on their way are a bag.

  The cache a map of the client points to is an index into the list of all caches it ever created,
  since a cache that is no longer in a map still runs.
\<close>

section \<open>State\<close>

datatype cache_role = ServiceCache | ProviderCache string | ConsumerCache string

record registry_client =
  rg_services :: "(string, DService) gomap"
  rg_serviceOut :: "ServiceEvent multiset"
  rg_accessors :: "(string, DService) gomap"
  rg_accessorOut :: "ServiceEvent multiset"
  rg_scopedAccessorsMapping :: "(string, (string, unit) gomap) gomap"
  rg_scache :: "nat option"
  rg_pcaches :: "(string, nat) gomap"
  rg_ccaches :: "(string, nat) gomap"
  rg_autoFillNode :: bool
  rg_caches :: "(cache_role \<times> path_cache) list"
  rg_closed :: bool

definition DubboRootPath :: string where "DubboRootPath = ''/dubbo''"
definition ProvidersPath :: string where "ProvidersPath = ''providers''"
definition ConsumersPath :: string where "ConsumersPath = ''consumers''"

text \<open>\<open>New\<close>, given whether the connection could be made.\<close>

definition rg_New :: "bool \<Rightarrow> registry_client option" where
  "rg_New connected =
     (if \<not> connected then None
      else Some \<lparr>rg_services = [], rg_serviceOut = {#}, rg_accessors = [], rg_accessorOut = {#},
        rg_scopedAccessorsMapping = [], rg_scache = None, rg_pcaches = [], rg_ccaches = [],
        rg_autoFillNode = True, rg_caches = [], rg_closed = False\<rparr>)"

definition new_cache :: "cache_role \<Rightarrow> path_cache \<Rightarrow> registry_client \<Rightarrow> nat \<times> registry_client" where
  "new_cache role pc rg = (length (rg_caches rg), rg\<lparr>rg_caches := rg_caches rg @ [(role, pc)]\<rparr>)"

definition rg_Start :: "'w zkconn \<Rightarrow> registry_client \<times> 'w \<Rightarrow> bool \<times> registry_client \<times> 'w" where
  "rg_Start conn s =
     (case s of (rg, w) \<Rightarrow>
        case NewPathCache conn DubboRootPath True (rg_autoFillNode rg) w of
          (None, w') \<Rightarrow> (False, rg, w')
        | (Some scache, w') \<Rightarrow>
            (case new_cache ServiceCache scache rg of (i, rg) \<Rightarrow> (True, rg\<lparr>rg_scache := Some i\<rparr>, w')))"

definition notifyServiceEvent :: "ServiceEvent \<Rightarrow> registry_client \<Rightarrow> registry_client" where
  "notifyServiceEvent e rg = rg\<lparr>rg_serviceOut := add_mset e (rg_serviceOut rg)\<rparr>"

definition notifyAccessorEvent :: "ServiceEvent \<Rightarrow> registry_client \<Rightarrow> registry_client" where
  "notifyAccessorEvent e rg = rg\<lparr>rg_accessorOut := add_mset e (rg_accessorOut rg)\<rparr>"

section \<open>Instances\<close>

text \<open>The first value of every parameter of a URL.\<close>

definition query_labels :: "url \<Rightarrow> labels" where
  "query_labels ep = fold (\<lambda>(key, value) m. if value \<noteq> [] then map_put key (hd value) m else m) (url_Query ep) []"

definition makeServiceInstance :: "string \<Rightarrow> string \<Rightarrow> DInstance option" where
  "makeServiceInstance hostname rawURL =
     Option.bind (QueryUnescape rawURL) (\<lambda>cleanURL.
     Option.bind (url_Parse cleanURL) (\<lambda>ep.
     Some \<lparr>di_Service = None, di_Host = url_Host ep,
       di_Port = Some \<lparr>dp_Protocol = DubboProtocol, dp_Port = url_Port ep\<rparr>,
       di_Labels = query_labels ep\<rparr>))"

definition makeHostname :: "string \<Rightarrow> DInstance \<Rightarrow> string" where
  "makeHostname hostname i = hostname"

text \<open>\<open>addService\<close>: the port of a service is that of the instance it was first seen with.\<close>

definition addService :: "string \<Rightarrow> DInstance option \<Rightarrow> registry_client \<Rightarrow> DService \<times> registry_client" where
  "addService hostname ins rg =
     (case map_of (rg_services rg) hostname of
        Some s \<Rightarrow> (s, rg)
      | None \<Rightarrow>
          (let s = \<lparr>dv_Name = hostname, dv_Ports = [], dv_Instances = []\<rparr>;
               s = (case Option.bind ins di_Port of None \<Rightarrow> s | Some port \<Rightarrow> AddPort port s);
               rg = rg\<lparr>rg_services := map_put hostname s (rg_services rg)\<rparr>;
               rg = notifyServiceEvent \<lparr>ev_EventType = ServiceAdded, ev_Service = Some s, ev_Instance = None,
                      ev_Instances = []\<rparr> rg
           in (s, rg)))"

definition deleteServiceInstance :: "string \<Rightarrow> string \<Rightarrow> registry_client \<Rightarrow> registry_client" where
  "deleteServiceInstance hostname rawURL rg =
     (case makeServiceInstance hostname rawURL of
        None \<Rightarrow> rg
      | Some i \<Rightarrow>
          (let h = makeHostname hostname i in
           case map_of (rg_services rg) h of
             None \<Rightarrow> rg
           | Some s \<Rightarrow>
               notifyServiceEvent \<lparr>ev_EventType = ServiceInstanceDeleted, ev_Service = None, ev_Instance = Some i,
                   ev_Instances = []\<rparr>
                 (rg\<lparr>rg_services := map_put h (s\<lparr>dv_Instances := map_del rawURL (dv_Instances s)\<rparr>) (rg_services rg)\<rparr>)))"

definition addServiceInstance :: "string \<Rightarrow> string \<Rightarrow> registry_client \<Rightarrow> registry_client" where
  "addServiceInstance hostname rawURL rg =
     (case makeServiceInstance hostname rawURL of
        None \<Rightarrow> rg
      | Some i \<Rightarrow>
          (case addService hostname (Some i) rg of (s, rg) \<Rightarrow>
             let i = i\<lparr>di_Service := Some (dv_Name s)\<rparr> in
             notifyServiceEvent \<lparr>ev_EventType = ServiceInstanceAdded, ev_Service = None, ev_Instance = Some i,
                 ev_Instances = []\<rparr>
               (rg\<lparr>rg_services := map_put hostname (s\<lparr>dv_Instances := map_put rawURL i (dv_Instances s)\<rparr>) (rg_services rg)\<rparr>)))"

text \<open>The loop over the URLs: the instances that can be made, and what the last URL gave.\<close>

definition make_instances ::
  "(string \<Rightarrow> DInstance option) \<Rightarrow> string list \<Rightarrow> (string, DInstance) gomap \<times> DInstance option" where
  "make_instances mk rawURLs =
     fold (\<lambda>ru (instances, i).
       case mk ru of None \<Rightarrow> (instances, None) | Some i \<Rightarrow> (map_put ru i instances, Some i)) rawURLs ([], None)"

definition replaceServiceInstances :: "string \<Rightarrow> string list \<Rightarrow> registry_client \<Rightarrow> registry_client" where
  "replaceServiceInstances hostname rawURLs rg =
     (let (instances, i) = make_instances (makeServiceInstance hostname) rawURLs;
          (s, rg) = addService hostname i rg in
      notifyServiceEvent \<lparr>ev_EventType = ServiceInstancesReplace, ev_Service = Some s, ev_Instance = None,
        ev_Instances = instances\<rparr> rg)"

section \<open>Services\<close>

definition stop_cache :: "nat \<Rightarrow> registry_client \<Rightarrow> registry_client" where
  "stop_cache i rg = rg\<lparr>rg_caches := (rg_caches rg)[i := (fst (rg_caches rg ! i), pc_Stop (snd (rg_caches rg ! i)))]\<rparr>"

text \<open>\<open>deleteService\<close>: every service whose name ends with the host name, in the order of some range.\<close>

definition deleteService :: "string \<Rightarrow> registry_client \<Rightarrow> registry_client" where
  "deleteService hostname rg =
     (let rg = (case map_of (rg_pcaches rg) hostname of None \<Rightarrow> rg | Some cache \<Rightarrow> stop_cache cache rg) in
      fold (\<lambda>(h, s) rg.
        if HasSuffix h hostname then
          notifyServiceEvent \<lparr>ev_EventType = ServiceDeleted, ev_Service = Some s, ev_Instance = None, ev_Instances = []\<rparr>
            (rg\<lparr>rg_services := map_del h (rg_services rg)\<rparr>)
        else rg) (rg_services rg) rg)"

text \<open>\<open>Stop\<close>; it is called on a client that has been started. No value is the nil pointer of one that was not.\<close>

definition rg_Stop :: "registry_client \<Rightarrow> registry_client option" where
  "rg_Stop rg =
     map_option (\<lambda>i. (fold (\<lambda>(h, j). stop_cache j) (rg_pcaches rg) (stop_cache i rg))\<lparr>rg_closed := True\<rparr>) (rg_scache rg)"

definition rg_Service :: "registry_client \<Rightarrow> string \<Rightarrow> DService option" where
  "rg_Service rg hostname = map_of (rg_services rg) hostname"

definition rg_Services :: "registry_client \<Rightarrow> DService list" where
  "rg_Services rg = map snd (rg_services rg)"

definition rg_Instances :: "registry_client \<Rightarrow> string \<Rightarrow> DInstance list" where
  "rg_Instances rg hostname =
     (case map_of (rg_services rg) hostname of None \<Rightarrow> [] | Some s \<Rightarrow> map snd (dv_Instances s))"

definition rg_InstancesByHost :: "registry_client \<Rightarrow> string list \<Rightarrow> DInstance list" where
  "rg_InstancesByHost rg hosts =
     concat (map (\<lambda>s. concat (map (\<lambda>i. concat (map (\<lambda>host. if di_Host i = host then [i] else []) hosts))
       (map snd (dv_Instances s)))) (map snd (rg_services rg)))"

definition GetCachedService :: "registry_client \<Rightarrow> string \<Rightarrow> DService option" where
  "GetCachedService rg serviceName = map_of (rg_services rg) serviceName"

section \<open>Accessors\<close>

definition makeAccessorInstance :: "string \<Rightarrow> string \<Rightarrow> DInstance option" where
  "makeAccessorInstance hostname rawURL =
     Option.bind (QueryUnescape rawURL) (\<lambda>cleanURL.
     Option.bind (url_Parse cleanURL) (\<lambda>ep.
     Some \<lparr>di_Service = None, di_Host = url_Host ep, di_Port = None, di_Labels = query_labels ep\<rparr>))"

definition addAccessor :: "string \<Rightarrow> registry_client \<Rightarrow> DService \<times> registry_client" where
  "addAccessor hostname rg =
     (case map_of (rg_accessors rg) hostname of
        Some a \<Rightarrow> (a, rg)
      | None \<Rightarrow>
          (let a = \<lparr>dv_Name = hostname, dv_Ports = [], dv_Instances = []\<rparr> in
           (a, rg\<lparr>rg_accessors := map_put hostname a (rg_accessors rg)\<rparr>)))"

text \<open>The scope of an instance is its label \<open>app\<close>; every scope keeps a set of service names.\<close>

definition add_scope ::
  "string \<Rightarrow> DInstance \<Rightarrow> (string, (string, unit) gomap) gomap \<Rightarrow> (string, (string, unit) gomap) gomap" where
  "add_scope name i m =
     (let scopedKey = lookup_zero [] (di_Labels i) ''app'' in
      if scopedKey = [] then m
      else map_put scopedKey (map_put name () (lookup_zero [] m scopedKey)) m)"

definition replaceAccessorInstances :: "string \<Rightarrow> string list \<Rightarrow> registry_client \<Rightarrow> registry_client" where
  "replaceAccessorInstances hostname rawURLs rg =
     (let (instances, i) = make_instances (makeAccessorInstance hostname) rawURLs;
          (a, rg) = addAccessor hostname rg;
          rg = rg\<lparr>rg_scopedAccessorsMapping :=
                 fold (\<lambda>(k, i). add_scope (dv_Name a) i) instances (rg_scopedAccessorsMapping rg)\<rparr> in
      notifyAccessorEvent \<lparr>ev_EventType = ServiceInstancesReplace, ev_Service = Some a, ev_Instance = None,
        ev_Instances = instances\<rparr> rg)"

text \<open>The set of the services of a scope, as the list of some range over it.\<close>

definition GetCachedScopedMapping :: "registry_client \<Rightarrow> string \<Rightarrow> string list" where
  "GetCachedScopedMapping rg scopedKey = map fst (lookup_zero [] (rg_scopedAccessorsMapping rg) scopedKey)"

section \<open>Event loops\<close>

text \<open>What the goroutines of the provider and the consumer cache of a service do with a notification.\<close>

fun rg_provider :: "string \<Rightarrow> PathCacheEvent \<Rightarrow> registry_client \<Rightarrow> registry_client" where
  "rg_provider hostname (PathCacheEventAdded path) rg = addServiceInstance hostname (Base path) rg"
| "rg_provider hostname (PathCacheEventChildrenReplaced paths) rg = replaceServiceInstances hostname (map Base paths) rg"
| "rg_provider hostname (PathCacheEventDeleted path) rg = deleteServiceInstance hostname (Base path) rg"
| "rg_provider hostname (PathCacheEventChanged path) rg = rg"

fun rg_consumer :: "string \<Rightarrow> PathCacheEvent \<Rightarrow> registry_client \<Rightarrow> registry_client" where
  "rg_consumer hostname (PathCacheEventChildrenReplaced paths) rg = replaceAccessorInstances hostname (map Base paths) rg"
| "rg_consumer hostname e rg = rg"

definition set_scache :: "string \<Rightarrow> registry_client \<Rightarrow> registry_client" where
  "set_scache path rg =
     (case rg_scache rg of
        None \<Rightarrow> rg
      | Some i \<Rightarrow> rg\<lparr>rg_caches := (rg_caches rg)[i := (fst (rg_caches rg ! i), set_cached path False (snd (rg_caches rg ! i)))]\<rparr>)"

text \<open>The caches of a service that appeared; the consumer cache is not created when the first one fails.\<close>

definition watch_service :: "'w zkconn \<Rightarrow> string \<Rightarrow> string \<Rightarrow> registry_client \<times> 'w \<Rightarrow> registry_client \<times> 'w" where
  "watch_service conn hostname path s =
     (case s of (rg, w) \<Rightarrow>
        case NewPathCache conn (Join path ProvidersPath) False (rg_autoFillNode rg) w of
          (None, w1) \<Rightarrow> (rg, w1)
        | (Some pcache, w1) \<Rightarrow>
            (case new_cache (ProviderCache hostname) pcache rg of (i, rg) \<Rightarrow>
               let rg = rg\<lparr>rg_pcaches := map_put hostname i (rg_pcaches rg)\<rparr> in
               case NewPathCache conn (Join path ConsumersPath) False (rg_autoFillNode rg) w1 of
                 (None, w2) \<Rightarrow> (rg, w2)
               | (Some ccache, w2) \<Rightarrow>
                   (case new_cache (ConsumerCache hostname) ccache rg of (j, rg) \<Rightarrow>
                      (rg\<lparr>rg_ccaches := map_put hostname j (rg_ccaches rg)\<rparr>, w2))))"

fun rg_event :: "'w zkconn \<Rightarrow> PathCacheEvent \<Rightarrow> registry_client \<times> 'w \<Rightarrow> registry_client \<times> 'w" where
  "rg_event conn (PathCacheEventAdded path) s =
     (let hostname = Base path in if Ignore hostname then s else watch_service conn hostname path s)"
| "rg_event conn (PathCacheEventDeleted path) s =
     (let hostname = Base path in
      if Ignore hostname then s else (case s of (rg, w) \<Rightarrow> (set_scache path (deleteService hostname rg), w)))"
| "rg_event conn e s = s"

fun rg_receive :: "'w zkconn \<Rightarrow> cache_role \<Rightarrow> PathCacheEvent \<Rightarrow> registry_client \<times> 'w \<Rightarrow> registry_client \<times> 'w" where
  "rg_receive conn ServiceCache e s = rg_event conn e s"
| "rg_receive conn (ProviderCache hostname) e s = (case s of (rg, w) \<Rightarrow> (rg_provider hostname e rg, w))"
| "rg_receive conn (ConsumerCache hostname) e s = (case s of (rg, w) \<Rightarrow> (rg_consumer hostname e rg, w))"

text \<open>
  One step of the client before it is stopped: one of its caches makes a step and its goroutine handles what it is notified
  of, or one of the events on their way is received. The goroutines of the code share the maps of
  the client without a lock; the model lets one finish a notification before the next one starts.
\<close>

datatype registry_out = ServiceOut ServiceEvent | AccessorOut ServiceEvent

inductive rg_step ::
  "'w zkconn \<Rightarrow> registry_client \<times> 'w \<Rightarrow> registry_out list \<Rightarrow> registry_client \<times> 'w \<Rightarrow> bool"
  for conn :: "'w zkconn" where
  cache: "i < length (rg_caches rg) \<Longrightarrow> rg_caches rg ! i = (role, pc) \<Longrightarrow>
    pc_step conn (role = ServiceCache) (pc, w) outs (pc', w') \<Longrightarrow>
    rg_step conn (rg, w) [] (fold (rg_receive conn role) outs (rg\<lparr>rg_caches := (rg_caches rg)[i := (role, pc')]\<rparr>, w'))"
| service: "e \<in># rg_serviceOut rg \<Longrightarrow>
    rg_step conn (rg, w) [ServiceOut e] (rg\<lparr>rg_serviceOut := rg_serviceOut rg - {#e#}\<rparr>, w)"
| accessor: "e \<in># rg_accessorOut rg \<Longrightarrow>
    rg_step conn (rg, w) [AccessorOut e] (rg\<lparr>rg_accessorOut := rg_accessorOut rg - {#e#}\<rparr>, w)"

inductive rg_run ::
  "'w zkconn \<Rightarrow> registry_out list \<Rightarrow> registry_client \<times> 'w \<Rightarrow> bool"
  for conn :: "'w zkconn" where
  new: "rg_New True = Some rg \<Longrightarrow> rg_Start conn (rg, w) = (True, s) \<Longrightarrow> rg_run conn [] s"
| more: "rg_run conn outs s \<Longrightarrow> rg_step conn s out s' \<Longrightarrow> rg_run conn (outs @ out) s'"

section \<open>From a URL to an instance\<close>

lemma url_Query_wf: "wf_map (url_Query u) \<and> (\<forall>k vs. map_of (url_Query u) k = Some vs \<longrightarrow> vs \<noteq> [])"
proof -
  have "wf_map (fold add_value kvs m) \<and> (\<forall>k vs. map_of (fold add_value kvs m) k = Some vs \<longrightarrow> vs \<noteq> [])"
    if "wf_map m \<and> (\<forall>k vs. map_of m k = Some vs \<longrightarrow> vs \<noteq> [])" for kvs and m :: "(string, string list) gomap"
    using that
  proof (induction kvs arbitrary: m)
    case (Cons kv kvs)
    have "wf_map (add_value kv m) \<and> (\<forall>k vs. map_of (add_value kv m) k = Some vs \<longrightarrow> vs \<noteq> [])"
      using Cons.prems by (auto simp: add_value_def split: prod.splits)
    from Cons.IH [OF this] show ?case by simp
  qed simp
  from this [of "[]"] show ?thesis by (simp add: url_Query_def)
qed

lemma query_labels_first: "map_of (query_labels u) k = map_option hd (map_of (url_Query u) k)"
proof -
  have "map_of (fold (\<lambda>(key, value) m. if value \<noteq> [] then map_put key (hd value) m else m) q m) k =
      (case map_of q k of None \<Rightarrow> map_of m k | Some vs \<Rightarrow> Some (hd vs))"
    if "wf_map q \<and> (\<forall>k vs. map_of q k = Some vs \<longrightarrow> vs \<noteq> [])" for q m
    using that
  proof (induction q arbitrary: m)
    case (Cons kv q)
    obtain key vs where kv: "kv = (key, vs)" by fastforce
    have vs: "vs \<noteq> []" using Cons.prems kv by (metis map_of_Cons_code(2))
    have key: "map_of q key = None" and q: "wf_map q \<and> (\<forall>k vs. map_of q k = Some vs \<longrightarrow> vs \<noteq> [])"
      using Cons.prems kv by (auto simp: wf_map_def map_of_eq_None_iff split: if_splits intro: map_of_SomeD)
    show ?case using Cons.IH [OF q] kv vs key by (auto split: option.splits)
  qed simp
  from this [OF url_Query_wf] show ?thesis
    by (simp add: query_labels_def split: option.splits)
qed

lemma service_url_parsed:
  assumes "plain_url scheme host port path params" and "distinct (map fst params)"
  shows "\<exists>i. makeServiceInstance hostname (url_encode (service_url scheme host port path params)) = Some i \<and>
    di_Host i = host @ '':'' @ port \<and>
    di_Port i = Some \<lparr>dp_Protocol = DubboProtocol, dp_Port = port\<rparr> \<and>
    map_of (di_Labels i) = map_of params"
proof -
  let ?ep = "\<lparr>url_Host = host @ '':'' @ port, url_RawQuery = query_of params\<rparr>"
  have port: "CHR '':'' \<notin> set port" and digits: "list_all is_digit port"
    using assms(1) class_facts(2) [of "CHR '':''"] by (auto simp: plain_url_def list_all_iff)
  then have "url_Port ?ep = port"
    by (simp add: url_Port_def last_index_of_append validOptionalPort_def)
  moreover have "map_of (query_labels ?ep) = map_of params"
  proof
    fix k
    have "map_of (url_Query ?ep) k = map_option (\<lambda>v. [v]) (map_of params k)"
      using url_Query_plain [OF _ assms(2), of "host @ '':'' @ port"] assms(1)
      by (simp add: plain_url_def map_of_map)
    then show "map_of (query_labels ?ep) k = map_of params k"
      by (simp add: query_labels_first option.map_comp comp_def option.map_ident)
  qed
  ultimately show ?thesis
    by (simp add: makeServiceInstance_def QueryUnescape_encode url_Parse_service [OF assms(1)])
qed

text \<open>
  C27: a provider that registers itself with a URL of its host, port and parameters, form-encoded as Dubbo
  writes it, becomes an instance with exactly that address, that port and those labels.
\<close>

theorem makeServiceInstance_roundtrip:
  assumes "plain_url scheme host port path params" and "distinct (map fst params)"
  shows "\<exists>i. makeServiceInstance hostname (url_encode (service_url scheme host port path params)) = Some i \<and>
    di_Host i = host @ '':'' @ port \<and>
    di_Port i = Some \<lparr>dp_Protocol = DubboProtocol, dp_Port = port\<rparr> \<and>
    map_of (di_Labels i) = map_of params"
  by (rule service_url_parsed [OF assms])

section \<open>Instances of an event\<close>

lemma make_instances_spec: "map_of (fst (make_instances mk urls)) ru = (if ru \<in> set urls then mk ru else None)"
proof -
  have "map_of (fst (fold (\<lambda>ru (instances, i).
       case mk ru of None \<Rightarrow> (instances, None) | Some i \<Rightarrow> (map_put ru i instances, Some i)) urls acc)) ru =
      (if ru \<in> set urls \<and> mk ru \<noteq> None then mk ru else map_of (fst acc) ru)" for acc
    by (induction urls arbitrary: acc) (auto split: option.splits prod.splits)
  from this [of "([], None)"] show ?thesis by (auto simp: make_instances_def)
qed

section \<open>Services have no instances\<close>

text \<open>What is true of a cache of providers or consumers: no child of its own is ever announced.\<close>

definition no_added :: "path_cache \<Rightarrow> bool" where
  "no_added pc \<longleftrightarrow> (\<forall>c. \<not> announces pc (PathCacheEventAdded c))"

definition quiet_cache :: "cache_role \<times> path_cache \<Rightarrow> bool" where
  "quiet_cache c \<longleftrightarrow> fst c \<noteq> ServiceCache \<longrightarrow> no_added (snd c)"

definition lists_only :: "registry_client \<Rightarrow> bool" where
  "lists_only rg \<longleftrightarrow> set (rg_caches rg) \<subseteq> Collect quiet_cache \<and>
     (\<forall>h s. map_of (rg_services rg) h = Some s \<longrightarrow> dv_Instances s = [])"

lemma no_added_simps [simp]:
  "no_added (schedule (Forward wt) p) \<longleftrightarrow> no_added p"
  "no_added (schedule (Notify (PathCacheEventChildrenReplaced l)) p) \<longleftrightarrow> no_added p"
  "no_added (set_cached k b p) \<longleftrightarrow> no_added p"
  "no_added (pc_Stop p) \<longleftrightarrow> no_added p"
  "no_added (p\<lparr>pc_running := r\<rparr>) \<longleftrightarrow> no_added p"
  "no_added (p\<lparr>pc_zkEventCounter := n\<rparr>) \<longleftrightarrow> no_added p"
  by (auto simp: no_added_def)

lemma no_added_finish: "no_added p \<Longrightarrow> no_added (finish t p)"
  unfolding no_added_def by (blast dest: announces_finish)

lemma no_added_watchChildren:
  assumes "pc_watchChildren conn (p, w) = (ok, p', w')" and "no_added p"
  shows "no_added p'"
  using pc_watchChildren_cases [OF assms(1)] assms(2) by (auto simp: no_added_def split: if_splits)

lemma no_added_step:
  assumes "pc_step conn False s outs s'" and "no_added (fst s)"
  shows "no_added (fst s') \<and> (\<forall>c. PathCacheEventAdded c \<notin> set outs)"
  using assms
proof (induction rule: pc_step.induct)
  case (add p c w)
  then show ?case by (auto simp: no_added_def)
next
  case (event p wt e w)
  obtain p' w' where run: "pc_onEvent conn False e (finish (Forward wt) p, w) = (p', w')" by fastforce
  have "no_added p'"
  proof (cases "\<exists>q. e = EventNodeChildrenChanged q")
    case True
    obtain ok p1 w1 where w: "pc_watchChildren conn (finish (Forward wt) p, w) = (ok, p1, w1)" by (metis prod_cases3)
    with True run have "p' = p1\<lparr>pc_zkEventCounter := pc_zkEventCounter p1 + 1\<rparr>" by (auto simp: pc_onEvent_def Let_def)
    with no_added_watchChildren [OF w] no_added_finish event(4) show ?thesis by simp
  next
    case False
    with pc_onEvent_other [OF run] no_added_finish [of p] event(4) show ?thesis by (simp add: no_added_def)
  qed
  with run show ?case by simp
next
  case (notify p e w)
  then show ?case using no_added_finish [of p] by (cases e) (auto simp: no_added_def)
next
  case (stop p w)
  then show ?case using no_added_finish [of p] by simp
qed (auto intro: no_added_finish)

lemma no_added_new:
  assumes "NewPathCache conn path False auto w = (Some p, w')"
  shows "no_added p"
proof -
  define p0 where "p0 = \<lparr>pc_Path = path, pc_Cached = [], pc_zkEventCounter = 0, pc_autoFillNode = auto,
               pc_running = True, pc_tasks = {#}\<rparr>"
  define w1 where "w1 = (if auto then snd (zk_create conn path w) else w)"
  have "pc_watchChildren conn (p0, w1) = (True, p, w')"
    using assms by (auto simp: NewPathCache_def Let_def p0_def w1_def split: prod.splits bool.splits if_splits)
  then show ?thesis by (rule no_added_watchChildren) (simp add: no_added_def p0_def)
qed

lemma AddPort_instances [simp]: "dv_Instances (AddPort port s) = dv_Instances s" "dv_Name (AddPort port s) = dv_Name s"
  by (simp_all add: AddPort_def Let_def)

lemma notify_simps [simp]:
  "rg_services (notifyServiceEvent e rg) = rg_services rg"
  "rg_caches (notifyServiceEvent e rg) = rg_caches rg"
  "rg_scopedAccessorsMapping (notifyServiceEvent e rg) = rg_scopedAccessorsMapping rg"
  "rg_serviceOut (notifyServiceEvent e rg) = add_mset e (rg_serviceOut rg)"
  "rg_services (notifyAccessorEvent e rg) = rg_services rg"
  "rg_caches (notifyAccessorEvent e rg) = rg_caches rg"
  "rg_scopedAccessorsMapping (notifyAccessorEvent e rg) = rg_scopedAccessorsMapping rg"
  "rg_serviceOut (notifyAccessorEvent e rg) = rg_serviceOut rg"
  by (simp_all add: notifyServiceEvent_def notifyAccessorEvent_def)

lemma addService_cases:
  assumes "addService hostname ins rg = (s, rg')"
  shows "rg_caches rg' = rg_caches rg \<and> rg_scopedAccessorsMapping rg' = rg_scopedAccessorsMapping rg \<and>
    map_of (rg_services rg') = (map_of (rg_services rg))(hostname \<mapsto> s) \<and>
    (case map_of (rg_services rg) hostname of
       Some s' \<Rightarrow> s = s' \<and> rg_serviceOut rg' = rg_serviceOut rg
     | None \<Rightarrow> dv_Name s = hostname \<and> dv_Instances s = [] \<and>
         rg_serviceOut rg' = add_mset \<lparr>ev_EventType = ServiceAdded, ev_Service = Some s, ev_Instance = None,
           ev_Instances = []\<rparr> (rg_serviceOut rg))"
  using assms by (auto simp: addService_def Let_def split: option.splits)

lemma addService_lists_only:
  assumes "addService hostname ins rg = (s, rg')" and "lists_only rg"
  shows "lists_only rg' \<and> dv_Instances s = []"
  using addService_cases [OF assms(1)] assms(2)
  by (cases "map_of (rg_services rg) hostname") (auto simp: lists_only_def)

lemma lists_only_notify [simp]:
  "lists_only (notifyServiceEvent e rg) \<longleftrightarrow> lists_only rg"
  "lists_only (notifyAccessorEvent e rg) \<longleftrightarrow> lists_only rg"
  by (simp_all add: lists_only_def)

lemma rg_provider_lists_only:
  assumes "lists_only rg" and "\<And>c. e \<noteq> PathCacheEventAdded c"
  shows "lists_only (rg_provider hostname e rg)"
proof (cases e)
  case (PathCacheEventChildrenReplaced paths)
  obtain instances i where mk: "make_instances (makeServiceInstance hostname) (map Base paths) = (instances, i)" by fastforce
  obtain s rg' where add: "addService hostname i rg = (s, rg')" by fastforce
  from addService_lists_only [OF add assms(1)] show ?thesis
    by (simp add: PathCacheEventChildrenReplaced replaceServiceInstances_def mk add)
next
  case (PathCacheEventDeleted path)
  with assms(1) show ?thesis
    by (auto simp: deleteServiceInstance_def Let_def makeHostname_def lists_only_def split: option.splits)
qed (use assms in simp_all)

lemma addAccessor_simps [simp]:
  "rg_services (snd (addAccessor h rg)) = rg_services rg"
  "rg_caches (snd (addAccessor h rg)) = rg_caches rg"
  "rg_scopedAccessorsMapping (snd (addAccessor h rg)) = rg_scopedAccessorsMapping rg"
  "rg_serviceOut (snd (addAccessor h rg)) = rg_serviceOut rg"
  by (simp_all add: addAccessor_def Let_def split: option.split)

lemma rg_consumer_lists_only: "lists_only rg \<Longrightarrow> lists_only (rg_consumer hostname e rg)"
  by (cases e) (simp_all add: replaceAccessorInstances_def Let_def split_def lists_only_def)

text \<open>Changing one cache in place keeps its role.\<close>

lemma lists_only_update:
  assumes "lists_only rg" and "\<And>pc. no_added pc \<Longrightarrow> no_added (f pc)"
  shows "lists_only (rg\<lparr>rg_caches := (rg_caches rg)[i := (fst (rg_caches rg ! i), f (snd (rg_caches rg ! i)))]\<rparr>)"
proof (cases "i < length (rg_caches rg)")
  case True
  then have "quiet_cache (rg_caches rg ! i)"
    using assms(1) nth_mem by (fastforce simp: lists_only_def)
  with assms(2) have "quiet_cache (fst (rg_caches rg ! i), f (snd (rg_caches rg ! i)))"
    by (simp add: quiet_cache_def)
  with assms(1) show ?thesis by (simp add: lists_only_def set_update_subsetI)
qed (use assms in \<open>simp add: list_update_beyond\<close>)

lemma lists_only_stop: "lists_only rg \<Longrightarrow> lists_only (stop_cache i rg)"
  unfolding stop_cache_def by (rule lists_only_update) simp_all

lemma lists_only_set_scache: "lists_only rg \<Longrightarrow> lists_only (set_scache path rg)"
  unfolding set_scache_def by (auto split: option.split intro: lists_only_update)

text \<open>The loop of \<open>deleteService\<close>.\<close>

definition delete_event :: "DService \<Rightarrow> ServiceEvent" where
  "delete_event s = \<lparr>ev_EventType = ServiceDeleted, ev_Service = Some s, ev_Instance = None, ev_Instances = []\<rparr>"

definition delete_matching ::
  "string \<Rightarrow> (string \<times> DService) list \<Rightarrow> registry_client \<Rightarrow> registry_client" where
  "delete_matching hostname kvs rg =
     fold (\<lambda>(h, s) rg.
        if HasSuffix h hostname then notifyServiceEvent (delete_event s) (rg\<lparr>rg_services := map_del h (rg_services rg)\<rparr>)
        else rg) kvs rg"

lemma delete_matching_spec:
  "map_of (rg_services (delete_matching hostname kvs rg)) h =
     (if h \<in> fst ` set kvs \<and> HasSuffix h hostname then None else map_of (rg_services rg) h) \<and>
   rg_caches (delete_matching hostname kvs rg) = rg_caches rg \<and>
   rg_scopedAccessorsMapping (delete_matching hostname kvs rg) = rg_scopedAccessorsMapping rg \<and>
   rg_serviceOut (delete_matching hostname kvs rg) =
     rg_serviceOut rg + image_mset delete_event (mset (map snd (filter (\<lambda>(h, s). HasSuffix h hostname) kvs)))"
  unfolding delete_matching_def
proof (induction kvs arbitrary: rg)
  case (Cons kv kvs)
  then show ?case by (cases kv) auto
qed simp

lemma deleteService_unfold:
  "deleteService hostname rg =
     (let rg' = (case map_of (rg_pcaches rg) hostname of None \<Rightarrow> rg | Some cache \<Rightarrow> stop_cache cache rg) in
      delete_matching hostname (rg_services rg') rg')"
  unfolding deleteService_def delete_matching_def delete_event_def Let_def by (rule refl)

lemma stop_cache_simps [simp]:
  "rg_services (stop_cache i rg) = rg_services rg"
  "rg_serviceOut (stop_cache i rg) = rg_serviceOut rg"
  "rg_scopedAccessorsMapping (stop_cache i rg) = rg_scopedAccessorsMapping rg"
  by (simp_all add: stop_cache_def)

text \<open>
  When a service disappears from the registry, the client forgets every service whose name ends with
  its name, and no other; for each of them, and nothing else, the adapter is told to delete it.
\<close>

theorem deleteService_suffix:
  assumes "wf_map (rg_services rg)"
  shows "map_of (rg_services (deleteService hostname rg)) h =
      (if HasSuffix h hostname then None else map_of (rg_services rg) h) \<and>
    rg_serviceOut (deleteService hostname rg) = rg_serviceOut rg +
      image_mset delete_event (mset (map snd (filter (\<lambda>(h, s). HasSuffix h hostname) (rg_services rg))))"
proof -
  have gone: "map_of (rg_services rg) h = None" if "h \<notin> fst ` set (rg_services rg)"
    using that by (simp add: map_of_eq_None_iff)
  define rg' where "rg' = (case map_of (rg_pcaches rg) hostname of None \<Rightarrow> rg | Some cache \<Rightarrow> stop_cache cache rg)"
  have same: "rg_services rg' = rg_services rg" "rg_serviceOut rg' = rg_serviceOut rg"
    by (simp_all add: rg'_def split: option.split)
  from delete_matching_spec [of hostname "rg_services rg'" rg' h] gone show ?thesis
    by (auto simp: deleteService_unfold rg'_def [symmetric] same Let_def)
qed

lemma deleteService_lists_only:
  assumes "lists_only rg" shows "lists_only (deleteService hostname rg)"
proof -
  define rg' where "rg' = (case map_of (rg_pcaches rg) hostname of None \<Rightarrow> rg | Some cache \<Rightarrow> stop_cache cache rg)"
  have "lists_only rg'" using assms lists_only_stop by (simp add: rg'_def split: option.split)
  then show ?thesis
    using delete_matching_spec [of hostname "rg_services rg'" rg']
    by (auto simp: deleteService_unfold rg'_def [symmetric] Let_def lists_only_def split: if_splits)
qed

lemma lists_only_new_cache:
  assumes "lists_only rg" and "role \<noteq> ServiceCache \<longrightarrow> no_added pc" and "new_cache role pc rg = (i, rg')"
  shows "lists_only rg'"
  using assms by (auto simp: new_cache_def lists_only_def quiet_cache_def)

lemma watch_service_lists_only:
  assumes "lists_only rg" and "watch_service conn hostname path (rg, w) = (rg', w')"
  shows "lists_only rg'"
proof -
  have upd: "lists_only (r\<lparr>rg_pcaches := m\<rparr>)" "lists_only (r\<lparr>rg_ccaches := m\<rparr>)" if "lists_only r" for r m
    using that by (simp_all add: lists_only_def)
  obtain p w1 where P: "NewPathCache conn (Join path ProvidersPath) False (rg_autoFillNode rg) w = (p, w1)" by fastforce
  show ?thesis
  proof (cases p)
    case None
    with assms P show ?thesis by (simp add: watch_service_def)
  next
    case (Some pcache)
    obtain i rg1 where N: "new_cache (ProviderCache hostname) pcache rg = (i, rg1)" by fastforce
    have rg1: "lists_only rg1"
      using no_added_new [of conn "Join path ProvidersPath"] P Some
      by (intro lists_only_new_cache [OF assms(1) _ N]) blast
    have auto: "rg_autoFillNode rg1 = rg_autoFillNode rg" using N by (auto simp: new_cache_def)
    obtain c w2 where C: "NewPathCache conn (Join path ConsumersPath) False (rg_autoFillNode rg) w1 = (c, w2)" by fastforce
    let ?rg1 = "rg1\<lparr>rg_pcaches := map_put hostname i (rg_pcaches rg1)\<rparr>"
    show ?thesis
    proof (cases c)
      case None
      with assms(2) P Some N C auto upd(1) [OF rg1] show ?thesis by (auto simp: watch_service_def Let_def)
    next
      case (Some ccache)
      obtain j rg2 where N2: "new_cache (ConsumerCache hostname) ccache ?rg1 = (j, rg2)" by fastforce
      have "lists_only rg2"
        using no_added_new [of conn "Join path ConsumersPath"] C Some
        by (intro lists_only_new_cache [OF upd(1) [OF rg1] _ N2]) blast
      with assms(2) P \<open>p = Some pcache\<close> N C Some auto N2 upd(2) show ?thesis by (auto simp: watch_service_def Let_def)
    qed
  qed
qed

lemma rg_event_lists_only:
  assumes "lists_only rg" and "rg_event conn e (rg, w) = (rg', w')"
  shows "lists_only rg'"
  using assms watch_service_lists_only deleteService_lists_only lists_only_set_scache
  by (cases e) (auto simp: Let_def split: if_splits)

lemma rg_receive_lists_only:
  assumes "lists_only rg" and "role \<noteq> ServiceCache \<longrightarrow> (\<forall>c. PathCacheEventAdded c \<notin> set outs)"
  shows "lists_only (fst (fold (rg_receive conn role) outs (rg, w)))"
  using assms
proof (induction outs arbitrary: rg w)
  case (Cons e outs)
  obtain rg1 w1 where R: "rg_receive conn role e (rg, w) = (rg1, w1)" by fastforce
  have "lists_only rg1"
  proof (cases role)
    case ServiceCache
    with R rg_event_lists_only [OF Cons.prems(1)] show ?thesis by simp
  next
    case (ProviderCache h)
    with R Cons.prems rg_provider_lists_only [of rg e h] show ?thesis by auto
  next
    case (ConsumerCache h)
    with R Cons.prems rg_consumer_lists_only [of rg h e] show ?thesis by auto
  qed
  with Cons R show ?case by simp
qed simp

lemma rg_step_lists_only:
  assumes "rg_step conn s out s'" and "lists_only (fst s)"
  shows "lists_only (fst s')"
  using assms
proof (induction rule: rg_step.induct)
  case (cache i rg role pc w outs pc' w')
  have mem: "(role, pc) \<in> set (rg_caches rg)" using cache(1,2) by (metis nth_mem)
  have "quiet_cache (role, pc)" using cache(4) mem by (auto simp: lists_only_def)
  then have pc: "role \<noteq> ServiceCache \<Longrightarrow> no_added pc' \<and> (\<forall>c. PathCacheEventAdded c \<notin> set outs)"
    using no_added_step [of conn "(pc, w)" outs "(pc', w')"] cache(3) by (simp add: quiet_cache_def)
  then have "lists_only (rg\<lparr>rg_caches := (rg_caches rg)[i := (role, pc')]\<rparr>)"
    using cache(4) by (simp add: lists_only_def quiet_cache_def set_update_subsetI)
  with pc show ?case by (intro rg_receive_lists_only) simp_all
qed (simp_all add: lists_only_def)

text \<open>
  C28: in every state the registry client can reach, no service has an instance: the caches of the providers
  only ever notify of whole lists, and a list goes into the event and not into the service. What
  \<open>Instances\<close> and \<open>InstancesByHost\<close> return is always empty.
\<close>

theorem rg_services_without_instances:
  assumes "rg_run conn outs (rg, w)"
  shows "(map_of (rg_services rg) hostname = Some s \<longrightarrow> dv_Instances s = []) \<and> rg_Instances rg hostname = []"
proof -
  have "lists_only (fst (rg, w))" using assms
  proof (induction rule: rg_run.induct)
    case (new rg0 w s)
    then show ?case
      by (auto simp: rg_New_def rg_Start_def new_cache_def lists_only_def quiet_cache_def split: prod.splits option.splits)
  next
    case (more outs s out s')
    with rg_step_lists_only show ?case by blast
  qed
  then show ?thesis by (auto simp: lists_only_def rg_Instances_def split: option.split)
qed

section \<open>Scopes\<close>

lemma make_instances_wf: "wf_map (fst (make_instances mk urls))"
proof -
  have "wf_map (fst (fold (\<lambda>ru (instances, i).
       case mk ru of None \<Rightarrow> (instances, None) | Some i \<Rightarrow> (map_put ru i instances, Some i)) urls acc))"
    if "wf_map (fst acc)" for acc
    using that by (induction urls arbitrary: acc) (auto split: option.splits prod.splits)
  from this [of "([], None)"] show ?thesis by (simp add: make_instances_def)
qed

definition in_scope :: "string \<Rightarrow> DInstance \<Rightarrow> bool" where
  "in_scope scope i \<longleftrightarrow> scope \<noteq> [] \<and> lookup_zero [] (di_Labels i) ''app'' = scope"

lemma fst_set_put: "fst ` set (map_put k v m) = insert k (fst ` set m)"
  using dom_update [of k v m] by simp

lemma add_scopes_spec:
  "fst ` set (lookup_zero [] (fold (\<lambda>(k, i). add_scope name i) insts m) scope) =
     fst ` set (lookup_zero [] m scope) \<union> (if \<exists>(k, i) \<in> set insts. in_scope scope i then {name} else {})"
proof (induction insts arbitrary: m)
  case (Cons ki insts)
  obtain k i where ki: "ki = (k, i)" by fastforce
  have one: "fst ` set (lookup_zero [] (add_scope name i m) scope) =
      fst ` set (lookup_zero [] m scope) \<union> (if in_scope scope i then {name} else {})"
    by (auto simp: add_scope_def Let_def in_scope_def fst_set_put lookup_zero_def image_iff split: option.split)
  show ?case using Cons.IH [of "add_scope name i m"] ki one by auto
qed simp

text \<open>What an event of a consumer list adds to a scope.\<close>

lemma replaceAccessorInstances_scopes:
  "set (GetCachedScopedMapping (replaceAccessorInstances hostname urls rg) scope) =
     set (GetCachedScopedMapping rg scope) \<union>
     (if \<exists>ru \<in> set urls. \<exists>i. makeAccessorInstance hostname ru = Some i \<and> in_scope scope i
      then {dv_Name (fst (addAccessor hostname rg))} else {})"
proof -
  obtain insts i where mk: "make_instances (makeAccessorInstance hostname) urls = (insts, i)" by fastforce
  obtain a rg' where acc: "addAccessor hostname rg = (a, rg')" by fastforce
  have same: "rg_scopedAccessorsMapping rg' = rg_scopedAccessorsMapping rg"
    using addAccessor_simps(3) [of hostname rg] acc by simp
  have "(k, i) \<in> set insts \<longleftrightarrow> k \<in> set urls \<and> makeAccessorInstance hostname k = Some i" for k i
    using make_instances_spec [of "makeAccessorInstance hostname" urls k]
      map_of_eq_Some_set [OF make_instances_wf [of "makeAccessorInstance hostname" urls], of k i] mk
    by (auto split: if_splits)
  then have "(\<exists>(k, i) \<in> set insts. in_scope scope i) \<longleftrightarrow>
      (\<exists>ru \<in> set urls. \<exists>i. makeAccessorInstance hostname ru = Some i \<and> in_scope scope i)"
    by auto
  then show ?thesis
    by (simp add: replaceAccessorInstances_def mk acc Let_def GetCachedScopedMapping_def add_scopes_spec same) blast
qed

lemma scopes_unchanged:
  "rg_scopedAccessorsMapping (rg_provider hostname e rg) = rg_scopedAccessorsMapping rg"
  "rg_scopedAccessorsMapping (deleteService hostname rg) = rg_scopedAccessorsMapping rg"
  "rg_scopedAccessorsMapping (set_scache path rg) = rg_scopedAccessorsMapping rg"
proof -
  have add: "rg_scopedAccessorsMapping (snd (addService h i r)) = rg_scopedAccessorsMapping r" for h i r
    using addService_cases [of h i r] by (cases "addService h i r") simp
  show "rg_scopedAccessorsMapping (rg_provider hostname e rg) = rg_scopedAccessorsMapping rg"
  proof (cases e)
    case (PathCacheEventAdded p)
    then show ?thesis using add [of hostname _ rg]
      by (auto simp: addServiceInstance_def Let_def split: option.split prod.split) (metis snd_conv)
  next
    case (PathCacheEventChildrenReplaced l)
    then show ?thesis using add [of hostname _ rg]
      by (auto simp: replaceServiceInstances_def Let_def split: prod.split) (metis snd_conv)
  qed (simp_all add: deleteServiceInstance_def Let_def split: option.split)
  define rg' where "rg' = (case map_of (rg_pcaches rg) hostname of None \<Rightarrow> rg | Some cache \<Rightarrow> stop_cache cache rg)"
  have "rg_scopedAccessorsMapping rg' = rg_scopedAccessorsMapping rg" by (simp add: rg'_def split: option.split)
  then show "rg_scopedAccessorsMapping (deleteService hostname rg) = rg_scopedAccessorsMapping rg"
    using delete_matching_spec [of hostname "rg_services rg'" rg']
    by (simp add: deleteService_unfold rg'_def [symmetric] Let_def)
  show "rg_scopedAccessorsMapping (set_scache path rg) = rg_scopedAccessorsMapping rg"
    by (simp add: set_scache_def split: option.split)
qed

lemma rg_event_scopes:
  "rg_scopedAccessorsMapping (fst (rg_event conn e s)) = rg_scopedAccessorsMapping (fst s)"
  by (cases e; cases s)
    (auto simp: Let_def scopes_unchanged watch_service_def new_cache_def split: prod.split option.split)

lemma rg_receive_scopes:
  "set (GetCachedScopedMapping (fst s) scope) \<subseteq> set (GetCachedScopedMapping (fst (rg_receive conn role e s)) scope)"
proof (cases role)
  case ServiceCache
  then show ?thesis by (simp add: GetCachedScopedMapping_def rg_event_scopes)
next
  case (ProviderCache h)
  then show ?thesis by (cases s) (simp add: GetCachedScopedMapping_def scopes_unchanged)
next
  case (ConsumerCache h)
  then show ?thesis using replaceAccessorInstances_scopes by (cases s; cases e) auto
qed

text \<open>
  C29: what an application is known to access only grows: no step of the client, the report of a shorter list
  of consumers included, takes a service from a scope. A ServiceAccessor built from the mapping
  never loses a host that its application no longer uses.
\<close>

theorem rg_scopes_never_shrink:
  assumes "rg_step conn (rg, w) out (rg', w')"
  shows "set (GetCachedScopedMapping rg scope) \<subseteq> set (GetCachedScopedMapping rg' scope)"
proof -
  have fold: "set (GetCachedScopedMapping (fst s) scope) \<subseteq>
      set (GetCachedScopedMapping (fst (fold (rg_receive conn role) outs s)) scope)" for role outs s
  proof (induction outs arbitrary: s)
    case (Cons e outs)
    from rg_receive_scopes [of s scope conn role e] Cons.IH [of "rg_receive conn role e s"] show ?case by simp
  qed simp
  from assms show ?thesis
  proof (cases rule: rg_step.cases)
    case (cache i role pc outs pc' w1)
    from cache(2) have "fst (fold (rg_receive conn role) outs (rg\<lparr>rg_caches := (rg_caches rg)[i := (role, pc')]\<rparr>, w1)) = rg'"
      by (metis fst_conv)
    with fold [of "(rg\<lparr>rg_caches := (rg_caches rg)[i := (role, pc')]\<rparr>, w1)" role outs] show ?thesis
      by (simp add: GetCachedScopedMapping_def)
  qed (simp_all add: GetCachedScopedMapping_def)
qed

section \<open>The providers of a service are deleted\<close>

definition instance_deleted :: "DInstance \<Rightarrow> ServiceEvent" where
  "instance_deleted i =
     \<lparr>ev_EventType = ServiceInstanceDeleted, ev_Service = None, ev_Instance = Some i, ev_Instances = []\<rparr>"

text \<open>
  When the node of the providers of a known service is deleted, the client sends an event about a deleted
  instance with no service in it; the deleted node itself is taken for an instance.
\<close>

lemma providers_deleted:
  assumes "map_of (rg_services rg) hostname = Some s"
  shows "\<exists>i. rg_serviceOut (rg_provider hostname (PathCacheEventDeleted (''/dubbo/'' @ hostname @ ''/providers'')) rg) =
      add_mset (instance_deleted i) (rg_serviceOut rg) \<and> di_Host i = []"
proof -
  have base: "Base (''/dubbo/'' @ hostname @ ''/providers'') = ''providers''"
    by (simp add: Base_def strip_slashes_def takeWhile_append)
  have "makeServiceInstance hostname ''providers'' \<noteq> None \<and> di_Host (the (makeServiceInstance hostname ''providers'')) = []"
    unfolding makeServiceInstance_def by code_simp
  then obtain i where "makeServiceInstance hostname ''providers'' = Some i" "di_Host i = []" by auto
  with assms show ?thesis
    by (simp add: base [simplified] deleteServiceInstance_def makeHostname_def instance_deleted_def)
qed

section \<open>A run\<close>

definition demo_registry :: registry_client where
  "demo_registry = \<lparr>rg_services = [], rg_serviceOut = {#}, rg_accessors = [], rg_accessorOut = {#},
     rg_scopedAccessorsMapping = [], rg_scache = Some 0, rg_pcaches = [], rg_ccaches = [],
     rg_autoFillNode = True, rg_caches = [(ServiceCache, demo_cache True)], rg_closed = False\<rparr>"

lemma demo_registry_run: "rg_run demo_zk [] (demo_registry, [''a''])"
proof (rule rg_run.new)
  let ?rg = "\<lparr>rg_services = [], rg_serviceOut = {#}, rg_accessors = [], rg_accessorOut = {#},
        rg_scopedAccessorsMapping = [], rg_scache = None, rg_pcaches = [], rg_ccaches = [],
        rg_autoFillNode = True, rg_caches = [], rg_closed = False\<rparr>"
  show "rg_New True = Some ?rg" by (simp add: rg_New_def)
  show "rg_Start demo_zk (?rg, [''a'']) = (True, demo_registry, [''a''])"
    by (simp add: rg_Start_def DubboRootPath_def demo_new new_cache_def demo_registry_def)
qed

text \<open>The root cache announces its child, and the client watches the providers of the new service.\<close>

definition demo_service :: DService where
  "demo_service = \<lparr>dv_Name = ''a.Demo'', dv_Ports = [], dv_Instances = []\<rparr>"

definition demo_known :: registry_client where
  "demo_known = demo_registry\<lparr>rg_services := [(''a.Demo'', demo_service), (''b.a.Demo'', demo_service\<lparr>dv_Name := ''b.a.Demo''\<rparr>),
     (''a.Other'', demo_service\<lparr>dv_Name := ''a.Other''\<rparr>)]\<rparr>"

theorem makeServiceInstance_roundtrip_witness:
  "\<exists>i. makeServiceInstance ''a.Demo'' (url_encode (service_url ''dubbo'' ''10.0.0.1'' ''20880'' ''a.Demo''
       [(''application'', ''shop''), (''timeout'', ''3000'')])) = Some i \<and>
    di_Host i = ''10.0.0.1'' @ '':'' @ ''20880'' \<and>
    di_Port i = Some \<lparr>dp_Protocol = DubboProtocol, dp_Port = ''20880''\<rparr> \<and>
    map_of (di_Labels i) = map_of [(''application'', ''shop''), (''timeout'', ''3000'')]"
  by (rule makeServiceInstance_roundtrip) code_simp+

text \<open>The deletion of \<open>a.Demo\<close> also deletes \<open>b.a.Demo\<close>.\<close>

theorem deleteService_suffix_witness:
  "map_of (rg_services (deleteService ''a.Demo'' demo_known)) ''b.a.Demo'' = None \<and>
   rg_serviceOut (deleteService ''a.Demo'' demo_known) =
     {#delete_event demo_service, delete_event (demo_service\<lparr>dv_Name := ''b.a.Demo''\<rparr>)#}"
proof -
  have "wf_map (rg_services demo_known)" by code_simp
  from deleteService_suffix [OF this, of "''a.Demo''" "''b.a.Demo''"] show ?thesis
    by (simp add: demo_known_def demo_registry_def HasSuffix_def)
qed

text \<open>The first steps of a client: it follows the service \<open>a\<close>, whose lists have one URL.\<close>

definition demo_url :: string where
  "demo_url = url_encode (service_url ''consumer'' ''10.0.0.2'' ''0'' ''a'' [(''app'', ''shop'')])"

definition demo_list :: "string \<Rightarrow> path_cache" where
  "demo_list path =
     \<lparr>pc_Path = path, pc_Cached = [(demo_url, True)], pc_zkEventCounter = 0, pc_autoFillNode = True,
      pc_running = True,
      pc_tasks = {#Notify (PathCacheEventChildrenReplaced [demo_url]), Forward (ChildWatch path)#}\<rparr>"

definition demo_root :: path_cache where
  "demo_root = (demo_cache True)\<lparr>pc_Cached := [(''/dubbo/a'', True)],
     pc_tasks := {#Forward (NodeWatch ''/dubbo/a''), Forward (ChildWatch ''/dubbo'')#}\<rparr>"

definition demo_followed :: registry_client where
  "demo_followed = demo_registry\<lparr>rg_pcaches := [(''a'', 1)], rg_ccaches := [(''a'', 2)],
     rg_caches := [(ServiceCache, demo_root), (ProviderCache ''a'', demo_list ''/dubbo/a/providers''),
       (ConsumerCache ''a'', demo_list ''/dubbo/a/consumers'')]\<rparr>"

lemma rg_run_cache:
  assumes "rg_run conn outs (rg, w)" and "i < length (rg_caches rg)" and "rg_caches rg ! i = (role, pc)"
    and "pc_step conn (role = ServiceCache) (pc, w) es (pc', w')"
  shows "rg_run conn outs (fold (rg_receive conn role) es (rg\<lparr>rg_caches := (rg_caches rg)[i := (role, pc')]\<rparr>, w'))"
  using rg_run.more [OF assms(1) rg_step.cache [OF assms(2-4)]] by simp

lemma demo_followed_run: "rg_run demo_zk [] (demo_followed, [demo_url])"
proof -
  let ?add = "AddChild ''/dubbo/a''" and ?told = "PathCacheEventAdded ''/dubbo/a''"
  let ?p = "schedule (Notify ?told) demo_root"
  have base: "Base ''/dubbo/a'' = ''a''" "\<not> Ignore ''a''" "Join ''/dubbo/a'' ProvidersPath = ''/dubbo/a/providers''"
    "Join ''/dubbo/a'' ConsumersPath = ''/dubbo/a/consumers''" by code_simp+
  have change: "rg_run demo_zk [] (demo_registry, [demo_url])"
    using rg_run_cache [OF demo_registry_run _ _ pc_step.zookeeper, of 0 ServiceCache "demo_cache True" "[demo_url]"]
    by (simp add: demo_registry_def)
  have "pc_step demo_zk True (demo_cache True, [demo_url]) [] (?p, [demo_url])"
    using pc_step.add [of "demo_cache True" "''/dubbo/a''" demo_zk True "[demo_url]"]
    by (simp add: demo_cache_def demo_root_def demo_zk_def pc_onChildAdd_def pc_watch_def schedule_def set_cached_def
        finish_def add_mset_commute)
  with rg_run_cache [OF change, of 0 ServiceCache "demo_cache True" "[]" ?p "[demo_url]"]
  have next0: "rg_run demo_zk [] (demo_registry\<lparr>rg_caches := [(ServiceCache, ?p)]\<rparr>, [demo_url])"
    by (simp add: demo_registry_def)
  have conn: "zk_ChildrenW demo_zk path w = (Some w, w)" "snd (zk_Create demo_zk path acls w) = w" for path acls w
    by (simp_all add: demo_zk_def)
  from rg_run_cache [OF next0 _ _ pc_step.notify, of 0 ServiceCache ?p ?told]
  show ?thesis
    by (simp add: demo_root_def demo_cache_def schedule_def finish_def base watch_service_def NewPathCache_def conn
        zk_create_def pc_watchChildren_def new_cache_def demo_registry_def demo_followed_def demo_list_def Let_def numeral_2_eq_2)
qed

text \<open>The client has been told of the providers.\<close>

definition demo_provided :: registry_client where
  "demo_provided = rg_provider ''a'' (PathCacheEventChildrenReplaced [demo_url])
     (demo_followed\<lparr>rg_caches := (rg_caches demo_followed)[1 := (ProviderCache ''a'',
        finish (Notify (PathCacheEventChildrenReplaced [demo_url])) (demo_list ''/dubbo/a/providers''))]\<rparr>)"

lemma demo_provided_run: "rg_run demo_zk [] (demo_provided, [demo_url])"
proof -
  have "pc_step demo_zk (ProviderCache ''a'' = ServiceCache) (demo_list ''/dubbo/a/providers'', [demo_url])
      [PathCacheEventChildrenReplaced [demo_url]]
      (finish (Notify (PathCacheEventChildrenReplaced [demo_url])) (demo_list ''/dubbo/a/providers''), [demo_url])"
    by (rule pc_step.notify) (simp_all add: demo_list_def)
  from rg_run_cache [OF demo_followed_run _ _ this, of 1] show ?thesis
    by (simp add: demo_followed_def demo_provided_def)
qed

theorem rg_services_without_instances_witness:
  "rg_Services demo_provided \<noteq> [] \<and> dv_Instances (hd (rg_Services demo_provided)) = [] \<and> rg_Instances demo_provided ''a'' = []"
proof -
  have "map fst (rg_services demo_provided) = [''a'']" by code_simp
  then obtain s where s: "rg_services demo_provided = [(''a'', s)]" by auto
  with rg_services_without_instances [OF demo_provided_run, of "''a''" s] show ?thesis by (simp add: rg_Services_def)
qed

text \<open>
  The consumers of \<open>a\<close>: first the application \<open>shop\<close>, then none. The second list takes nothing from the scope.
\<close>

definition demo_consumed :: "string list \<Rightarrow> path_cache \<Rightarrow> registry_client \<Rightarrow> registry_client" where
  "demo_consumed l pc rg = rg_consumer ''a'' (PathCacheEventChildrenReplaced l)
     (rg\<lparr>rg_caches := (rg_caches rg)[2 := (ConsumerCache ''a'', pc)]\<rparr>)"

lemma demo_consumed_step:
  assumes "length (rg_caches rg) = 3" and "rg_caches rg ! 2 = (ConsumerCache ''a'', pc)" and "pc_running pc"
    and "Notify (PathCacheEventChildrenReplaced l) \<in># pc_tasks pc"
  shows "rg_step demo_zk (rg, w) [] (demo_consumed l (finish (Notify (PathCacheEventChildrenReplaced l)) pc) rg, w)"
proof -
  have "pc_step demo_zk (ConsumerCache ''a'' = ServiceCache) (pc, w) [PathCacheEventChildrenReplaced l]
      (finish (Notify (PathCacheEventChildrenReplaced l)) pc, w)"
    by (rule pc_step.notify) (use assms in simp_all)
  from rg_step.cache [OF _ assms(2) this] assms(1) show ?thesis by (simp add: demo_consumed_def)
qed

definition demo_shop :: registry_client where
  "demo_shop = demo_consumed [demo_url]
     (finish (Notify (PathCacheEventChildrenReplaced [demo_url])) (demo_list ''/dubbo/a/consumers'')) demo_followed"

definition demo_left :: path_cache where
  "demo_left = \<lparr>pc_Path = ''/dubbo/a/consumers'', pc_Cached = [], pc_zkEventCounter = 1, pc_autoFillNode = True,
      pc_running = True,
      pc_tasks = {#Notify (PathCacheEventChildrenReplaced []), Forward (ChildWatch ''/dubbo/a/consumers'')#}\<rparr>"

definition demo_empty :: registry_client where
  "demo_empty = demo_shop\<lparr>rg_caches := (rg_caches demo_shop)[2 := (ConsumerCache ''a'', demo_left)]\<rparr>"

lemma demo_empty_run: "rg_run demo_zk [] (demo_empty, [])"
proof -
  let ?pc = "finish (Notify (PathCacheEventChildrenReplaced [demo_url])) (demo_list ''/dubbo/a/consumers'')"
  have "rg_step demo_zk (demo_followed, [demo_url]) [] (demo_shop, [demo_url])"
    unfolding demo_shop_def by (rule demo_consumed_step) (simp_all add: demo_followed_def demo_registry_def demo_list_def)
  from rg_run.more [OF demo_followed_run this] have run: "rg_run demo_zk [] (demo_shop, [demo_url])" by simp
  have caches: "rg_caches demo_shop = (rg_caches demo_followed)[2 := (ConsumerCache ''a'', ?pc)]" 
    by (simp add: demo_shop_def demo_consumed_def replaceAccessorInstances_def Let_def addAccessor_def split: prod.split option.split)
  have len: "2 < length (rg_caches demo_shop)" "rg_caches demo_shop ! 2 = (ConsumerCache ''a'', ?pc)"
    by (simp_all add: caches) (simp_all add: demo_followed_def demo_registry_def)
  from rg_run_cache [OF run len pc_step.zookeeper, of "[]"]
  have run0: "rg_run demo_zk [] (demo_shop, [])" using list_update_id [of "rg_caches demo_shop" 2] len(2) by simp
  have "pc_step demo_zk (ConsumerCache ''a'' = ServiceCache) (?pc, []) [] (demo_left, [])"
    using pc_step.event [of ?pc "ChildWatch ''/dubbo/a/consumers''" demo_zk
        "EventNodeChildrenChanged ''/dubbo/a/consumers''" False "[]"]
    by (simp add: demo_list_def demo_left_def finish_def pc_onEvent_def pc_watchChildren_def demo_zk_def schedule_def)
  from rg_run_cache [OF run0 len this] show ?thesis by (simp add: demo_empty_def)
qed

theorem rg_scopes_never_shrink_witness:
  "rg_run demo_zk [] (demo_empty, []) \<and>
   GetCachedScopedMapping demo_empty ''shop'' = [''a''] \<and>
   rg_caches demo_empty ! 2 = (ConsumerCache ''a'', demo_left) \<and> Notify (PathCacheEventChildrenReplaced []) \<in># pc_tasks demo_left \<and>
   ''a'' \<in> set (GetCachedScopedMapping
     (demo_consumed [] (finish (Notify (PathCacheEventChildrenReplaced [])) demo_left) demo_empty) ''shop'')"
proof -
  let ?n = "Notify (PathCacheEventChildrenReplaced [])"
  have "length (rg_caches demo_empty) = 3" 
    by (simp add: demo_empty_def demo_shop_def demo_consumed_def replaceAccessorInstances_def Let_def addAccessor_def
     demo_followed_def demo_registry_def split: prod.split option.split)
  moreover from this have caches: "rg_caches demo_empty ! 2 = (ConsumerCache ''a'', demo_left)" by (simp add: demo_empty_def)
  moreover have left: "pc_running demo_left" "?n \<in># pc_tasks demo_left" by (simp_all add: demo_left_def)
  ultimately have "rg_step demo_zk (demo_empty, []) [] (demo_consumed [] (finish ?n demo_left) demo_empty, [])"
    by (intro demo_consumed_step)
  from rg_scopes_never_shrink [OF this, of "''shop''"]
  have "set (GetCachedScopedMapping demo_empty ''shop'')
      \<subseteq> set (GetCachedScopedMapping (demo_consumed [] (finish ?n demo_left) demo_empty) ''shop'')" .
  moreover have "GetCachedScopedMapping demo_empty ''shop'' = [''a'']"
    by code_simp
  ultimately show ?thesis using demo_empty_run caches left by simp
qed

end
