(* ===== verification/ConfigCenterZk.thy ===== *)
theory ConfigCenterZk
  imports PathCache
begin

text \<open>
  \<^verbatim>\<open>pkg/adapter/configcenter/zk\<close>: the client of the configuration center. It caches the configurators
  that are stored below one path and announces every change of them. Reading a node and parsing its
  YAML are parameters; so is the outcome of connecting.
\<close>

record config_client =
  cf_conn :: bool
  cf_configEntries :: "(string, ConfiguratorConfig) gomap"
  cf_rootPathCache :: "path_cache option"
  cf_out :: "ConfigEvent multiset"

definition ConfiguratorPath :: string where "ConfiguratorPath = ''/dubbo'' @ ''/config/dubbo''"

text \<open>\<open>New\<close>: without addresses there is a client without connection; no value is an error.\<close>

definition cf_New :: "string list \<Rightarrow> bool \<Rightarrow> config_client option" where
  "cf_New address connected =
     (if 0 < length address then
        (if \<not> connected then None
         else Some \<lparr>cf_conn = True, cf_configEntries = [], cf_rootPathCache = None, cf_out = {#}\<rparr>)
      else Some \<lparr>cf_conn = False, cf_configEntries = [], cf_rootPathCache = None, cf_out = {#}\<rparr>)"

definition cf_Start :: "'w zkconn \<Rightarrow> config_client \<times> 'w \<Rightarrow> bool \<times> config_client \<times> 'w" where
  "cf_Start conn s =
     (case s of (cc, w) \<Rightarrow>
        if cf_conn cc then
          (case NewPathCache conn ConfiguratorPath True False w of
             (None, w') \<Rightarrow> (False, cc, w')
           | (Some rpc, w') \<Rightarrow> (True, cc\<lparr>cf_rootPathCache := Some rpc\<rparr>, w'))
        else (True, cc, w))"

definition cf_notify :: "ConfigEvent \<Rightarrow> config_client \<Rightarrow> config_client" where
  "cf_notify e cc = cc\<lparr>cf_out := add_mset e (cf_out cc)\<rparr>"

text \<open>A read: the data of a node, which is what the code uses of it whether or not the read failed.\<close>

definition cf_getData :: "(string \<Rightarrow> 'w \<Rightarrow> string \<times> 'w) \<Rightarrow> string \<Rightarrow> 'w \<Rightarrow> string \<times> 'w" where
  "cf_getData get path w = get path w"

definition cf_stored ::
  "(string \<Rightarrow> 'w \<Rightarrow> string \<times> 'w) \<Rightarrow> (string \<Rightarrow> ConfiguratorConfig option) \<Rightarrow> ConfigEventType \<Rightarrow> string \<Rightarrow>
   config_client \<times> 'w \<Rightarrow> config_client \<times> 'w" where
  "cf_stored get unmarshal kind path s =
     (case s of (cc, w) \<Rightarrow>
        case cf_getData get path w of (data, w') \<Rightarrow>
          case unmarshal data of
            None \<Rightarrow> (cc, w')
          | Some config \<Rightarrow>
              (cf_notify \<lparr>ce_EventType = kind, ce_Path = path, ce_ConfigEntry = Some config\<rparr>
                 (cc\<lparr>cf_configEntries := map_put (cc_Key config) config (cf_configEntries cc)\<rparr>), w'))"

fun cf_event ::
  "(string \<Rightarrow> 'w \<Rightarrow> string \<times> 'w) \<Rightarrow> (string \<Rightarrow> ConfiguratorConfig option) \<Rightarrow> PathCacheEvent \<Rightarrow>
   config_client \<times> 'w \<Rightarrow> config_client \<times> 'w" where
  "cf_event get unmarshal (PathCacheEventAdded path) s = cf_stored get unmarshal ConfigEntryAdded path s"
| "cf_event get unmarshal (PathCacheEventChanged path) s = cf_stored get unmarshal ConfigEntryChanged path s"
| "cf_event get unmarshal (PathCacheEventDeleted path) s =
     (case s of (cc, w) \<Rightarrow>
        (cf_notify \<lparr>ce_EventType = ConfigEntryDeleted, ce_Path = path, ce_ConfigEntry = None\<rparr>
           (cc\<lparr>cf_rootPathCache := map_option (set_cached path False) (cf_rootPathCache cc),
               cf_configEntries := map_del (ResolveServiceName path) (cf_configEntries cc)\<rparr>), w))"
| "cf_event get unmarshal (PathCacheEventChildrenReplaced l) s = s"

definition FindConfiguratorConfig :: "config_client \<Rightarrow> string \<Rightarrow> ConfiguratorConfig option" where
  "FindConfiguratorConfig cc serviceName = map_of (cf_configEntries cc) serviceName"

definition cf_Stop :: "config_client \<Rightarrow> config_client" where "cf_Stop cc = cc"

text \<open>The notifications a client handles, one after the other.\<close>

definition cf_loop ::
  "(string \<Rightarrow> 'w \<Rightarrow> string \<times> 'w) \<Rightarrow> (string \<Rightarrow> ConfiguratorConfig option) \<Rightarrow> PathCacheEvent list \<Rightarrow>
   config_client \<times> 'w \<Rightarrow> config_client \<times> 'w" where
  "cf_loop get unmarshal = fold (cf_event get unmarshal)"

end
