(* ===== verification/Adapter.thy ===== *)
theory Adapter
  imports EventHandlers RegistryZk ConfigCenterZk Complex_Main
begin

text \<open>
  \<^verbatim>\<open>pkg/adapter\<close>: the adapter, which connects the registry client, the configuration client and the
  event handlers; its accelerator; the tables of registry and configuration clients; its options.
  Starting the HTTP server and the process's signals are not modelled.
\<close>

section \<open>Options\<close>

text \<open>A float is a rational number.\<close>

record Registry_option =
  ro_Type :: string
  ro_Address :: "string list"
  ro_Timeout :: int64

record Configuration_option =
  co_Type :: string
  co_Address :: "string list"
  co_Timeout :: int64

record EventHandlers_option =
  eo_AcceleratorSize :: int64
  eo_EnableK8s :: bool
  eo_IsMultiClusters :: bool
  eo_Kubeconfig :: string
  eo_ConfigContext :: string
  eo_ClusterOwner :: string
  eo_ClusterNamespace :: string
  eo_Namespace :: string
  eo_DefaultNamespace :: string
  eo_EnableDebugLog :: bool
  eo_QPS :: rat
  eo_Burst :: int64

record AdapterOption =
  ao_EventHandlers :: EventHandlers_option
  ao_Registry :: Registry_option
  ao_Configuration :: Configuration_option

definition DefaultAdapterOption :: AdapterOption where
  "DefaultAdapterOption =
     \<lparr>ao_EventHandlers = \<lparr>eo_AcceleratorSize = 0, eo_EnableK8s = True, eo_IsMultiClusters = False,
        eo_Kubeconfig = [], eo_ConfigContext = [], eo_ClusterOwner = ''sym-admin'',
        eo_ClusterNamespace = ''sym-admin'', eo_Namespace = [], eo_DefaultNamespace = [],
        eo_EnableDebugLog = False, eo_QPS = 0, eo_Burst = 0\<rparr>,
      ao_Registry = \<lparr>ro_Type = ''zk'', ro_Address = [''127.0.0.1:2181''], ro_Timeout = 15\<rparr>,
      ao_Configuration = \<lparr>co_Type = ''zk'', co_Address = [], co_Timeout = 15\<rparr>\<rparr>"

section \<open>Tables of clients\<close>

text \<open>
  The constructors that packages register for a type, twice the same type being fatal; looking one up
  and calling it. No value is the error of a type that is not implemented.
\<close>

definition register_client :: "string \<Rightarrow> 'c \<Rightarrow> (string, 'c) gomap \<Rightarrow> (string, 'c) gomap option" where
  "register_client typ f instances = (if map_of instances typ \<noteq> None then None else Some (map_put typ f instances))"

definition registry_GetRegistry ::
  "(string, Registry_option \<Rightarrow> 'r option) gomap \<Rightarrow> Registry_option \<Rightarrow> 'r option" where
  "registry_GetRegistry registryInstance opt =
     (case map_of registryInstance (ro_Type opt) of Some f \<Rightarrow> f opt | None \<Rightarrow> None)"

definition configcenter_GetRegistry ::
  "(string, Configuration_option \<Rightarrow> 'r option) gomap \<Rightarrow> Configuration_option \<Rightarrow> 'r option" where
  "configcenter_GetRegistry configInstance opt =
     (case map_of configInstance (co_Type opt) of Some f \<Rightarrow> f opt | None \<Rightarrow> None)"

section \<open>The accelerator\<close>

text \<open>What the adapter hands to the accelerator: a replacement for one of its handlers.\<close>

datatype job = ReplaceJob nat ServiceEvent | AccessorJob nat ServiceEvent

record accelerator =
  ac_size :: int
  ac_channels :: "job multiset list"

definition NewAccelerator :: "int \<Rightarrow> accelerator" where
  "NewAccelerator sz = \<lparr>ac_size = sz, ac_channels = replicate (nat sz) {#}\<rparr>"

definition FNV32a :: "string \<Rightarrow> uint32" where
  "FNV32a text = fold (\<lambda>c h. xor h (of_nat (of_char c)) * 16777619) text 2166136261"

definition channel_of :: "accelerator \<Rightarrow> string \<Rightarrow> nat" where
  "channel_of ac hashKey = nat (uint (FNV32a hashKey) mod ac_size ac)"

definition Accelerate ::
  "(job \<Rightarrow> ('w, unit) call) \<Rightarrow> job \<Rightarrow> string \<Rightarrow> ('w \<times> accelerator, unit) call" where
  "Accelerate exec fn hashKey s =
     (case s of (w, ac) \<Rightarrow>
        if ac_size ac \<le> 0 then (case exec fn w of (x, w') \<Rightarrow> (x, (w', ac)))
        else
          (let c = channel_of ac hashKey in
           if c < length (ac_channels ac) then
             (Inr (), (w, ac\<lparr>ac_channels := (ac_channels ac)[c := add_mset fn (ac_channels ac ! c)]\<rparr>))
           else (Inl Panic, s)))"

definition run_job ::
  "'w event_handler list \<Rightarrow> (string \<Rightarrow> string list) \<Rightarrow> job \<Rightarrow> ('w, unit) call" where
  "run_job handlers getScopedServices j =
     (case j of
        ReplaceJob i se \<Rightarrow> h_ReplaceInstances (handlers ! i) se
      | AccessorJob i ae \<Rightarrow> h_ReplaceAccessorInstances (handlers ! i) ae getScopedServices)"

section \<open>Events\<close>

definition on_cluster :: "('w, 'a) call \<Rightarrow> ('w \<times> accelerator, 'a) call" where
  "on_cluster m s = (case s of (w, ac) \<Rightarrow> case m w of (x, w') \<Rightarrow> (x, (w', ac)))"

text \<open>An event of the registry: its service is named in a log message before anything else.\<close>

definition adapter_service_event ::
  "'w event_handler list \<Rightarrow> (string \<Rightarrow> string list) \<Rightarrow> ServiceEvent \<Rightarrow> ('w \<times> accelerator, unit) call" where
  "adapter_service_event handlers getScopedServices se =
     gbind (orPanic (ev_Service se)) (\<lambda>svc.
       case ev_EventType se of
         ServiceAdded \<Rightarrow> gforeach (\<lambda>h. on_cluster (h_AddService h se)) handlers
       | ServiceDeleted \<Rightarrow> gforeach (\<lambda>h. on_cluster (h_DeleteService h se)) handlers
       | ServiceInstanceAdded \<Rightarrow> gforeach (\<lambda>h. on_cluster (h_AddInstance h se)) handlers
       | ServiceInstancesReplace \<Rightarrow>
           gforeach (\<lambda>i. Accelerate (run_job handlers getScopedServices) (ReplaceJob i se) (dv_Name svc))
             [0..<length handlers]
       | ServiceInstanceDeleted \<Rightarrow> gforeach (\<lambda>h. on_cluster (h_DeleteInstance h se)) handlers)"

definition adapter_accessor_event ::
  "'w event_handler list \<Rightarrow> (string \<Rightarrow> string list) \<Rightarrow> ServiceEvent \<Rightarrow> ('w \<times> accelerator, unit) call" where
  "adapter_accessor_event handlers getScopedServices ae =
     (case ev_EventType ae of
        ServiceInstancesReplace \<Rightarrow>
          gforeach (\<lambda>i. gbind (orPanic (ev_Service ae)) (\<lambda>svc.
              Accelerate (run_job handlers getScopedServices) (AccessorJob i ae) (dv_Name svc)))
            [0..<length handlers]
      | _ \<Rightarrow> gret ())"

definition adapter_config_event :: "'w event_handler list \<Rightarrow> ConfigEvent \<Rightarrow> ('w \<times> accelerator, unit) call" where
  "adapter_config_event handlers ce =
     (case ce_EventType ce of
        ConfigEntryAdded \<Rightarrow> gforeach (\<lambda>h. on_cluster (h_AddConfigEntry h ce)) handlers
      | ConfigEntryChanged \<Rightarrow> gforeach (\<lambda>h. on_cluster (h_ChangeConfigEntry h ce)) handlers
      | ConfigEntryDeleted \<Rightarrow> gforeach (\<lambda>h. on_cluster (h_DeleteConfigEntry h ce)) handlers)"

section \<open>The running adapter\<close>

text \<open>
  The adapter with its clients, the ensembles they watch, the accelerator and the clusters its handlers
  write to. One step: a client makes a step of its own; one of its events is received; a job of a
  channel is executed. A panic ends the process.
\<close>

record ('z, 'w) adapter =
  ad_registry :: registry_client
  ad_config :: config_client
  ad_ensemble :: 'z
  ad_accelerator :: accelerator
  ad_cluster :: 'w
  ad_crashed :: bool

definition received ::
  "('w \<times> accelerator, unit) call \<Rightarrow> ('z, 'w) adapter \<Rightarrow> ('z, 'w) adapter" where
  "received m a =
     (case m (ad_cluster a, ad_accelerator a) of
        (x, (w', ac')) \<Rightarrow> a\<lparr>ad_cluster := w', ad_accelerator := ac', ad_crashed := (x = Inl Panic)\<rparr>)"

inductive adapter_step ::
  "'z zkconn \<Rightarrow> (string \<Rightarrow> 'z \<Rightarrow> string \<times> 'z) \<Rightarrow> (string \<Rightarrow> ConfiguratorConfig option) \<Rightarrow>
   'w event_handler list \<Rightarrow> ('z, 'w) adapter \<Rightarrow> ('z, 'w) adapter \<Rightarrow> bool"
  for conn :: "'z zkconn" and get :: "string \<Rightarrow> 'z \<Rightarrow> string \<times> 'z"
    and unmarshal :: "string \<Rightarrow> ConfiguratorConfig option" and handlers :: "'w event_handler list" where
  registry: "\<not> ad_crashed a \<Longrightarrow> rg_step conn (ad_registry a, ad_ensemble a) [] (rg', z') \<Longrightarrow>
    adapter_step conn get unmarshal handlers a (a\<lparr>ad_registry := rg', ad_ensemble := z'\<rparr>)"
| service: "\<not> ad_crashed a \<Longrightarrow> rg_step conn (ad_registry a, ad_ensemble a) [ServiceOut se] (rg', z') \<Longrightarrow>
    adapter_step conn get unmarshal handlers a
      (received (adapter_service_event handlers (GetCachedScopedMapping rg') se) (a\<lparr>ad_registry := rg', ad_ensemble := z'\<rparr>))"
| accessor: "\<not> ad_crashed a \<Longrightarrow> rg_step conn (ad_registry a, ad_ensemble a) [AccessorOut ae] (rg', z') \<Longrightarrow>
    adapter_step conn get unmarshal handlers a
      (received (adapter_accessor_event handlers (GetCachedScopedMapping rg') ae) (a\<lparr>ad_registry := rg', ad_ensemble := z'\<rparr>))"
| watching: "\<not> ad_crashed a \<Longrightarrow> cf_rootPathCache (ad_config a) = Some pc \<Longrightarrow>
    pc_step conn True (pc, ad_ensemble a) outs (pc', z') \<Longrightarrow>
    cf_loop get unmarshal outs ((ad_config a)\<lparr>cf_rootPathCache := Some pc'\<rparr>, z') = (cc', z'') \<Longrightarrow>
    adapter_step conn get unmarshal handlers a (a\<lparr>ad_config := cc', ad_ensemble := z''\<rparr>)"
| config: "\<not> ad_crashed a \<Longrightarrow> ce \<in># cf_out (ad_config a) \<Longrightarrow>
    adapter_step conn get unmarshal handlers a
      (received (adapter_config_event handlers ce)
         (a\<lparr>ad_config := (ad_config a)\<lparr>cf_out := cf_out (ad_config a) - {#ce#}\<rparr>\<rparr>))"
| job: "\<not> ad_crashed a \<Longrightarrow> c < length (ac_channels (ad_accelerator a)) \<Longrightarrow> j \<in># ac_channels (ad_accelerator a) ! c \<Longrightarrow>
    adapter_step conn get unmarshal handlers a
      (received (on_cluster (run_job handlers (GetCachedScopedMapping (ad_registry a)) j))
         (a\<lparr>ad_accelerator := (ad_accelerator a)\<lparr>ac_channels :=
            (ac_channels (ad_accelerator a))[c := ac_channels (ad_accelerator a) ! c - {#j#}]\<rparr>\<rparr>))"

section \<open>A deleted provider list stops the adapter\<close>

text \<open>
  C35: deleting the node of the providers of a known service ends the adapter: the event the registry client
  then has on its way names no service, and receiving it is a nil dereference, whatever the handlers
  and the accelerator.
\<close>

theorem provider_deletion_crashes_adapter:
  assumes "map_of (rg_services rg) hostname = Some s"
  shows "\<exists>se. rg_serviceOut (rg_provider hostname (PathCacheEventDeleted (''/dubbo/'' @ hostname @ ''/providers'')) rg) =
      add_mset se (rg_serviceOut rg) \<and>
    ad_crashed (received (adapter_service_event handlers f se) a)"
proof -
  from providers_deleted [OF assms] obtain i where
    out: "rg_serviceOut (rg_provider hostname (PathCacheEventDeleted (''/dubbo/'' @ hostname @ ''/providers'')) rg) =
      add_mset (instance_deleted i) (rg_serviceOut rg)" by blast
  have "ad_crashed (received (adapter_service_event handlers f (instance_deleted i)) a)"
    by (simp add: received_def adapter_service_event_def instance_deleted_def gbind_def orPanic_def split: prod.split)
  with out show ?thesis by blast
qed

section \<open>The accelerator\<close>

definition accelerator_ok :: "accelerator \<Rightarrow> bool" where
  "accelerator_ok ac \<longleftrightarrow> length (ac_channels ac) = nat (ac_size ac)"

lemma NewAccelerator_ok: "accelerator_ok (NewAccelerator n)"
  by (simp add: accelerator_ok_def NewAccelerator_def)

lemma channel_in_range:
  assumes "accelerator_ok ac" and "0 < ac_size ac"
  shows "channel_of ac k < length (ac_channels ac)"
  using assms pos_mod_bound [of "ac_size ac" "uint (FNV32a k)"] pos_mod_sign [of "ac_size ac" "uint (FNV32a k)"]
  by (simp add: accelerator_ok_def channel_of_def)

text \<open>Handing over a list of jobs with one key: they all land in the channel of the key.\<close>

lemma accelerate_all:
  assumes "accelerator_ok ac" and "0 < ac_size ac"
  shows "gforeach (\<lambda>i. Accelerate exec (g i) k) is (w, ac) =
    (Inr (), (w, ac\<lparr>ac_channels := (ac_channels ac)[channel_of ac k :=
       ac_channels ac ! channel_of ac k + image_mset g (mset is)]\<rparr>))"
  using assms
proof (induction "is" arbitrary: ac)
  case Nil
  then show ?case using channel_in_range [of ac k] by simp
next
  case (Cons i "is")
  let ?c = "channel_of ac k"
  let ?ac = "ac\<lparr>ac_channels := (ac_channels ac)[?c := add_mset (g i) (ac_channels ac ! ?c)]\<rparr>"
  have c: "?c < length (ac_channels ac)" using channel_in_range Cons.prems by simp
  have ok: "accelerator_ok ?ac" "0 < ac_size ?ac" using Cons.prems by (simp_all add: accelerator_ok_def)
  have same: "channel_of ?ac k = ?c" by (simp add: channel_of_def)
  have "Accelerate exec (g i) k (w, ac) = (Inr (), (w, ?ac))"
    using c Cons.prems(2) by (simp add: Accelerate_def Let_def)
  with Cons.IH [OF ok] same c show ?case by simp
qed

text \<open>
  C30: with a positive size no event of a service is ever lost or run twice by the accelerator: for every
  handler exactly one job is added, all of them to the one channel that the name of the service
  selects; the other channels and the clusters are not touched.
\<close>

theorem adapter_replace_dispatch:
  assumes "accelerator_ok ac" and "0 < ac_size ac"
    and "ev_EventType se = ServiceInstancesReplace" and "ev_Service se = Some svc"
  shows "adapter_service_event handlers f se (w, ac) =
    (Inr (), (w, ac\<lparr>ac_channels := (ac_channels ac)[channel_of ac (dv_Name svc) :=
       ac_channels ac ! channel_of ac (dv_Name svc) +
         image_mset (\<lambda>i. ReplaceJob i se) (mset [0..<length handlers])]\<rparr>)) \<and>
    channel_of ac (dv_Name svc) < length (ac_channels ac)"
  using assms channel_in_range [OF assms(1,2)]
  by (simp add: adapter_service_event_def gbind_def orPanic_def accelerate_all [OF assms(1,2)])

section \<open>A run\<close>

theorem provider_deletion_crashes_adapter_witness:
  "\<exists>se. rg_serviceOut (rg_provider ''a.Demo'' (PathCacheEventDeleted (''/dubbo/'' @ ''a.Demo'' @ ''/providers'')) demo_known) =
      add_mset se (rg_serviceOut demo_known) \<and>
    ad_crashed (received (adapter_service_event [log_handler] (GetCachedScopedMapping demo_known) se)
      \<lparr>ad_registry = demo_known, ad_config = the (cf_New [] True), ad_ensemble = (), ad_accelerator = NewAccelerator 0,
       ad_cluster = (), ad_crashed = False\<rparr>)"
  by (rule provider_deletion_crashes_adapter [where s = demo_service]) (simp add: demo_known_def)

definition demo_replaced :: ServiceEvent where
  "demo_replaced = \<lparr>ev_EventType = ServiceInstancesReplace, ev_Service = Some demo_service, ev_Instance = None,
     ev_Instances = []\<rparr>"

theorem adapter_replace_dispatch_witness:
  "adapter_service_event [log_handler, log_handler] (\<lambda>_. []) demo_replaced ((), NewAccelerator 8) =
    (Inr (), ((), (NewAccelerator 8)\<lparr>ac_channels := (ac_channels (NewAccelerator 8))
      [channel_of (NewAccelerator 8) ''a.Demo'' := {#ReplaceJob 0 demo_replaced, ReplaceJob 1 demo_replaced#}]\<rparr>))"
proof -
  have "channel_of (NewAccelerator 8) ''a.Demo'' < 8"
    using channel_in_range [OF NewAccelerator_ok, of 8 "''a.Demo''"] by (simp add: NewAccelerator_def)
  moreover have "[0..<2] = [0, 1::nat]" by code_simp
  ultimately show ?thesis
    using adapter_replace_dispatch [OF NewAccelerator_ok, of 8 demo_replaced demo_service "[log_handler, log_handler]" "\<lambda>_. []" "()"]
    by (simp add: demo_replaced_def demo_service_def NewAccelerator_def numeral_2_eq_2)
qed

end
