(* ===== verification/Lifecycle.thy ===== *)
theory Lifecycle
  imports Adapter CsCorrect
begin

text \<open>
  What spans the adapter and the controllers: the deletion of what the adapter once wrote, a configurator
  from its creation to its deletion, and the way of a provider from its URL in the registry to its
  workload entry in the mesh.
\<close>

section \<open>Deleting what was written\<close>

text \<open>A client that deletes what is stored.\<close>

definition deletable :: "('o, 'z) kind_scheme \<Rightarrow> ('w, 'o) kclient \<Rightarrow> ('w \<Rightarrow> nsname \<Rightarrow> 'o option) \<Rightarrow> bool" where
  "deletable K c objs \<longleftrightarrow>
     (\<forall>o1 cur w. objs w (okey K o1) = Some cur \<longrightarrow> (\<exists>w'. kDelete c o1 w = (Inr (), w')))"

lemma retried_result:
  fixes c :: "('w, 'o) kclient"
  assumes "retry_ok c" and "I w"
    and "\<And>v p v1. I v \<Longrightarrow> fn v = (p, v1) \<Longrightarrow> p = Inl Conflict \<Longrightarrow> I v1"
    and "\<And>v p v1. I v \<Longrightarrow> fn v = (p, v1) \<Longrightarrow> Q p v1"
    and "retried c x fn w = (r, w')"
  shows "r = Inr () \<and> (\<exists>p. Q p w')"
proof -
  define cl where "cl = (\<lambda>(y :: 'o) v. case fn v of (r, v') \<Rightarrow> (r, y, v'))"
  obtain q x' w1 where re: "kRetry c cl x w = (q, x', w1)" by (cases "kRetry c cl x w") auto
  have r: "r = Inr ()" "w' = w1" using assms(5) re by (simp_all add: retried_def cl_def)
  have "Q q w1"
    by (rule retry_ok_invariant [where c = c and f = cl and x = x and w = w and I = "\<lambda>x. I" and Q = "\<lambda>q x'. Q q"])
      (use assms(1-4) re in \<open>auto simp: cl_def split: prod.splits\<close>)
  with r show ?thesis by blast
qed

definition deleted_at ::
  "('o, 'z) kind_scheme \<Rightarrow> nsname \<Rightarrow> (nsname \<Rightarrow> 'o option) \<Rightarrow> (nsname \<Rightarrow> 'o option) \<Rightarrow> bool" where
  "deleted_at K key M M' \<longleftrightarrow> (\<forall>k. k \<noteq> key \<longrightarrow> M' k = M k) \<and>
     (\<forall>cur. M key = Some cur \<longrightarrow> om_Finalizers (k_Meta K cur) = [] \<longrightarrow> M' key = None)"

context object_kind
begin

lemma retried_delete:
  assumes ok: "kube_ok K c objs rest"
    and fn: "\<forall>v p v1. fn v = (p, v1) \<longrightarrow> rest v1 = rest v \<and>
      (case p of Inl e \<Rightarrow> objs v1 = objs v \<and> (deletable K c objs \<and> get_available c \<longrightarrow> objs v key = None)
       | Inr _ \<Rightarrow> deleted_at K key (objs v) (objs v1))"
    and run: "retried c x fn w = (r, w')"
  shows "r = Inr ()" and "rest w' = rest w"
    and "objs w' = objs w \<or> deleted_at K key (objs w) (objs w')"
    and "deletable K c objs \<Longrightarrow> get_available c \<Longrightarrow> deleted_at K key (objs w) (objs w')"
proof -
  let ?Q = "\<lambda>(p :: kerr + unit) v1. rest v1 = rest w \<and> (case p of
      Inl e \<Rightarrow> objs v1 = objs w \<and> (deletable K c objs \<and> get_available c \<longrightarrow> objs w key = None)
    | Inr u \<Rightarrow> deleted_at K key (objs w) (objs v1))"
  have "r = Inr () \<and> (\<exists>p. ?Q p w')"
  proof (rule retried_result [where I = "\<lambda>v. objs v = objs w \<and> rest v = rest w" and Q = ?Q])
    show "retried c x fn w = (r, w')" by (rule run)
    show "retry_ok c" using ok by (simp add: kube_ok_def)
    show "objs w = objs w \<and> rest w = rest w" by simp
  next
    fix v p v1
    assume "objs v = objs w \<and> rest v = rest w" "fn v = (p, v1)" "p = Inl Conflict"
    with fn [rule_format, of v p v1] show "objs v1 = objs w \<and> rest v1 = rest w" by simp
  next
    fix v p v1
    assume "objs v = objs w \<and> rest v = rest w" "fn v = (p, v1)"
    with fn [rule_format, of v p v1] show "?Q p v1" by (cases p) simp_all
  qed
  then obtain p where r: "r = Inr ()" and Q: "?Q p w'" by blast
  show "r = Inr ()" by (rule r)
  show "rest w' = rest w" using Q by simp
  show "objs w' = objs w \<or> deleted_at K key (objs w) (objs w')" using Q by (cases p) simp_all
  show "deleted_at K key (objs w) (objs w')" if "deletable K c objs" "get_available c"
    using Q that by (cases p) (simp_all add: deleted_at_def)
qed

lemma delete_step:
  assumes ok: "kube_ok K c objs rest" and run: "kDelete c o1 v = (p, v1)"
  shows "rest v1 = rest v \<and>
      (case p of Inl e \<Rightarrow> objs v1 = objs v \<and> (deletable K c objs \<longrightarrow> objs v (okey K o1) = None)
       | Inr _ \<Rightarrow> deleted_at K (okey K o1) (objs v) (objs v1))"
proof -
  note D = kube_ok_deleteD [OF ok run]
  show ?thesis
  proof (cases p)
    case (Inl e)
    have "objs v (okey K o1) = None" if "deletable K c objs"
      using that run Inl unfolding deletable_def by (metis not_Some_eq prod.inject sum.distinct(1))
    with D(1,2) Inl show ?thesis by auto
  next
    case (Inr u)
    with D show ?thesis by (auto simp: deleted_at_def)
  qed
qed

lemma found_delete_step:
  assumes ok: "kube_ok K c objs rest"
    and run: "(case kGet c key v of (Inl e, v') \<Rightarrow> (Inl e, v') | (Inr o1, v') \<Rightarrow> kDelete c o1 v') = (p, v1)"
  shows "rest v1 = rest v \<and>
      (case p of Inl e \<Rightarrow> objs v1 = objs v \<and> (deletable K c objs \<and> get_available c \<longrightarrow> objs v key = None)
       | Inr _ \<Rightarrow> deleted_at K key (objs v) (objs v1))"
proof -
  obtain g v0 where get: "kGet c key v = (g, v0)" by fastforce
  note G = kube_ok_getD [OF ok get]
  show ?thesis
  proof (cases g)
    case (Inl e)
    have "objs v key = None" if "get_available c"
    proof -
      have "e = NotFound" using that get Inl unfolding get_available_def by (metis fst_conv)
      with G(4) Inl show ?thesis by simp
    qed
    with Inl run get G(1,2) show ?thesis by auto
  next
    case (Inr o1)
    have "okey K o1 = key" by (rule kube_ok_key [OF ok G(3) [OF Inr]])
    with delete_step [OF ok, of o1 v0 p v1] Inr run get G(1,2) show ?thesis by (cases p) auto
  qed
qed

end

text \<open>
  C20: when the registry loses a service, exactly the ConfiguredService of its name is deleted, whatever the
  number of attempts; nothing else in the cluster changes.
\<close>

theorem sh_DeleteService_deletes:
  assumes "api_ok api view" and "ev_Service event = Some svc" and "sh_DeleteService api event w = (x, w')"
  shows "x = Inr () \<and> view w' = (view w)\<lparr>c_ConfiguredService := c_ConfiguredService (view w')\<rparr> \<and>
    (\<forall>k. k \<noteq> (defaultNamespace, FormatToDNS1123 (dv_Name svc)) \<longrightarrow>
       c_ConfiguredService (view w') k = c_ConfiguredService (view w) k) \<and>
    (deletable cs_kind (ap_ConfiguredService api) (\<lambda>w. c_ConfiguredService (view w)) \<and>
       get_available (ap_ConfiguredService api) \<longrightarrow>
     deleted_at cs_kind (defaultNamespace, FormatToDNS1123 (dv_Name svc))
       (c_ConfiguredService (view w)) (c_ConfiguredService (view w')))"
proof -
  let ?cs = "named_cs (FormatToDNS1123 (dv_Name svc))"
  let ?key = "(defaultNamespace, FormatToDNS1123 (dv_Name svc))"
  note ok = api_ok_cs [OF assms(1)]
  have key: "okey cs_kind ?cs = ?key"
    by (simp add: okey_def cs_kind_def named_cs_def)
  have run: "retried (ap_ConfiguredService api) ?cs (kDelete (ap_ConfiguredService api) ?cs) w = (x, w')"
    using assms(2,3) by (simp add: sh_DeleteService_def gbind_def orPanic_def deleteConfiguredService_def Let_def)
  have step: "\<forall>v p v1. kDelete (ap_ConfiguredService api) ?cs v = (p, v1) \<longrightarrow>
      (view v1)\<lparr>c_ConfiguredService := Map.empty\<rparr> = (view v)\<lparr>c_ConfiguredService := Map.empty\<rparr> \<and>
      (case p of Inl e \<Rightarrow> c_ConfiguredService (view v1) = c_ConfiguredService (view v) \<and>
          (deletable cs_kind (ap_ConfiguredService api) (\<lambda>w. c_ConfiguredService (view w)) \<and>
             get_available (ap_ConfiguredService api) \<longrightarrow> c_ConfiguredService (view v) ?key = None)
       | Inr _ \<Rightarrow> deleted_at cs_kind ?key (c_ConfiguredService (view v)) (c_ConfiguredService (view v1)))"
  proof (intro allI impI)
    fix v p v1
    assume "kDelete (ap_ConfiguredService api) ?cs v = (p, v1)"
    from cs.delete_step [OF ok this, unfolded key] show "(view v1)\<lparr>c_ConfiguredService := Map.empty\<rparr> = (view v)\<lparr>c_ConfiguredService := Map.empty\<rparr> \<and>
      (case p of Inl e \<Rightarrow> c_ConfiguredService (view v1) = c_ConfiguredService (view v) \<and>
          (deletable cs_kind (ap_ConfiguredService api) (\<lambda>w. c_ConfiguredService (view w)) \<and>
             get_available (ap_ConfiguredService api) \<longrightarrow> c_ConfiguredService (view v) ?key = None)
       | Inr _ \<Rightarrow> deleted_at cs_kind ?key (c_ConfiguredService (view v)) (c_ConfiguredService (view v1)))"
      by (cases p) auto
  qed
  note R = cs.retried_delete [OF ok step run]
  have others: "\<forall>k. k \<noteq> ?key \<longrightarrow> c_ConfiguredService (view w') k = c_ConfiguredService (view w) k"
    using R(3) unfolding deleted_at_def by metis
  have frame: "view w' = (view w)\<lparr>c_ConfiguredService := c_ConfiguredService (view w')\<rparr>"
    using R(2) unfolding only_changed .
  show ?thesis by (intro conjI impI R(1) frame others) (elim conjE, rule R(4))
qed

section \<open>From a configurator to a ServiceConfig and back\<close>

lemma sh_DeleteConfigEntry_cases:
  assumes "api_ok api view" and "sh_DeleteConfigEntry api e w = (x, w')"
  defines "key \<equiv> (defaultNamespace, FormatToDNS1123 (ResolveServiceName (ce_Path e)))"
  shows "x = Inr ()" and "view w' = (view w)\<lparr>c_ServiceConfig := c_ServiceConfig (view w')\<rparr>"
    and "c_ServiceConfig (view w') = c_ServiceConfig (view w) \<or>
      deleted_at sc_kind key (c_ServiceConfig (view w)) (c_ServiceConfig (view w'))"
    and "deletable sc_kind (ap_ServiceConfig api) (\<lambda>w. c_ServiceConfig (view w)) \<Longrightarrow>
      get_available (ap_ServiceConfig api) \<Longrightarrow>
      deleted_at sc_kind key (c_ServiceConfig (view w)) (c_ServiceConfig (view w'))"
proof -
  note ok = api_ok_sc [OF assms(1)]
  let ?fn = "\<lambda>v. case kGet (ap_ServiceConfig api) key v of (Inl e, v') \<Rightarrow> (Inl e, v')
      | (Inr o1, v') \<Rightarrow> kDelete (ap_ServiceConfig api) o1 v'"
  have step: "\<forall>v p v1. ?fn v = (p, v1) \<longrightarrow>
      (view v1)\<lparr>c_ServiceConfig := Map.empty\<rparr> = (view v)\<lparr>c_ServiceConfig := Map.empty\<rparr> \<and>
      (case p of Inl e \<Rightarrow> c_ServiceConfig (view v1) = c_ServiceConfig (view v) \<and>
          (deletable sc_kind (ap_ServiceConfig api) (\<lambda>w. c_ServiceConfig (view w)) \<and>
             get_available (ap_ServiceConfig api) \<longrightarrow> c_ServiceConfig (view v) key = None)
       | Inr _ \<Rightarrow> deleted_at sc_kind key (c_ServiceConfig (view v)) (c_ServiceConfig (view v1)))"
    using sc.found_delete_step [OF ok] by blast
  have run: "retried (ap_ServiceConfig api) (named_sc (FormatToDNS1123 (ResolveServiceName (ce_Path e)))) ?fn w = (x, w')"
    using assms(2) unfolding sh_DeleteConfigEntry_def Let_def getServiceConfig_def deleteServiceConfig_def key_def .
  note R = sc.retried_delete [OF ok step run]
  show "x = Inr ()" by (rule R(1))
  show "view w' = (view w)\<lparr>c_ServiceConfig := c_ServiceConfig (view w')\<rparr>"
    using R(2) unfolding only_changed .
  show "c_ServiceConfig (view w') = c_ServiceConfig (view w) \<or>
      deleted_at sc_kind key (c_ServiceConfig (view w)) (c_ServiceConfig (view w'))"
    by (rule R(3))
  show "deleted_at sc_kind key (c_ServiceConfig (view w)) (c_ServiceConfig (view w'))"
    if "deletable sc_kind (ap_ServiceConfig api) (\<lambda>w. c_ServiceConfig (view w))" "get_available (ap_ServiceConfig api)"
    using that by (rule R(4))
qed

text \<open>
  C11: the deletion of a configurator removes the ServiceConfig that its creation wrote, and nothing else. The two
  events name the service differently, by the key in the contents and by the path of the node; for a
  node with the name Dubbo gives it both lead to one ServiceConfig. The creation stores it, over an
  earlier one of that name if there is one; and whatever has happened to the cluster in between, as long as it is stored, the deletion
  removes it and leaves everything but this ServiceConfig as it is, what the controllers have made of it included.
\<close>

theorem configurator_lifecycle:
  assumes "api_ok api view"
    and "reliable sc_kind (ap_ServiceConfig api) (\<lambda>w. c_ServiceConfig (view w))"
    and "deletable sc_kind (ap_ServiceConfig api) (\<lambda>w. c_ServiceConfig (view w))"
    and "ToServiceConfig unmarshal defaultNamespace (Some cc) = Some (Some sc)"
    and "CHR ''/'' \<notin> set (cc_Key cc)" and "RemoveFirst ''.configurators'' (cc_Key cc) = cc_Key cc"
    and "ce_ConfigEntry added = Some cc" and "ce_Path deleted = dir @ CHR ''/'' # cc_Key cc @ ''.configurators''"
    and "sh_ChangeConfigEntry api unmarshal added w = (x, w1)"
    and "sh_DeleteConfigEntry api deleted w2 = (y, w3)"
    and "c_ServiceConfig (view w2) (defaultNamespace, FormatToDNS1123 (cc_Key cc)) = Some cur"
    and "om_Finalizers (sc_Meta cur) = []"
  shows "(\<exists>o'. view w1 = (view w)\<lparr>c_ServiceConfig :=
        (c_ServiceConfig (view w))((defaultNamespace, FormatToDNS1123 (cc_Key cc)) \<mapsto> o')\<rparr> \<and> sc_Spec o' = sc_Spec sc) \<and>
    view w3 = (view w2)\<lparr>c_ServiceConfig := (c_ServiceConfig (view w2))((defaultNamespace, FormatToDNS1123 (cc_Key cc)) := None)\<rparr>"
proof
  let ?key = "(defaultNamespace, FormatToDNS1123 (cc_Key cc))"
  have meta: "om_Name (sc_Meta sc) = FormatToDNS1123 (cc_Key cc)"
    using assms(4) by (auto simp: ToServiceConfig_def bind_eq_Some_conv split: if_splits)
  have conv: "ToServiceConfig unmarshal defaultNamespace (ce_ConfigEntry added) = Some (Some sc)"
    using assms(4,7) by simp
  note A = sh_ChangeConfigEntry_run [OF assms(1) conv assms(9), unfolded meta]
  from A have frame1: "view w1 = (view w)\<lparr>c_ServiceConfig := c_ServiceConfig (view w1)\<rparr>" by (elim conjE)
  from A assms(2) have "stored_spec put_sc sc ?key (c_ServiceConfig (view w)) (c_ServiceConfig (view w1))" by blast
  then obtain o' where M1: "c_ServiceConfig (view w1) = (c_ServiceConfig (view w))(?key \<mapsto> o')" and "put_sc sc o' = o'"
    unfolding stored_spec_def by blast
  then have "sc_Spec o' = sc_Spec sc"
    by (simp add: put_sc_def) (metis ServiceConfig.select_convs(2) ServiceConfig.surjective ServiceConfig.update_convs(2))
  with frame1 M1 show "\<exists>o'. view w1 = (view w)\<lparr>c_ServiceConfig := (c_ServiceConfig (view w))(?key \<mapsto> o')\<rparr> \<and>
      sc_Spec o' = sc_Spec sc" by metis
  have name: "ResolveServiceName (ce_Path deleted) = cc_Key cc"
    unfolding assms(8) by (rule ResolveServiceName_configurator [OF assms(5,6)])
  note D = sh_DeleteConfigEntry_cases [OF assms(1,10), unfolded name]
  have "get_available (ap_ServiceConfig api)" using assms(2) by (simp add: reliable_def)
  from D(4) [OF assms(3) this] have del: "deleted_at sc_kind ?key (c_ServiceConfig (view w2)) (c_ServiceConfig (view w3))" .
  have "c_ServiceConfig (view w3) ?key = None"
    using del assms(11,12) by (simp add: deleted_at_def sc_kind_def)
  moreover have "c_ServiceConfig (view w3) k = c_ServiceConfig (view w2) k" if "k \<noteq> ?key" for k
    using del that by (cases k) (simp add: deleted_at_def)
  ultimately have M2: "c_ServiceConfig (view w3) = (c_ServiceConfig (view w2))(?key := None)"
    by (intro ext) (metis fun_upd_apply)
  with D(2) show "view w3 = (view w2)\<lparr>c_ServiceConfig := (c_ServiceConfig (view w2))(?key := None)\<rparr>" by metis
qed

section \<open>From the registry to the mesh\<close>

text \<open>A provider's URL, as the registry client and the converter read it.\<close>

lemma service_url_instance:
  assumes "plain_url scheme host port path params" and "distinct (map fst params)" and "host \<noteq> []"
  shows "\<exists>i. makeServiceInstance hostname (url_encode (service_url scheme host port path params)) = Some i \<and>
    in_Host (convert_instance i) = host \<and> map_of (in_Labels (convert_instance i)) = map_of params \<and>
    in_Port (convert_instance i) = Some \<lparr>pt_Name = DubboPortName, pt_Protocol = DubboProtocol, pt_Number = ToUint32 port\<rparr>"
proof -
  obtain i where i: "makeServiceInstance hostname (url_encode (service_url scheme host port path params)) = Some i"
    and addr: "di_Host i = host @ '':'' @ port" "di_Port i = Some \<lparr>dp_Protocol = DubboProtocol, dp_Port = port\<rparr>"
    and labels: "map_of (di_Labels i) = map_of params"
    using service_url_parsed [OF assms(1,2)] by blast
  have P: "\<And>c. c \<in> set host \<Longrightarrow> name_char c" "\<And>c. c \<in> set port \<Longrightarrow> is_digit c"
    using assms(1) by (simp_all add: plain_url_def list_all_iff)
  have "RemovePort (host @ CHR '':'' # port) = host"
    by (rule RemovePort_join [OF assms(3)])
      (use P(1) [THEN class_facts(1)] P(2) [THEN class_facts(2)] in auto)
  with i addr labels show ?thesis
    by (simp add: convert_instance_def ToPort_def)
qed

text \<open>
  C1: a provider that is in the registry is in the mesh. When the adapter has handled the list of the
  providers of a service and the controller has then reconciled its ConfiguredService without error,
  every provider whose URL is well-formed has a workload entry stored for its host, and everything
  else of the service is as the controller wants it for that ConfiguredService.
\<close>

theorem registered_provider_has_workload:
  assumes "api_ok api view"
    and "reliable cs_kind (ap_ConfiguredService api) (\<lambda>w. c_ConfiguredService (view w))"
    and "get_available (ap_ServiceConfig api)"
    and "ev_Service event = Some svc" and "mset (ev_Instances event) = mset (fst (make_instances (makeServiceInstance h) urls))"
    and "sh_ReplaceInstances api event w = (x, w1)"
    and "cs_Reconcile api (defaultNamespace, FormatToDNS1123 (dv_Name svc)) (w1, r) = (Inr (), (w2, r2))"
    and "plain_url scheme host port path params" and "distinct (map fst params)" and "host \<noteq> []"
    and "url_encode (service_url scheme host port path params) \<in> set urls"
  shows "\<exists>cs ins we. c_ConfiguredService (view w1) (defaultNamespace, FormatToDNS1123 (dv_Name svc)) = Some cs \<and>
    cs_OriginalName (cs_Spec cs) = dv_Name svc \<and> cs_reconciled r2 cs (view w1) (view w2) \<and>
    ins \<in> set (cs_Instances (cs_Spec cs)) \<and> cs_buildWorkloadEntry r2 cs ins = Some we \<and>
    we_Address (we_Spec we) = host \<and> c_WorkloadEntry (view w2) (okey we_kind we) \<noteq> None"
proof -
  let ?key = "(defaultNamespace, FormatToDNS1123 (dv_Name svc))"
  let ?url = "url_encode (service_url scheme host port path params)"
  obtain cs0 where conv: "ToConfiguredService defaultNamespace event = Some cs0"
    and spec0: "cs_Spec cs0 = \<lparr>cs_OriginalName = dv_Name svc,
      cs_Instances = map (\<lambda>(k, i). convert_instance i) (ev_Instances event), cs_MeshConfigGeneration = 0\<rparr>"
    and name: "om_Name (cs_Meta cs0) = FormatToDNS1123 (dv_Name svc)"
    using assms(4) by (simp add: ToConfiguredService_def)
  note R = sh_ReplaceInstances_run [OF assms(1) conv assms(6), unfolded name]
  from R assms(2) have "stored_spec put_cs cs0 ?key (c_ConfiguredService (view w)) (c_ConfiguredService (view w1))" by blast
  then obtain cs where stored: "c_ConfiguredService (view w1) ?key = Some cs" and "put_cs cs0 cs = cs"
    unfolding stored_spec_def by (metis fun_upd_same)
  then have spec: "cs_Spec cs = cs_Spec cs0"
    by (simp add: put_cs_def) (metis ConfiguredService.select_convs(2) ConfiguredService.surjective ConfiguredService.update_convs(2))
  have ns: "fst ?key \<noteq> []" by (simp add: defaultNamespace_def)
  from cs_Reconcile_stored [OF assms(1) ns assms(3) stored assms(7)]
  have rec: "cs_reconciled r2 cs (view w1) (view w2)" by (elim conjE)
  obtain i where i: "makeServiceInstance h ?url = Some i" and host: "in_Host (convert_instance i) = host"
    and port: "in_Port (convert_instance i) \<noteq> None"
    using service_url_instance [OF assms(8-10), of h] by auto
  have "(?url, i) \<in> set (fst (make_instances (makeServiceInstance h) urls))"
    using make_instances_spec [of "makeServiceInstance h" urls ?url] assms(11) i
      map_of_eq_Some_set [OF make_instances_wf [of "makeServiceInstance h" urls], of ?url i] by simp
  then have "(?url, i) \<in> set (ev_Instances event)"
    using assms(5) by (metis set_mset_mset)
  then have ins: "convert_instance i \<in> set (cs_Instances (cs_Spec cs))"
    by (force simp: spec spec0)
  from rec have sync: "workloads_synced r2 cs (c_WorkloadEntry (view w1)) (c_WorkloadEntry (view w2))"
    unfolding cs_reconciled_def by (elim conjE)
  then obtain we o1 where we: "cs_buildWorkloadEntry r2 cs (convert_instance i) = Some we"
    and "c_WorkloadEntry (view w2) (okey we_kind we) = Some o1"
    using ins unfolding workloads_synced_def by blast
  moreover have "we_Address (we_Spec we) = host" using we host by (auto simp: cs_buildWorkloadEntry_def)
  moreover have "cs_OriginalName (cs_Spec cs) = dv_Name svc" by (simp add: spec spec0)
  ultimately show ?thesis using stored rec ins by blast
qed

section \<open>Runs\<close>

lemma mem_deletable: "deletable K (mem_client K sel upd) (mem_objs K sel)"
  by (auto simp: deletable_def mem_client_def mem_delete_def)

lemma deletable_status [simp]: "deletable K (c\<lparr>kStatusUpdate := f\<rparr>) objs = deletable K c objs"
  by (simp add: deletable_def)

lemma mem_handler_clients:
  "deletable cs_kind (ap_ConfiguredService mem_api) (\<lambda>w. c_ConfiguredService (mem_view w))"
  "deletable sc_kind (ap_ServiceConfig mem_api) (\<lambda>w. c_ServiceConfig (mem_view w))"
  "get_available (ap_ConfiguredService mem_api)" "get_available (ap_ServiceConfig mem_api)"
  by (simp_all add: mem_api_def mem_view_def mem_deletable)

definition lost_service :: ServiceEvent where
  "lost_service = \<lparr>ev_EventType = ServiceDeleted,
     ev_Service = Some \<lparr>dv_Name = ''svc'', dv_Ports = [], dv_Instances = []\<rparr>, ev_Instance = None, ev_Instances = []\<rparr>"

definition kept_world :: mem_world where
  "kept_world = snd (sh_ReplaceInstances mem_api (lost_service\<lparr>ev_EventType := ServiceInstancesReplace\<rparr>) demo_world)"

theorem sh_DeleteService_deletes_witness:
  "c_ConfiguredService (mem_view (snd (sh_DeleteService mem_api lost_service kept_world))) (''sym-admin'', ''svc'') = None \<and>
   c_ConfiguredService (mem_view kept_world) (''sym-admin'', ''svc'') \<noteq> None"
proof -
  have "FormatToDNS1123 ''svc'' = ''svc''" by code_simp
  moreover have "map_option (\<lambda>cs. om_Finalizers (cs_Meta cs))
      (c_ConfiguredService (mem_view kept_world) (''sym-admin'', ''svc'')) = Some []"
    by code_simp
  ultimately show ?thesis
    using sh_DeleteService_deletes [OF mem_api_ok, of lost_service _ kept_world
        "fst (sh_DeleteService mem_api lost_service kept_world)" "snd (sh_DeleteService mem_api lost_service kept_world)"]
      mem_handler_clients
    by (auto simp: lost_service_def defaultNamespace_def deleted_at_def cs_kind_def)
qed

definition demo_added :: ConfigEvent where
  "demo_added = demo_entry\<lparr>ce_ConfigEntry := Some (demo_config [])\<rparr>"

definition demo_deleted :: ConfigEvent where
  "demo_deleted = \<lparr>ce_EventType = ConfigEntryDeleted,
     ce_Path = ''/dubbo/config/dubbo'' @ CHR ''/'' # cc_Key (demo_config []) @ ''.configurators'', ce_ConfigEntry = None\<rparr>"

text \<open>Between the two events a service of that name is registered, and reconciled.\<close>

definition added_world :: mem_world where
  "added_world = snd (sh_ChangeConfigEntry mem_api (\<lambda>_. None) demo_added empty_world)"

definition busy_world :: mem_world where
  "busy_world = fst (snd (cs_Reconcile mem_api (''mesh'', ''svc'')
     (added_world\<lparr>mw_ConfiguredService := [demo_cs], mw_MeshConfig := [demo_mesh]\<rparr>, demo_rc)))"

theorem configurator_lifecycle_witness:
  "c_ServiceConfig (mem_view busy_world) (defaultNamespace, FormatToDNS1123 (cc_Key (demo_config []))) \<noteq> None \<and>
   c_VirtualService (mem_view busy_world) (''mesh'', ''svc'') \<noteq> None \<and>
   mem_view (snd (sh_DeleteConfigEntry mem_api demo_deleted busy_world)) = (mem_view busy_world)\<lparr>c_ServiceConfig :=
     (c_ServiceConfig (mem_view busy_world))((defaultNamespace, FormatToDNS1123 (cc_Key (demo_config []))) := None)\<rparr>"
proof -
  let ?key = "(defaultNamespace, FormatToDNS1123 (cc_Key (demo_config [])))"
  have key: "CHR ''/'' \<notin> set (cc_Key (demo_config []))"
    "RemoveFirst ''.configurators'' (cc_Key (demo_config [])) = cc_Key (demo_config [])"
    by code_simp+
  obtain sc where conv: "ToServiceConfig (\<lambda>_. None) defaultNamespace (Some (demo_config [])) = Some (Some sc)"
    by (simp add: ToServiceConfig_def demo_config_def config_routes_def findFlagConfig_def findConfig_def)
  have cur: "map_option (\<lambda>sc. om_Finalizers (sc_Meta sc)) (c_ServiceConfig (mem_view busy_world) ?key) = Some []"
    by code_simp
  then obtain sc0 where stored: "c_ServiceConfig (mem_view busy_world) ?key = Some sc0" "om_Finalizers (sc_Meta sc0) = []"
    by auto
  have events: "ce_ConfigEntry demo_added = Some (demo_config [])"
    "ce_Path demo_deleted = ''/dubbo/config/dubbo'' @ CHR ''/'' # cc_Key (demo_config []) @ ''.configurators''"
    by (simp_all add: demo_added_def demo_deleted_def)
  have "mem_view (snd (sh_DeleteConfigEntry mem_api demo_deleted busy_world)) =
      (mem_view busy_world)\<lparr>c_ServiceConfig := (c_ServiceConfig (mem_view busy_world))(?key := None)\<rparr>"
    by (rule configurator_lifecycle [THEN conjunct2, OF mem_api_ok mem_cs_reliable(2) mem_handler_clients(2) conv key events
          surjective_pairing surjective_pairing stored])
  moreover have "\<not> Option.is_none (c_VirtualService (mem_view busy_world) (''mesh'', ''svc''))" by code_simp
  ultimately show ?thesis using stored by (auto simp: Option.is_none_def)
qed

definition demo_url :: string where
  "demo_url = url_encode (service_url ''dubbo'' ''10.0.0.1'' ''20880'' ''a.Demo'' [(''application'', ''shop'')])"

definition demo_replace :: ServiceEvent where
  "demo_replace = \<lparr>ev_EventType = ServiceInstancesReplace,
     ev_Service = Some \<lparr>dv_Name = ''a.Demo'', dv_Ports = [], dv_Instances = []\<rparr>, ev_Instance = None,
     ev_Instances = fst (make_instances (makeServiceInstance ''a.Demo'') [demo_url])\<rparr>"

definition replaced_world :: mem_world where
  "replaced_world = snd (sh_ReplaceInstances mem_api demo_replace demo_world)"

definition replaced_run where
  "replaced_run = cs_Reconcile mem_api (''sym-admin'', ''a.demo'') (replaced_world, demo_rc)"

theorem registered_provider_has_workload_witness:
  "\<exists>cs ins we. cs_OriginalName (cs_Spec cs) = ''a.Demo'' \<and> ins \<in> set (cs_Instances (cs_Spec cs)) \<and>
    cs_buildWorkloadEntry (snd (snd replaced_run)) cs ins = Some we \<and> we_Address (we_Spec we) = ''10.0.0.1'' \<and>
    c_WorkloadEntry (mem_view (fst (snd replaced_run))) (okey we_kind we) \<noteq> None"
proof -
  let ?svc = "\<lparr>dv_Name = ''a.Demo'', dv_Ports = [], dv_Instances = []\<rparr>"
  have name: "FormatToDNS1123 (dv_Name ?svc) = ''a.demo''" by (subst DService.select_convs) code_simp
  have "fst replaced_run = Inr ()" by code_simp
  then have run: "cs_Reconcile mem_api (defaultNamespace, FormatToDNS1123 (dv_Name ?svc)) (replaced_world, demo_rc) =
      (Inr (), (fst (snd replaced_run), snd (snd replaced_run)))"
    unfolding name defaultNamespace_def by (cases replaced_run) (simp add: replaced_run_def)
  have event: "ev_Service demo_replace = Some ?svc"
    "mset (ev_Instances demo_replace) = mset (fst (make_instances (makeServiceInstance ''a.Demo'') [demo_url]))"
    by (simp_all add: demo_replace_def)
  have url: "plain_url ''dubbo'' ''10.0.0.1'' ''20880'' ''a.Demo'' [(''application'', ''shop'')]" by code_simp
  have params: "distinct (map fst [(''application'', ''shop'')])" and host: "''10.0.0.1'' \<noteq> []" by simp_all
  have mem: "url_encode (service_url ''dubbo'' ''10.0.0.1'' ''20880'' ''a.Demo'' [(''application'', ''shop'')]) \<in> set [demo_url]"
    by (simp add: demo_url_def)
  from registered_provider_has_workload [OF mem_api_ok mem_cs_reliable(1) mem_handler_clients(4) event
      surjective_pairing run [unfolded replaced_world_def] url params host mem]
  show ?thesis unfolding DService.select_convs by blast
qed

end
