(* ===== verification/Registrations.thy ===== *)
theory Registrations
  imports Lifecycle ScController MemStore
begin

text \<open>
  \<^verbatim>\<open>controllers/controllers.go\<close> and the \<open>SetupWithManager\<close> functions: which events of the cluster lead to
  a reconciliation. A registration is data, the argument of the builder of controller-runtime; how
  controller-runtime turns an event into requests is a parameter, with its documented behaviour
  as a hypothesis.
\<close>

section \<open>Registrations\<close>

datatype api_kind =
    KAppMeshConfig | KMeshConfig | KIstioConfig | KConfiguredService | KServiceAccessor | KServiceConfig
  | KWorkloadEntry | KVirtualService | KDestinationRule | KServiceEntry | KSidecar

text \<open>\<open>EnqueueRequestForObject\<close>, and \<open>EnqueueRequestForOwner\<close> with \<open>IsController\<close> and \<open>OwnerType\<close>.\<close>

datatype enqueue = ForObject | ForOwner bool api_kind

text \<open>The events of a watch, with the metadata of the object; an update has the old and the new one.\<close>

datatype kube_event =
    CreateEvent api_kind ObjectMeta
  | UpdateEvent api_kind ObjectMeta ObjectMeta
  | DeleteEvent api_kind ObjectMeta

text \<open>The functions of \<open>predicate.Funcs\<close>; one that is not set lets every event pass.\<close>

record event_filter =
  ef_Create :: "(api_kind \<Rightarrow> ObjectMeta \<Rightarrow> bool) option"
  ef_Update :: "(api_kind \<Rightarrow> ObjectMeta \<Rightarrow> ObjectMeta \<Rightarrow> bool) option"
  ef_Delete :: "(api_kind \<Rightarrow> ObjectMeta \<Rightarrow> bool) option"

record controller =
  ct_For :: api_kind
  ct_Watches :: "(api_kind \<times> enqueue) list"
  ct_Filter :: event_filter

definition pass_all :: event_filter where
  "pass_all = \<lparr>ef_Create = None, ef_Update = None, ef_Delete = None\<rparr>"

definition cs_controller :: "ControllerOption \<Rightarrow> controller" where
  "cs_controller opt =
     (let builder = \<lparr>ct_For = KConfiguredService, ct_Watches = [], ct_Filter = pass_all\<rparr> in
      if op_WatchIstioCRD opt then
        builder\<lparr>ct_Watches :=
            [(KWorkloadEntry, ForOwner True KConfiguredService), (KServiceEntry, ForOwner True KConfiguredService),
             (KVirtualService, ForOwner True KConfiguredService), (KDestinationRule, ForOwner True KConfiguredService)],
          ct_Filter := pass_all\<lparr>ef_Create := Some (\<lambda>kind _. kind = KConfiguredService)\<rparr>\<rparr>
      else builder)"

definition sc_controller :: controller where
  "sc_controller = \<lparr>ct_For = KServiceConfig, ct_Watches =
      [(KVirtualService, ForOwner True KServiceConfig), (KDestinationRule, ForOwner True KServiceConfig),
       (KWorkloadEntry, ForOwner True KConfiguredService), (KVirtualService, ForOwner True KConfiguredService),
       (KDestinationRule, ForOwner True KConfiguredService), (KServiceEntry, ForOwner True KConfiguredService)],
     ct_Filter = pass_all\<rparr>"

definition sa_controller :: controller where
  "sa_controller = \<lparr>ct_For = KServiceAccessor, ct_Watches = [(KSidecar, ForObject)], ct_Filter = pass_all\<rparr>"

definition mc_controller :: controller where
  "mc_controller = \<lparr>ct_For = KMeshConfig, ct_Watches = [],
     ct_Filter = \<lparr>ef_Create = None, ef_Update = Some (\<lambda>_ old new. om_Generation old \<noteq> om_Generation new),
       ef_Delete = Some (\<lambda>_ _. False)\<rparr>\<rparr>"

definition amc_controller :: controller where
  "amc_controller = \<lparr>ct_For = KAppMeshConfig, ct_Watches =
      [(KWorkloadEntry, ForOwner True KConfiguredService), (KVirtualService, ForOwner True KConfiguredService),
       (KDestinationRule, ForOwner True KConfiguredService), (KServiceEntry, ForOwner True KConfiguredService)],
     ct_Filter = pass_all\<rparr>"

definition istio_controller :: controller where
  "istio_controller = \<lparr>ct_For = KIstioConfig, ct_Watches = [], ct_Filter = pass_all\<rparr>"

text \<open>The controller of the IstioConfigs does nothing.\<close>

definition istio_Reconcile :: "nsname \<Rightarrow> ('s, unit) call" where
  "istio_Reconcile req = gret ()"

text \<open>The manager: adding an index of a field, and completing a controller; an error is its text.\<close>

record 'm ctrl_manager =
  mg_IndexField :: "api_kind \<Rightarrow> string \<Rightarrow> 'm \<Rightarrow> string option \<times> 'm"
  mg_Complete :: "controller \<Rightarrow> 'm \<Rightarrow> string option \<times> 'm"

definition sa_SetupWithManager :: "'m ctrl_manager \<Rightarrow> 'm \<Rightarrow> string option \<times> 'm" where
  "sa_SetupWithManager M m = mg_Complete M sa_controller (snd (mg_IndexField M KServiceAccessor ''name'' m))"

text \<open>\<open>if err := ...SetupWithManager(mgr); err != nil { return err }\<close>, for the controllers that are enabled.\<close>

fun setup_all :: "(bool \<times> ('m \<Rightarrow> string option \<times> 'm)) list \<Rightarrow> 'm \<Rightarrow> string option \<times> 'm" where
  "setup_all [] m = (None, m)"
| "setup_all ((enabled, add) # rest) m =
     (if enabled then case add m of (Some err, m') \<Rightarrow> (Some err, m') | (None, m') \<Rightarrow> setup_all rest m'
      else setup_all rest m)"

definition AddToManager :: "'m ctrl_manager \<Rightarrow> ControllerOption \<Rightarrow> 'm \<Rightarrow> string option \<times> 'm" where
  "AddToManager M opt =
     setup_all
       [(op_EnableAppMeshConfig opt, mg_Complete M amc_controller),
        (op_EnableMeshConfig opt, mg_Complete M mc_controller),
        (op_EnableIstioConfig opt, mg_Complete M istio_controller),
        (op_EnableConfiguredService opt, mg_Complete M (cs_controller opt)),
        (op_EnableServiceAccessor opt, sa_SetupWithManager M),
        (op_EnableServiceConfig opt, mg_Complete M sc_controller)]"

section \<open>What controller-runtime documents\<close>

definition passes :: "event_filter \<Rightarrow> kube_event \<Rightarrow> bool" where
  "passes f ev =
     (case ev of
        CreateEvent k m \<Rightarrow> (case ef_Create f of None \<Rightarrow> True | Some p \<Rightarrow> p k m)
      | UpdateEvent k old new \<Rightarrow> (case ef_Update f of None \<Rightarrow> True | Some p \<Rightarrow> p k old new)
      | DeleteEvent k m \<Rightarrow> (case ef_Delete f of None \<Rightarrow> True | Some p \<Rightarrow> p k m))"

definition event_objects :: "kube_event \<Rightarrow> (api_kind \<times> ObjectMeta) list" where
  "event_objects ev =
     (case ev of CreateEvent k m \<Rightarrow> [(k, m)] | UpdateEvent k old new \<Rightarrow> [(k, old), (k, new)] | DeleteEvent k m \<Rightarrow> [(k, m)])"

definition kind_name :: "api_kind \<Rightarrow> string" where
  "kind_name k = (case k of KAppMeshConfig \<Rightarrow> ''AppMeshConfig'' | KMeshConfig \<Rightarrow> ''MeshConfig''
     | KIstioConfig \<Rightarrow> ''IstioConfig'' | KConfiguredService \<Rightarrow> ''ConfiguredService''
     | KServiceAccessor \<Rightarrow> ''ServiceAccessor'' | KServiceConfig \<Rightarrow> ''ServiceConfig''
     | KWorkloadEntry \<Rightarrow> ''WorkloadEntry'' | KVirtualService \<Rightarrow> ''VirtualService''
     | KDestinationRule \<Rightarrow> ''DestinationRule'' | KServiceEntry \<Rightarrow> ''ServiceEntry'' | KSidecar \<Rightarrow> ''Sidecar'')"

text \<open>The requests of an object: its own key, or that of its owners, or of the one that controls it.\<close>

definition requests :: "enqueue \<Rightarrow> ObjectMeta \<Rightarrow> nsname set" where
  "requests enq m =
     (case enq of
        ForObject \<Rightarrow> {(om_Namespace m, om_Name m)}
      | ForOwner isController k \<Rightarrow>
          {(om_Namespace m, or_Name o1) | o1. o1 \<in> set (om_OwnerReferences m) \<and> or_Kind o1 = kind_name k \<and>
             (isController \<longrightarrow> find or_Controller (om_OwnerReferences m) = Some o1)})"

definition runtime_ok :: "(controller \<Rightarrow> kube_event \<Rightarrow> nsname list) \<Rightarrow> bool" where
  "runtime_ok runtime \<longleftrightarrow> (\<forall>c ev req. req \<in> set (runtime c ev) \<longleftrightarrow> passes (ct_Filter c) ev \<and>
     (\<exists>k m enq. (k, m) \<in> set (event_objects ev) \<and> (k, enq) \<in> set ((ct_For c, ForObject) # ct_Watches c) \<and>
        req \<in> requests enq m))"

lemma runtime_iff:
  assumes "runtime_ok runtime"
  shows "req \<in> set (runtime c ev) \<longleftrightarrow> passes (ct_Filter c) ev \<and>
     (\<exists>k m enq. (k, m) \<in> set (event_objects ev) \<and> (k, enq) \<in> set ((ct_For c, ForObject) # ct_Watches c) \<and>
        req \<in> requests enq m)"
  using assms unfolding runtime_ok_def by (elim allE)

lemma unwatched_requests:
  assumes "runtime_ok runtime" and "\<forall>(k, m) \<in> set (event_objects ev). k \<noteq> ct_For c \<and> k \<notin> fst ` set (ct_Watches c)"
  shows "runtime c ev = []"
proof (rule ccontr)
  assume "runtime c ev \<noteq> []"
  then obtain req where "req \<in> set (runtime c ev)" by (cases "runtime c ev") auto
  then obtain k m enq where "(k, m) \<in> set (event_objects ev)" "(k, enq) \<in> set ((ct_For c, ForObject) # ct_Watches c)"
    unfolding runtime_iff [OF assms(1)] by blast
  with assms(2) show False by force
qed

lemma cs_controller_simps [simp]:
  "ct_For (cs_controller opt) = KConfiguredService"
  "ct_Watches (cs_controller opt) = (if op_WatchIstioCRD opt then
     [(KWorkloadEntry, ForOwner True KConfiguredService), (KServiceEntry, ForOwner True KConfiguredService),
      (KVirtualService, ForOwner True KConfiguredService), (KDestinationRule, ForOwner True KConfiguredService)] else [])"
  "ct_Filter (cs_controller opt) = (if op_WatchIstioCRD opt
     then pass_all\<lparr>ef_Create := Some (\<lambda>kind _. kind = KConfiguredService)\<rparr> else pass_all)"
  by (simp_all add: cs_controller_def Let_def)

section \<open>Drift and its repair\<close>

definition istio_kinds :: "api_kind set" where
  "istio_kinds = {KWorkloadEntry, KServiceEntry, KVirtualService, KDestinationRule}"

definition controlled_by :: "api_kind \<Rightarrow> nsname \<Rightarrow> ObjectMeta \<Rightarrow> bool" where
  "controlled_by k key m \<longleftrightarrow> (\<exists>o1. find or_Controller (om_OwnerReferences m) = Some o1 \<and> or_Kind o1 = kind_name k \<and>
     key = (om_Namespace m, or_Name o1))"

lemma controlled_request:
  assumes "controlled_by k key m"
  shows "key \<in> requests (ForOwner True k) m"
proof -
  obtain o1 where o1: "find or_Controller (om_OwnerReferences m) = Some o1" "or_Kind o1 = kind_name k"
    "key = (om_Namespace m, or_Name o1)" using assms unfolding controlled_by_def by blast
  then have "o1 \<in> set (om_OwnerReferences m)" by (auto simp: find_Some_iff)
  with o1 show ?thesis by (auto simp: requests_def)
qed

lemma watch_requests:
  assumes "runtime_ok runtime" and "kind \<in> istio_kinds"
    and "ev = DeleteEvent kind m \<or> ev = UpdateEvent kind old m" and "controlled_by KConfiguredService key m"
    and "(kind, ForOwner True KConfiguredService) \<in> set (ct_Watches c)" and "passes (ct_Filter c) ev"
  shows "key \<in> set (runtime c ev)"
proof -
  have "(kind, m) \<in> set (event_objects ev)" using assms(3) by (auto simp: event_objects_def)
  with assms(5,6) show ?thesis unfolding runtime_iff [OF assms(1)]
    by (intro conjI exI [of _ kind] exI [of _ m] exI [of _ "ForOwner True KConfiguredService"])
      (simp_all add: controlled_request [OF assms(4)])
qed

lemma drift_requests:
  assumes "runtime_ok runtime" and "kind \<in> istio_kinds"
    and "ev = DeleteEvent kind m \<or> ev = UpdateEvent kind old m" and "controlled_by KConfiguredService key m"
  shows "if op_WatchIstioCRD opt then key \<in> set (runtime (cs_controller opt) ev) else runtime (cs_controller opt) ev = []"
    and "key \<in> set (runtime sc_controller ev)" and "key \<in> set (runtime amc_controller ev)"
proof -
  note watch = watch_requests [OF assms]
  show "if op_WatchIstioCRD opt then key \<in> set (runtime (cs_controller opt) ev) else runtime (cs_controller opt) ev = []"
  proof (cases "op_WatchIstioCRD opt")
    case True
    have "key \<in> set (runtime (cs_controller opt) ev)"
      by (rule watch) (use assms(2,3) True in \<open>auto simp: istio_kinds_def pass_all_def passes_def\<close>)
    with True show ?thesis by simp
  next
    case False
    then have "runtime (cs_controller opt) ev = []"
      by (intro unwatched_requests [OF assms(1)])
        (use assms(2,3) in \<open>auto simp: event_objects_def istio_kinds_def\<close>)
    with False show ?thesis by simp
  qed
  show "key \<in> set (runtime sc_controller ev)"
    by (rule watch) (use assms(2,3) in \<open>auto simp: istio_kinds_def sc_controller_def pass_all_def passes_def\<close>)
  show "key \<in> set (runtime amc_controller ev)"
    by (rule watch) (use assms(2,3) in \<open>auto simp: istio_kinds_def amc_controller_def pass_all_def passes_def\<close>)
qed

text \<open>No foreign object, without the label of the service, has the name of one of its resources.\<close>

definition labelled :: "'o managed_kind \<Rightarrow> list_options \<Rightarrow> nsname \<Rightarrow> (nsname \<Rightarrow> 'o option) \<Rightarrow> bool" where
  "labelled K lo k M \<longleftrightarrow> (\<forall>o1. M k = Some o1 \<longrightarrow> selects lo (k_Meta K o1))"

definition own_resources :: "Reconciler \<Rightarrow> ConfiguredService \<Rightarrow> cluster \<Rightarrow> bool" where
  "own_resources r cs C \<longleftrightarrow>
     labelled vs_kind (cs_selector r cs) (cs_key cs) (c_VirtualService C) \<and>
     labelled dr_kind (cs_selector r cs) (cs_key cs) (c_DestinationRule C) \<and>
     labelled se_kind (cs_selector r cs) (cs_key cs) (c_ServiceEntry C) \<and>
     (\<forall>k \<in> cs_workload_keys r cs (cs_Instances (cs_Spec cs)). labelled we_kind (cs_selector r cs) k (c_WorkloadEntry C))"

text \<open>What the resources of a service must be: the stored ones differ in nothing the controller looks at.\<close>

definition resources_in_place :: "Reconciler \<Rightarrow> ConfiguredService \<Rightarrow> cluster \<Rightarrow> bool" where
  "resources_in_place r cs C \<longleftrightarrow>
     (\<exists>se. c_ServiceEntry C (cs_key cs) = Some se \<and> \<not> compareServiceEntry (cs_buildServiceEntry r cs) se) \<and>
     (\<forall>ins \<in> set (cs_Instances (cs_Spec cs)). \<exists>we o1. cs_buildWorkloadEntry r cs ins = Some we \<and>
        c_WorkloadEntry C (okey we_kind we) = Some o1 \<and>
        (\<exists>ins' \<in> set (cs_Instances (cs_Spec cs)). \<exists>we' weight. cs_buildWorkloadEntry r cs ins' = Some we' \<and>
           okey we_kind we' = okey we_kind we \<and> \<not> compareWorkloadEntry (with_weight weight we') o1))"

definition routing_in_place :: "Reconciler \<Rightarrow> ConfiguredService \<Rightarrow> cluster \<Rightarrow> bool" where
  "routing_in_place r cs C \<longleftrightarrow>
     (\<exists>d v d' v'. cs_buildDestinationRule r cs (cs_getSubset r cs) = Some d \<and>
        c_DestinationRule C (cs_key cs) = Some d' \<and> \<not> compareDestinationRule d d' \<and>
        cs_buildVirtualService r cs (cs_getSubset r cs) = Some v \<and>
        c_VirtualService C (cs_key cs) = Some v' \<and> \<not> compareVirtualService v v')"

lemma compare_refs:
  "compareVirtualService (v\<lparr>vs_Meta := (vs_Meta v)\<lparr>om_OwnerReferences := refs\<rparr>\<rparr>) v' = compareVirtualService v v'"
  "compareDestinationRule (d\<lparr>dr_Meta := (dr_Meta d)\<lparr>om_OwnerReferences := refs\<rparr>\<rparr>) d' = compareDestinationRule d d'"
  "compareServiceEntry (e\<lparr>se_Meta := (se_Meta e)\<lparr>om_OwnerReferences := refs\<rparr>\<rparr>) e' = compareServiceEntry e e'"
  by (simp_all add: compareVirtualService_def compareDestinationRule_def compareServiceEntry_def)

lemma reconciled_in_place:
  assumes "cs_reconciled r cs C C'" and "own_resources r cs C"
  shows "resources_in_place r cs C'"
    and "c_ServiceConfig C (om_Namespace (cs_Meta cs), om_Name (cs_Meta cs)) = None \<Longrightarrow> cs_getSubset r cs \<noteq> [] \<Longrightarrow>
      routing_in_place r cs C'"
proof -
  have key: "okey se_kind (cs_buildServiceEntry r cs) = cs_key cs"
    by (simp add: okey_def se_kind_def cs_buildServiceEntry_def cs_meta_def new_meta_def cs_key_def)
  have "sync_result se_kind (cs_selector r cs) (cs_buildServiceEntry r cs) (c_ServiceEntry C) (c_ServiceEntry C')"
    using assms(1) by (simp add: cs_reconciled_def)
  from sync_result_stored [OF this se.object_kind_axioms key] assms(2)
  have "\<exists>se. c_ServiceEntry C' (cs_key cs) = Some se \<and> \<not> compareServiceEntry (cs_buildServiceEntry r cs) se"
    by (auto simp: own_resources_def labelled_def se_kind_def compare_refs)
  moreover have "\<exists>we o1. cs_buildWorkloadEntry r cs ins = Some we \<and> c_WorkloadEntry C' (okey we_kind we) = Some o1 \<and>
      (\<exists>ins' \<in> set (cs_Instances (cs_Spec cs)). \<exists>we' weight. cs_buildWorkloadEntry r cs ins' = Some we' \<and>
         okey we_kind we' = okey we_kind we \<and> \<not> compareWorkloadEntry (with_weight weight we') o1)"
    if ins: "ins \<in> set (cs_Instances (cs_Spec cs))" for ins
  proof -
    from assms(1) ins obtain we o1 where we: "cs_buildWorkloadEntry r cs ins = Some we" "c_WorkloadEntry C' (okey we_kind we) = Some o1"
      and done1: "workload_done r cs (c_WorkloadEntry C) (okey we_kind we) o1"
      unfolding cs_reconciled_def workloads_synced_def by blast
    have "okey we_kind we \<in> cs_workload_keys r cs (cs_Instances (cs_Spec cs))"
      using ins we(1) by (force simp: cs_workload_keys_def List.map_filter_def)
    with assms(2) have "\<not> (\<exists>o0. c_WorkloadEntry C (okey we_kind we) = Some o0 \<and> \<not> selects (cs_selector r cs) (we_Meta o0))"
      by (auto simp: own_resources_def labelled_def we_kind_def)
    with we done1 show ?thesis unfolding workload_done_def by blast
  qed
  ultimately show "resources_in_place r cs C'" by (simp add: resources_in_place_def)
  assume "c_ServiceConfig C (om_Namespace (cs_Meta cs), om_Name (cs_Meta cs)) = None" "cs_getSubset r cs \<noteq> []"
  with assms(1) obtain d v where built: "cs_buildDestinationRule r cs (cs_getSubset r cs) = Some d"
      "cs_buildVirtualService r cs (cs_getSubset r cs) = Some v"
    and sync: "sync_result dr_kind (cs_selector r cs) d (c_DestinationRule C) (c_DestinationRule C')"
      "sync_result vs_kind (cs_selector r cs) v (c_VirtualService C) (c_VirtualService C')"
    by (auto simp: cs_reconciled_def)
  have keys: "okey dr_kind d = cs_key cs" "okey vs_kind v = cs_key cs"
    using cs_built_key(1) [OF built(2)] cs_built_key(2) [OF built(1)] by (simp_all add: cs_key_def)
  from sync_result_stored [OF sync(1) dr.object_kind_axioms keys(1)] assms(2)
  have "\<exists>d'. c_DestinationRule C' (cs_key cs) = Some d' \<and> \<not> compareDestinationRule d d'"
    by (auto simp: own_resources_def labelled_def dr_kind_def compare_refs)
  moreover from sync_result_stored [OF sync(2) vs.object_kind_axioms keys(2)] assms(2)
  have "\<exists>v'. c_VirtualService C' (cs_key cs) = Some v' \<and> \<not> compareVirtualService v v'"
    by (auto simp: own_resources_def labelled_def vs_kind_def compare_refs)
  ultimately show "routing_in_place r cs C'" using built unfolding routing_in_place_def by blast
qed

text \<open>
  C13: what somebody else does to the Istio resources of a service is undone, if the ConfiguredService controller is told.
  The change or deletion of a resource that a stored ConfiguredService controls leads to a request for that
  service with \<open>WatchIstioCRD\<close>; without it that controller hears nothing, and only those of the ServiceConfigs and the
  AppMeshConfigs, which listen always, get a request with the name of the service. The
  reconciliation of the ConfiguredService, when it ends without error, has every resource of the service in its place
  again, whatever was changed or deleted as long as no object lost the label of the service: the service entry, a workload entry
  for every instance, and, unless a ServiceConfig takes over, destination rule and virtual service of the subsets.
\<close>

theorem drift_is_repaired:
  assumes "runtime_ok runtime" and "kind \<in> istio_kinds"
    and "ev = DeleteEvent kind m \<or> ev = UpdateEvent kind old m" and "controlled_by KConfiguredService key m"
    and "api_ok api view" and "get_available (ap_ServiceConfig api)"
    and "fst key \<noteq> []" and "c_ConfiguredService (view w) key = Some cs"
  shows "(if op_WatchIstioCRD opt then key \<in> set (runtime (cs_controller opt) ev) else runtime (cs_controller opt) ev = []) \<and>
    key \<in> set (runtime sc_controller ev) \<and> key \<in> set (runtime amc_controller ev) \<and>
    (cs_Reconcile api key (w, r) = (Inr (), (w', r')) \<and> own_resources r' cs (view w) \<longrightarrow>
       resources_in_place r' cs (view w') \<and>
       (c_ServiceConfig (view w) key = None \<and> cs_getSubset r' cs \<noteq> [] \<longrightarrow> routing_in_place r' cs (view w')))"
proof -
  have key: "key = (om_Namespace (cs_Meta cs), om_Name (cs_Meta cs))"
    using kube_ok_key [OF api_ok_cs [OF assms(5)] assms(8)] by (simp add: okey_def cs_kind_def)
  show ?thesis
    using drift_requests [OF assms(1-4)] cs_Reconcile_stored [OF assms(5,7,6,8)] reconciled_in_place [of r' cs "view w" "view w'"]
    unfolding key by blast
qed

section \<open>A ServiceConfig is deleted\<close>

text \<open>
  The garbage collector removes the objects that refer to an owner which is gone; it may do so at any time, and it touches
  nothing else. Only virtual services and destination rules are owned by a ServiceConfig.
\<close>

definition owned_by :: "api_kind \<Rightarrow> nsname \<Rightarrow> ObjectMeta \<Rightarrow> bool" where
  "owned_by k key m \<longleftrightarrow> om_Namespace m = fst key \<and>
     list_ex (\<lambda>o1. or_Kind o1 = kind_name k \<and> or_Name o1 = snd key) (om_OwnerReferences m)"

definition removes_owned :: "(ObjectMeta \<Rightarrow> bool) \<Rightarrow> ('o \<Rightarrow> ObjectMeta) \<Rightarrow> (nsname \<Rightarrow> 'o option) \<Rightarrow> (nsname \<Rightarrow> 'o option) \<Rightarrow> bool" where
  "removes_owned owned meta M M' \<longleftrightarrow> (\<forall>k. M' k = M k \<or> M' k = None \<and> (\<exists>o1. M k = Some o1 \<and> owned (meta o1)))"

definition garbage_collected :: "api_kind \<Rightarrow> nsname \<Rightarrow> cluster \<Rightarrow> cluster \<Rightarrow> bool" where
  "garbage_collected kind key C C' \<longleftrightarrow>
     removes_owned (owned_by kind key) vs_Meta (c_VirtualService C) (c_VirtualService C') \<and>
     removes_owned (owned_by kind key) dr_Meta (c_DestinationRule C) (c_DestinationRule C') \<and>
     C' = C\<lparr>c_VirtualService := c_VirtualService C', c_DestinationRule := c_DestinationRule C'\<rparr>"

lemma removes_owned_keeps:
  "removes_owned owned meta M M' \<Longrightarrow> M k = Some o1 \<Longrightarrow> \<not> owned (meta o1) \<Longrightarrow> M' k = Some o1"
  unfolding removes_owned_def by (elim allE [of _ k]) auto

text \<open>The deletion of an object that another kind controls leads to no request for the ConfiguredService.\<close>

lemma other_controller:
  assumes "controlled_by k' key m" and "kind_name k \<noteq> kind_name k'"
  shows "requests (ForOwner True k) m = {}"
  using assms by (auto simp: requests_def controlled_by_def)

text \<open>
  C34: a configurator that is deleted keeps its effect on the resources of the ConfiguredService. The handler deletes the
  ServiceConfig, and the garbage collector removes what that owns; the virtual services and destination rules
  that it does not own, which are those the ConfiguredService controller made first and the ServiceConfig controller then
  rewrote with its routes, stay as they are. For neither the deletion of the ServiceConfig nor those of the
  resources it controlled is a request for the ConfiguredService, and the requests for the
  ServiceConfig change nothing. So these routes stay until some other event of the service.
\<close>

theorem deleted_config_keeps_routes:
  assumes "runtime_ok runtime" and "api_ok api view" and "get_available (ap_ServiceConfig api)"
    and "sh_DeleteConfigEntry api e w = (y, w1)"
    and "garbage_collected KServiceConfig key (view w1) (view w2)" and "c_ServiceConfig (view w2) key = None"
    and "ev = DeleteEvent KServiceConfig m \<and> key = (om_Namespace m, om_Name m) \<or>
      ev = DeleteEvent kind m \<and> kind \<in> {KVirtualService, KDestinationRule} \<and> controlled_by KServiceConfig key m"
    and "req \<in> set (runtime sc_controller ev)" and "sc_Reconcile api req (w2, r) = (x, (w3, r3))"
  shows "runtime (cs_controller opt) ev = [] \<and> x = Inr () \<and>
    (\<forall>k v. c_VirtualService (view w) k = Some v \<and> \<not> owned_by KServiceConfig key (vs_Meta v) \<longrightarrow>
       c_VirtualService (view w3) k = Some v) \<and>
    (\<forall>k d. c_DestinationRule (view w) k = Some d \<and> \<not> owned_by KServiceConfig key (dr_Meta d) \<longrightarrow>
       c_DestinationRule (view w3) k = Some d)"
proof -
  have other: "requests (ForOwner True KConfiguredService) m = {}" if "controlled_by KServiceConfig key m"
    by (rule other_controller [OF that]) (simp add: kind_name_def)
  have none: "runtime (cs_controller opt) ev = []"
  proof (rule ccontr)
    assume "runtime (cs_controller opt) ev \<noteq> []"
    then obtain q where "q \<in> set (runtime (cs_controller opt) ev)" by (cases "runtime (cs_controller opt) ev") auto
    then show False using assms(7) other unfolding runtime_iff [OF assms(1)]
      by (auto simp: event_objects_def split: if_splits)
  qed
  have own: "requests (ForOwner True KServiceConfig) m \<subseteq> {key}" if "controlled_by KServiceConfig key m"
    using that by (auto simp: requests_def controlled_by_def)
  have req: "req = key"
    using assms(7,8) other unfolding runtime_iff [OF assms(1)]
    by (auto simp: event_objects_def sc_controller_def requests_def [of ForObject] dest: own [THEN subsetD])
  obtain g w4 where get: "kGet (ap_ServiceConfig api) req w2 = (g, w4)" by fastforce
  have keep: "view w4 = view w2" by (rule get_keeps_view(3) [OF assms(2) get])
  have "g = Inl NotFound"
  proof (cases g)
    case (Inl err)
    with get assms(3) show ?thesis unfolding get_available_def by (metis fst_conv)
  next
    case (Inr o1)
    with kube_ok_getD(3) [OF api_ok_sc [OF assms(2)] get] assms(6) req show ?thesis by simp
  qed
  then have "sc_Reconcile api req (w2, r) = (Inr (), (w4, r))"
    by (simp add: sc_Reconcile_def gbind_def on_world_def attempt_def get gret_def)
  with assms(9) have x: "x = Inr ()" "w3 = w4" by simp_all
  have frame: "view w1 = (view w)\<lparr>c_ServiceConfig := c_ServiceConfig (view w1)\<rparr>"
    by (rule sh_DeleteConfigEntry_cases(2) [OF assms(2,4)])
  have same: "c_VirtualService (view w1) = c_VirtualService (view w)" "c_DestinationRule (view w1) = c_DestinationRule (view w)"
    using arg_cong [OF frame, of c_VirtualService] arg_cong [OF frame, of c_DestinationRule] by simp_all
  have gc: "removes_owned (owned_by KServiceConfig key) vs_Meta (c_VirtualService (view w)) (c_VirtualService (view w3))"
    "removes_owned (owned_by KServiceConfig key) dr_Meta (c_DestinationRule (view w)) (c_DestinationRule (view w3))"
    using assms(5) unfolding garbage_collected_def same x(2) keep by blast+
  from none x(1) removes_owned_keeps [OF gc(1)] removes_owned_keeps [OF gc(2)] show ?thesis by blast
qed

section \<open>What is registered\<close>

lemma default_registers_nothing: "AddToManager M DefaultControllerOption m = (None, m)"
  by (simp add: AddToManager_def DefaultControllerOption_def)

section \<open>A run-time that behaves as documented\<close>

definition request_list :: "enqueue \<Rightarrow> ObjectMeta \<Rightarrow> nsname list" where
  "request_list enq m =
     (case enq of
        ForObject \<Rightarrow> [(om_Namespace m, om_Name m)]
      | ForOwner isController k \<Rightarrow>
          map (\<lambda>o1. (om_Namespace m, or_Name o1)) (filter (\<lambda>o1. or_Kind o1 = kind_name k \<and>
            (isController \<longrightarrow> find or_Controller (om_OwnerReferences m) = Some o1)) (om_OwnerReferences m)))"

definition demo_runtime :: "controller \<Rightarrow> kube_event \<Rightarrow> nsname list" where
  "demo_runtime c ev =
     (if passes (ct_Filter c) ev then
        concat (map (\<lambda>(k, m). concat (map (\<lambda>(k', enq). if k = k' then request_list enq m else [])
          ((ct_For c, ForObject) # ct_Watches c))) (event_objects ev))
      else [])"

lemma set_request_list: "set (request_list enq m) = requests enq m"
  by (auto simp: request_list_def requests_def split: enqueue.split)

lemma joined_requests:
  "req \<in> set (concat (map (\<lambda>(k, m). concat (map (\<lambda>(k', enq). if k = k' then request_list enq m else []) L)) E)) \<longleftrightarrow>
   (\<exists>k m enq. (k, m) \<in> set E \<and> (k, enq) \<in> set L \<and> req \<in> set (request_list enq m))"
proof
  assume "req \<in> set (concat (map (\<lambda>(k, m). concat (map (\<lambda>(k', enq). if k = k' then request_list enq m else []) L)) E))"
  then show "\<exists>k m enq. (k, m) \<in> set E \<and> (k, enq) \<in> set L \<and> req \<in> set (request_list enq m)"
    by (auto split: if_splits)
next
  assume "\<exists>k m enq. (k, m) \<in> set E \<and> (k, enq) \<in> set L \<and> req \<in> set (request_list enq m)"
  then obtain k m enq where "(k, m) \<in> set E" "(k, enq) \<in> set L" "req \<in> set (request_list enq m)" by blast
  then show "req \<in> set (concat (map (\<lambda>(k, m). concat (map (\<lambda>(k', enq). if k = k' then request_list enq m else []) L)) E))"
    unfolding set_concat set_map image_image UN_iff
    by (intro bexI [of _ "(k, m)"]) (auto intro!: bexI [of _ "(k, enq)"])
qed

lemma demo_runtime_ok: "runtime_ok demo_runtime"
  unfolding runtime_ok_def demo_runtime_def set_request_list [symmetric] joined_requests [symmetric] by simp

definition demo_drift :: ObjectMeta where
  "demo_drift = (new_meta ''svc'' ''mesh'' [])\<lparr>om_OwnerReferences :=
     [\<lparr>or_Kind = ''ConfiguredService'', or_Name = ''svc'', or_Controller = True\<rparr>]\<rparr>"

theorem drift_is_repaired_witness:
  "(''mesh'', ''svc'') \<in> set (demo_runtime (cs_controller DefaultControllerOption) (DeleteEvent KVirtualService demo_drift)) \<and>
   c_VirtualService (mem_view demo_world) (''mesh'', ''svc'') = None \<and>
   resources_in_place (snd (snd demo_run)) demo_cs (mem_view (fst (snd demo_run))) \<and>
   routing_in_place (snd (snd demo_run)) demo_cs (mem_view (fst (snd demo_run)))"
proof -
  have "KVirtualService \<in> istio_kinds" by (simp add: istio_kinds_def)
  moreover have "controlled_by KConfiguredService (''mesh'', ''svc'') demo_drift"
    by (simp add: controlled_by_def demo_drift_def kind_name_def)
  moreover have "get_available (ap_ServiceConfig mem_api)" by (simp add: mem_api_def mem_get_available)
  moreover have "c_ConfiguredService (mem_view demo_world) (''mesh'', ''svc'') = Some demo_cs"
    by (simp add: mem_view_def mem_objs_def demo_world_def okey_def cs_kind_def demo_cs_def)
  moreover have empty: "c_VirtualService (mem_view demo_world) k = None" "c_DestinationRule (mem_view demo_world) k = None"
    "c_ServiceEntry (mem_view demo_world) k = None" "c_WorkloadEntry (mem_view demo_world) k = None"
    "c_ServiceConfig (mem_view demo_world) k = None" for k
    by (simp_all add: mem_view_def mem_objs_def demo_world_def empty_world_def)
  moreover have "own_resources (snd (snd demo_run)) demo_cs (mem_view demo_world)"
    by (simp add: own_resources_def labelled_def empty)
  moreover have "cs_getSubset (snd (snd demo_run)) demo_cs \<noteq> []" by code_simp
  ultimately show ?thesis
    using drift_is_repaired [OF demo_runtime_ok _ disjI1 [OF refl] _ mem_api_ok, where opt = DefaultControllerOption
        and r = demo_rc and w = demo_world and r' = "snd (snd demo_run)" and w' = "fst (snd demo_run)"] demo_run_ok
    by (simp add: DefaultControllerOption_def)
qed

text \<open>
  A service is reconciled, then gets a ServiceConfig that sends two fifths of its requests to another subset. The
  ServiceConfig is reconciled and deleted again.
\<close>

definition split_sc :: ServiceConfig where
  "split_sc = demo_sc\<lparr>sc_Meta := new_meta ''svc'' ''sym-admin'' [],
     sc_Spec := (sc_Spec demo_sc)\<lparr>sc_Route := [\<lparr>ds_Subset = ''blue'', ds_Weight = 60\<rparr>, \<lparr>ds_Subset = ''green'', ds_Weight = 40\<rparr>]\<rparr>\<rparr>"

definition owned_world :: mem_world where
  "owned_world = fst (snd (cs_Reconcile mem_api (''sym-admin'', ''svc'')
     (demo_world\<lparr>mw_ConfiguredService := [demo_cs\<lparr>cs_Meta := new_meta ''svc'' ''sym-admin'' []\<rparr>]\<rparr>, demo_rc)))"

definition split_world :: mem_world where
  "split_world = fst (snd (sc_Reconcile mem_api (''sym-admin'', ''svc'')
     (owned_world\<lparr>mw_ServiceConfig := [split_sc]\<rparr>, demo_rc)))"

definition split_deleted :: ConfigEvent where
  "split_deleted = \<lparr>ce_EventType = ConfigEntryDeleted, ce_Path = ''/dubbo/config/dubbo/svc.configurators'', ce_ConfigEntry = None\<rparr>"

definition deleted_world :: mem_world where
  "deleted_world = snd (sh_DeleteConfigEntry mem_api split_deleted split_world)"

definition sends_to :: "string \<Rightarrow> mem_world \<Rightarrow> bool" where
  "sends_to sub w = (case c_VirtualService (mem_view w) (''sym-admin'', ''svc'') of None \<Rightarrow> False
     | Some v \<Rightarrow> list_ex (\<lambda>h. list_ex (\<lambda>d. rt_Subset (rd_Destination d) = sub) (hr_Route h)) (vs_Http (vs_Spec v)))"

theorem deleted_config_keeps_routes_witness:
  "\<not> sends_to ''green'' owned_world \<and> c_ServiceConfig (mem_view split_world) (''sym-admin'', ''svc'') \<noteq> None \<and>
   c_ServiceConfig (mem_view deleted_world) (''sym-admin'', ''svc'') = None \<and>
   sends_to ''green'' (fst (snd (sc_Reconcile mem_api (''sym-admin'', ''svc'') (deleted_world, demo_rc))))"
proof -
  let ?m = "new_meta ''svc'' ''sym-admin'' []" and ?key = "(''sym-admin'', ''svc'')"
  have delete: "sh_DeleteConfigEntry mem_api split_deleted split_world =
      (fst (sh_DeleteConfigEntry mem_api split_deleted split_world), deleted_world)" by (simp add: deleted_world_def)
  have gc: "garbage_collected KServiceConfig ?key (mem_view deleted_world) (mem_view deleted_world)"
    by (simp add: garbage_collected_def removes_owned_def)
  have "Option.is_none (c_ServiceConfig (mem_view deleted_world) ?key)" by code_simp
  then have none: "c_ServiceConfig (mem_view deleted_world) ?key = None" by (simp add: Option.is_none_def)
  have ev: "DeleteEvent KServiceConfig ?m = DeleteEvent KServiceConfig ?m \<and> ?key = (om_Namespace ?m, om_Name ?m)"
    by (simp add: new_meta_def)
  have req: "?key \<in> set (demo_runtime sc_controller (DeleteEvent KServiceConfig ?m))" by code_simp
  have sc: "get_available (ap_ServiceConfig mem_api)" by (simp add: mem_api_def mem_get_available)
  obtain x w3 r3 where rec: "sc_Reconcile mem_api ?key (deleted_world, demo_rc) = (x, (w3, r3))" by (metis prod_cases3)
  have "\<not> sends_to ''green'' owned_world" by code_simp
  moreover have "\<not> Option.is_none (c_ServiceConfig (mem_view split_world) ?key)" by code_simp
  moreover have "sends_to ''green'' split_world" by code_simp
  then obtain v where v: "c_VirtualService (mem_view split_world) ?key = Some v"
    and green: "list_ex (\<lambda>h. list_ex (\<lambda>d. rt_Subset (rd_Destination d) = ''green'') (hr_Route h)) (vs_Http (vs_Spec v))"
    by (auto simp: sends_to_def split: option.splits)
  have "map_option (\<lambda>v. owned_by KServiceConfig ?key (vs_Meta v)) (c_VirtualService (mem_view split_world) ?key) = Some False"
    by code_simp
  with v have "\<not> owned_by KServiceConfig ?key (vs_Meta v)" by simp
  with deleted_config_keeps_routes [OF demo_runtime_ok mem_api_ok sc delete gc none disjI1 [OF ev] req rec] v
  have "c_VirtualService (mem_view w3) ?key = Some v" by blast
  with green have "sends_to ''green'' w3" by (simp add: sends_to_def)
  ultimately show ?thesis using none rec by (auto simp: Option.is_none_def)
qed

end
