(* ===== verification/ScReconcile.thy ===== *)
theory ScReconcile
  imports ScCorrect
begin

text \<open>
  The whole reconciliation of a ServiceConfig (\<^verbatim>\<open>controllers/serviceconfig/controller.go\<close>): what it leaves of
  workload entries, destination rule, virtual service and status when it ends without error.
\<close>

section \<open>Calls that only read\<close>

definition keeps_view :: "('w \<Rightarrow> cluster) \<Rightarrow> ('w, 'a) call \<Rightarrow> bool" where
  "keeps_view view m \<longleftrightarrow> (\<forall>w x w'. m w = (x, w') \<longrightarrow> view w' = view w)"

named_theorems keeps_intros

lemma keeps_viewD: "keeps_view view m \<Longrightarrow> m w = (x, w') \<Longrightarrow> view w' = view w"
  unfolding keeps_view_def by blast

lemma keeps_gret [keeps_intros]: "keeps_view view (gret x)"
  by (simp add: keeps_view_def gret_def)

lemma keeps_gfail [keeps_intros]: "keeps_view view (gfail e)"
  by (simp add: keeps_view_def gfail_def)

lemma keeps_orPanic [keeps_intros]: "keeps_view view (orPanic v)"
  by (auto simp: keeps_view_def orPanic_def split: option.splits)

lemma keeps_gbind [keeps_intros]: "keeps_view view m \<Longrightarrow> (\<And>x. keeps_view view (f x)) \<Longrightarrow> keeps_view view (gbind m f)"
  unfolding keeps_view_def gbind_def by (fastforce split: prod.splits sum.splits)

lemma keeps_gcatch [keeps_intros]: "keeps_view view m \<Longrightarrow> keeps_view view (gcatch m)"
  unfolding keeps_view_def gcatch_def by (fastforce split: prod.splits sum.splits abort.splits)

lemma keeps_attempt: "(\<And>w x w'. c w = (x, w') \<Longrightarrow> view w' = view w) \<Longrightarrow> keeps_view view (attempt c)"
  unfolding keeps_view_def attempt_def by (auto split: prod.splits)

lemma keeps_if [keeps_intros]: "keeps_view view a \<Longrightarrow> keeps_view view b \<Longrightarrow> keeps_view view (if c then a else b)"
  by simp

lemma keeps_case [keeps_intros]:
  "(\<And>e. keeps_view view (f e)) \<Longrightarrow> (\<And>x. keeps_view view (g x)) \<Longrightarrow> keeps_view view (case r of Inl e \<Rightarrow> f e | Inr x \<Rightarrow> g x)"
  by (simp split: sum.split)

lemma sc_getSubset_keeps:
  assumes "api_ok api view"
  shows "keeps_view view (sc_getSubset api r sc)"
  unfolding keeps_view_def using sc_getSubset_view(1) [OF assms] by blast

lemma count_list_keeps:
  assumes "api_ok api view"
  shows "keeps_view view (count_list (ap_VirtualService api) lo)" "keeps_view view (count_list (ap_DestinationRule api) lo)"
    "keeps_view view (count_list (ap_ServiceEntry api) lo)" "keeps_view view (count_list (ap_WorkloadEntry api) lo)"
  unfolding count_list_def
  by (intro keeps_intros keeps_attempt; erule list_keeps_view [OF assms])+

lemma sc_buildStatus_keeps:
  assumes ok: "api_ok api view"
  shows "keeps_view view (sc_buildStatus api r sc)"
  unfolding sc_buildStatus_def sc_getServiceEntryStatus_def sc_getWorkloadEntryStatus_def sc_subsets_or_none_def
    sc_getVirtualServiceStatus_def sc_getDestinationRuleStatus_def Let_def
  by (intro keeps_intros keeps_attempt sc_getSubset_keeps [OF ok] count_list_keeps [OF ok])
    (erule get_keeps_view(2) [OF ok])

section \<open>Weights\<close>

text \<open>The entry an instance is about: its name is not formatted.\<close>

definition sc_weight_key :: "ServiceConfig \<Rightarrow> InstanceConfig \<Rightarrow> nsname option" where
  "sc_weight_key sc ins =
     map_option (\<lambda>port. (om_Namespace (sc_Meta sc), workload_name (om_Name (sc_Meta sc)) (ic_Host ins) port)) (ic_Port ins)"

text \<open>The weight of an entry: that of the last instance with its name.\<close>

fun wanted_weight :: "ServiceConfig \<Rightarrow> InstanceConfig list \<Rightarrow> nsname \<Rightarrow> uint32 option" where
  "wanted_weight sc [] k = None"
| "wanted_weight sc (ins # rest) k =
     (case wanted_weight sc rest k of
        Some n \<Rightarrow> Some n
      | None \<Rightarrow> if sc_weight_key sc ins = Some k then Some (ic_Weight ins) else None)"

definition reweighted ::
  "(nsname \<Rightarrow> uint32 option) \<Rightarrow> (nsname \<Rightarrow> WorkloadEntry option) \<Rightarrow> (nsname \<Rightarrow> WorkloadEntry option) \<Rightarrow> bool" where
  "reweighted weight M M' \<longleftrightarrow>
     (\<forall>k. case M k of
        None \<Rightarrow> M' k = None
      | Some o1 \<Rightarrow>
          (case weight k of
             None \<Rightarrow> M' k = Some o1
           | Some n \<Rightarrow> \<exists>o2. M' k = Some o2 \<and> same_object we_kind o2 (with_weight n o1)))"

lemma we_same_iff: "same_object we_kind a b \<longleftrightarrow> strip_meta (we_Meta a) = strip_meta (we_Meta b) \<and> we_Spec a = we_Spec b"
  by (cases a; cases b) (auto simp: same_object_def we_kind_def)

lemma reweight_again:
  assumes "same_object we_kind o2 (with_weight m o1)"
  shows "same_object we_kind (with_weight n o2) (with_weight n o1)"
  using assms by (simp add: we_same_iff with_weight_def)

lemma reweighted_Cons:
  assumes one: "reweighted (\<lambda>k. if sc_weight_key sc ins = Some k then Some (ic_Weight ins) else None) M M1"
    and rest: "reweighted (wanted_weight sc rest) M1 M2"
  shows "reweighted (wanted_weight sc (ins # rest)) M M2"
  unfolding reweighted_def
proof
  fix k
  note one = one [unfolded reweighted_def, rule_format, of k]
  note rest = rest [unfolded reweighted_def, rule_format, of k]
  show "case M k of None \<Rightarrow> M2 k = None
    | Some o1 \<Rightarrow> (case wanted_weight sc (ins # rest) k of None \<Rightarrow> M2 k = Some o1
        | Some n \<Rightarrow> \<exists>o2. M2 k = Some o2 \<and> same_object we_kind o2 (with_weight n o1))"
  proof (cases "M k")
    case None
    with one rest show ?thesis by simp
  next
    case (Some o1)
    show ?thesis
    proof (cases "wanted_weight sc rest k")
      case None
      with Some one rest show ?thesis by (auto split: if_splits)
    next
      case (Some n)
      from one \<open>M k = Some o1\<close> obtain m1 where m1: "M1 k = Some m1" "with_weight n m1 = with_weight n o1 \<or>
          (\<exists>m. same_object we_kind m1 (with_weight m o1))" by (auto split: if_splits)
      then have "same_object we_kind (with_weight n m1) (with_weight n o1)"
        using reweight_again by (metis we_same_iff)
      moreover from rest Some m1(1) obtain o2 where "M2 k = Some o2" "same_object we_kind o2 (with_weight n m1)" by auto
      ultimately show ?thesis using Some \<open>M k = Some o1\<close> by (simp add: we_same_iff)
    qed
  qed
qed

lemma resend_retried:
  assumes ok: "api_ok api view" and key: "okey we_kind x = k"
    and run: "kRetry (ap_WorkloadEntry api) (resend (ap_WorkloadEntry api)) x w = (r, x', w')"
  shows "view w' = (view w)\<lparr>c_WorkloadEntry := c_WorkloadEntry (view w')\<rparr>"
    and "r = Inl e \<Longrightarrow> c_WorkloadEntry (view w') = c_WorkloadEntry (view w)"
    and "r = Inr u \<Longrightarrow> \<exists>o'. c_WorkloadEntry (view w') = (c_WorkloadEntry (view w))(k \<mapsto> o') \<and> same_object we_kind o' x"
proof -
  note law = api_ok_we [OF ok]
  have retry: "retry_ok (ap_WorkloadEntry api)" using law by (simp add: kube_ok_def)
  let ?Q = "\<lambda>r (x' :: WorkloadEntry) w'. view w' = (view w)\<lparr>c_WorkloadEntry := c_WorkloadEntry (view w')\<rparr> \<and>
    (case r of Inl e \<Rightarrow> c_WorkloadEntry (view w') = c_WorkloadEntry (view w)
     | Inr u \<Rightarrow> \<exists>o'. c_WorkloadEntry (view w') = (c_WorkloadEntry (view w))(k \<mapsto> o') \<and> same_object we_kind o' x)"
  have "?Q r x' w'"
  proof (rule retry_ok_invariant [OF retry _ _ _ run, where I = "\<lambda>y v. y = x \<and> view v = view w" and Q = ?Q])
    show "x = x \<and> view w = view w" by simp
  next
    fix y v p y1 v1
    assume I: "y = x \<and> view v = view w" and step: "resend (ap_WorkloadEntry api) y v = (p, y1, v1)"
    obtain q v2 where up: "kUpdate (ap_WorkloadEntry api) y v = (q, v2)" by fastforce
    note U = kube_ok_updateD [OF law up, unfolded only_changed]
    have v: "v1 = v2" "p = Inl e \<Longrightarrow> q = Inl e \<and> y1 = y" for e
      using step up by (auto simp: resend_def split: sum.splits)
    show "y1 = x \<and> view v1 = view w" if "p = Inl Conflict"
      using U(1,2) v(1) v(2) [OF that] I by simp
    show "?Q p y1 v1"
    proof (cases q)
      case (Inl e)
      then have "p = Inl e" using step up by (simp add: resend_def)
      then show ?thesis using U(1) U(2) [OF Inl] I v(1) by simp
    next
      case (Inr o')
      then have "p = Inr ()" using step up by (simp add: resend_def)
      then show ?thesis using U(1) U(4) [OF Inr] I v(1) key by auto
    qed
  qed
  then show "view w' = (view w)\<lparr>c_WorkloadEntry := c_WorkloadEntry (view w')\<rparr>"
    "r = Inl e \<Longrightarrow> c_WorkloadEntry (view w') = c_WorkloadEntry (view w)"
    "r = Inr u \<Longrightarrow> \<exists>o'. c_WorkloadEntry (view w') = (c_WorkloadEntry (view w))(k \<mapsto> o') \<and> same_object we_kind o' x"
    by simp_all
qed

lemma sc_weight_step_cases:
  assumes ok: "api_ok api view" and run: "sc_weight_step api sc ins w = (x, w')"
  shows "view w' = (view w)\<lparr>c_WorkloadEntry := c_WorkloadEntry (view w')\<rparr>"
    and "x = Inr u \<Longrightarrow> reweighted (\<lambda>k. if sc_weight_key sc ins = Some k then Some (ic_Weight ins) else None)
      (c_WorkloadEntry (view w)) (c_WorkloadEntry (view w'))"
proof -
  let ?P = "view w' = (view w)\<lparr>c_WorkloadEntry := c_WorkloadEntry (view w')\<rparr> \<and>
    (x = Inr () \<longrightarrow> reweighted (\<lambda>k. if sc_weight_key sc ins = Some k then Some (ic_Weight ins) else None)
      (c_WorkloadEntry (view w)) (c_WorkloadEntry (view w')))"
  have ?P
  proof (cases "ic_Port ins")
    case None
    with run show ?thesis by (auto simp: sc_weight_step_def gbind_def orPanic_def)
  next
    case (Some port)
    define k where "k = (om_Namespace (sc_Meta sc), workload_name (om_Name (sc_Meta sc)) (ic_Host ins) port)"
    have key: "sc_weight_key sc ins = Some k" by (simp add: sc_weight_key_def Some k_def)
    obtain g w1 where get: "kGet (ap_WorkloadEntry api) k w = (g, w1)" by fastforce
    have v: "view w1 = view w" by (rule get_keeps_view(9) [OF ok get])
    note G = kube_ok_getD(3,4) [OF api_ok_we [OF ok] get]
    show ?thesis
    proof (cases g)
      case (Inl err)
      with run Some get have "w' = w1" "x = Inr () \<Longrightarrow> err = NotFound"
        by (auto simp: sc_weight_step_def gbind_def orPanic_def attempt_def k_def gret_def gfail_def split: if_splits)
      with v G(2) Inl show ?thesis by (auto simp: reweighted_def key split: option.split)
    next
      case (Inr found)
      then have found: "c_WorkloadEntry (view w) k = Some found" by (rule G(1))
      obtain q y w2 where re: "kRetry (ap_WorkloadEntry api) (resend (ap_WorkloadEntry api))
          (with_weight (ic_Weight ins) found) w1 = (q, y, w2)" by (metis prod_cases3)
      have okey: "okey we_kind (with_weight (ic_Weight ins) found) = k"
        using kube_ok_key [OF api_ok_we [OF ok] found] by simp
      note R = resend_retried [OF ok okey re, unfolded v]
      have w': "w' = w2" "x = (case q of Inl e \<Rightarrow> Inl (Fail e) | Inr _ \<Rightarrow> Inr ())"
        using run Some get Inr re
        by (auto simp: sc_weight_step_def gbind_def orPanic_def attempt_def k_def split: sum.splits)
      show ?thesis
      proof (cases q)
        case (Inl e)
        with R(1) w' show ?thesis by simp
      next
        case (Inr u)
        from R(3) [OF Inr] obtain o' where "c_WorkloadEntry (view w2) = (c_WorkloadEntry (view w))(k \<mapsto> o')"
          "same_object we_kind o' (with_weight (ic_Weight ins) found)" by blast
        with R(1) w'(1) found show ?thesis by (auto simp: reweighted_def key split: option.split)
      qed
    qed
  qed
  then show "view w' = (view w)\<lparr>c_WorkloadEntry := c_WorkloadEntry (view w')\<rparr>"
    "x = Inr u \<Longrightarrow> reweighted (\<lambda>k. if sc_weight_key sc ins = Some k then Some (ic_Weight ins) else None)
      (c_WorkloadEntry (view w)) (c_WorkloadEntry (view w'))" by simp_all
qed

lemma sc_weights_loop:
  assumes ok: "api_ok api view" and run: "gforeach (sc_weight_step api sc) instances w = (Inr u, w')"
  shows "view w' = (view w)\<lparr>c_WorkloadEntry := c_WorkloadEntry (view w')\<rparr> \<and>
    reweighted (wanted_weight sc instances) (c_WorkloadEntry (view w)) (c_WorkloadEntry (view w'))"
  using run
proof (induction instances arbitrary: w)
  case Nil
  then show ?case by (simp add: reweighted_def split: option.split)
next
  case (Cons ins rest)
  obtain x w1 where step: "sc_weight_step api sc ins w = (x, w1)" by fastforce
  with Cons.prems have x: "x = Inr ()" and run: "gforeach (sc_weight_step api sc) rest w1 = (Inr u, w')"
    by (auto split: sum.splits)
  note S = sc_weight_step_cases(1) [OF ok step] sc_weight_step_cases(2) [OF ok step x]
  note IH = Cons.IH [OF run]
  show ?case
    by (intro conjI only_changed_trans(9) [OF conjunct1 [OF IH] S(1)] reweighted_Cons [OF S(2) conjunct2 [OF IH]])
qed

section \<open>The status\<close>

lemma sc_updateStatus_cases:
  assumes ok: "api_ok api view"
    and st: "status_ok sc_status (ap_ServiceConfig api) (\<lambda>w. c_ServiceConfig (view w))
           (\<lambda>w. (view w)\<lparr>c_ServiceConfig := Map.empty\<rparr>)"
    and key: "sc_key sc = req" and run: "gcatch (sc_updateStatus api r req sc) w = (x, w')"
  shows "view w' = (view w)\<lparr>c_ServiceConfig := c_ServiceConfig (view w')\<rparr> \<and>
    (c_ServiceConfig (view w') = c_ServiceConfig (view w) \<or>
     (\<exists>status. status_written sc_status req status (c_ServiceConfig (view w)) (c_ServiceConfig (view w'))))"
proof -
  obtain b w1 where build: "sc_buildStatus api r sc w = (b, w1)" by fastforce
  have v: "view w1 = view w" by (rule keeps_viewD [OF sc_buildStatus_keeps [OF ok] build])
  show ?thesis
  proof (cases b)
    case (Inl e)
    with run build have "w' = w1"
      by (auto simp: gcatch_def sc_updateStatus_def gbind_def split: abort.splits)
    with v show ?thesis by simp
  next
    case (Inr status)
    obtain q w2 where up: "update_status sc_status (ap_Now api) (ap_ServiceConfig api) req status sc w1 = (q, w2)" by fastforce
    have okey: "okey sc_status sc = req" using key by (simp add: okey_def sc_status_def sc_key_def)
    note U = sc_has.update_status_cases [OF api_ok_sc [OF ok, folded kube_ok_status(1)] st okey up, unfolded v only_changed]
    have "w' = w2" using run build Inr up
      by (auto simp: gcatch_def sc_updateStatus_def gbind_def split: sum.splits abort.splits)
    moreover have "c_ServiceConfig (view w2) = c_ServiceConfig (view w) \<or>
        status_written sc_status req status (c_ServiceConfig (view w)) (c_ServiceConfig (view w2))"
      using U(2,4,5) by (cases q) auto
    ultimately show ?thesis using U(1) by blast
  qed
qed

section \<open>Reconcile\<close>

text \<open>
  What is left: the weights, the routing for the subsets that are provided, and a status of the
  ServiceConfig. Nothing else of the cluster is changed.
\<close>

definition sc_routing :: "Reconciler \<Rightarrow> ServiceConfig \<Rightarrow> cluster \<Rightarrow> cluster \<Rightarrow> bool" where
  "sc_routing r sc C C' \<longleftrightarrow>
     (let subs = stored_subsets r C (sc_key sc) in
      if subs = [] then c_DestinationRule C' = c_DestinationRule C \<and> c_VirtualService C' = c_VirtualService C
      else \<exists>d v. sc_buildDestinationRule r sc subs = Some d \<and>
        sync_result dr_kind (sc_selector r sc) d (c_DestinationRule C) (c_DestinationRule C') \<and>
        sc_buildVirtualService r sc subs = Some v \<and>
        sync_result vs_kind (sc_selector r sc) v (c_VirtualService C) (c_VirtualService C'))"

definition sc_reconciled :: "Reconciler \<Rightarrow> ServiceConfig \<Rightarrow> cluster \<Rightarrow> cluster \<Rightarrow> bool" where
  "sc_reconciled r sc C C' \<longleftrightarrow>
     reweighted (wanted_weight sc (sc_Instances (sc_Spec sc))) (c_WorkloadEntry C) (c_WorkloadEntry C') \<and>
     sc_routing r sc C C' \<and>
     (c_ServiceConfig C' = c_ServiceConfig C \<or>
      (\<exists>status. status_written sc_status (sc_key sc) status (c_ServiceConfig C) (c_ServiceConfig C'))) \<and>
     C' = C\<lparr>c_WorkloadEntry := c_WorkloadEntry C', c_DestinationRule := c_DestinationRule C',
            c_VirtualService := c_VirtualService C', c_ServiceConfig := c_ServiceConfig C'\<rparr>"

lemma sc_parts:
  assumes "b = a\<lparr>c_WorkloadEntry := c_WorkloadEntry b\<rparr>" and "c = b\<lparr>c_DestinationRule := c_DestinationRule c\<rparr>"
    and "d = c\<lparr>c_VirtualService := c_VirtualService d\<rparr>" and "e = d\<lparr>c_ServiceConfig := c_ServiceConfig e\<rparr>"
  shows "e = a\<lparr>c_WorkloadEntry := c_WorkloadEntry e, c_DestinationRule := c_DestinationRule e,
      c_VirtualService := c_VirtualService e, c_ServiceConfig := c_ServiceConfig e\<rparr>"
    and "c_WorkloadEntry e = c_WorkloadEntry b" and "c_DestinationRule b = c_DestinationRule a"
    and "c_DestinationRule e = c_DestinationRule c" and "c_VirtualService c = c_VirtualService a"
    and "c_VirtualService e = c_VirtualService d" and "c_ServiceConfig d = c_ServiceConfig a"
    and "c_ConfiguredService b = c_ConfiguredService a" and "c_ConfiguredService c = c_ConfiguredService a"
  using assms by (cases a; cases b; cases c; cases d; cases e; simp)+

lemma on_worldD: "on_world m (w, r) = (x, s') \<Longrightarrow> \<exists>w'. m r w = (x, w') \<and> s' = (w', r)"
  by (auto elim: on_worldE)

lemma stored_subsets_cong:
  "c_ConfiguredService C = c_ConfiguredService C' \<Longrightarrow> stored_subsets r C key = stored_subsets r C' key"
  by (simp add: stored_subsets_def)

lemma sc_Reconcile_stored:
  assumes ok: "api_ok api view" and ns: "fst req \<noteq> []"
    and get: "get_available (ap_ServiceConfig api)"
    and st: "status_ok sc_status (ap_ServiceConfig api) (\<lambda>w. c_ServiceConfig (view w))
           (\<lambda>w. (view w)\<lparr>c_ServiceConfig := Map.empty\<rparr>)"
    and stored: "c_ServiceConfig (view w) req = Some sc"
    and run: "sc_Reconcile api req (w, r) = (Inr (), (w', r'))"
  shows "sc_reconciled r' sc (view w) (view w') \<and> sc_key sc = req \<and>
    c_MeshConfig (view w) (op_MeshConfigNamespace (rc_Opt r), op_MeshConfigName (rc_Opt r)) = Some (rc_MeshConfig r')"
proof -
  have key: "sc_key sc = req" using kube_ok_key [OF api_ok_sc [OF ok] stored] by (simp add: okey_def sc_kind_def sc_key_def)
  then have scns: "om_Namespace (sc_Meta sc) \<noteq> []" using ns by (auto simp: sc_key_def)
  obtain g w0 where g: "kGet (ap_ServiceConfig api) req w = (g, w0)" by fastforce
  have v0: "view w0 = view w" by (rule get_keeps_view(3) [OF ok g])
  have "g = Inr sc" by (rule get_available_stored [OF api_ok_sc [OF ok] get stored g])
  with run g have "gbind (getMeshConfig api) (\<lambda>_.
           gbind (on_world (\<lambda>r. sc_reconcileWorkloadEntry api sc)) (\<lambda>_.
           gbind (on_world (\<lambda>r. sc_reconcileDestinationRule api r sc)) (\<lambda>_.
           gbind (on_world (\<lambda>r. sc_reconcileVirtualService api r sc)) (\<lambda>_.
           gbind (on_world (\<lambda>r. gcatch (sc_updateStatus api r req sc)))
             (case_sum (\<lambda>err. if err = NotFound then gret () else gfail err) gret))))) (w0, r) = (Inr (), (w', r'))"
    by (simp add: sc_Reconcile_def gbind_def [of "on_world _" "case_sum _ _"] on_world_def attempt_def)
  then obtain u s1 where mesh0: "getMeshConfig api (w0, r) = (Inr u, s1)"
    and run1: "gbind (on_world (\<lambda>r. sc_reconcileWorkloadEntry api sc)) (\<lambda>_.
           gbind (on_world (\<lambda>r. sc_reconcileDestinationRule api r sc)) (\<lambda>_.
           gbind (on_world (\<lambda>r. sc_reconcileVirtualService api r sc)) (\<lambda>_.
           gbind (on_world (\<lambda>r. gcatch (sc_updateStatus api r req sc)))
             (case_sum (\<lambda>err. if err = NotFound then gret () else gfail err) gret)))) s1 = (Inr (), (w', r'))"
    by (rule gbind_InrE)
  obtain w1 r1 where s1: "s1 = (w1, r1)" by (cases s1)
  have mesh: "getMeshConfig api (w0, r) = (Inr (), (w1, r1))" using mesh0 s1 by simp
  from run1 obtain u2 s2 where q2: "on_world (\<lambda>r. sc_reconcileWorkloadEntry api sc) s1 = (Inr u2, s2)"
    and run2: "gbind (on_world (\<lambda>r. sc_reconcileDestinationRule api r sc)) (\<lambda>_.
           gbind (on_world (\<lambda>r. sc_reconcileVirtualService api r sc)) (\<lambda>_.
           gbind (on_world (\<lambda>r. gcatch (sc_updateStatus api r req sc)))
             (case_sum (\<lambda>err. if err = NotFound then gret () else gfail err) gret))) s2 = (Inr (), (w', r'))"
    by (rule gbind_InrE)
  obtain w2 where we: "sc_reconcileWorkloadEntry api sc w1 = (Inr (), w2)" and s2: "s2 = (w2, r1)"
    using on_worldD [OF q2 [unfolded s1]] by auto
  from run2 obtain u3 s3 where q3: "on_world (\<lambda>r. sc_reconcileDestinationRule api r sc) s2 = (Inr u3, s3)"
    and run3: "gbind (on_world (\<lambda>r. sc_reconcileVirtualService api r sc)) (\<lambda>_.
           gbind (on_world (\<lambda>r. gcatch (sc_updateStatus api r req sc)))
             (case_sum (\<lambda>err. if err = NotFound then gret () else gfail err) gret)) s3 = (Inr (), (w', r'))"
    by (rule gbind_InrE)
  obtain w3 where dr: "sc_reconcileDestinationRule api r1 sc w2 = (Inr (), w3)" and s3: "s3 = (w3, r1)"
    using on_worldD [OF q3 [unfolded s2]] by auto
  from run3 obtain u4 s4 where q4: "on_world (\<lambda>r. sc_reconcileVirtualService api r sc) s3 = (Inr u4, s4)"
    and run4: "gbind (on_world (\<lambda>r. gcatch (sc_updateStatus api r req sc)))
             (case_sum (\<lambda>err. if err = NotFound then gret () else gfail err) gret) s4 = (Inr (), (w', r'))"
    by (rule gbind_InrE)
  obtain w4 where vs: "sc_reconcileVirtualService api r1 sc w3 = (Inr (), w4)" and s4: "s4 = (w4, r1)"
    using on_worldD [OF q4 [unfolded s3]] by auto
  from run4 obtain y s5 where q5: "on_world (\<lambda>r. gcatch (sc_updateStatus api r req sc)) s4 = (Inr y, s5)"
    and fin0: "case_sum (\<lambda>err. if err = NotFound then gret () else gfail err) gret y s5 = (Inr (), (w', r'))"
    by (rule gbind_InrE)
  obtain w5 where up: "gcatch (sc_updateStatus api r1 req sc) w4 = (Inr y, w5)" and s5: "s5 = (w5, r1)"
    using on_worldD [OF q5 [unfolded s4]] by auto
  have fin: "w' = w5" "r' = r1" using fin0 s5 by (auto simp: gret_def gfail_def split: sum.splits if_splits)
  note M = getMeshConfig_view [OF ok mesh]
  have v1: "view w1 = view w" using M(1) v0 by simp
  note W = sc_weights_loop [OF ok we [unfolded sc_reconcileWorkloadEntry_def]]
  note D = sc_DestinationRule_cases(1) [OF ok scns dr] sc_DestinationRule_cases(2) [OF ok scns dr refl]
  note V = sc_VirtualService_cases(1) [OF ok scns vs] sc_VirtualService_cases(2) [OF ok scns vs refl]
  note U = sc_updateStatus_cases [OF ok st key up]
  note parts = sc_parts [OF conjunct1 [OF W, unfolded v1] D(1) V(1) conjunct1 [OF U]]
  have subs: "stored_subsets r1 (view w2) (sc_key sc) = stored_subsets r1 (view w) (sc_key sc)"
    "stored_subsets r1 (view w3) (sc_key sc) = stored_subsets r1 (view w) (sc_key sc)"
    using parts(8,9) by (auto intro: stored_subsets_cong)
  have "sc_routing r1 sc (view w) (view w5)"
    using D(2) V(2) parts(3-6) unfolding sc_routing_def subs Let_def by (auto split: if_splits)
  moreover have "reweighted (wanted_weight sc (sc_Instances (sc_Spec sc))) (c_WorkloadEntry (view w)) (c_WorkloadEntry (view w5))"
    using conjunct2 [OF W] parts(2) v1 by simp
  moreover have "c_ServiceConfig (view w5) = c_ServiceConfig (view w) \<or>
      (\<exists>status. status_written sc_status (sc_key sc) status (c_ServiceConfig (view w)) (c_ServiceConfig (view w5)))"
    using conjunct2 [OF U] parts(7) key by simp
  ultimately show ?thesis
    unfolding sc_reconciled_def fin using parts(1) M(3) [OF refl] v0 key by auto
qed

text \<open>
  C3: a reconciliation of a stored ServiceConfig that returns without error, against the mesh configuration stored
  in the cluster: every workload entry that the ServiceConfig names has its weight (the last one given) and all the
  others are as they were; destination rule and virtual service are what is built for the subsets that the
  stored ConfiguredService provides (and left alone when there are none); of ServiceConfigs only the
  status of this one is written; nothing else changes.
\<close>

theorem sc_Reconcile_converges:
  assumes "api_ok api view" and "fst req \<noteq> []" and "get_available (ap_ServiceConfig api)"
    and "status_ok sc_status (ap_ServiceConfig api) (\<lambda>w. c_ServiceConfig (view w))
           (\<lambda>w. (view w)\<lparr>c_ServiceConfig := Map.empty\<rparr>)"
    and "c_ServiceConfig (view w) req = Some sc"
    and "sc_Reconcile api req (w, r) = (Inr (), (w', r'))"
  shows "sc_reconciled r' sc (view w) (view w') \<and>
    c_MeshConfig (view w) (op_MeshConfigNamespace (rc_Opt r), op_MeshConfigName (rc_Opt r)) = Some (rc_MeshConfig r')"
  using sc_Reconcile_stored [OF assms] by simp

definition sc_world :: mem_world where
  "sc_world = demo_world\<lparr>mw_ServiceConfig := [demo_sc]\<rparr>"

definition sc_run where
  "sc_run = sc_Reconcile mem_api (''mesh'', ''svc'') (sc_world, demo_rc)"

lemma sc_run_ok: "sc_Reconcile mem_api (''mesh'', ''svc'') (sc_world, demo_rc) =
    (Inr (), (fst (snd sc_run), snd (snd sc_run)))"
proof -
  have "fst sc_run = Inr ()" by code_simp
  then show ?thesis by (cases sc_run) (auto simp: sc_run_def)
qed

lemma sc_world_view:
  "c_ServiceConfig (mem_view sc_world) (''mesh'', ''svc'') = Some demo_sc"
  "c_ConfiguredService (mem_view sc_world) (''mesh'', ''svc'') = Some demo_cs"
  by (simp_all add: mem_view_def mem_objs_def sc_world_def demo_world_def okey_def sc_kind_def cs_kind_def
      demo_sc_def demo_cs_def)

lemma mem_sc_available: "get_available (ap_ServiceConfig mem_api)"
  by (simp add: mem_api_def mem_get_available)

theorem sc_Reconcile_converges_witness:
  "sc_reconciled (snd (snd sc_run)) demo_sc (mem_view sc_world) (mem_view (fst (snd sc_run)))"
  using sc_Reconcile_converges [OF mem_api_ok _ mem_sc_available mem_api_status_ok(1) sc_world_view(1) sc_run_ok]
  by simp

end
