(* ===== verification/RouteTyping.thy ===== *)
theory RouteTyping
  imports ScReconcile
begin

text \<open>
  How the resources of a service fit together, as Istio reads them: a virtual service is typed by the
  destination rule of its host when what it routes to is there. The routes that carry traffic name
  subsets that the rule defines, and the routes for the callers come before the one that matches
  everything, which they do not do themselves as long as there is something to match.
\<close>

section \<open>Typing\<close>












section \<open>What is built is typed\<close>











section \<open>What is stored is typed\<close>






end
