(* ===== verification/SubsetEndpoints.thy ===== *)
theory SubsetEndpoints
  imports RouteTyping
begin

text \<open>
  From the labels of the instances to the endpoints of a subset (\<^verbatim>\<open>controllers/configuredservice\<close>): when a
  subset counts as provided, is there a workload entry that Istio counts to it? The check for a subset
  (\<open>mapContains\<close>) and the labels of a workload entry are computed by different code.
\<close>

section \<open>Labels\<close>

text \<open>Istio counts an endpoint to a subset when it carries all labels of the subset.\<close>

definition in_subset :: "labels \<Rightarrow> labels \<Rightarrow> bool" where
  "in_subset sub lbls \<longleftrightarrow> list_all (\<lambda>(k, v). map_of lbls k = Some v) sub"

text \<open>
  What a mesh configuration and a service have to keep for the two to agree: every subset has one label, which is one
  that workload entries get; every such label is the image of one label of an instance only, and not the one that
  selects the workloads of the service; and an instance does not carry the label of a subset under its own name.
\<close>

definition labels_ok :: "Reconciler \<Rightarrow> Instance list \<Rightarrow> bool" where
  "labels_ok r instances \<longleftrightarrow>
     (let mc = mc_Spec (rc_MeshConfig r); remap = mc_MeshLabelsRemap mc in
      distinct (map snd remap) \<and> op_SelectLabel (rc_Opt r) \<notin> snd ` set remap \<and>
      list_all (\<lambda>g. length (ss_Labels g) = 1 \<and> fst ` set (ss_Labels g) \<subseteq> set (mc_WorkloadEntryLabelKeys mc)) (mc_GlobalSubsets mc) \<and>
      list_all (\<lambda>ins. wf_map (in_Labels ins) \<and>
        list_all (\<lambda>(sk, sv). sk \<in> fst ` set remap \<or> list_all (\<lambda>g. sk \<notin> fst ` set (ss_Labels g)) (mc_GlobalSubsets mc))
          (in_Labels ins)) instances)"

lemma workload_labels:
  assumes "labels_ok r instances" and "map_of (map prod.swap (mc_MeshLabelsRemap (mc_Spec (rc_MeshConfig r)))) k = Some rk"
    and "k \<in> set (mc_WorkloadEntryLabelKeys (mc_Spec (rc_MeshConfig r)))"
  shows "map_of (cs_workload_labels r cs ins) k = Some (lookup_zero [] (in_Labels ins) rk)"
  using assms by (simp add: labels_ok_def Let_def cs_workload_labels_def remap_keys)

lemma selector_label:
  assumes "labels_ok r instances"
  shows "map_of (cs_workload_labels r cs ins) (op_SelectLabel (rc_Opt r)) = Some (om_Name (cs_Meta cs))"
proof -
  have "map_of (map prod.swap (mc_MeshLabelsRemap (mc_Spec (rc_MeshConfig r)))) (op_SelectLabel (rc_Opt r)) = None"
    using assms by (force simp: labels_ok_def Let_def map_of_eq_None_iff)
  with assms show ?thesis by (simp add: labels_ok_def Let_def cs_workload_labels_def remap_keys)
qed

text \<open>An instance that provides a subset has a workload entry in it.\<close>

lemma provider_in_subset:
  assumes ok: "labels_ok r instances" and ins: "ins \<in> set instances"
    and sub: "sub \<in> set (mc_GlobalSubsets (mc_Spec (rc_MeshConfig r)))"
    and has: "mapContains (in_Labels ins) (ss_Labels sub) (mc_MeshLabelsRemap (mc_Spec (rc_MeshConfig r)))"
  shows "in_subset (ss_Labels sub) (cs_workload_labels r cs ins)"
proof -
  let ?remap = "mc_MeshLabelsRemap (mc_Spec (rc_MeshConfig r))"
  have "length (ss_Labels sub) = 1" using ok sub by (auto simp: labels_ok_def Let_def list_all_iff)
  then obtain k v where kv: "ss_Labels sub = [(k, v)]" by (cases "ss_Labels sub") auto
  from has obtain sk sv where sk: "(sk, sv) \<in> set (in_Labels ins)" and "map_of (ss_Labels sub) (lookup_zero sk ?remap sk) = Some sv"
    unfolding mapContains_iff by blast
  then have eq: "lookup_zero sk ?remap sk = k" "sv = v" by (simp_all add: kv split: if_splits)
  have "sk \<in> fst ` set ?remap \<or> sk \<noteq> k"
    using ok ins sub sk kv by (fastforce simp: labels_ok_def Let_def list_all_iff)
  with eq(1) have "map_of ?remap sk = Some k"
    by (cases "map_of ?remap sk") (auto simp: lookup_zero_def map_of_eq_None_iff)
  then have "(k, sk) \<in> set (map prod.swap ?remap)" by (force dest: map_of_SomeD)
  moreover have "distinct (map fst (map prod.swap ?remap))" using ok by (simp add: labels_ok_def Let_def comp_def)
  ultimately have swap: "map_of (map prod.swap ?remap) k = Some sk" by (rule map_of_is_SomeI [rotated])
  have "k \<in> set (mc_WorkloadEntryLabelKeys (mc_Spec (rc_MeshConfig r)))"
    using ok sub kv by (fastforce simp: labels_ok_def Let_def list_all_iff)
  from workload_labels [OF ok swap this] have "map_of (cs_workload_labels r cs ins) k = Some (lookup_zero [] (in_Labels ins) sk)" .
  moreover have "map_of (in_Labels ins) sk = Some v"
    using ok ins sk eq(2) by (simp add: labels_ok_def Let_def list_all_iff wf_map_def)
  ultimately show ?thesis by (simp add: in_subset_def kv lookup_zero_def)
qed

section \<open>Endpoints\<close>

definition instance_key :: "Reconciler \<Rightarrow> ConfiguredService \<Rightarrow> Instance \<Rightarrow> nsname option" where
  "instance_key r cs ins = map_option (okey we_kind) (cs_buildWorkloadEntry r cs ins)"

lemma stored_workload:
  assumes "workloads_synced r cs M M'" and "inj_on (instance_key r cs) (set (cs_Instances (cs_Spec cs)))"
    and "\<forall>k \<in> cs_workload_keys r cs (cs_Instances (cs_Spec cs)). \<forall>o1. M k = Some o1 \<longrightarrow> selects (cs_selector r cs) (we_Meta o1)"
    and "ins \<in> set (cs_Instances (cs_Spec cs))"
  shows "\<exists>k o1. M' k = Some o1 \<and> we_Address (we_Spec o1) = in_Host ins \<and>
    map_of (we_Labels (we_Spec o1)) = map_of (cs_workload_labels r cs ins)"
proof -
  from assms(1,4) obtain we o1 where we: "cs_buildWorkloadEntry r cs ins = Some we" "M' (okey we_kind we) = Some o1"
    and done1: "workload_done r cs M (okey we_kind we) o1" unfolding workloads_synced_def by blast
  have "okey we_kind we \<in> cs_workload_keys r cs (cs_Instances (cs_Spec cs))"
    using assms(4) we(1) by (force simp: cs_workload_keys_def List.map_filter_def)
  with assms(3) done1 obtain ins' we' weight where ins': "ins' \<in> set (cs_Instances (cs_Spec cs))" "cs_buildWorkloadEntry r cs ins' = Some we'"
    "okey we_kind we' = okey we_kind we" and same: "\<not> compareWorkloadEntry (with_weight weight we') o1"
    unfolding workload_done_def by blast
  have "instance_key r cs ins' = instance_key r cs ins" using ins' we by (simp add: instance_key_def)
  with assms(2,4) ins'(1) have "ins' = ins" by (blast dest: inj_onD)
  then have "we' = we" using ins'(2) we(1) by simp
  with same have "WorkloadEntrySpec_eq (we_Spec (with_weight weight we)) (we_Spec o1)"
    by (simp add: compareWorkloadEntry_def split: if_splits)
  moreover from we(1) have "we_Address (we_Spec we) = in_Host ins" "we_Labels (we_Spec we) = cs_workload_labels r cs ins"
    by (auto simp: cs_buildWorkloadEntry_def)
  ultimately show ?thesis using we(2)
    by (intro exI [of _ "okey we_kind we"] exI [of _ o1]) (simp add: WorkloadEntrySpec_eq_def with_weight_def map_eq_iff)
qed

text \<open>
  C5: where the labels of the mesh keep \<open>labels_ok\<close> (subsets of one label each, see above), the workload entries of the
  instances have different names, and no foreign workload entry has one of these, a subset that is routed to has an
  endpoint. After a reconciliation of a ConfiguredService that ended without error,
  every subset for which routes and destination rule are built has a stored workload entry that Istio counts to the
  service, by the label its service entry selects, and to the subset, by all labels of the subset; its
  address is that of an instance. For subsets of two labels this fails (\<open>half_provided_subset_is_empty\<close>).
\<close>

theorem provided_subset_has_endpoint:
  assumes "api_ok api view" and "fst req \<noteq> []" and "get_available (ap_ServiceConfig api)"
    and "c_ConfiguredService (view w) req = Some cs"
    and "cs_Reconcile api req (w, r) = (Inr (), (w', r'))"
    and "labels_ok r' (cs_Instances (cs_Spec cs))" and "inj_on (instance_key r' cs) (set (cs_Instances (cs_Spec cs)))"
    and "\<forall>k \<in> cs_workload_keys r' cs (cs_Instances (cs_Spec cs)). \<forall>o1. c_WorkloadEntry (view w) k = Some o1 \<longrightarrow>
      selects (cs_selector r' cs) (we_Meta o1)"
    and "sub \<in> set (cs_getSubset r' cs)"
  shows "\<exists>k we. c_WorkloadEntry (view w') k = Some we \<and> in_subset (ss_Labels sub) (we_Labels (we_Spec we)) \<and>
    in_subset (se_WorkloadSelector (se_Spec (cs_buildServiceEntry r' cs))) (we_Labels (we_Spec we)) \<and>
    we_Address (we_Spec we) \<in> in_Host ` set (cs_Instances (cs_Spec cs))"
proof -
  let ?mc = "mc_Spec (rc_MeshConfig r')" and ?instances = "cs_Instances (cs_Spec cs)"
  have sync: "workloads_synced r' cs (c_WorkloadEntry (view w)) (c_WorkloadEntry (view w'))"
    using cs_Reconcile_stored [OF assms(1-5)] by (simp add: cs_reconciled_def)
  have sub: "subseq (cs_getSubset r' cs) (mc_GlobalSubsets ?mc)" and "list_all (provides (mc_MeshLabelsRemap ?mc) ?instances) (cs_getSubset r' cs)"
    using subset_loop_props [of "[]" "mc_MeshLabelsRemap ?mc" ?instances "mc_GlobalSubsets ?mc"] by (auto simp: cs_getSubset_def Let_def)
  with assms(9) obtain ins where ins: "ins \<in> set ?instances" "mapContains (in_Labels ins) (ss_Labels sub) (mc_MeshLabelsRemap ?mc)"
    by (auto simp: list_all_iff list_ex_iff provides_def)
  have "sub \<in> set (mc_GlobalSubsets ?mc)" using assms(9) sub by (blast dest: list_emb_set)
  from provider_in_subset [OF assms(6) ins(1) this ins(2)] have fits: "in_subset (ss_Labels sub) (cs_workload_labels r' cs ins)" .
  from stored_workload [OF sync assms(7,8) ins(1)] obtain k we where "c_WorkloadEntry (view w') k = Some we"
    "we_Address (we_Spec we) = in_Host ins" "map_of (we_Labels (we_Spec we)) = map_of (cs_workload_labels r' cs ins)" by blast
  then show ?thesis using fits selector_label [OF assms(6)] ins(1)
    by (intro exI [of _ k] exI [of _ we]) (simp add: in_subset_def cs_buildServiceEntry_def)
qed

theorem provided_subset_has_endpoint_witness:
  "\<exists>k we. c_WorkloadEntry (mem_view (fst (snd demo_run))) k = Some we \<and>
     map_of (we_Labels (we_Spec we)) ''group'' = Some ''blue'' \<and> map_of (we_Labels (we_Spec we)) ''service'' = Some ''svc''"
proof -
  let ?r = "snd (snd demo_run)"
  have "get_available (ap_ServiceConfig mem_api)" by (simp add: mem_api_def mem_get_available)
  moreover have "c_ConfiguredService (mem_view demo_world) (''mesh'', ''svc'') = Some demo_cs"
    by (simp add: mem_view_def mem_objs_def demo_world_def okey_def cs_kind_def demo_cs_def)
  moreover have "labels_ok ?r (cs_Instances (cs_Spec demo_cs))" by code_simp
  moreover have "inj_on (instance_key ?r demo_cs) (set (cs_Instances (cs_Spec demo_cs)))" by (simp add: demo_cs_def)
  moreover have "c_WorkloadEntry (mem_view demo_world) k = None" for k
    by (simp add: mem_view_def mem_objs_def demo_world_def empty_world_def)
  moreover have "demo_subset ''blue'' False \<in> set (cs_getSubset ?r demo_cs)" by code_simp
  moreover have "se_WorkloadSelector (se_Spec (cs_buildServiceEntry ?r demo_cs)) = [(''service'', ''svc'')]" by code_simp
  ultimately show ?thesis
    using provided_subset_has_endpoint [OF mem_api_ok _ _ _ demo_run_ok, of demo_cs "demo_subset ''blue'' False"]
    by (auto simp: in_subset_def demo_subset_def)
qed

text \<open>
  A subset with two labels counts as provided by an instance that has one of them, and then its routes lead to no endpoint.
\<close>

definition two_labels :: MeshConfig where
  "two_labels = demo_mesh\<lparr>mc_Spec := (mc_Spec demo_mesh)\<lparr>mc_WorkloadEntryLabelKeys := [''group'', ''zone''],
     mc_MeshLabelsRemap := [(''flag'', ''group''), (''zone'', ''zone'')],
     mc_GlobalSubsets := [(demo_subset ''blue'' False)\<lparr>ss_Labels := [(''group'', ''blue''), (''zone'', ''east'')]\<rparr>]\<rparr>\<rparr>"

lemma half_provided_subset_is_empty:
  "let r = demo_rc\<lparr>rc_MeshConfig := two_labels\<rparr>; subs = cs_getSubset r demo_cs in
   length subs = 1 \<and>
   list_all (\<lambda>ins. list_all (\<lambda>sub. \<not> in_subset (ss_Labels sub) (cs_workload_labels r demo_cs ins)) subs) (cs_Instances (cs_Spec demo_cs))"
  by code_simp

end
