(* ===== verification/Router.thy ===== *)
theory Router
  imports Utils
begin

text \<open>
  \<^verbatim>\<open>pkg/router\<close>: the HTTP routes of the controller process and the index page that lists them. The
  engine (gin) is a parameter, as are its tracing wrapper and the server; a handler is named by a
  constructor, and what it answers is a function of the state it reads.
\<close>

section \<open>Options, routes and profiles\<close>

definition VersionPath :: string where "VersionPath = ''/version''"
definition MetricsPath :: string where "MetricsPath = ''/metrics''"
definition LivePath :: string where "LivePath = ''/live''"
definition ReadyPath :: string where "ReadyPath = ''/ready''"
definition PprofPath :: string where "PprofPath = ''/debug/pprof''"

record router_options =
  rp_GinLogEnabled :: bool
  rp_GinLogSkipPath :: "string list"
  rp_PprofEnabled :: bool
  rp_MetricsEnabled :: bool
  rp_Addr :: string
  rp_MetricsSubsystem :: string
  rp_MetricsPath :: string
  rp_ShutdownTimeout :: int64
  rp_CertFilePath :: string
  rp_KeyFilePath :: string

datatype gin_handler =
  IndexHandler | VersionHandler | LiveEndpoint | ReadyEndpoint | MetricsHandler | MasterHandler

record profile =
  pf_Name :: string
  pf_Href :: string
  pf_Desc :: string

record route =
  rt_Method :: string
  rt_Path :: string
  rt_Handler :: gin_handler
  rt_Desc :: string

text \<open>
  What the code calls of the engine. No value is the panic of gin on a route that conflicts with one
  that is already registered.
\<close>

record 'e gin =
  gin_New :: 'e
  gin_Recovery :: "'e \<Rightarrow> 'e"
  gin_Logger :: "string list \<Rightarrow> 'e \<Rightarrow> 'e"
  gin_Handle :: "string \<Rightarrow> string \<Rightarrow> gin_handler \<Rightarrow> 'e \<Rightarrow> 'e option"
  gin_Any :: "string \<Rightarrow> gin_handler \<Rightarrow> 'e \<Rightarrow> 'e option"
  gin_NoRoute :: "gin_handler \<Rightarrow> 'e \<Rightarrow> 'e"
  gin_Pprof :: "'e \<Rightarrow> 'e"

record 'e router =
  ru_Engine :: 'e
  ru_Routes :: "(string, route list) gomap"
  ru_Profiles :: "profile list"
  ru_Opt :: "router_options option"

definition AddProfile :: "string \<Rightarrow> string \<Rightarrow> string \<Rightarrow> 'e router \<Rightarrow> 'e router" where
  "AddProfile meth href desc r =
     r\<lparr>ru_Profiles := ru_Profiles r @ [\<lparr>pf_Name = meth @ '' '' @ href, pf_Href = href, pf_Desc = desc\<rparr>]\<rparr>"

definition pprof_desc :: string where
  "pprof_desc = ''PProf related things:<br/>'' @ CHR 0x0A # replicate 3 (CHR 0x09) @
     ''<a href='' @ CHR 0x22 # ''/debug/pprof/goroutine?debug=2'' @ CHR 0x22 # ''>full goroutine stack dump</a>''"

text \<open>No value: a conflict in the engine, or the exporter of the metrics cannot be created.\<close>

definition NewRouter :: "'e gin \<Rightarrow> bool \<Rightarrow> router_options \<Rightarrow> 'e router option" where
  "NewRouter G exporter opt =
     (let engine = gin_Recovery G (gin_New G);
          engine = (if \<not> rp_GinLogEnabled opt then engine else gin_Logger G (rp_GinLogSkipPath opt) engine);
          r = \<lparr>ru_Engine = engine, ru_Routes = [], ru_Profiles = [], ru_Opt = None\<rparr> in
      Option.bind
        (if rp_MetricsEnabled opt then
           (if \<not> exporter then None
            else map_option (\<lambda>engine. AddProfile ''GET'' MetricsPath ''Prometheus format metrics'' (r\<lparr>ru_Engine := engine\<rparr>))
              (gin_Handle G ''GET'' ''/metrics'' MetricsHandler (ru_Engine r)))
         else Some r) (\<lambda>r.
      let r = (if rp_PprofEnabled opt
               then AddProfile ''GET'' PprofPath pprof_desc (r\<lparr>ru_Engine := gin_Pprof G (ru_Engine r)\<rparr>) else r);
          r = r\<lparr>ru_Opt := Some opt\<rparr> in
      Some (r\<lparr>ru_Engine := gin_NoRoute G MasterHandler (ru_Engine r)\<rparr>)))"

section \<open>Groups of routes\<close>

definition add_route :: "'e gin \<Rightarrow> route \<Rightarrow> 'e \<Rightarrow> 'e option" where
  "add_route G route engine =
     (if rt_Method route \<in> {''GET'', ''POST'', ''DELETE''}
      then gin_Handle G (rt_Method route) (rt_Path route) (rt_Handler route) engine
      else if rt_Method route = ''Any'' then gin_Any G (rt_Path route) (rt_Handler route) engine
      else Some engine)"

fun add_routes :: "'e gin \<Rightarrow> route list \<Rightarrow> 'e \<Rightarrow> 'e option" where
  "add_routes G [] engine = Some engine"
| "add_routes G (route # routes) engine = Option.bind (add_route G route engine) (add_routes G routes)"

definition new_line :: char where "new_line = CHR 0x0A"

definition link_desc :: "string \<Rightarrow> string \<Rightarrow> string \<Rightarrow> string \<Rightarrow> string" where
  "link_desc intro indent href txt =
     intro @ new_line # indent @ ''<a href='' @ CHR 0x22 # href @ CHR 0x22 # txt"

definition tabs :: "nat \<Rightarrow> string" where "tabs n = replicate n (CHR 0x09)"

definition health_profiles :: "'e router \<Rightarrow> 'e router" where
  "health_profiles r =
     AddProfile ''GET'' VersionPath
       (link_desc ''version describe: <br/>'' (replicate 12 (CHR '' '')) ''/version'' ''> query version info'')
     (AddProfile ''GET'' ReadyPath
       (link_desc ''readyness check:  <br/>'' (tabs 3) ''/ready?full=true'' ''> query the full body'')
     (AddProfile ''GET'' LivePath
       (link_desc ''liveness check: <br/>'' (tabs 3) ''/live?full=true'' ''> query the full body'') r))"

definition cluster_profiles :: "route list \<Rightarrow> 'e router \<Rightarrow> 'e router" where
  "cluster_profiles routes r =
     fold (\<lambda>route. AddProfile (rt_Method route) (rt_Path route)
       (if rt_Desc route = [] then ''name: the unique cluster name and all <br/> appName: the unique app name''
        else rt_Desc route)) routes r"

definition AddRoutes :: "'e gin \<Rightarrow> string \<Rightarrow> route list \<Rightarrow> 'e router \<Rightarrow> 'e router option" where
  "AddRoutes G apiGroup routes r =
     map_option (\<lambda>engine.
       let r = r\<lparr>ru_Engine := engine\<rparr>;
           r = (if map_of (ru_Routes r) apiGroup = None
                then r\<lparr>ru_Routes := map_put apiGroup routes (ru_Routes r)\<rparr> else r) in
       if apiGroup = ''health'' then health_profiles r
       else if apiGroup = ''cluster'' then cluster_profiles routes r
       else r) (add_routes G routes (ru_Engine r))"

definition DefaultRoutes :: "route list" where
  "DefaultRoutes =
     [\<lparr>rt_Method = ''GET'', rt_Path = ''/'', rt_Handler = IndexHandler, rt_Desc = []\<rparr>,
      \<lparr>rt_Method = ''GET'', rt_Path = VersionPath, rt_Handler = VersionHandler, rt_Desc = []\<rparr>]"

section \<open>Responses\<close>

text \<open>What a handler writes: a status and a body, JSON of a string or of a map or bytes.\<close>

datatype gin_body = JSON string | JSONMap "(string, string) gomap" | Data string

record response =
  re_Status :: int
  re_Body :: gin_body

text \<open>The fallback for requests without a route.\<close>

definition masterHandler :: "string \<Rightarrow> string \<Rightarrow> response" where
  "masterHandler meth path =
     \<lparr>re_Status = 404, re_Body = JSONMap [(''Method'', meth), (''Path'', path), (''error'', ''router not found'')]\<rparr>"

text \<open>The index template; \<open>text/template\<close> writes fields without escaping them.\<close>

definition unlines :: "string list \<Rightarrow> string" where
  "unlines ls = concat (map (\<lambda>l. l @ [new_line]) ls)"

definition indexTmpl :: "profile list \<Rightarrow> string" where
  "indexTmpl ps =
     unlines [''<!DOCTYPE html><html>'', ''<head>'', ''<title>sym-index</title>'', ''<style>'',
       ''.profile-name{'', tabs 1 @ ''display:inline-block;'', tabs 1 @ ''width:6rem;'', ''}'', ''</style>'',
       ''</head>'', ''<body>'', ''Things to do:''] @
     concat (map (\<lambda>p. unlines [[], ''<h2><a href='' @ pf_Href p @ ''>'' @ pf_Name p @ ''</a></h2>'',
       ''<p>'', pf_Desc p, ''</p>'']) ps) @
     unlines [[], ''</body>'', ''</html>'']"

definition IndexPage :: "'e router \<Rightarrow> response" where
  "IndexPage r = \<lparr>re_Status = 200, re_Body = Data (indexTmpl (ru_Profiles r))\<rparr>"

text \<open>The handlers for probes that answer without a check; no route leads to them.\<close>

definition LiveHandler :: response where "LiveHandler = \<lparr>re_Status = 200, re_Body = Data ''ok''\<rparr>"
definition ReadHandler :: response where "ReadHandler = \<lparr>re_Status = 200, re_Body = Data ''ok''\<rparr>"

section \<open>The server\<close>

text \<open>
  How the life of the server ends: it is asked to stop, or it fails. \<open>Start\<close> returns the error of the
  certificate, ends the process with the error of the server, or returns without error. An error is its
  text.
\<close>

datatype server_end = StopRequested | ServerFailed string
datatype start_result = Returned "string option" | Killed string

definition server_timeout :: "router_options \<Rightarrow> int64" where
  "server_timeout opt = (if rp_ShutdownTimeout opt = 0 then 5000000000 else rp_ShutdownTimeout opt)"

definition router_Start ::
  "(string \<Rightarrow> string \<Rightarrow> string option) \<Rightarrow> (int64 \<Rightarrow> string option) \<Rightarrow> string option \<Rightarrow>
   server_end \<Rightarrow> router_options \<Rightarrow> start_result" where
  "router_Start LoadX509KeyPair Shutdown Close ends opt =
     (case (if rp_CertFilePath opt \<noteq> [] \<and> rp_KeyFilePath opt \<noteq> []
            then LoadX509KeyPair (rp_CertFilePath opt) (rp_KeyFilePath opt) else None) of
        Some err \<Rightarrow> Returned (Some err)
      | None \<Rightarrow>
          (let err = (case ends of
               StopRequested \<Rightarrow> if 0 <s server_timeout opt then Shutdown (server_timeout opt) else Close
             | ServerFailed err \<Rightarrow> Some err) in
           case err of Some e \<Rightarrow> Killed e | None \<Rightarrow> Returned None))"

section \<open>What a group adds\<close>

text \<open>The routes of a group that the engine gets: those with one of the four methods.\<close>

definition known_method :: "route \<Rightarrow> bool" where
  "known_method route \<longleftrightarrow> rt_Method route \<in> {''GET'', ''POST'', ''DELETE'', ''Any''}"

lemma add_routes_known: "add_routes G routes e = add_routes G (filter known_method routes) e"
proof (induction routes arbitrary: e)
  case (Cons route routes)
  show ?case
  proof (cases "known_method route")
    case True
    then show ?thesis using Cons by (cases "add_route G route e") simp_all
  next
    case False
    then have "add_route G route e = Some e" by (auto simp: add_route_def known_method_def)
    with False Cons show ?thesis by simp
  qed
qed simp

lemma AddProfile_simps [simp]:
  "ru_Engine (AddProfile m h d r) = ru_Engine r" "ru_Routes (AddProfile m h d r) = ru_Routes r"
  "ru_Profiles (AddProfile m h d r) = ru_Profiles r @ [\<lparr>pf_Name = m @ '' '' @ h, pf_Href = h, pf_Desc = d\<rparr>]"
  by (simp_all add: AddProfile_def)

lemma cluster_profiles_simps [simp]:
  "ru_Engine (cluster_profiles routes r) = ru_Engine r" "ru_Routes (cluster_profiles routes r) = ru_Routes r"
  "map pf_Href (ru_Profiles (cluster_profiles routes r)) = map pf_Href (ru_Profiles r) @ map rt_Path routes"
proof -
  have "ru_Engine (cluster_profiles routes r) = ru_Engine r \<and> ru_Routes (cluster_profiles routes r) = ru_Routes r \<and>
    map pf_Href (ru_Profiles (cluster_profiles routes r)) = map pf_Href (ru_Profiles r) @ map rt_Path routes"
    unfolding cluster_profiles_def by (induction routes arbitrary: r) auto
  then show "ru_Engine (cluster_profiles routes r) = ru_Engine r" "ru_Routes (cluster_profiles routes r) = ru_Routes r"
    "map pf_Href (ru_Profiles (cluster_profiles routes r)) = map pf_Href (ru_Profiles r) @ map rt_Path routes" by simp_all
qed

lemma health_profiles_simps [simp]:
  "ru_Engine (health_profiles r) = ru_Engine r" "ru_Routes (health_profiles r) = ru_Routes r"
  "map pf_Href (ru_Profiles (health_profiles r)) = map pf_Href (ru_Profiles r) @ [LivePath, ReadyPath, VersionPath]"
  unfolding health_profiles_def by (simp_all only: AddProfile_simps map_append list.map profile.select_convs append_assoc append_Cons append_Nil)

lemma AddRoutes_spec:
  assumes "AddRoutes G apiGroup routes r = Some r'"
  shows "add_routes G (filter known_method routes) (ru_Engine r) = Some (ru_Engine r')"
    and "map_of (ru_Routes r') = (if apiGroup \<in> dom (map_of (ru_Routes r)) then map_of (ru_Routes r)
      else (map_of (ru_Routes r))(apiGroup \<mapsto> routes))"
    and "map pf_Href (ru_Profiles r') = map pf_Href (ru_Profiles r) @
      (if apiGroup = ''health'' then [LivePath, ReadyPath, VersionPath]
       else if apiGroup = ''cluster'' then map rt_Path routes else [])"
proof -
  obtain engine where engine: "add_routes G routes (ru_Engine r) = Some engine"
    using assms by (auto simp: AddRoutes_def)
  define r1 where "r1 = (let r = r\<lparr>ru_Engine := engine\<rparr> in
    if map_of (ru_Routes r) apiGroup = None then r\<lparr>ru_Routes := map_put apiGroup routes (ru_Routes r)\<rparr> else r)"
  have r1: "ru_Engine r1 = engine" "ru_Profiles r1 = ru_Profiles r"
    "map_of (ru_Routes r1) = (if apiGroup \<in> dom (map_of (ru_Routes r)) then map_of (ru_Routes r)
      else (map_of (ru_Routes r))(apiGroup \<mapsto> routes))"
    by (simp_all add: r1_def Let_def domIff)
  have r': "r' = (if apiGroup = ''health'' then health_profiles r1
      else if apiGroup = ''cluster'' then cluster_profiles routes r1 else r1)"
    using assms [symmetric] unfolding AddRoutes_def engine r1_def Let_def option.map option.inject .
  show "add_routes G (filter known_method routes) (ru_Engine r) = Some (ru_Engine r')"
    using engine add_routes_known [of G routes] r1(1) unfolding r' by simp
  show "map_of (ru_Routes r') = (if apiGroup \<in> dom (map_of (ru_Routes r)) then map_of (ru_Routes r)
      else (map_of (ru_Routes r))(apiGroup \<mapsto> routes))"
    unfolding r' r1(3) [symmetric] by simp
  show "map pf_Href (ru_Profiles r') = map pf_Href (ru_Profiles r) @
      (if apiGroup = ''health'' then [LivePath, ReadyPath, VersionPath]
       else if apiGroup = ''cluster'' then map rt_Path routes else [])"
    unfolding r' r1(2) [symmetric] by simp
qed

end
