(* ===== verification/HealthCheck.thy ===== *)
theory HealthCheck
  imports Router
begin

text \<open>
  \<^verbatim>\<open>pkg/healthcheck\<close>: the liveness and readiness checks of the process and the two endpoints that run
  them. A check is a computation on the world that gives the text of an error or none; what the checks
  of \<^verbatim>\<open>checks.go\<close> ask of the network, a database and the runtime is a parameter.
\<close>

type_synonym 'w check = "'w \<Rightarrow> string option \<times> 'w"

record 'w health_handler =
  hh_liveness :: "(string, 'w check) gomap"
  hh_readiness :: "(string, 'w check) gomap"

text \<open>The handler of the process, created by the first call that asks for it.\<close>

definition GetHealthHandler :: "'w health_handler option \<Rightarrow> 'w health_handler \<times> 'w health_handler option" where
  "GetHealthHandler handler =
     (case handler of
        Some h \<Rightarrow> (h, handler)
      | None \<Rightarrow> (let h = \<lparr>hh_liveness = [], hh_readiness = []\<rparr> in (h, Some h)))"

definition health_Routes :: "route list" where
  "health_Routes =
     [\<lparr>rt_Method = ''GET'', rt_Path = ''/live'', rt_Handler = LiveEndpoint, rt_Desc = []\<rparr>,
      \<lparr>rt_Method = ''GET'', rt_Path = ''/ready'', rt_Handler = ReadyEndpoint, rt_Desc = []\<rparr>]"

definition AddLivenessCheck :: "string \<Rightarrow> 'w check \<Rightarrow> 'w health_handler \<Rightarrow> 'w health_handler" where
  "AddLivenessCheck name check h = h\<lparr>hh_liveness := map_put name check (hh_liveness h)\<rparr>"

definition AddReadinessCheck :: "string \<Rightarrow> 'w check \<Rightarrow> 'w health_handler \<Rightarrow> 'w health_handler" where
  "AddReadinessCheck name check h = h\<lparr>hh_readiness := map_put name check (hh_readiness h)\<rparr>"

definition remove_checks :: "string \<Rightarrow> (string, 'w check) gomap \<Rightarrow> (string, 'w check) gomap" where
  "remove_checks name checks = fold (\<lambda>(n, c) m. if HasPrefix n name then map_del n m else m) checks checks"

definition RemoveLivenessCheck :: "string \<Rightarrow> 'w health_handler \<Rightarrow> 'w health_handler" where
  "RemoveLivenessCheck name h = h\<lparr>hh_liveness := remove_checks name (hh_liveness h)\<rparr>"

definition RemoveReadinessCheck :: "string \<Rightarrow> 'w health_handler \<Rightarrow> 'w health_handler" where
  "RemoveReadinessCheck name h = h\<lparr>hh_readiness := remove_checks name (hh_readiness h)\<rparr>"

section \<open>Endpoints\<close>

definition collectChecks ::
  "(string, 'w check) gomap \<Rightarrow> ((string, string) gomap \<times> int) \<times> 'w \<Rightarrow> ((string, string) gomap \<times> int) \<times> 'w" where
  "collectChecks checks =
     fold (\<lambda>(name, check) ((results, status), w).
       case check w of
         (Some err, w') \<Rightarrow> ((map_put name err results, 503), w')
       | (None, w') \<Rightarrow> ((map_put name ''OK'' results, status), w')) checks"

text \<open>The query parameter \<open>full\<close> is absent in most requests, and then \<open>false\<close>.\<close>

definition health_handle :: "string option \<Rightarrow> (string, 'w check) gomap list \<Rightarrow> 'w \<Rightarrow> response \<times> 'w" where
  "health_handle query checks w =
     (let ((results, status), w') = fold collectChecks checks (([], 200), w);
          fullStr = (case query of None \<Rightarrow> ''false'' | Some s \<Rightarrow> s) in
      (if fullStr = ''false'' then \<lparr>re_Status = status, re_Body = JSON ''OK''\<rparr>
       else \<lparr>re_Status = status, re_Body = JSONMap results\<rparr>, w'))"

definition health_Live :: "string option \<Rightarrow> 'w health_handler \<Rightarrow> 'w \<Rightarrow> response \<times> 'w" where
  "health_Live query h = health_handle query [hh_liveness h]"

definition health_Ready :: "string option \<Rightarrow> 'w health_handler \<Rightarrow> 'w \<Rightarrow> response \<times> 'w" where
  "health_Ready query h = health_handle query [hh_readiness h, hh_liveness h]"

section \<open>Checks\<close>

definition show_int :: "int \<Rightarrow> string" where
  "show_int i = (if i < 0 then CHR ''-'' # show_nat (nat (- i)) else show_nat (nat i))"

definition TCPDialCheck ::
  "(string \<Rightarrow> int64 \<Rightarrow> 'w \<Rightarrow> (string + 'c) \<times> 'w) \<Rightarrow> ('c \<Rightarrow> 'w \<Rightarrow> string option \<times> 'w) \<Rightarrow> string \<Rightarrow> int64 \<Rightarrow> 'w check" where
  "TCPDialCheck dial close addr timeout w =
     (case dial addr timeout w of (Inl err, w') \<Rightarrow> (Some err, w') | (Inr conn, w') \<Rightarrow> close conn w')"

definition HTTPGetCheck :: "(string \<Rightarrow> int64 \<Rightarrow> 'w \<Rightarrow> (string + int) \<times> 'w) \<Rightarrow> string \<Rightarrow> int64 \<Rightarrow> 'w check" where
  "HTTPGetCheck get url timeout w =
     (case get url timeout w of
        (Inl err, w') \<Rightarrow> (Some err, w')
      | (Inr code, w') \<Rightarrow> (if code \<noteq> 200 then Some (''returned status '' @ show_int code) else None, w'))"

definition DatabasePingCheck :: "('d \<Rightarrow> int64 \<Rightarrow> 'w \<Rightarrow> string option \<times> 'w) \<Rightarrow> 'd option \<Rightarrow> int64 \<Rightarrow> 'w check" where
  "DatabasePingCheck ping database timeout w =
     (case database of None \<Rightarrow> (Some ''database is nil'', w) | Some d \<Rightarrow> ping d timeout w)"

definition DNSResolveCheck :: "(string \<Rightarrow> int64 \<Rightarrow> 'w \<Rightarrow> (string + string list) \<times> 'w) \<Rightarrow> string \<Rightarrow> int64 \<Rightarrow> 'w check" where
  "DNSResolveCheck lookup host timeout w =
     (case lookup host timeout w of
        (Inl err, w') \<Rightarrow> (Some err, w')
      | (Inr addrs, w') \<Rightarrow> (if length addrs < 1 then Some ''could not resolve host'' else None, w'))"

definition GoroutineCountCheck :: "('w \<Rightarrow> int) \<Rightarrow> int \<Rightarrow> 'w check" where
  "GoroutineCountCheck NumGoroutine threshold w =
     (let count = NumGoroutine w in
      (if threshold < count
       then Some (''too many goroutines ('' @ show_int count @ '' > '' @ show_int threshold @ '')'') else None, w))"

section \<open>What the endpoints answer\<close>

text \<open>The answer to a probe presupposes checks that only look.\<close>

definition looks_only :: "(string, 'w check) gomap \<Rightarrow> 'w \<Rightarrow> bool" where
  "looks_only checks w \<longleftrightarrow> list_all (\<lambda>(n, c). snd (c w) = w) checks"

definition verdict :: "'w check \<Rightarrow> 'w \<Rightarrow> string" where
  "verdict c w = (case fst (c w) of None \<Rightarrow> ''OK'' | Some err \<Rightarrow> err)"

lemma collectChecks_looking:
  assumes "looks_only checks w" and "wf_map checks"
  shows "\<exists>results'. collectChecks checks ((results, status), w) =
      ((results', if list_all (\<lambda>(n, c). fst (c w) = None) checks then status else 503), w) \<and>
    map_of results' = map_of results ++ (\<lambda>n. map_option (\<lambda>c. verdict c w) (map_of checks n))"
  using assms
proof (induction checks arbitrary: results status)
  case Nil
  then show ?case by (simp add: collectChecks_def map_add_def)
next
  case (Cons nc checks)
  obtain n c where nc: "nc = (n, c)" by (cases nc)
  obtain e where c: "c w = (e, w)" using Cons.prems(1) nc by (cases "c w") (simp add: looks_only_def)
  let ?st = "if e = None then status else 503" and ?res = "map_put n (verdict c w) results"
  have head: "collectChecks (nc # checks) ((results, status), w) = collectChecks checks ((?res, ?st), w)"
    using nc c by (cases e) (simp_all add: collectChecks_def verdict_def)
  have prems: "looks_only checks w" "wf_map checks" and new: "map_of checks n = None"
    using Cons.prems nc by (auto simp: looks_only_def wf_map_def map_of_eq_None_iff)
  obtain results' where tail: "collectChecks checks ((?res, ?st), w) =
      ((results', if list_all (\<lambda>(n, c). fst (c w) = None) checks then ?st else 503), w)"
    and res: "map_of results' = map_of ?res ++ (\<lambda>n. map_option (\<lambda>c. verdict c w) (map_of checks n))"
    using Cons.IH [OF prems, of ?res ?st] by blast
  have "map_of results' = map_of results ++ (\<lambda>n. map_option (\<lambda>c. verdict c w) (map_of (nc # checks) n))"
    using res new nc by (auto simp: fun_eq_iff map_add_def split: option.splits)
  with head tail nc c show ?case by (intro exI [of _ results']) auto
qed

text \<open>
  A probe is answered with status 200 exactly when all its checks pass, and with 503 otherwise: the
  liveness checks for one endpoint, these and the readiness checks for the other. With the full
  body every check is listed with its error or OK; a liveness check hides a readiness check of the
  same name in the body, but not in the status.
\<close>

theorem health_endpoints:
  assumes "wf_map (hh_liveness h)" and "wf_map (hh_readiness h)"
    and "looks_only (hh_liveness h) w" and "looks_only (hh_readiness h) w"
  shows "re_Status (fst (health_Live query h w)) =
      (if list_all (\<lambda>(n, c). fst (c w) = None) (hh_liveness h) then 200 else 503) \<and>
    re_Status (fst (health_Ready query h w)) =
      (if list_all (\<lambda>(n, c). fst (c w) = None) (hh_readiness h @ hh_liveness h) then 200 else 503) \<and>
    (query \<in> {None, Some ''false''} \<longrightarrow>
       re_Body (fst (health_Live query h w)) = JSON ''OK'' \<and> re_Body (fst (health_Ready query h w)) = JSON ''OK'') \<and>
    (query \<notin> {None, Some ''false''} \<longrightarrow>
       (\<exists>m. re_Body (fst (health_Ready query h w)) = JSONMap m \<and>
          map_of m = (\<lambda>n. case map_of (hh_liveness h) n of Some c \<Rightarrow> Some (verdict c w)
            | None \<Rightarrow> map_option (\<lambda>c. verdict c w) (map_of (hh_readiness h) n))))"
proof -
  obtain l where live: "collectChecks (hh_liveness h) (([], 200), w) =
      ((l, if list_all (\<lambda>(n, c). fst (c w) = None) (hh_liveness h) then 200 else 503), w)"
    using collectChecks_looking [OF assms(3,1)] by blast
  obtain r where ready: "collectChecks (hh_readiness h) (([], 200), w) =
      ((r, if list_all (\<lambda>(n, c). fst (c w) = None) (hh_readiness h) then 200 else 503), w)"
    and r: "map_of r = map_of [] ++ (\<lambda>n. map_option (\<lambda>c. verdict c w) (map_of (hh_readiness h) n))"
    using collectChecks_looking [OF assms(4,2)] by blast
  let ?st = "if list_all (\<lambda>(n, c). fst (c w) = None) (hh_readiness h) then 200 else 503 :: int"
  obtain b where both: "collectChecks (hh_liveness h) ((r, ?st), w) =
      ((b, if list_all (\<lambda>(n, c). fst (c w) = None) (hh_liveness h) then ?st else 503), w)"
    and b: "map_of b = map_of r ++ (\<lambda>n. map_option (\<lambda>c. verdict c w) (map_of (hh_liveness h) n))"
    using collectChecks_looking [OF assms(3,1)] by blast
  have m: "map_of b = (\<lambda>n. case map_of (hh_liveness h) n of Some c \<Rightarrow> Some (verdict c w)
      | None \<Rightarrow> map_option (\<lambda>c. verdict c w) (map_of (hh_readiness h) n))"
    using b r by (auto simp: fun_eq_iff map_add_def split: option.splits)
  show ?thesis
    using live ready both m
    by (cases query) (simp_all add: health_Live_def health_Ready_def health_handle_def Let_def)
qed

text \<open>Checks are removed by the prefix of their names.\<close>

lemma remove_checks_spec:
  "map_of (remove_checks name checks) n = (if HasPrefix n name then None else map_of checks n)"
proof -
  have "map_of (fold (\<lambda>(n, c) m. if HasPrefix n name then map_del n m else m) ncs m) n =
      (if n \<in> fst ` set ncs \<and> HasPrefix n name then None else map_of m n)" for ncs and m :: "(string, 'a check) gomap"
    by (induction ncs arbitrary: m) auto
  from this [of checks checks] show ?thesis
    by (auto simp: remove_checks_def map_of_eq_None_iff)
qed

definition demo_health :: "nat health_handler" where
  "demo_health = AddReadinessCheck ''db'' (DatabasePingCheck (\<lambda>_ _ w. (None, w)) (None :: unit option) 5)
     (AddLivenessCheck ''goroutine_threshold'' (GoroutineCountCheck int 10000)
       (fst (GetHealthHandler None)))"

theorem health_endpoints_witness:
  "re_Status (fst (health_Live None demo_health 7)) = 200 \<and> re_Status (fst (health_Ready None demo_health 7)) = 503"
proof -
  have "wf_map (hh_liveness demo_health)" "wf_map (hh_readiness demo_health)"
    "looks_only (hh_liveness demo_health) 7" "looks_only (hh_readiness demo_health) 7"
    "list_all (\<lambda>(n, c). fst (c 7) = None) (hh_liveness demo_health)"
    "\<not> list_all (\<lambda>(n, c). fst (c 7) = None) (hh_readiness demo_health @ hh_liveness demo_health)"
    by (simp_all add: demo_health_def AddReadinessCheck_def AddLivenessCheck_def GetHealthHandler_def wf_map_def
        looks_only_def DatabasePingCheck_def GoroutineCountCheck_def Let_def)
  with health_endpoints [of demo_health 7 None] show ?thesis by simp
qed

end
