(* ===== verification/Clusters.thy ===== *)
theory Clusters
  imports KubeClient HealthCheck Complex_Main "HOL-Library.List_Lexorder" "HOL-Library.Char_ord"
begin

text \<open>
  \<^verbatim>\<open>pkg/k8s/manager\<close>: the clusters the adapter writes to. Each is described by a ConfigMap; the manager
  connects to those it finds when it is built and, every minute, stops the clusters whose description
  is gone or has changed and connects to the new ones. Loading a kubeconfig, building clients, the
  health endpoint and the lists of ConfigMaps are parameters.
\<close>

section \<open>Client configuration\<close>

text \<open>The rate limits of a \<open>rest.Config\<close>; a float32 is a rational number.\<close>

record 'g rest_config =
  rf_Base :: 'g
  rf_QPS :: rat
  rf_Burst :: int

definition SetDefaultQPS :: "'g rest_config \<Rightarrow> rat \<Rightarrow> int \<Rightarrow> 'g rest_config" where
  "SetDefaultQPS cfg qps burst = cfg\<lparr>rf_QPS := qps, rf_Burst := burst\<rparr>"

text \<open>What a cluster's client offers of the kinds that the manager reads.\<close>

record ('w, 'o) cluster_client =
  cc_Pod :: "('w, Pod) kclient"
  cc_Deployment :: "('w, Deployment) kclient"
  cc_Node :: "('w, 'o) kclient"
  cc_StatefulSet :: "('w, 'o) kclient"
  cc_Service :: "('w, 'o) kclient"
  cc_Endpoints :: "('w, 'o) kclient"
  cc_Event :: "('w, 'o) kclient"

record config_map =
  cfm_Name :: string
  cfm_Data :: "(string, string) gomap"

record ClusterManagerOption =
  cmo_Namespace :: string
  cmo_LabelSelector :: labels

text \<open>The library calls; an error is its text, or what the API distinguishes.\<close>

record ('a, 'g, 'k, 'w, 'o) cluster_libs =
  lb_Load :: "string \<Rightarrow> string + 'a"
  lb_ClientConfig :: "'a \<Rightarrow> string + 'g rest_config"
  lb_NewForConfig :: "'g rest_config \<Rightarrow> string + 'k"
  lb_NewManager :: "'g rest_config \<Rightarrow> 'w \<Rightarrow> (string + ('w, 'o) cluster_client) \<times> 'w"
  lb_healthz :: "'k \<Rightarrow> 'w \<Rightarrow> (string + string) \<times> 'w"
  lb_cached :: "ClusterManagerOption \<Rightarrow> 'w \<Rightarrow> (kerr + config_map list) \<times> 'w"
  lb_direct :: "ClusterManagerOption \<Rightarrow> 'w \<Rightarrow> (kerr + config_map list) \<times> 'w"

definition NewClientConfig :: "('a, 'g, 'k, 'w, 'o) cluster_libs \<Rightarrow> string option \<Rightarrow> string + 'g rest_config" where
  "NewClientConfig L kubeConfig =
     (case kubeConfig of
        None \<Rightarrow> Inl ''kube config is empty''
      | Some bytes \<Rightarrow>
          (case lb_Load L bytes of
             Inl err \<Rightarrow> Inl err
           | Inr apiconfig \<Rightarrow>
               (case lb_ClientConfig L apiconfig of
                  Inl err \<Rightarrow> Inl err
                | Inr cfg \<Rightarrow> Inr (SetDefaultQPS cfg 100 120))))"

section \<open>Clusters\<close>

definition ClusterReady :: string where "ClusterReady = ''Ready''"
definition ClusterOffline :: string where "ClusterOffline = ''Offline''"
definition ClusterMaintain :: string where "ClusterMaintain = ''Maintaining''"

text \<open>\<open>cl_stopped\<close>: the channel \<open>internalStopper\<close> is closed.\<close>

record ('g, 'k, 'w, 'o) cluster =
  cl_Name :: string
  cl_RawKubeconfig :: string
  cl_RestConfig :: "'g rest_config"
  cl_KubeCli :: 'k
  cl_Client :: "('w, 'o) cluster_client"
  cl_Status :: string
  cl_Started :: bool
  cl_stopped :: bool

definition initK8sClients ::
  "('a, 'g, 'k, 'w, 'o) cluster_libs \<Rightarrow> string \<Rightarrow> 'w \<Rightarrow>
   (string + 'g rest_config \<times> 'k \<times> ('w, 'o) cluster_client) \<times> 'w" where
  "initK8sClients L kubeconfig w =
     (case NewClientConfig L (Some kubeconfig) of
        Inl err \<Rightarrow> (Inl err, w)
      | Inr cfg \<Rightarrow>
          (case lb_NewForConfig L cfg of
             Inl err \<Rightarrow> (Inl err, w)
           | Inr kubecli \<Rightarrow>
               (case lb_NewManager L cfg w of
                  (Inl err, w') \<Rightarrow> (Inl err, w')
                | (Inr client, w') \<Rightarrow> (Inr (cfg, kubecli, client), w'))))"

definition NewCluster ::
  "('a, 'g, 'k, 'w, 'o) cluster_libs \<Rightarrow> string \<Rightarrow> string \<Rightarrow> 'w \<Rightarrow> (string + ('g, 'k, 'w, 'o) cluster) \<times> 'w" where
  "NewCluster L name kubeconfig w =
     (case initK8sClients L kubeconfig w of
        (Inl err, w') \<Rightarrow> (Inl err, w')
      | (Inr (cfg, kubecli, client), w') \<Rightarrow>
          (Inr \<lparr>cl_Name = name, cl_RawKubeconfig = kubeconfig, cl_RestConfig = cfg, cl_KubeCli = kubecli,
                cl_Client = client, cl_Status = [], cl_Started = False, cl_stopped = False\<rparr>, w'))"

definition GetName :: "('g, 'k, 'w, 'o) cluster \<Rightarrow> string" where "GetName c = cl_Name c"

definition healthCheck ::
  "('a, 'g, 'k, 'w, 'o) cluster_libs \<Rightarrow> ('g, 'k, 'w, 'o) cluster \<Rightarrow> 'w \<Rightarrow> bool \<times> ('g, 'k, 'w, 'o) cluster \<times> 'w" where
  "healthCheck L c w =
     (case lb_healthz L (cl_KubeCli c) w of
        (Inl err, w') \<Rightarrow> (False, c\<lparr>cl_Status := ClusterOffline\<rparr>, w')
      | (Inr body, w') \<Rightarrow>
          if \<not> EqualFold body ''ok'' then (False, c\<lparr>cl_Status := ClusterOffline\<rparr>, w')
          else (True, c\<lparr>cl_Status := ClusterReady\<rparr>, w'))"

definition StartCache :: "('g, 'k, 'w, 'o) cluster \<Rightarrow> ('g, 'k, 'w, 'o) cluster" where
  "StartCache c = (if cl_Started c then c else c\<lparr>cl_Started := True\<rparr>)"

text \<open>\<open>Stop\<close> closes the channel; closing it twice panics, which is no value.\<close>

definition cluster_Stop :: "('g, 'k, 'w, 'o) cluster \<Rightarrow> ('g, 'k, 'w, 'o) cluster option" where
  "cluster_Stop c = (if cl_stopped c then None else Some (c\<lparr>cl_stopped := True\<rparr>))"

section \<open>The manager\<close>

definition KeyKubeconfig :: string where "KeyKubeconfig = ''kubeconfig.yaml''"
definition KeyStauts :: string where "KeyStauts = ''status''"
definition ClustersAll :: string where "ClustersAll = ''all''"

text \<open>
  The manager refers to its clusters by pointers: \<open>cm_heap\<close> holds every cluster that was ever built, by its
  address, and \<open>cm_clusters\<close> the addresses of the managed ones. \<open>cm_sent\<close> records what was sent on
  \<open>ClusterAddInfo\<close>; the handler of the health checks is the one of the process.
\<close>

record ('g, 'k, 'w, 'o) cmanager =
  cm_KubeCli :: 'k
  cm_Opt :: ClusterManagerOption
  cm_heap :: "('g, 'k, 'w, 'o) cluster list"
  cm_clusters :: "nat list"
  cm_PreInit :: "('w \<Rightarrow> 'w) option"
  cm_Started :: bool
  cm_sent :: "(string, string) gomap list"
  cm_closed :: bool
  cm_health :: "'w health_handler"

type_synonym ('g, 'k, 'w, 'o, 'r) manager_call = "(('g, 'k, 'w, 'o) cmanager \<times> 'w, 'r) call"

definition cluster_at :: "('g, 'k, 'w, 'o) cmanager \<Rightarrow> nat \<Rightarrow> ('g, 'k, 'w, 'o) cluster" where
  "cluster_at m a = cm_heap m ! a"

definition set_cluster :: "nat \<Rightarrow> ('g, 'k, 'w, 'o) cluster \<Rightarrow> ('g, 'k, 'w, 'o) cmanager \<Rightarrow> ('g, 'k, 'w, 'o) cmanager" where
  "set_cluster a c m = m\<lparr>cm_heap := (cm_heap m)[a := c]\<rparr>"

definition name_at :: "('g, 'k, 'w, 'o) cmanager \<Rightarrow> nat \<Rightarrow> string" where
  "name_at m a = cl_Name (cluster_at m a)"

definition DefaultClusterManagerOption :: "string \<Rightarrow> labels \<Rightarrow> ClusterManagerOption" where
  "DefaultClusterManagerOption namespace ls = \<lparr>cmo_Namespace = namespace, cmo_LabelSelector = ls\<rparr>"

definition convertToKubeconfig :: "config_map \<Rightarrow> string \<times> bool" where
  "convertToKubeconfig cm =
     (if map_of (cfm_Data cm) KeyStauts = Some ClusterMaintain then ([], False)
      else case map_of (cfm_Data cm) KeyKubeconfig of None \<Rightarrow> ([], False) | Some kubeconfig \<Rightarrow> (kubeconfig, True))"

definition AddPreInit :: "('w \<Rightarrow> 'w) \<Rightarrow> ('g, 'k, 'w, 'o) cmanager \<Rightarrow> ('g, 'k, 'w, 'o) cmanager" where
  "AddPreInit preInit m = m\<lparr>cm_PreInit := Some preInit\<rparr>"

text \<open>
  \<open>sort.Slice\<close> by name, up or down. It orders elements with the same name in an unspecified way; the names
  of the ConfigMaps of a namespace, and those of the managed clusters, are distinct.
\<close>

definition sort_by_name :: "('x \<Rightarrow> string) \<Rightarrow> 'x list \<Rightarrow> 'x list" where
  "sort_by_name f = sort_key f"

definition sort_down :: "('x \<Rightarrow> string) \<Rightarrow> 'x list \<Rightarrow> 'x list" where
  "sort_down f xs = rev (sort_key f xs)"

definition getClusterConfigmap ::
  "('a, 'g, 'k, 'w, 'o) cluster_libs \<Rightarrow> ('g, 'k, 'w, 'o) cmanager \<times> 'w \<Rightarrow>
   (kerr + config_map list) \<times> ('g, 'k, 'w, 'o) cmanager \<times> 'w" where
  "getClusterConfigmap L s =
     (case s of (m, w) \<Rightarrow>
        case (if cm_Started m then lb_cached L (cm_Opt m) w else lb_direct L (cm_Opt m) w) of
          (Inl err, w') \<Rightarrow> (Inl err, m, w')
        | (Inr items, w') \<Rightarrow> (Inr (sort_by_name cfm_Name items), m, w'))"

text \<open>\<open>GetAll\<close>: the clusters that are not offline, all of them or the first with the formatted name.\<close>

definition GetAll :: "string list \<Rightarrow> ('g, 'k, 'w, 'o) cmanager \<Rightarrow> nat list" where
  "GetAll name m =
     (let isAll = (name = [] \<or> hd name = ClustersAll);
          ObserveName = (if isAll then [] else FormatToDNS1123 (hd name));
          online = filter (\<lambda>a. cl_Status (cluster_at m a) \<noteq> ClusterOffline) (cm_clusters m) in
      if isAll then online
      else if ObserveName \<noteq> [] then take 1 (filter (\<lambda>a. ObserveName = name_at m a) online)
      else [])"

definition manager_Get :: "string \<Rightarrow> ('g, 'k, 'w, 'o) cmanager \<Rightarrow> nat option" where
  "manager_Get name0 m =
     (let name = FormatToDNS1123 name0 in
      if name = [] \<or> name = ''all'' then None
      else case find (\<lambda>a. name = name_at m a) (cm_clusters m) of
             None \<Rightarrow> None
           | Some a \<Rightarrow> if cl_Status (cluster_at m a) = ClusterOffline then None else Some a)"

text \<open>\<open>Add\<close>: false is the error of a name that is already managed.\<close>

definition manager_Add :: "nat \<Rightarrow> ('g, 'k, 'w, 'o) cmanager \<Rightarrow> bool \<times> ('g, 'k, 'w, 'o) cmanager" where
  "manager_Add a m =
     (if manager_Get (name_at m a) m \<noteq> None then (False, m)
      else (True, m\<lparr>cm_clusters := sort_down (name_at m) (cm_clusters m @ [a])\<rparr>))"

fun index_from :: "nat \<Rightarrow> ('g, 'k, 'w, 'o) cmanager \<Rightarrow> string \<Rightarrow> nat list \<Rightarrow> nat \<times> bool" where
  "index_from i m name [] = (0, False)"
| "index_from i m name (a # as) = (if name_at m a = name then (i, True) else index_from (i + 1) m name as)"

definition GetClusterIndex :: "string \<Rightarrow> ('g, 'k, 'w, 'o) cmanager \<Rightarrow> nat \<times> bool" where
  "GetClusterIndex name m = index_from 0 m name (cm_clusters m)"

definition manager_Delete :: "string \<Rightarrow> ('g, 'k, 'w, 'o) cmanager \<Rightarrow> ('g, 'k, 'w, 'o) cmanager" where
  "manager_Delete name m =
     (if name = [] then m
      else if length (cm_clusters m) = 0 then m
      else case GetClusterIndex name m of (index, ok) \<Rightarrow>
        if \<not> ok then m
        else m\<lparr>cm_clusters := take index (cm_clusters m) @ drop (index + 1) (cm_clusters m)\<rparr>)"

section \<open>Building the manager\<close>

definition preStart_step ::
  "('a, 'g, 'k, 'w, 'o) cluster_libs \<Rightarrow> config_map \<Rightarrow> ('g, 'k, 'w, 'o) cmanager \<times> 'w \<Rightarrow> ('g, 'k, 'w, 'o) cmanager \<times> 'w" where
  "preStart_step L cm s =
     (case s of (m, w) \<Rightarrow>
        case convertToKubeconfig cm of (kubeconfig, ok) \<Rightarrow>
          if \<not> ok then (m, w)
          else case NewCluster L (cfm_Name cm) kubeconfig w of
            (Inl err, w1) \<Rightarrow> (m, w1)
          | (Inr c, w1) \<Rightarrow>
              (case healthCheck L c w1 of (healthy, c, w2) \<Rightarrow>
                 let a = length (cm_heap m); m = m\<lparr>cm_heap := cm_heap m @ [c]\<rparr> in
                 if \<not> healthy then (m, w2)
                 else (snd (manager_Add a (set_cluster a (StartCache c) m)), w2)))"

definition preStart ::
  "('a, 'g, 'k, 'w, 'o) cluster_libs \<Rightarrow> ('g, 'k, 'w, 'o) cmanager \<times> 'w \<Rightarrow> (kerr + unit) \<times> ('g, 'k, 'w, 'o) cmanager \<times> 'w" where
  "preStart L s =
     (case getClusterConfigmap L s of
        (Inl err, s') \<Rightarrow> (Inl err, s')
      | (Inr configmaps, s') \<Rightarrow> (Inr (), fold (preStart_step L) configmaps s'))"

definition NewClusterManager ::
  "('a, 'g, 'k, 'w, 'o) cluster_libs \<Rightarrow> 'k \<Rightarrow> ClusterManagerOption \<Rightarrow> 'w health_handler \<Rightarrow> 'w \<Rightarrow>
   (kerr + ('g, 'k, 'w, 'o) cmanager) \<times> 'w" where
  "NewClusterManager L cli opt health w =
     (let m = \<lparr>cm_KubeCli = cli, cm_Opt = opt, cm_heap = [], cm_clusters = [], cm_PreInit = None,
               cm_Started = False, cm_sent = [], cm_closed = False, cm_health = health\<rparr> in
      case preStart L (m, w) of
        (Inl err, (m', w')) \<Rightarrow> (Inl err, w')
      | (Inr _, (m', w')) \<Rightarrow> (Inr (m'\<lparr>cm_Started := True\<rparr>), w'))"

section \<open>The check\<close>

text \<open>
  The comparison of what is described with what is connected. \<open>delList := currentList\<close> makes two names
  for one map, here \<open>cur\<close>; the clusters to keep, that map, the clusters to connect to and the
  manager (the status of a cluster may change) go through the loop.
\<close>

definition expected :: "config_map list \<Rightarrow> (string, string) gomap" where
  "expected configmaps = fold (\<lambda>cm m. map_put (cfm_Name cm) (fst (convertToKubeconfig cm)) m) configmaps []"

definition current :: "('g, 'k, 'w, 'o) cmanager \<Rightarrow> (string, nat) gomap" where
  "current m = fold (\<lambda>a cur. map_put (name_at m a) a cur) (cm_clusters m) []"

definition compare_step ::
  "string \<times> string \<Rightarrow> nat list \<times> (string, nat) gomap \<times> (string, string) gomap \<times> ('g, 'k, 'w, 'o) cmanager \<Rightarrow>
   nat list \<times> (string, nat) gomap \<times> (string, string) gomap \<times> ('g, 'k, 'w, 'o) cmanager" where
  "compare_step nc st =
     (case (nc, st) of ((name, conf), (newClusters, cur, addList, m)) \<Rightarrow>
        case map_of cur name of
          None \<Rightarrow> (newClusters, cur, map_put name conf addList, m)
        | Some cls \<Rightarrow>
            (let cur = map_del name cur in
             if EqualFold conf (cl_RawKubeconfig (cluster_at m cls)) then (newClusters @ [cls], cur, addList, m)
             else if conf = [] then
               (newClusters @ [cls], cur, addList,
                set_cluster cls ((cluster_at m cls)\<lparr>cl_Status := ClusterMaintain\<rparr>) m)
             else (newClusters, map_put name cls cur, map_put name conf addList, m)))"

definition compare_clusters ::
  "config_map list \<Rightarrow> ('g, 'k, 'w, 'o) cmanager \<Rightarrow>
   nat list \<times> (string, nat) gomap \<times> (string, string) gomap \<times> ('g, 'k, 'w, 'o) cmanager" where
  "compare_clusters configmaps m = fold compare_step (expected configmaps) ([], current m, [], m)"

text \<open>Stopping the clusters to be deleted.\<close>

definition drop_cluster :: "string \<times> nat \<Rightarrow> ('g, 'k, 'w, 'o, unit) manager_call" where
  "drop_cluster na s =
     (case (na, s) of ((name, a), (m, w)) \<Rightarrow>
        let m = m\<lparr>cm_health := RemoveLivenessCheck (name_at m a) (cm_health m)\<rparr> in
        case cluster_Stop (cluster_at m a) of
          None \<Rightarrow> (Inl Panic, (m, w))
        | Some c \<Rightarrow> (Inr (), (set_cluster a c m, w)))"

text \<open>\<open>addNewClusters\<close>: the address of the new cluster; an error is only told from its absence.\<close>

definition addNewClusters ::
  "('a, 'g, 'k, 'w, 'o) cluster_libs \<Rightarrow> string \<Rightarrow> string \<Rightarrow> ('g, 'k, 'w, 'o) cmanager \<times> 'w \<Rightarrow>
   nat option \<times> ('g, 'k, 'w, 'o) cmanager \<times> 'w" where
  "addNewClusters L name kubeconfig s =
     (case s of (m, w) \<Rightarrow>
        case NewCluster L name kubeconfig w of
          (Inl err, w') \<Rightarrow> (None, m, w')
        | (Inr nc, w') \<Rightarrow> (Some (length (cm_heap m)), m\<lparr>cm_heap := cm_heap m @ [StartCache nc]\<rparr>, w'))"

fun connect_all ::
  "('a, 'g, 'k, 'w, 'o) cluster_libs \<Rightarrow> (string, string) gomap \<Rightarrow> nat list \<Rightarrow> ('g, 'k, 'w, 'o) cmanager \<times> 'w \<Rightarrow>
   nat list option \<times> ('g, 'k, 'w, 'o) cmanager \<times> 'w" where
  "connect_all L [] newClusters s = (Some newClusters, s)"
| "connect_all L ((name, conf) # addList) newClusters s =
     (case addNewClusters L name conf s of
        (None, s') \<Rightarrow> (None, s')
      | (Some newcls, s') \<Rightarrow> connect_all L addList (newClusters @ [newcls]) s')"

text \<open>\<open>received\<close>: whether somebody takes the message within five seconds.\<close>

definition cluterCheck ::
  "('a, 'g, 'k, 'w, 'o) cluster_libs \<Rightarrow> bool \<Rightarrow> ('g, 'k, 'w, 'o, unit) manager_call" where
  "cluterCheck L received s =
     (case getClusterConfigmap L s of
        (Inl err, s1) \<Rightarrow> (Inr (), s1)
      | (Inr configmaps, (m, w)) \<Rightarrow>
          if length configmaps = 0 then (Inr (), (m, w))
          else
            (case compare_clusters configmaps m of (newClusters, delList, addList, m1) \<Rightarrow>
               if length delList = 0 \<and> length addList = 0 then (Inr (), (m1, w))
               else
                 (case gforeach drop_cluster delList (m1, w) of
                    (Inl e, s2) \<Rightarrow> (Inl e, s2)
                  | (Inr _, s2) \<Rightarrow>
                      (case connect_all L addList newClusters s2 of
                         (None, s3) \<Rightarrow> (Inr (), s3)
                       | (Some newClusters, (m3, w3)) \<Rightarrow>
                           (let m3 = m3\<lparr>cm_clusters := sort_down (name_at m3) newClusters\<rparr> in
                            (Inr (), (if received then m3\<lparr>cm_sent := cm_sent m3 @ [addList]\<rparr> else m3, w3)))))))"

text \<open>\<open>stop\<close>, and \<open>Start\<close> with the checks of the loop, one for every minute until it is told to stop.\<close>

definition manager_stop :: "('g, 'k, 'w, 'o, unit) manager_call" where
  "manager_stop s =
     (case gforeach (\<lambda>a (m, w). case cluster_Stop (cluster_at m a) of
             None \<Rightarrow> (Inl Panic, (m, w)) | Some c \<Rightarrow> (Inr (), (set_cluster a c m, w)))
         (cm_clusters (fst s)) s of
        (Inl e, s') \<Rightarrow> (Inl e, s')
      | (Inr _, (m, w)) \<Rightarrow> if cm_closed m then (Inl Panic, (m, w)) else (Inr (), (m\<lparr>cm_closed := True\<rparr>, w)))"

definition manager_Start ::
  "('a, 'g, 'k, 'w, 'o) cluster_libs \<Rightarrow> bool list \<Rightarrow> ('g, 'k, 'w, 'o, unit) manager_call" where
  "manager_Start L ticks s =
     (case s of (m, w) \<Rightarrow>
        gbind (gforeach (cluterCheck L) ticks) (\<lambda>_. manager_stop)
          (m, case cm_PreInit m of None \<Rightarrow> w | Some preInit \<Rightarrow> preInit w))"

end
