(* ===== verification/ClustersBuild.thy ===== *)
theory ClustersBuild
  imports Clusters "HOL-Library.Multiset"
begin

text \<open>
  The invariant of the cluster manager, and that a new manager satisfies it; a manager to run.
\<close>

section \<open>The invariant\<close>

definition manager_ok :: "('g, 'k, 'w, 'o) cmanager \<Rightarrow> bool" where
  "manager_ok m \<longleftrightarrow> (\<forall>a \<in> set (cm_clusters m). a < length (cm_heap m) \<and> \<not> cl_stopped (cluster_at m a) \<and>
      cl_Started (cluster_at m a)) \<and>
     distinct (map (name_at m) (cm_clusters m)) \<and> sorted (rev (map (name_at m) (cm_clusters m)))"

lemma manager_okD:
  assumes "manager_ok m"
  shows "distinct (map (name_at m) (cm_clusters m))" and "distinct (cm_clusters m)"
    and "a \<in> set (cm_clusters m) \<Longrightarrow> a < length (cm_heap m)"
    and "a \<in> set (cm_clusters m) \<Longrightarrow> \<not> cl_stopped (cluster_at m a)"
    and "a \<in> set (cm_clusters m) \<Longrightarrow> cl_Started (cluster_at m a)"
    and "sorted (rev (map (name_at m) (cm_clusters m)))"
    and "a \<in> set (cm_clusters m) \<Longrightarrow> b \<in> set (cm_clusters m) \<Longrightarrow> name_at m a = name_at m b \<Longrightarrow> a = b"
  using assms by (auto simp: manager_ok_def distinct_map inj_on_def)

lemma cluster_at_set [simp]:
  "a < length (cm_heap m) \<Longrightarrow> cluster_at (set_cluster a c m) b = (if b = a then c else cluster_at m b)"
  "length (cm_heap (set_cluster a c m)) = length (cm_heap m)" "cm_clusters (set_cluster a c m) = cm_clusters m"
  by (simp_all add: cluster_at_def set_cluster_def)

lemma cluster_at_append: "b < length (cm_heap m) \<Longrightarrow> cluster_at (m\<lparr>cm_heap := cm_heap m @ cs\<rparr>) b = cluster_at m b"
  by (simp add: cluster_at_def nth_append)

lemma NewCluster_built:
  assumes "NewCluster L name conf w = (Inr c, w')"
  shows "cl_Name c = name" "cl_RawKubeconfig c = conf" "cl_Status c = []" "\<not> cl_stopped c" "\<not> cl_Started c"
  using assms by (auto simp: NewCluster_def split: prod.splits sum.splits)

lemma names_sort_down:
  "set (sort_down f xs) = set xs" "sorted (rev (map f (sort_down f xs)))"
  "distinct (map f (sort_down f xs)) = distinct (map f xs)"
proof -
  show "set (sort_down f xs) = set xs" by (simp add: sort_down_def)
  show "sorted (rev (map f (sort_down f xs)))" by (simp add: sort_down_def rev_map)
  have "mset (map f (sort_down f xs)) = mset (map f xs)" by (simp add: sort_down_def)
  then show "distinct (map f (sort_down f xs)) = distinct (map f xs)" by (rule mset_eq_imp_distinct_iff)
qed

section \<open>The manager when it is built\<close>

lemma preStart_step_ok:
  assumes "manager_ok m" and "cfm_Name cm \<notin> name_at m ` set (cm_clusters m)" and "preStart_step L cm (m, w) = (m', w')"
  shows "manager_ok m' \<and> name_at m' ` set (cm_clusters m') \<subseteq> insert (cfm_Name cm) (name_at m ` set (cm_clusters m)) \<and>
    cm_Opt m' = cm_Opt m \<and> (\<forall>a \<in> set (cm_clusters m'). a \<in> set (cm_clusters m) \<and> cluster_at m' a = cluster_at m a \<or>
      cl_Status (cluster_at m' a) = ClusterReady \<and> cl_Name (cluster_at m' a) = cfm_Name cm \<and>
      convertToKubeconfig cm = (cl_RawKubeconfig (cluster_at m' a), True))"
proof -
  obtain kubeconfig ok where conv: "convertToKubeconfig cm = (kubeconfig, ok)" by fastforce
  obtain q w1 where new: "NewCluster L (cfm_Name cm) kubeconfig w = (q, w1)" by fastforce
  show ?thesis
  proof (cases "\<not> ok \<or> (\<exists>e. q = Inl e)")
    case True
    then have "m' = m"
    proof
      assume "\<not> ok"
      with assms(3) conv show ?thesis by (simp add: preStart_step_def)
    next
      assume "\<exists>e. q = Inl e"
      then obtain e where "q = Inl e" by (elim exE)
      with assms(3) conv new show ?thesis by (simp add: preStart_step_def split: if_splits)
    qed
    with assms(1) show ?thesis by auto
  next
    case False
    then obtain c where ok: ok and q: "q = Inr c" by (cases q) auto
    obtain healthy c1 w2 where hc: "healthCheck L c w1 = (healthy, c1, w2)" by (metis prod_cases3)
    have c1: "cl_Name c1 = cfm_Name cm" "cl_RawKubeconfig c1 = kubeconfig" "\<not> cl_stopped c1" "\<not> cl_Started c1"
      "healthy \<Longrightarrow> cl_Status c1 = ClusterReady"
      using hc NewCluster_built [of L "cfm_Name cm" kubeconfig w c w1] new q
      by (auto simp: healthCheck_def split: prod.splits sum.splits if_splits)
    let ?a = "length (cm_heap m)"
    have range: "b < ?a" if "b \<in> set (cm_clusters m)" for b by (rule manager_okD(3) [OF assms(1) that])
    show ?thesis
    proof (cases healthy)
      case False
      then have m': "m' = m\<lparr>cm_heap := cm_heap m @ [c1]\<rparr>"
        using assms(3) conv new ok q hc by (simp add: preStart_step_def Let_def)
      have at: "cluster_at m' b = cluster_at m b" if "b \<in> set (cm_clusters m)" for b
        unfolding m' by (rule cluster_at_append) (rule range [OF that])
      have names: "map (name_at m') (cm_clusters m) = map (name_at m) (cm_clusters m)" by (simp add: name_at_def at)
      have clusters: "cm_clusters m' = cm_clusters m" "length (cm_heap m') = Suc ?a" "cm_Opt m' = cm_Opt m" by (simp_all add: m')
      have "manager_ok m'"
        using manager_okD(1,6) [OF assms(1)] manager_okD(4,5) [OF assms(1)] range
        unfolding manager_ok_def clusters names by (auto simp: at less_SucI)
      with at clusters show ?thesis by (auto simp: name_at_def)
    next
      case True
      define m1 where "m1 = set_cluster ?a (StartCache c1) (m\<lparr>cm_heap := cm_heap m @ [c1]\<rparr>)"
      have m': "m' = snd (manager_Add ?a m1)"
        using assms(3) conv new ok q hc True by (simp add: preStart_step_def Let_def m1_def)
      have heap: "cm_heap m1 = cm_heap m @ [StartCache c1]" by (simp add: m1_def set_cluster_def)
      have m1: "cm_clusters m1 = cm_clusters m" "cm_Opt m1 = cm_Opt m" by (simp_all add: m1_def set_cluster_def)
      have at: "cluster_at m1 b = cluster_at m b" if "b \<in> set (cm_clusters m)" for b
        using range [OF that] by (simp add: cluster_at_def heap nth_append)
      have at_new: "cluster_at m1 ?a = StartCache c1" by (simp add: cluster_at_def heap)
      have sc: "StartCache c1 = c1\<lparr>cl_Started := True\<rparr>" using c1(4) by (simp add: StartCache_def)
      have names: "map (name_at m1) (cm_clusters m) = map (name_at m) (cm_clusters m)" by (simp add: name_at_def at)
      have same: "name_at (m1\<lparr>cm_clusters := xs\<rparr>) b = name_at m1 b" "cluster_at (m1\<lparr>cm_clusters := xs\<rparr>) b = cluster_at m1 b"
        for xs b by (simp_all add: name_at_def cluster_at_def)
      have nm: "name_at m1 ?a = cfm_Name cm" by (simp add: name_at_def at_new sc c1)
      show ?thesis
      proof (cases "manager_Get (name_at m1 ?a) m1 \<noteq> None")
        case True
        then have m': "m' = m1" by (simp add: m' manager_Add_def)
        have "manager_ok m'"
          using manager_okD(1,6) [OF assms(1)] manager_okD(4,5) [OF assms(1)] range
          unfolding manager_ok_def m' m1(1) names by (auto simp: at heap less_SucI)
        with at m1 show ?thesis unfolding m' by (auto simp: name_at_def)
      next
        case False
        define xs where "xs = sort_down (name_at m1) (cm_clusters m @ [?a])"
        have m': "m' = m1\<lparr>cm_clusters := xs\<rparr>" using False by (simp add: m' manager_Add_def xs_def m1)
        have xs: "set xs = insert ?a (set (cm_clusters m))" by (simp add: xs_def names_sort_down)
        have "distinct (map (name_at m) (cm_clusters m) @ [cfm_Name cm])"
          using manager_okD(1) [OF assms(1)] assms(2) by simp
        then have "distinct (map (name_at m1) (cm_clusters m @ [?a]))" by (simp only: map_append names list.map nm)
        then have dist: "distinct (map (name_at m1) xs)" "sorted (rev (map (name_at m1) xs))"
          unfolding xs_def by (simp_all only: names_sort_down)
        have f: "name_at m' = name_at m1" by (simp add: fun_eq_iff m' same)
        have "manager_ok m'"
          using dist manager_okD(4,5) [OF assms(1)] range unfolding manager_ok_def f
          by (auto simp: m' same xs at at_new sc c1 heap less_SucI)
        moreover have "name_at m' ` set (cm_clusters m') \<subseteq> insert (cfm_Name cm) (name_at m ` set (cm_clusters m))"
          unfolding f using nm at by (auto simp: m' xs name_at_def)
        moreover have "cl_Status (cluster_at m' ?a) = ClusterReady \<and> cl_Name (cluster_at m' ?a) = cfm_Name cm \<and>
            convertToKubeconfig cm = (cl_RawKubeconfig (cluster_at m' ?a), True)"
          using c1 \<open>healthy\<close> conv ok by (simp add: m' same at_new sc)
        ultimately show ?thesis using at m1(2) xs by (auto simp: m' same)
      qed
    qed
  qed
qed

lemma disjoint_mono: "A \<subseteq> insert x B \<Longrightarrow> x \<notin> C \<Longrightarrow> B \<inter> C = {} \<Longrightarrow> A \<inter> C = {}"
  by blast

lemma preStart_fold_ok:
  assumes "manager_ok m" and "distinct (map cfm_Name cms)" and "name_at m ` set (cm_clusters m) \<inter> cfm_Name ` set cms = {}"
    and "\<forall>a \<in> set (cm_clusters m). P (cluster_at m a)"
    and "\<And>cm c. cm \<in> set cms \<Longrightarrow> cl_Status c = ClusterReady \<Longrightarrow> cl_Name c = cfm_Name cm \<Longrightarrow>
      convertToKubeconfig cm = (cl_RawKubeconfig c, True) \<Longrightarrow> P c"
    and "fold (preStart_step L) cms (m, w) = (m', w')"
  shows "manager_ok m' \<and> (\<forall>a \<in> set (cm_clusters m'). P (cluster_at m' a))"
  using assms
proof (induction cms arbitrary: m w)
  case (Cons cm cms)
  obtain m1 w1 where step: "preStart_step L cm (m, w) = (m1, w1)" by fastforce
  have "cfm_Name cm \<notin> name_at m ` set (cm_clusters m)" using Cons.prems(3) by auto
  note S = preStart_step_ok [OF Cons.prems(1) this step]
  have ok1: "manager_ok m1" and sub: "name_at m1 ` set (cm_clusters m1) \<subseteq> insert (cfm_Name cm) (name_at m ` set (cm_clusters m))"
    and each: "\<forall>a \<in> set (cm_clusters m1). a \<in> set (cm_clusters m) \<and> cluster_at m1 a = cluster_at m a \<or>
      cl_Status (cluster_at m1 a) = ClusterReady \<and> cl_Name (cluster_at m1 a) = cfm_Name cm \<and>
      convertToKubeconfig cm = (cl_RawKubeconfig (cluster_at m1 a), True)"
    by (fact conjunct1 [OF S] conjunct1 [OF conjunct2 [OF S]] conjunct2 [OF conjunct2 [OF conjunct2 [OF S]]])+
  have "cfm_Name cm \<notin> cfm_Name ` set cms" using Cons.prems(2) by simp
  moreover have "name_at m ` set (cm_clusters m) \<inter> cfm_Name ` set cms = {}" using Cons.prems(3) by simp
  ultimately have "name_at m1 ` set (cm_clusters m1) \<inter> cfm_Name ` set cms = {}"
    using disjoint_mono [OF sub] by simp
  moreover have "\<forall>a \<in> set (cm_clusters m1). P (cluster_at m1 a)"
  proof
    fix a assume a: "a \<in> set (cm_clusters m1)"
    from bspec [OF each a] show "P (cluster_at m1 a)"
      using Cons.prems(4) Cons.prems(5) [of cm "cluster_at m1 a"] by auto
  qed
  moreover have "fold (preStart_step L) cms (m1, w1) = (m', w')" using Cons.prems(6) step by simp
  moreover have "distinct (map cfm_Name cms)" using Cons.prems(2) by simp
  moreover have "P c" if "cm' \<in> set cms" "cl_Status c = ClusterReady" "cl_Name c = cfm_Name cm'"
    "convertToKubeconfig cm' = (cl_RawKubeconfig c, True)" for cm' c
    by (rule Cons.prems(5) [OF _ that(2-4)]) (simp add: that(1))
  ultimately show ?case by (intro Cons.IH [OF ok1])
qed simp

text \<open>
  A manager starts well: when the names of the listed descriptions are distinct, the clusters of a new
  manager have distinct names, in order, none is stopped, and each has answered its health check and
  was built from its description.
\<close>

theorem NewClusterManager_ok:
  assumes "lb_direct L opt w = (Inr items, w1)" and "distinct (map cfm_Name items)"
    and "NewClusterManager L cli opt health w = (Inr m, w')"
  shows "manager_ok m \<and> (\<forall>a \<in> set (cm_clusters m). cl_Status (cluster_at m a) = ClusterReady \<and>
    (\<exists>cm \<in> set items. cl_Name (cluster_at m a) = cfm_Name cm \<and>
       convertToKubeconfig cm = (cl_RawKubeconfig (cluster_at m a), True)))"
proof -
  obtain m1 w2 where run: "fold (preStart_step L) (sort_by_name cfm_Name items) (\<lparr>cm_KubeCli = cli, cm_Opt = opt, cm_heap = [],
      cm_clusters = [], cm_PreInit = None, cm_Started = False, cm_sent = [], cm_closed = False, cm_health = health\<rparr>, w1) = (m1, w2)"
    (is "fold _ _ (?m0, _) = _") by fastforce
  have m: "m = m1\<lparr>cm_Started := True\<rparr>"
    using assms(1,3) run by (simp add: NewClusterManager_def preStart_def getClusterConfigmap_def Let_def)
  let ?P = "\<lambda>c. cl_Status c = ClusterReady \<and>
    (\<exists>cm \<in> set items. cl_Name c = cfm_Name cm \<and> convertToKubeconfig cm = (cl_RawKubeconfig c, True))"
  have "manager_ok m1 \<and> (\<forall>a \<in> set (cm_clusters m1). ?P (cluster_at m1 a))"
  proof (rule preStart_fold_ok [OF _ _ _ _ _ run])
    show "manager_ok ?m0" by (simp add: manager_ok_def)
    have "mset (map cfm_Name (sort_by_name cfm_Name items)) = mset (map cfm_Name items)" by (simp add: sort_by_name_def)
    with assms(2) show "distinct (map cfm_Name (sort_by_name cfm_Name items))" using mset_eq_imp_distinct_iff by metis
    show "name_at ?m0 ` set (cm_clusters ?m0) \<inter> cfm_Name ` set (sort_by_name cfm_Name items) = {}" by simp
    show "\<forall>a \<in> set (cm_clusters ?m0). ?P (cluster_at ?m0 a)" by simp
    show "?P c" if "cm \<in> set (sort_by_name cfm_Name items)" "cl_Status c = ClusterReady" "cl_Name c = cfm_Name cm"
      "convertToKubeconfig cm = (cl_RawKubeconfig c, True)" for cm c
      using that by (auto simp: sort_by_name_def)
  qed
  moreover have "cluster_at m = cluster_at m1" "name_at m = name_at m1" "cm_heap m = cm_heap m1" "cm_clusters m = cm_clusters m1"
    by (simp_all add: m cluster_at_def name_at_def fun_eq_iff)
  ultimately show ?thesis by (simp add: manager_ok_def)
qed

definition connects :: "('a, 'g, 'k, 'w, 'o) cluster_libs \<Rightarrow> string \<Rightarrow> string \<Rightarrow> bool" where
  "connects L name conf \<longleftrightarrow> (\<forall>w. \<exists>c w'. NewCluster L name conf w = (Inr c, w'))"

section \<open>A manager at work\<close>

text \<open>The world is the list of ConfigMaps; one address refuses connections, and an empty kubeconfig is none.\<close>

definition silent_client :: "('w, 'o) kclient" where
  "silent_client = \<lparr>kGet = \<lambda>_ w. (Inl NotFound, w), kList = \<lambda>_ w. (Inr [], w), kCreate = \<lambda>_ w. (Inl Conflict, w),
     kUpdate = \<lambda>_ w. (Inl Conflict, w), kStatusUpdate = \<lambda>_ w. (Inl Conflict, w), kDelete = \<lambda>_ w. (Inl NotFound, w),
     kRetry = retry_attempts 4\<rparr>"

definition demo_libs :: "(string, string, string, config_map list, unit) cluster_libs" where
  "demo_libs = \<lparr>
     lb_Load = \<lambda>s. if s = [] then Inl ''no configuration'' else Inr s,
     lb_ClientConfig = \<lambda>s. Inr \<lparr>rf_Base = s, rf_QPS = 0, rf_Burst = 0\<rparr>,
     lb_NewForConfig = \<lambda>cfg. Inr (rf_Base cfg),
     lb_NewManager = \<lambda>cfg w. (if rf_Base cfg = ''down'' then Inl ''refused'' else
       Inr \<lparr>cc_Pod = silent_client, cc_Deployment = silent_client, cc_Node = silent_client, cc_StatefulSet = silent_client,
         cc_Service = silent_client, cc_Endpoints = silent_client, cc_Event = silent_client\<rparr>, w),
     lb_healthz = \<lambda>k w. (Inr ''ok'', w),
     lb_cached = \<lambda>opt w. (Inr w, w), lb_direct = \<lambda>opt w. (Inr w, w)\<rparr>"

definition described_by :: "string \<Rightarrow> string \<Rightarrow> config_map" where
  "described_by name kubeconfig = \<lparr>cfm_Name = name, cfm_Data = [(''kubeconfig.yaml'', kubeconfig)]\<rparr>"

definition demo_option :: ClusterManagerOption where
  "demo_option = DefaultClusterManagerOption ''sym-admin'' []"

definition demo_world :: "config_map list" where
  "demo_world = [described_by ''b'' ''two'', described_by ''a'' ''one'']"

definition demo_new :: "(kerr + (string, string, config_map list, unit) cmanager) \<times> config_map list" where
  "demo_new = NewClusterManager demo_libs ''master'' demo_option \<lparr>hh_liveness = [], hh_readiness = []\<rparr> demo_world"

definition demo_built :: "(string, string, config_map list, unit) cmanager" where
  "demo_built = projr (fst demo_new)"

lemma demo_new_built: "demo_new = (Inr demo_built, demo_world)"
proof -
  have "\<not> isl (fst demo_new)" by code_simp
  then have "fst demo_new = Inr demo_built" by (simp add: demo_built_def sum.collapse(2))
  moreover have "snd demo_new = demo_world" by code_simp
  ultimately show ?thesis by (simp add: prod_eq_iff)
qed

lemma demo_built_names: "cm_clusters demo_built = [1, 0]" "map (name_at demo_built) (cm_clusters demo_built) = [''b'', ''a'']"
  "cm_Started demo_built"
  by code_simp+

lemma demo_built_ok: "manager_ok demo_built"
  by code_simp

lemma demo_connects: "conf \<noteq> [] \<Longrightarrow> conf \<noteq> ''down'' \<Longrightarrow> connects demo_libs name conf"
  by (simp add: connects_def NewCluster_def initK8sClients_def NewClientConfig_def demo_libs_def SetDefaultQPS_def)

lemma demo_refuses: "\<exists>e w'. NewCluster demo_libs name ''down'' w = (Inl e, w')"
  by (simp add: NewCluster_def initK8sClients_def NewClientConfig_def demo_libs_def SetDefaultQPS_def)

lemma demo_lists: "cm_Started m \<Longrightarrow> getClusterConfigmap demo_libs (m, w) = (Inr (sort_by_name cfm_Name w), (m, w))"
  by (simp add: getClusterConfigmap_def demo_libs_def)

theorem NewClusterManager_ok_witness:
  "distinct (map cfm_Name demo_world) \<and> cm_clusters demo_built = [1, 0] \<and>
    manager_ok demo_built \<and> cl_Status (cluster_at demo_built 0) = ClusterReady"
proof -
  have "lb_direct demo_libs demo_option demo_world = (Inr demo_world, demo_world)" by (simp add: demo_libs_def)
  moreover have names: "distinct (map cfm_Name demo_world)" by code_simp
  moreover note demo_new_built [unfolded demo_new_def]
  ultimately have ok: "manager_ok demo_built \<and> (\<forall>a \<in> set (cm_clusters demo_built). cl_Status (cluster_at demo_built a) = ClusterReady \<and>
    (\<exists>cm \<in> set demo_world. cl_Name (cluster_at demo_built a) = cfm_Name cm \<and>
       convertToKubeconfig cm = (cl_RawKubeconfig (cluster_at demo_built a), True)))" by (rule NewClusterManager_ok)
  then have "cl_Status (cluster_at demo_built 0) = ClusterReady" using demo_built_names(1) by simp
  with ok names demo_built_names(1) show ?thesis by blast
qed

end
