(* ===== verification/AdapterStart.thy ===== *)
theory AdapterStart
  imports Registrations ClustersBuild
begin

text \<open>
  How the adapter is put together and started: \<^verbatim>\<open>pkg/adapter/handler/init.go\<close>, the constructors of the
  handlers, \<open>NewAdapter\<close>, and how \<open>Adapter.Start\<close> begins and ends (\<^verbatim>\<open>pkg/adapter/adapter.go\<close>). The
  libraries of Kubernetes are parameters.
\<close>

section \<open>Starting\<close>

text \<open>
  A start-up ends the process (\<open>klog.Fatal\<close>), returns an error or a value, or never returns: then
  there is no value.
\<close>

datatype exit = Fatal string | Failed string

type_synonym ('w, 'a) start = "'w \<Rightarrow> ((exit + 'a) \<times> 'w) option"

definition sret :: "'a \<Rightarrow> ('w, 'a) start" where
  "sret x w = Some (Inr x, w)"

definition sexit :: "exit \<Rightarrow> ('w, 'a) start" where
  "sexit e w = Some (Inl e, w)"

definition sbind :: "('w, 'a) start \<Rightarrow> ('a \<Rightarrow> ('w, 'b) start) \<Rightarrow> ('w, 'b) start" where
  "sbind m f w =
     (case m w of None \<Rightarrow> None | Some (Inl e, w') \<Rightarrow> Some (Inl e, w') | Some (Inr x, w') \<Rightarrow> f x w')"

text \<open>\<open>if err != nil { klog.Fatal(err) }\<close>; what a log line puts before the error is left out.\<close>

definition or_fatal :: "('w, 'a) start \<Rightarrow> ('w, 'a) start" where
  "or_fatal m w = (case m w of Some (Inl (Failed err), w') \<Rightarrow> Some (Inl (Fatal err), w') | x \<Rightarrow> x)"

text \<open>A library call whose error is returned under a heading.\<close>

definition lib :: "string \<Rightarrow> ('w \<Rightarrow> (string + 'a) \<times> 'w) \<Rightarrow> ('w, 'a) start" where
  "lib heading m w = (case m w of (Inl err, w') \<Rightarrow> Some (Inl (Failed (heading @ err)), w') | (Inr x, w') \<Rightarrow> Some (Inr x, w'))"

record manager_options =
  mo_MetricsBindAddress :: string
  mo_LeaderElection :: bool
  mo_SyncPeriod :: int

text \<open>
  The libraries: loading a configuration, from the default places or from a file with a context; building a
  manager; of a manager its API, its informers, starting it, and waiting until its cache is in sync or
  a stop channel is closed, which is told whether it is; whether the stop channel of the process has been closed, on a first signal;
  the parser of the converter.
\<close>

record ('a, 'g, 'k, 'w, 'o) adapter_libs =
  al_cluster :: "('a, 'g, 'k, 'w, 'o) cluster_libs"
  al_GetConfig :: "'w \<Rightarrow> (string + 'g rest_config) \<times> 'w"
  al_ClientConfig :: "string option \<Rightarrow> string \<Rightarrow> 'w \<Rightarrow> (string + 'g rest_config) \<times> 'w"
  al_NewManager :: "'g rest_config \<Rightarrow> manager_options \<Rightarrow> 'w \<Rightarrow> (string + ('w, 'o) cluster_client) \<times> 'w"
  al_api :: "('w, 'o) cluster_client \<Rightarrow> 'w api"
  al_GetInformer :: "('w, 'o) cluster_client \<Rightarrow> api_kind \<Rightarrow> 'w \<Rightarrow> 'w"
  al_Start :: "('w, 'o) cluster_client \<Rightarrow> 'w \<Rightarrow> 'w"
  al_WaitForCacheSync :: "('w, 'o) cluster_client \<Rightarrow> bool \<Rightarrow> 'w \<Rightarrow> bool \<times> 'w"
  al_stopped :: "'w \<Rightarrow> bool"
  al_unmarshal :: "string \<Rightarrow> FlagConfigParameter option"

section \<open>Configuration\<close>

text \<open>\<open>k8sclient.GetConfigWithContext\<close>\<close>

definition GetConfigWithContext ::
  "('a, 'g, 'k, 'w, 'o) adapter_libs \<Rightarrow> string \<Rightarrow> string \<Rightarrow> 'w \<Rightarrow> (string + 'g rest_config) \<times> 'w" where
  "GetConfigWithContext A kubeconfigPath kubeContext =
     al_ClientConfig A (if kubeconfigPath \<noteq> [] then Some kubeconfigPath else None) kubeContext"

definition buildRestConfig ::
  "('a, 'g, 'k, 'w, 'o) adapter_libs \<Rightarrow> EventHandlers_option \<Rightarrow> ('w, 'g rest_config) start" where
  "buildRestConfig A opt =
     sbind (lib ''unable to load the default kubeconfig, err: ''
        (if eo_Kubeconfig opt = [] then al_GetConfig A
         else GetConfigWithContext A (eo_Kubeconfig opt) (eo_ConfigContext opt))) (\<lambda>cfg.
     sret (SetDefaultQPS cfg (eo_QPS opt) (sint (eo_Burst opt))))"

definition buildClientSet :: "('a, 'g, 'k, 'w, 'o) adapter_libs \<Rightarrow> 'g rest_config \<Rightarrow> ('w, 'k) start" where
  "buildClientSet A cfg =
     lib ''failed to initialize kubernetes Clientse: '' (\<lambda>w. (lb_NewForConfig (al_cluster A) cfg, w))"

definition buildCtrlManager ::
  "('a, 'g, 'k, 'w, 'o) adapter_libs \<Rightarrow> 'g rest_config \<Rightarrow> ('w, ('w, 'o) cluster_client) start" where
  "buildCtrlManager A cfg =
     lib ''unable to create a manager, err: ''
       (al_NewManager A cfg \<lparr>mo_MetricsBindAddress = ''0'', mo_LeaderElection = False, mo_SyncPeriod = 120\<rparr>)"

section \<open>Handlers\<close>

text \<open>\<open>for !WaitForCacheSync(stopCh) { ... }\<close>, which need not end: only the call looks at the channel.\<close>

partial_function (option) wait_for_sync :: "(bool \<Rightarrow> 'w \<Rightarrow> bool \<times> 'w) \<Rightarrow> ('w \<Rightarrow> bool) \<Rightarrow> 'w \<Rightarrow> 'w option" where
  "wait_for_sync sync stopCh w =
     (case sync (stopCh w) w of (ready, w') \<Rightarrow> if ready then Some w' else wait_for_sync sync stopCh w')"

declare wait_for_sync.simps [code]

definition NewKubeSingleClusterEventHandler ::
  "('a, 'g, 'k, 'w, 'o) adapter_libs \<Rightarrow> ('w, 'o) cluster_client \<Rightarrow> ('w, 'w event_handler) start" where
  "NewKubeSingleClusterEventHandler A ctrlMgr w =
     (let w = fold (al_GetInformer A ctrlMgr) [KConfiguredService, KServiceConfig, KServiceAccessor] w;
          w = al_Start A ctrlMgr w in
      case wait_for_sync (al_WaitForCacheSync A ctrlMgr) (al_stopped A) w of
        None \<Rightarrow> None
      | Some w \<Rightarrow> Some (Inr (single_handler (al_api A ctrlMgr) (al_unmarshal A)), w))"

fun kube_handlers ::
  "('a, 'g, 'k, 'w, 'o) adapter_libs \<Rightarrow> ('w, 'o) cluster_client list \<Rightarrow> 'w event_handler list \<Rightarrow> ('w, 'w event_handler list) start" where
  "kube_handlers A [] kubeHandlers = sret kubeHandlers"
| "kube_handlers A (c # cs) kubeHandlers =
     sbind (NewKubeSingleClusterEventHandler A c) (\<lambda>h. kube_handlers A cs (kubeHandlers @ [h]))"

definition NewKubeMultiClusterEventHandler ::
  "('a, 'g, 'k, 'w, 'o) adapter_libs \<Rightarrow> ('g, 'k, 'w, 'o) cmanager \<Rightarrow> ('w, 'w event_handler) start" where
  "NewKubeMultiClusterEventHandler A clustersMgr =
     sbind (kube_handlers A (map (\<lambda>a. cl_Client (cluster_at clustersMgr a)) (GetAll [] clustersMgr)) [])
       (\<lambda>kubeHandlers. sret (multi_handler kubeHandlers))"

text \<open>The handler of the health checks is the one of the process. The manager of the clusters is not kept.\<close>

definition buildMultiClusterEventHandler ::
  "('a, 'g, 'k, 'w, 'o) adapter_libs \<Rightarrow> 'w health_handler \<Rightarrow> EventHandlers_option \<Rightarrow> 'k \<Rightarrow> ('w, 'w event_handler) start" where
  "buildMultiClusterEventHandler A health opt kubeCli w =
     (let lbls = [(''ClusterOwner'', eo_ClusterOwner opt)];
          clustersMgrOpt = DefaultClusterManagerOption (eo_ClusterNamespace opt) lbls;
          clustersMgrOpt = (if eo_ClusterNamespace opt \<noteq> [] then clustersMgrOpt\<lparr>cmo_Namespace := eo_ClusterNamespace opt\<rparr>
            else clustersMgrOpt) in
      case NewClusterManager (al_cluster A) kubeCli clustersMgrOpt health w of
        (Inl err, w') \<Rightarrow> Some (Inl (Failed ''unable to create a new k8s manager''), w')
      | (Inr clustersMgr, w') \<Rightarrow> NewKubeMultiClusterEventHandler A clustersMgr w')"

definition buildSingleClusterEventHandler ::
  "('a, 'g, 'k, 'w, 'o) adapter_libs \<Rightarrow> ('w, 'o) cluster_client \<Rightarrow> ('w, 'w event_handler) start" where
  "buildSingleClusterEventHandler A ctrlMgr = NewKubeSingleClusterEventHandler A ctrlMgr"

definition handler_Init ::
  "('a, 'g, 'k, 'w, 'o) adapter_libs \<Rightarrow> 'w health_handler \<Rightarrow> EventHandlers_option \<Rightarrow> ('w, 'w event_handler list) start" where
  "handler_Init A health opt =
     sbind
       (if eo_EnableK8s opt then
          sbind (or_fatal (buildRestConfig A opt)) (\<lambda>cfg.
          sbind (or_fatal (buildClientSet A cfg)) (\<lambda>kubeCli.
          sbind (or_fatal (buildCtrlManager A cfg)) (\<lambda>ctrlMgr.
          sbind (or_fatal
             (if eo_IsMultiClusters opt then buildMultiClusterEventHandler A health opt kubeCli
              else buildSingleClusterEventHandler A ctrlMgr)) (\<lambda>eh.
          sret [eh]))))
        else sret [])
       (\<lambda>eventHandlers.
     if eo_EnableDebugLog opt then sret (eventHandlers @ [log_handler]) else sret eventHandlers)"

section \<open>The adapter\<close>

text \<open>
  The constructors that the packages register when the program starts, for a network in which
  connecting has some outcome.
\<close>

definition registry_constructors :: "(Registry_option \<Rightarrow> bool) \<Rightarrow> (string, Registry_option \<Rightarrow> registry_client option) gomap option" where
  "registry_constructors dials = register_client ''zk'' (\<lambda>opt. rg_New (dials opt)) []"

definition config_constructors :: "(Configuration_option \<Rightarrow> bool) \<Rightarrow> (string, Configuration_option \<Rightarrow> config_client option) gomap option" where
  "config_constructors dials = register_client ''zk'' (\<lambda>opt. cf_New (co_Address opt) (dials opt)) []"

record 'w built_adapter =
  ba_opt :: AdapterOption
  ba_registryClient :: registry_client
  ba_configClient :: config_client
  ba_eventHandlers :: "'w event_handler list"

definition NewAdapter ::
  "('a, 'g, 'k, 'w, 'o) adapter_libs \<Rightarrow> 'w health_handler \<Rightarrow>
   (string, Registry_option \<Rightarrow> registry_client option) gomap \<Rightarrow>
   (string, Configuration_option \<Rightarrow> config_client option) gomap \<Rightarrow> AdapterOption \<Rightarrow> ('w, 'w built_adapter) start" where
  "NewAdapter A health registryInstance configInstance opt =
     sbind (handler_Init A health (ao_EventHandlers opt)) (\<lambda>eventHandlers.
     case registry_GetRegistry registryInstance (ao_Registry opt) of
       None \<Rightarrow> sexit (Failed ''registry center'')
     | Some registryClient \<Rightarrow>
         (case configcenter_GetRegistry configInstance (ao_Configuration opt) of
            None \<Rightarrow> sexit (Failed ''config center'')
          | Some configClient \<Rightarrow>
              sret \<lparr>ba_opt = opt, ba_registryClient = registryClient, ba_configClient = configClient,
                ba_eventHandlers = eventHandlers\<rparr>))"

text \<open>
  \<open>Start\<close> up to its loop, which is \<open>adapter_step\<close>; no value is the error of a client that did not start. The
  last branch of the loop, when the process is told to stop, stops the clients; no value is a panic.
\<close>

definition adapter_Start :: "'z zkconn \<Rightarrow> 'w built_adapter \<Rightarrow> 'z \<Rightarrow> 'w \<Rightarrow> ('z, 'w) adapter option" where
  "adapter_Start conn a z w =
     (case rg_Start conn (ba_registryClient a, z) of
        (False, rg, z) \<Rightarrow> None
      | (True, rg, z) \<Rightarrow>
          (case cf_Start conn (ba_configClient a, z) of
             (False, cc, z) \<Rightarrow> None
           | (True, cc, z) \<Rightarrow>
               Some \<lparr>ad_registry = rg, ad_config = cc, ad_ensemble = z,
                 ad_accelerator = NewAccelerator (sint (eo_AcceleratorSize (ao_EventHandlers (ba_opt a)))),
                 ad_cluster = w, ad_crashed = False\<rparr>))"

definition adapter_Stop :: "('z, 'w) adapter \<Rightarrow> ('z, 'w) adapter option" where
  "adapter_Stop a =
     map_option (\<lambda>rg. a\<lparr>ad_registry := rg, ad_config := cf_Stop (ad_config a)\<rparr>) (rg_Stop (ad_registry a))"

section \<open>Facts on starting\<close>

lemma sbind_sret [simp]: "sbind (sret x) f = f x"
  by (simp add: sbind_def sret_def fun_eq_iff)

lemma sbind_Inr:
  "sbind m f w = Some (Inr y, w') \<longleftrightarrow> (\<exists>x w1. m w = Some (Inr x, w1) \<and> f x w1 = Some (Inr y, w'))"
  by (auto simp: sbind_def split: option.splits sum.splits)

lemma or_fatal_Inr: "or_fatal m w = Some (Inr x, w') \<longleftrightarrow> m w = Some (Inr x, w')"
  by (auto simp: or_fatal_def split: option.splits sum.splits exit.splits)

definition never_fails :: "('w, 'a) start \<Rightarrow> bool" where
  "never_fails m \<longleftrightarrow> (\<forall>w err w'. m w \<noteq> Some (Inl (Failed err), w'))"

lemma never_fails_sret: "never_fails (sret x)"
  by (simp add: never_fails_def sret_def)

lemma never_fails_or_fatal: "never_fails (or_fatal m)"
  by (auto simp: never_fails_def or_fatal_def split: option.splits sum.splits exit.splits)

lemma never_fails_sbind: "never_fails m \<Longrightarrow> (\<And>x. never_fails (f x)) \<Longrightarrow> never_fails (sbind m f)"
  by (auto simp: never_fails_def sbind_def split: option.splits sum.splits)

lemma never_fails_if: "never_fails a \<Longrightarrow> never_fails b \<Longrightarrow> never_fails (if c then a else b)"
  by simp

section \<open>Waiting for the cache\<close>









section \<open>The handlers of one cluster\<close>

text \<open>The world when a handler begins to wait: its informers are asked for and its manager is started.\<close>

definition watching :: "('a, 'g, 'k, 'w, 'o) adapter_libs \<Rightarrow> ('w, 'o) cluster_client \<Rightarrow> 'w \<Rightarrow> 'w" where
  "watching A ctrlMgr w =
     al_Start A ctrlMgr (fold (al_GetInformer A ctrlMgr) [KConfiguredService, KServiceConfig, KServiceAccessor] w)"

lemma NewKubeSingle_eq:
  "NewKubeSingleClusterEventHandler A ctrlMgr w =
     map_option (\<lambda>w'. (Inr (single_handler (al_api A ctrlMgr) (al_unmarshal A)), w'))
       (wait_for_sync (al_WaitForCacheSync A ctrlMgr) (al_stopped A) (watching A ctrlMgr w))"
  by (simp add: NewKubeSingleClusterEventHandler_def watching_def Let_def split: option.split)

definition log_handlers :: "EventHandlers_option \<Rightarrow> 'w event_handler list" where
  "log_handlers opt = (if eo_EnableDebugLog opt then [log_handler] else [])"



section \<open>Errors\<close>

text \<open>
  \<open>Init\<close> never returns an error. Whatever the libraries do, it ends the process, returns handlers, or does not
  return; and without Kubernetes it touches nothing.
\<close>

theorem Init_never_fails:
  "handler_Init A health opt w \<noteq> Some (Inl (Failed err), w') \<and>
   (\<not> eo_EnableK8s opt \<longrightarrow> handler_Init A health opt w = Some (Inr (log_handlers opt), w))"
proof
  have "never_fails (handler_Init A health opt)"
    unfolding handler_Init_def
    by (intro never_fails_sbind never_fails_or_fatal never_fails_sret never_fails_if)
  then show "handler_Init A health opt w \<noteq> Some (Inl (Failed err), w')" unfolding never_fails_def by blast
  show "\<not> eo_EnableK8s opt \<longrightarrow> handler_Init A health opt w = Some (Inr (log_handlers opt), w)"
    by (simp add: handler_Init_def log_handlers_def sret_def)
qed

section \<open>The handlers of several clusters\<close>

lemma kube_handlers_spec:
  "kube_handlers A cs hs w = Some (res, w') \<Longrightarrow>
     res = Inr (hs @ map (\<lambda>c. single_handler (al_api A c) (al_unmarshal A)) cs)"
proof (induction cs arbitrary: hs w)
  case (Cons c cs)
  then show ?case
    by (auto simp: sbind_def NewKubeSingle_eq split: option.splits dest!: Cons.IH)
qed (simp add: sret_def)

lemma GetAll_ready:
  assumes "\<forall>a \<in> set (cm_clusters m). cl_Status (cluster_at m a) = ClusterReady"
  shows "GetAll [] m = cm_clusters m"
proof -
  have "cl_Status (cluster_at m a) \<noteq> ClusterOffline" if "a \<in> set (cm_clusters m)" for a
    using assms that by (simp add: ClusterReady_def ClusterOffline_def)
  then show ?thesis by (simp add: GetAll_def Let_def)
qed

text \<open>Where the descriptions of the clusters are looked up.\<close>

definition owned_clusters :: "EventHandlers_option \<Rightarrow> ClusterManagerOption" where
  "owned_clusters opt = DefaultClusterManagerOption (eo_ClusterNamespace opt) [(''ClusterOwner'', eo_ClusterOwner opt)]"

lemma buildMulti_eq:
  "buildMultiClusterEventHandler A health opt kubeCli w =
     (case NewClusterManager (al_cluster A) kubeCli (owned_clusters opt) health w of
        (Inl err, w') \<Rightarrow> Some (Inl (Failed ''unable to create a new k8s manager''), w')
      | (Inr clustersMgr, w') \<Rightarrow> NewKubeMultiClusterEventHandler A clustersMgr w')"
  by (simp add: buildMultiClusterEventHandler_def owned_clusters_def DefaultClusterManagerOption_def Let_def
      split: prod.split sum.split)

text \<open>The ConfigMap a cluster was built from.\<close>

definition describes :: "config_map \<Rightarrow> ('g, 'k, 'w, 'o) cluster \<Rightarrow> bool" where
  "describes cm c \<longleftrightarrow> cl_Name c = cfm_Name cm \<and> convertToKubeconfig cm = (cl_RawKubeconfig c, True)"

text \<open>
  C18: starting for several clusters connects to healthy, described clusters only. When \<open>Init\<close> returns, its first
  handler writes to a list of clusters with distinct names, one handler for each; every one of them has
  answered its health check and was built from a ConfigMap that carries the owner's label in the configured
  namespace and is not in maintenance. The ConfigMaps of a namespace have distinct names.
\<close>

theorem Init_handles_ready_clusters:
  fixes A :: "('a, 'g, 'k, 'w, 'o) adapter_libs"
  assumes "eo_EnableK8s opt" and "eo_IsMultiClusters opt"
    and "\<forall>o1 w items w1. lb_direct (al_cluster A) o1 w = (Inr items, w1) \<longrightarrow> distinct (map cfm_Name items)"
    and "handler_Init A health opt w = Some (Inr hs, w')"
  shows "\<exists>(clusters :: ('g, 'k, 'w, 'o) cluster list) items w0 w1. hs = multi_handler (map (\<lambda>c. single_handler (al_api A (cl_Client c)) (al_unmarshal A)) clusters) #
      log_handlers opt \<and>
    lb_direct (al_cluster A) (owned_clusters opt) w0 = (Inr items, w1) \<and> distinct (map cl_Name clusters) \<and>
    (\<forall>c \<in> set clusters. cl_Status c = ClusterReady \<and> (\<exists>cm \<in> set items. describes cm c))"
proof -
  from assms(1,2,4) obtain kubeCli w0 h w1 where
    build: "buildMultiClusterEventHandler A health opt kubeCli w0 = Some (Inr h, w1)" and hs: "hs = h # log_handlers opt"
    unfolding handler_Init_def
    by (auto simp: sbind_Inr or_fatal_Inr sret_def log_handlers_def split: if_splits)
  from build obtain m w2 where m: "NewClusterManager (al_cluster A) kubeCli (owned_clusters opt) health w0 = (Inr m, w2)"
    and h: "NewKubeMultiClusterEventHandler A m w2 = Some (Inr h, w1)"
    unfolding buildMulti_eq by (auto split: prod.splits sum.splits)
  from m obtain items w3 where list: "lb_direct (al_cluster A) (owned_clusters opt) w0 = (Inr items, w3)"
    by (auto simp: NewClusterManager_def preStart_def getClusterConfigmap_def Let_def split: prod.splits sum.splits)
  note ok = NewClusterManager_ok [OF list assms(3) [rule_format, OF list] m]
  let ?cs = "map (cluster_at m) (cm_clusters m)"
  from h GetAll_ready [of m] ok obtain hs' where
    all: "kube_handlers A (map cl_Client ?cs) [] w2 = Some (Inr hs', w1)" and "h = multi_handler hs'"
    by (auto simp: NewKubeMultiClusterEventHandler_def sbind_Inr sret_def comp_def)
  moreover have "hs' = map (\<lambda>c. single_handler (al_api A (cl_Client c)) (al_unmarshal A)) ?cs"
    using kube_handlers_spec [OF all] by (simp add: comp_def)
  moreover have "distinct (map cl_Name ?cs)"
    using manager_okD(1) [OF conjunct1 [OF ok]] by (simp add: name_at_def [abs_def] comp_def)
  moreover have "\<forall>c \<in> set ?cs. cl_Status c = ClusterReady \<and> (\<exists>cm \<in> set items. describes cm c)"
    using conjunct2 [OF ok] by (auto simp: describes_def)
  ultimately have "hs = multi_handler (map (\<lambda>c. single_handler (al_api A (cl_Client c)) (al_unmarshal A)) ?cs) # log_handlers opt \<and>
    lb_direct (al_cluster A) (owned_clusters opt) w0 = (Inr items, w3) \<and> distinct (map cl_Name ?cs) \<and>
    (\<forall>c \<in> set ?cs. cl_Status c = ClusterReady \<and> (\<exists>cm \<in> set items. describes cm c))"
    using hs list by simp
  then show ?thesis by - (intro exI, assumption)
qed

section \<open>A start\<close>

definition demo_alibs :: "(string, string, string, mem_world, unit) adapter_libs" where
  "demo_alibs = \<lparr>
     al_cluster = \<lparr>
       lb_Load = \<lambda>s. if s = [] then Inl ''no configuration'' else Inr s,
       lb_ClientConfig = \<lambda>s. Inr \<lparr>rf_Base = s, rf_QPS = 0, rf_Burst = 0\<rparr>,
       lb_NewForConfig = \<lambda>cfg. Inr (rf_Base cfg),
       lb_NewManager = \<lambda>cfg w. (Inr \<lparr>cc_Pod = silent_client, cc_Deployment = silent_client, cc_Node = silent_client,
         cc_StatefulSet = silent_client, cc_Service = silent_client, cc_Endpoints = silent_client, cc_Event = silent_client\<rparr>, w),
       lb_healthz = \<lambda>k w. (Inr ''ok'', w),
       lb_cached = \<lambda>opt w. (Inr [described_by ''a'' ''one'', described_by ''b'' []], w),
       lb_direct = \<lambda>opt w. (Inr [described_by ''a'' ''one'', described_by ''b'' []], w)\<rparr>,
     al_GetConfig = \<lambda>w. (Inr \<lparr>rf_Base = ''default'', rf_QPS = 0, rf_Burst = 0\<rparr>, w),
     al_ClientConfig = \<lambda>path ctx w. (Inl ''no file'', w),
     al_NewManager = \<lambda>cfg o1 w. (Inr \<lparr>cc_Pod = silent_client, cc_Deployment = silent_client, cc_Node = silent_client,
         cc_StatefulSet = silent_client, cc_Service = silent_client, cc_Endpoints = silent_client, cc_Event = silent_client\<rparr>, w),
     al_api = \<lambda>_. mem_api,
     al_GetInformer = \<lambda>_ _ w. w,
     al_Start = \<lambda>_ w. w,
     al_WaitForCacheSync = \<lambda>_ stopped w. (\<not> stopped, w),
     al_stopped = \<lambda>_. False,
     al_unmarshal = \<lambda>_. None\<rparr>"

abbreviation demo_health0 :: "mem_world health_handler" where
  "demo_health0 \<equiv> \<lparr>hh_liveness = [], hh_readiness = []\<rparr>"



theorem Init_never_fails_witness:
  "handler_Init demo_alibs demo_health0 (ao_EventHandlers DefaultAdapterOption\<lparr>eo_EnableK8s := False, eo_EnableDebugLog := True\<rparr>)
     empty_world = Some (Inr [log_handler], empty_world)"
proof -
  let ?opt = "ao_EventHandlers DefaultAdapterOption\<lparr>eo_EnableK8s := False, eo_EnableDebugLog := True\<rparr>"
  have "log_handlers ?opt = [log_handler]" "\<not> eo_EnableK8s ?opt" by (simp_all add: log_handlers_def)
  with Init_never_fails [of demo_alibs demo_health0 ?opt empty_world] show ?thesis by simp
qed

theorem Init_handles_ready_clusters_witness:
  "\<exists>clusters. fst (the (handler_Init demo_alibs demo_health0 (ao_EventHandlers DefaultAdapterOption\<lparr>eo_IsMultiClusters := True\<rparr>) empty_world)) =
     Inr [multi_handler (map (\<lambda>c. single_handler mem_api (\<lambda>_. None)) clusters)] \<and>
     distinct (map cl_Name clusters) \<and> list_all (\<lambda>c. cl_Status c = ''Ready'') (clusters :: (string, string, mem_world, unit) cluster list)"
proof -
  let ?opt = "ao_EventHandlers DefaultAdapterOption\<lparr>eo_IsMultiClusters := True\<rparr>"
  let ?run = "handler_Init demo_alibs demo_health0 ?opt empty_world"
  have "\<not> Option.is_none ?run" "\<not> isl (fst (the ?run))" by code_simp+
  then obtain hs w' where run: "?run = Some (Inr hs, w')"
    by (cases ?run; cases "fst (the ?run)") auto
  have lists: "\<forall>o1 w items w1. lb_direct (al_cluster demo_alibs) o1 w = (Inr items, w1) \<longrightarrow> distinct (map cfm_Name items)"
    by (auto simp: demo_alibs_def described_by_def)
  have opt: "eo_EnableK8s ?opt" "eo_IsMultiClusters ?opt" "log_handlers ?opt = []"
    by (simp_all add: DefaultAdapterOption_def log_handlers_def)
  have libs: "al_api demo_alibs c = mem_api" "al_unmarshal demo_alibs = (\<lambda>_. None)" for c by (simp_all add: demo_alibs_def)
  from Init_handles_ready_clusters [OF opt(1,2) lists run] run show ?thesis
    by (auto simp: opt libs list_all_iff ClusterReady_def)
qed

end
