(* ===== verification/WorkPool.thy ===== *)
theory WorkPool
  imports Prelude "HOL-Library.Multiset"
begin

text \<open>
  \<^verbatim>\<open>pkg/utils\<close>: the worker pool that the path caches hand their tasks to, and the components the process
  starts side by side. The goroutines are the state of a step relation: the workers that wait for a
  task, the tasks that run on a worker or on a goroutine of their own, and the callers that wait in
  one of the pool's select statements.
\<close>

section \<open>The worker pool\<close>

text \<open>
  \<open>wp_sem\<close> counts the tokens in the channel \<open>sem\<close>, whose capacity is the size; \<open>wp_log\<close> records what was
  handed to the pool and \<open>wp_done\<close> what has been run, whether it returned or panicked.
\<close>

record 't worker_pool =
  wp_size :: nat
  wp_sem :: nat
  wp_idle :: nat
  wp_busy :: "'t multiset"
  wp_loose :: "'t multiset"
  wp_waiting :: "'t multiset"
  wp_second :: "'t multiset"
  wp_log :: "'t multiset"
  wp_done :: "'t multiset"

definition NewWorkerPool :: "nat \<Rightarrow> 't worker_pool" where
  "NewWorkerPool n = \<lparr>wp_size = n, wp_sem = 0, wp_idle = 0, wp_busy = {#}, wp_loose = {#}, wp_waiting = {#},
     wp_second = {#}, wp_log = {#}, wp_done = {#}\<rparr>"

text \<open>The cases of the select statements, each with what makes it ready.\<close>

definition can_hand :: "'t worker_pool \<Rightarrow> bool" where "can_hand p \<longleftrightarrow> 0 < wp_idle p"
definition can_spawn :: "'t worker_pool \<Rightarrow> bool" where "can_spawn p \<longleftrightarrow> wp_sem p < wp_size p"

definition hand :: "'t \<Rightarrow> 't worker_pool \<Rightarrow> 't worker_pool" where
  "hand t p = p\<lparr>wp_idle := wp_idle p - 1, wp_busy := add_mset t (wp_busy p)\<rparr>"

definition spawnWorker :: "'t \<Rightarrow> 't worker_pool \<Rightarrow> 't worker_pool" where
  "spawnWorker t p = p\<lparr>wp_sem := wp_sem p + 1, wp_busy := add_mset t (wp_busy p)\<rparr>"

definition GoWithRecover :: "'t \<Rightarrow> 't worker_pool \<Rightarrow> 't worker_pool" where
  "GoWithRecover t p = p\<lparr>wp_loose := add_mset t (wp_loose p)\<rparr>"

definition submitted :: "'t \<Rightarrow> 't worker_pool \<Rightarrow> 't worker_pool" where
  "submitted t p = p\<lparr>wp_log := add_mset t (wp_log p)\<rparr>"

text \<open>\<open>Schedule\<close>: a select without default; the caller waits until one of its cases is ready.\<close>

definition Schedule :: "'t \<Rightarrow> 't worker_pool \<Rightarrow> 't worker_pool" where
  "Schedule t p = (submitted t p)\<lparr>wp_waiting := add_mset t (wp_waiting p)\<rparr>"

text \<open>The outcomes of a select over both cases, with or without default.\<close>

definition select_outcomes :: "bool \<Rightarrow> 't \<Rightarrow> 't worker_pool \<Rightarrow> 't worker_pool list" where
  "select_outcomes has_default t p =
     (if can_hand p then [hand t p] else []) @ (if can_spawn p then [spawnWorker t p] else []) @
     (if has_default \<and> \<not> can_hand p \<and> \<not> can_spawn p then [GoWithRecover t p] else [])"

definition ScheduleAlways :: "'t \<Rightarrow> 't worker_pool \<Rightarrow> 't worker_pool list" where
  "ScheduleAlways t p = select_outcomes True t (submitted t p)"

text \<open>\<open>ScheduleAuto\<close> tries a waiting worker first; between its two selects the pool may change.\<close>

definition ScheduleAuto :: "'t \<Rightarrow> 't worker_pool \<Rightarrow> 't worker_pool" where
  "ScheduleAuto t p =
     (let p = submitted t p in
      if can_hand p then hand t p else p\<lparr>wp_second := add_mset t (wp_second p)\<rparr>)"

text \<open>
  One step of the goroutines. A worker whose task returns waits for the next one; a worker whose task
  panics ends and gives its token back; other goroutines end either way.
\<close>

inductive wp_step :: "'t worker_pool \<Rightarrow> 't worker_pool \<Rightarrow> bool" where
  schedule: "wp_step p (Schedule t p)"
| always: "p' \<in> set (ScheduleAlways t p) \<Longrightarrow> wp_step p p'"
| auto: "wp_step p (ScheduleAuto t p)"
| waited: "t \<in># wp_waiting p \<Longrightarrow> p' \<in> set (select_outcomes False t (p\<lparr>wp_waiting := wp_waiting p - {#t#}\<rparr>)) \<Longrightarrow> wp_step p p'"
| second: "t \<in># wp_second p \<Longrightarrow> p' \<in> set (select_outcomes True t (p\<lparr>wp_second := wp_second p - {#t#}\<rparr>)) \<Longrightarrow> wp_step p p'"
| returned: "t \<in># wp_busy p \<Longrightarrow>
    wp_step p (p\<lparr>wp_busy := wp_busy p - {#t#}, wp_idle := wp_idle p + 1, wp_done := add_mset t (wp_done p)\<rparr>)"
| panicked: "t \<in># wp_busy p \<Longrightarrow>
    wp_step p (p\<lparr>wp_busy := wp_busy p - {#t#}, wp_sem := wp_sem p - 1, wp_done := add_mset t (wp_done p)\<rparr>)"
| ended: "t \<in># wp_loose p \<Longrightarrow>
    wp_step p (p\<lparr>wp_loose := wp_loose p - {#t#}, wp_done := add_mset t (wp_done p)\<rparr>)"

inductive wp_run :: "nat \<Rightarrow> 't worker_pool \<Rightarrow> bool" for n :: nat where
  new: "wp_run n (NewWorkerPool n)"
| more: "wp_run n p \<Longrightarrow> wp_step p p' \<Longrightarrow> wp_run n p'"

section \<open>What the pool promises\<close>

definition wp_ok :: "nat \<Rightarrow> 't worker_pool \<Rightarrow> bool" where
  "wp_ok n p \<longleftrightarrow> wp_size p = n \<and> wp_sem p = wp_idle p + size (wp_busy p) \<and> wp_sem p \<le> n \<and>
     wp_log p = wp_done p + wp_busy p + wp_loose p + wp_waiting p + wp_second p"

lemmas pool_defs = select_outcomes_def can_hand_def can_spawn_def hand_def spawnWorker_def GoWithRecover_def submitted_def

text \<open>A caller that leaves its select: the task is now where the select put it.\<close>

lemma select_ok:
  assumes "p' \<in> set (select_outcomes d t p)" and "wp_size p = n" and "wp_sem p = wp_idle p + size (wp_busy p)"
    and "wp_sem p \<le> n" and "wp_log p = add_mset t (wp_done p + wp_busy p + wp_loose p + wp_waiting p + wp_second p)"
  shows "wp_ok n p'"
  using assms by (auto simp: pool_defs wp_ok_def split: if_splits)

lemma wp_step_ok:
  assumes "wp_step p p'" and "wp_ok n p"
  shows "wp_ok n p'"
  using assms
proof cases
  case (schedule t)
  with assms(2) show ?thesis by (simp add: Schedule_def submitted_def wp_ok_def)
next
  case (always t)
  show ?thesis
    by (rule select_ok [OF always [unfolded ScheduleAlways_def]]) (use assms(2) in \<open>simp_all add: wp_ok_def submitted_def\<close>)
next
  case (auto t)
  with assms(2) show ?thesis by (auto simp: ScheduleAuto_def Let_def pool_defs wp_ok_def)
next
  case (waited t)
  show ?thesis
    by (rule select_ok [OF waited(2)])
      (use assms(2) waited(1) in \<open>auto simp: wp_ok_def dest!: multi_member_split\<close>)
next
  case (second t)
  show ?thesis
    by (rule select_ok [OF second(2)])
      (use assms(2) second(1) in \<open>auto simp: wp_ok_def dest!: multi_member_split\<close>)
next
  case (returned t)
  with assms(2) show ?thesis by (auto simp: wp_ok_def dest!: multi_member_split)
next
  case (panicked t)
  with assms(2) show ?thesis by (auto simp: wp_ok_def dest!: multi_member_split)
next
  case (ended t)
  with assms(2) show ?thesis by (auto simp: wp_ok_def dest!: multi_member_split)
qed

text \<open>
  C38: in every run the pool has never more workers than its size, however the tasks end, and every task
  handed to it is at any time in exactly one place: it has been run, runs, or waits in a call of
  the pool; none is lost and none is run twice. A call of Schedule only waits while as many tasks as
  the size are running: whenever fewer run, one of the cases of its select is ready.
\<close>

theorem wp_run_bounded:
  assumes "wp_run n p"
  shows "wp_idle p + size (wp_busy p) \<le> n \<and>
    wp_log p = wp_done p + wp_busy p + wp_loose p + wp_waiting p + wp_second p \<and>
    (t \<in># wp_waiting p \<and> size (wp_busy p) < n \<longrightarrow>
       select_outcomes False t (p\<lparr>wp_waiting := wp_waiting p - {#t#}\<rparr>) \<noteq> [])"
proof -
  have "wp_ok n p" using assms
  proof (induction rule: wp_run.induct)
    case new
    then show ?case by (simp add: wp_ok_def NewWorkerPool_def)
  qed (rule wp_step_ok)
  then show ?thesis by (auto simp: wp_ok_def pool_defs)
qed

section \<open>Components\<close>

text \<open>
  The components of a process. The variable \<open>errChan\<close> of the code is declared and never made: a nil
  channel, on which a send waits forever and which a select never finds ready. A channel is a
  buffer of what was sent to it, a nil channel none.
\<close>

record 'r components =
  co_started :: bool
  co_components :: "'r list"

definition components_Add :: "'r \<Rightarrow> 'r components \<Rightarrow> 'r components option" where
  "components_Add r c = (if co_started c then None else Some (c\<lparr>co_components := co_components c @ [r]\<rparr>))"

text \<open>What happens while \<open>Start\<close> waits: a component ends with an error or none, or the process stops.\<close>

datatype 'e wait_event = ComponentEnded "'e option" | StopClosed

fun await :: "'e option list option \<Rightarrow> 'e wait_event list \<Rightarrow> 'e option option" where
  "await errChan [] = None"
| "await errChan (StopClosed # es) = Some None"
| "await errChan (ComponentEnded err # es) =
     (case errChan of None \<Rightarrow> await None es | Some buf \<Rightarrow> Some err)"

text \<open>No value: \<open>Start\<close> still waits. The error of a second call is \<open>None\<close> in the left summand.\<close>

definition components_Start :: "'r components \<Rightarrow> 'e wait_event list \<Rightarrow> (unit + 'e option) option \<times> 'r components" where
  "components_Start c events =
     (if co_started c then (Some (Inl ()), c)
      else (let errChan = None in (map_option Inr (await errChan events), c\<lparr>co_started := True\<rparr>)))"

lemma await_nil: "await None es = (if StopClosed \<in> set es then Some None else None)"
proof (induction es)
  case (Cons e es)
  then show ?case by (cases e) simp_all
qed simp

text \<open>
  The failure of a component never ends Start: whatever the components report, Start returns only when
  the process is stopped, and then without an error.
\<close>

theorem components_Start_drops_errors:
  assumes "\<not> co_started c"
  shows "components_Start c (events :: 'e wait_event list) =
    (if StopClosed \<in> set events then Some (Inr None) else None, c\<lparr>co_started := True\<rparr>)"
  using assms by (simp add: components_Start_def await_nil)

theorem components_Start_drops_errors_witness:
  "fst (components_Start \<lparr>co_started = False, co_components = [()]\<rparr> [ComponentEnded (Some ''address in use'')]) = None"
  by (subst components_Start_drops_errors) simp_all

text \<open>One worker: the first task gets it, the second is still between the two selects.\<close>

definition demo_pool :: "nat worker_pool" where
  "demo_pool = ScheduleAuto 8 (hd (ScheduleAlways 7 (NewWorkerPool 1)))"

lemma demo_pool_run: "wp_run 1 demo_pool"
proof -
  have "hd (ScheduleAlways (7 :: nat) (NewWorkerPool 1)) \<in> set (ScheduleAlways 7 (NewWorkerPool 1))"
    by (simp add: ScheduleAlways_def pool_defs NewWorkerPool_def)
  from wp_run.more [OF wp_run.new wp_step.always [OF this]] show ?thesis
    unfolding demo_pool_def by (rule wp_run.more) (rule wp_step.auto)
qed

theorem wp_run_bounded_witness:
  "wp_idle demo_pool + size (wp_busy demo_pool) \<le> 1 \<and> wp_busy demo_pool = {#7#} \<and> wp_second demo_pool = {#8#}"
  using wp_run_bounded [OF demo_pool_run, of 7]
  by (simp add: demo_pool_def ScheduleAuto_def ScheduleAlways_def pool_defs NewWorkerPool_def Let_def)

end
