(* ===== verification/CommandLine.thy ===== *)
theory CommandLine
  imports AdapterStart Router WorkPool
begin

text \<open>
  The command line (\<^verbatim>\<open>cmd/meshach/app\<close>, \<^verbatim>\<open>pkg/option/root.go\<close>): the options and their flags, and what the
  commands \<open>adapter\<close> and \<open>controller\<close> do with them until they serve. Cobra and pflag read the
  arguments as a command and pairs of a flag and its value; parsing a value is a parameter.
\<close>

section \<open>Root options\<close>

record RootOption =
  rop_Kubeconfig :: string
  rop_ConfigContext :: string
  rop_Namespace :: string
  rop_DefaultNamespace :: string
  rop_DevelopmentMode :: bool
  rop_QPS :: rat
  rop_Burst :: int64

definition DefaultRootOption :: RootOption where
  "DefaultRootOption =
     \<lparr>rop_Kubeconfig = [], rop_ConfigContext = [], rop_Namespace = [], rop_DefaultNamespace = [],
      rop_DevelopmentMode = True, rop_QPS = 120, rop_Burst = 120\<rparr>"

definition GetK8sConfig :: "('a, 'g, 'k, 'w, 'o) adapter_libs \<Rightarrow> RootOption \<Rightarrow> ('w, 'g rest_config) start" where
  "GetK8sConfig A r =
     sbind (lib ''could not get k8s config: '' (GetConfigWithContext A (rop_Kubeconfig r) (rop_ConfigContext r))) (\<lambda>config.
     sret (SetDefaultQPS config (rop_QPS r) (sint (rop_Burst r))))"

definition GetKubeInterface :: "('a, 'g, 'k, 'w, 'o) adapter_libs \<Rightarrow> RootOption \<Rightarrow> ('w, 'k) start" where
  "GetKubeInterface A r =
     sbind (GetK8sConfig A r) (\<lambda>cfg.
     or_fatal (lib ''failed to get kubernetes Clientset: '' (\<lambda>w. (lb_NewForConfig (al_cluster A) cfg, w))))"

definition GetKubeInterfaceOrDie :: "('a, 'g, 'k, 'w, 'o) adapter_libs \<Rightarrow> RootOption \<Rightarrow> ('w, 'k) start" where
  "GetKubeInterfaceOrDie A r = or_fatal (GetKubeInterface A r)"

section \<open>Flags\<close>

text \<open>
  What pflag does with a flag: declaring it writes its default to the variable, and an occurrence writes the
  parsed value. A list of strings is replaced by the first occurrence and extended by further ones. No value
  is the error of a value that does not parse.
\<close>

record 'o flag =
  fl_Name :: string
  fl_Declare :: "'o \<Rightarrow> 'o"
  fl_Set :: "bool \<Rightarrow> string \<Rightarrow> 'o \<Rightarrow> 'o option"

record value_parsers =
  vp_bool :: "string \<Rightarrow> bool option"
  vp_int :: "nat \<Rightarrow> string \<Rightarrow> int option"
  vp_float :: "string \<Rightarrow> rat option"

definition parse_word :: "value_parsers \<Rightarrow> nat \<Rightarrow> string \<Rightarrow> 'a::len word option" where
  "parse_word P bits s = map_option word_of_int (vp_int P bits s)"

definition flag_var :: "(string \<Rightarrow> 'v option) \<Rightarrow> ('v \<Rightarrow> 'o \<Rightarrow> 'o) \<Rightarrow> string \<Rightarrow> ('o \<Rightarrow> 'v) \<Rightarrow> 'o flag" where
  "flag_var parse assign name value =
     \<lparr>fl_Name = name, fl_Declare = (\<lambda>opts. assign (value opts) opts),
      fl_Set = (\<lambda>first s opts. map_option (\<lambda>v. assign v opts) (parse s))\<rparr>"

definition array_var :: "(string list \<Rightarrow> 'o \<Rightarrow> 'o) \<Rightarrow> string \<Rightarrow> ('o \<Rightarrow> string list) \<Rightarrow> 'o flag" where
  "array_var assign name value =
     \<lparr>fl_Name = name, fl_Declare = (\<lambda>opts. assign (value opts) opts),
      fl_Set = (\<lambda>first s opts. Some (assign (if first then [s] else value opts @ [s]) opts))\<rparr>"

record command_options =
  cmd_root :: RootOption
  cmd_adapter :: AdapterOption
  cmd_controller :: ControllerOption

abbreviation (input) "root_opt f \<equiv> (\<lambda>v. cmd_root_update (f (\<lambda>_. v)))"
abbreviation (input) "ctl_opt f \<equiv> (\<lambda>v. cmd_controller_update (f (\<lambda>_. v)))"
abbreviation (input) "reg_opt f \<equiv> (\<lambda>v. cmd_adapter_update (ao_Registry_update (f (\<lambda>_. v))))"
abbreviation (input) "conf_opt f \<equiv> (\<lambda>v. cmd_adapter_update (ao_Configuration_update (f (\<lambda>_. v))))"
abbreviation (input) "handlers_opt f \<equiv> (\<lambda>v. cmd_adapter_update (ao_EventHandlers_update (f (\<lambda>_. v))))"

definition root_flags :: "value_parsers \<Rightarrow> command_options flag list" where
  "root_flags P =
     [flag_var Some (root_opt rop_Kubeconfig_update) ''kubeconfig'' (\<lambda>_. []),
      flag_var Some (root_opt rop_ConfigContext_update) ''context'' (\<lambda>_. []),
      flag_var Some (root_opt rop_Namespace_update) ''namespace'' (\<lambda>opt. rop_Namespace (cmd_root opt)),
      flag_var (vp_float P) (root_opt rop_QPS_update) ''qps'' (\<lambda>_. 0),
      flag_var (parse_word P 64) (root_opt rop_Burst_update) ''burst'' (\<lambda>_. 0)]"

definition adapter_flags :: "value_parsers \<Rightarrow> command_options flag list" where
  "adapter_flags P =
     [array_var (reg_opt ro_Address_update) ''reg-addr'' (\<lambda>opt. ro_Address (ao_Registry (cmd_adapter opt))),
      flag_var (parse_word P 64) (reg_opt ro_Timeout_update) ''reg-timeout'' (\<lambda>opt. ro_Timeout (ao_Registry (cmd_adapter opt))),
      array_var (conf_opt co_Address_update) ''conf-addr'' (\<lambda>opt. co_Address (ao_Configuration (cmd_adapter opt))),
      flag_var (parse_word P 64) (conf_opt co_Timeout_update) ''conf-timeout'' (\<lambda>opt. co_Timeout (ao_Configuration (cmd_adapter opt))),
      flag_var (vp_bool P) (handlers_opt eo_IsMultiClusters_update) ''is-multi-clusters''
        (\<lambda>opt. eo_IsMultiClusters (ao_EventHandlers (cmd_adapter opt))),
      flag_var (parse_word P 64) (handlers_opt eo_AcceleratorSize_update) ''acc-size''
        (\<lambda>opt. eo_AcceleratorSize (ao_EventHandlers (cmd_adapter opt))),
      flag_var Some (handlers_opt eo_ClusterOwner_update) ''cluster-owner''
        (\<lambda>opt. eo_ClusterOwner (ao_EventHandlers (cmd_adapter opt))),
      flag_var Some (handlers_opt eo_ClusterNamespace_update) ''cluster-namespace''
        (\<lambda>opt. eo_ClusterNamespace (ao_EventHandlers (cmd_adapter opt)))]"

definition controller_flags :: "value_parsers \<Rightarrow> command_options flag list" where
  "controller_flags P =
     [flag_var Some (ctl_opt op_HTTPAddress_update) ''http-address'' (\<lambda>opt. op_HTTPAddress (cmd_controller opt)),
      flag_var (parse_word P 32) (ctl_opt op_SyncPeriod_update) ''sync-period'' (\<lambda>opt. op_SyncPeriod (cmd_controller opt)),
      flag_var (vp_bool P) (ctl_opt op_MetricsEnabled_update) ''metrics-enables'' (\<lambda>opt. op_MetricsEnabled (cmd_controller opt)),
      flag_var Some (ctl_opt op_LeaderElectionNamespace_update) ''leader-election-namespace''
        (\<lambda>opt. op_LeaderElectionNamespace (cmd_controller opt)),
      flag_var Some (ctl_opt op_LeaderElectionID_update) ''leader-election-id'' (\<lambda>opt. op_LeaderElectionID (cmd_controller opt)),
      flag_var (vp_bool P) (ctl_opt op_EnableLeaderElection_update) ''leader-enable''
        (\<lambda>opt. op_EnableLeaderElection (cmd_controller opt)),
      flag_var (vp_bool P) (ctl_opt op_GinLogEnabled_update) ''enable-ginlog'' (\<lambda>opt. op_GinLogEnabled (cmd_controller opt)),
      flag_var (vp_bool P) (ctl_opt op_PprofEnabled_update) ''enable-pprof'' (\<lambda>opt. op_PprofEnabled (cmd_controller opt)),
      flag_var (vp_int P 64) (ctl_opt op_GoroutineThreshold_update) ''goroutine-threshold''
        (\<lambda>opt. op_GoroutineThreshold (cmd_controller opt)),
      flag_var Some (ctl_opt op_ProxyHost_update) ''proxy-host'' (\<lambda>opt. op_ProxyHost (cmd_controller opt)),
      flag_var (parse_word P 32) (ctl_opt op_ProxyAttempts_update) ''proxy-attempts''
        (\<lambda>opt. op_ProxyAttempts (cmd_controller opt)),
      flag_var (parse_word P 64) (ctl_opt op_ProxyPerTryTimeout_update) ''proxy-pertrytimeout''
        (\<lambda>opt. op_ProxyPerTryTimeout (cmd_controller opt)),
      flag_var Some (ctl_opt op_ProxyRetryOn_update) ''proxy-retryon'' (\<lambda>opt. op_ProxyRetryOn (cmd_controller opt)),
      flag_var Some (ctl_opt op_MeshConfigName_update) ''meshconfig-name'' (\<lambda>opt. op_MeshConfigName (cmd_controller opt)),
      flag_var Some (ctl_opt op_MeshConfigNamespace_update) ''meshconfig-namespace''
        (\<lambda>opt. op_MeshConfigNamespace (cmd_controller opt)),
      flag_var Some (ctl_opt op_SelectLabel_update) ''selectlabel'' (\<lambda>opt. op_SelectLabel (cmd_controller opt)),
      flag_var (vp_int P 64) (ctl_opt op_MaxConcurrentReconciles_update) ''max-concurrent-reconciles''
        (\<lambda>opt. op_MaxConcurrentReconciles (cmd_controller opt)),
      flag_var (vp_bool P) (ctl_opt op_EnableAppMeshConfig_update) ''enable-appmeshconfig''
        (\<lambda>opt. op_EnableAppMeshConfig (cmd_controller opt)),
      flag_var (vp_bool P) (ctl_opt op_EnableConfiguredService_update) ''enable-configuredservice''
        (\<lambda>opt. op_EnableConfiguredService (cmd_controller opt)),
      flag_var (vp_bool P) (ctl_opt op_EnableMeshConfig_update) ''enable-meshconfig''
        (\<lambda>opt. op_EnableMeshConfig (cmd_controller opt)),
      flag_var (vp_bool P) (ctl_opt op_EnableIstioConfig_update) ''enable-istioconfig''
        (\<lambda>opt. op_EnableIstioConfig (cmd_controller opt)),
      flag_var (vp_bool P) (ctl_opt op_EnableServiceConfig_update) ''enable-serviceconfig''
        (\<lambda>opt. op_EnableServiceConfig (cmd_controller opt)),
      flag_var (vp_bool P) (ctl_opt op_EnableServiceAccessor_update) ''enable-serviceaccessor''
        (\<lambda>opt. op_EnableServiceAccessor (cmd_controller opt)),
      flag_var (vp_bool P) (ctl_opt op_WatchIstioCRD_update) ''watch-istio-crd'' (\<lambda>opt. op_WatchIstioCRD (cmd_controller opt))]"

section \<open>Commands\<close>

datatype command = RootCmd | AdapterCmd | ControllerCmd | VersionCmd

text \<open>The flags of the root are persistent: every command has them.\<close>

definition command_flags :: "value_parsers \<Rightarrow> command \<Rightarrow> command_options flag list" where
  "command_flags P cmd =
     root_flags P @ (case cmd of AdapterCmd \<Rightarrow> adapter_flags P | ControllerCmd \<Rightarrow> controller_flags P | _ \<Rightarrow> [])"

text \<open>The options when all commands are declared.\<close>

definition GetRootCmd :: "value_parsers \<Rightarrow> command_options" where
  "GetRootCmd P =
     fold fl_Declare (root_flags P @ adapter_flags P @ controller_flags P)
       \<lparr>cmd_root = DefaultRootOption, cmd_adapter = DefaultAdapterOption, cmd_controller = DefaultControllerOption\<rparr>"

text \<open>
  Parsing the occurrences in their order; \<open>gos\<close> are the flags of Go's own set, those of klog, which set nothing
  here. No value is the error of \<open>Execute\<close>, with which \<open>main\<close> exits.
\<close>

fun parse_flags :: "'o flag list \<Rightarrow> string list \<Rightarrow> string list \<Rightarrow> (string \<times> string) list \<Rightarrow> 'o \<Rightarrow> 'o option" where
  "parse_flags flags gos seen [] opts = Some opts"
| "parse_flags flags gos seen ((name, v) # occs) opts =
     (case find (\<lambda>f. fl_Name f = name) flags of
        Some f \<Rightarrow> Option.bind (fl_Set f (name \<notin> set seen) v opts) (parse_flags flags gos (name # seen) occs)
      | None \<Rightarrow> if name \<in> set gos then parse_flags flags gos seen occs opts else None)"

definition Execute :: "value_parsers \<Rightarrow> string list \<Rightarrow> command \<Rightarrow> (string \<times> string) list \<Rightarrow> command_options option" where
  "Execute P gos cmd occs = parse_flags (command_flags P cmd) gos [] occs (GetRootCmd P)"

text \<open>What the command \<open>adapter\<close> copies from the root options, and its run up to the loop.\<close>

definition adapter_command_options :: "command_options \<Rightarrow> AdapterOption" where
  "adapter_command_options opts =
     (let ropt = cmd_root opts; opt = cmd_adapter opts in
      opt\<lparr>ao_EventHandlers := (ao_EventHandlers opt)\<lparr>eo_Kubeconfig := rop_Kubeconfig ropt,
        eo_ConfigContext := rop_ConfigContext ropt, eo_QPS := rop_QPS ropt, eo_Burst := rop_Burst ropt\<rparr>\<rparr>)"

definition adapter_Run ::
  "('a, 'g, 'k, 'w, 'o) adapter_libs \<Rightarrow> 'w health_handler \<Rightarrow>
   (string, Registry_option \<Rightarrow> registry_client option) gomap \<Rightarrow>
   (string, Configuration_option \<Rightarrow> config_client option) gomap \<Rightarrow> 'z zkconn \<Rightarrow> 'z \<Rightarrow>
   command_options \<Rightarrow> ('w, ('z, 'w) adapter) start" where
  "adapter_Run A health registryInstance configInstance conn z opts =
     sbind (or_fatal (NewAdapter A health registryInstance configInstance (adapter_command_options opts))) (\<lambda>a w.
     case adapter_Start conn a z w of
       None \<Rightarrow> Some (Inl (Fatal ''unable to start the adapter''), w)
     | Some running \<Rightarrow> Some (Inr running, w))"

section \<open>The controller process\<close>

record controller_manager_options =
  mo_Namespace :: string
  mo_SyncPeriodNs :: int64
  mo_MetricsAddress :: string
  mo_LeaderElectionOn :: bool
  mo_LeaderElectionNamespace :: string
  mo_LeaderElectionID :: string

text \<open>The manager of controller-runtime, gin, and the exporter of metrics, which can be created or not.\<close>

record ('g, 'e, 'm, 'w) controller_libs =
  kl_NewManager :: "'g rest_config \<Rightarrow> controller_manager_options \<Rightarrow> 'w \<Rightarrow> (string + 'm) \<times> 'w"
  kl_AddToScheme :: "string \<Rightarrow> 'm \<Rightarrow> string option \<times> 'm"
  kl_manager :: "'m ctrl_manager"
  kl_Start :: "'m \<Rightarrow> 'w \<Rightarrow> string option \<times> 'w"
  kl_gin :: "'e gin"
  kl_exporter :: bool
  kl_NumGoroutine :: "'w \<Rightarrow> int"

record ('e, 'm, 'w) controller_process =
  cp_manager :: 'm
  cp_router :: "'e router"
  cp_health :: "'w health_handler"
  cp_components :: "'e router components"

definition or_die :: "'a option \<Rightarrow> ('w, 'a) start" where
  "or_die r = (case r of None \<Rightarrow> sexit (Fatal ''panic'') | Some x \<Rightarrow> sret x)"

text \<open>A call that returns an error or nil, which ends the process.\<close>

definition checked :: "string option \<times> 'm \<Rightarrow> ('w, 'm) start" where
  "checked r = (case r of (Some err, m) \<Rightarrow> sexit (Fatal err) | (None, m) \<Rightarrow> sret m)"

definition controller_router_options :: "ControllerOption \<Rightarrow> router_options" where
  "controller_router_options opt =
     \<lparr>rp_GinLogEnabled = op_GinLogEnabled opt, rp_GinLogSkipPath = op_GinLogSkipPath opt,
      rp_PprofEnabled = op_PprofEnabled opt, rp_MetricsEnabled = op_MetricsEnabled opt, rp_Addr = op_HTTPAddress opt,
      rp_MetricsSubsystem = ''controller'', rp_MetricsPath = ''metrics'', rp_ShutdownTimeout = 0,
      rp_CertFilePath = [], rp_KeyFilePath = []\<rparr>"

definition Minute :: int64 where "Minute = 60000000000"

definition controller_setup ::
  "('a, 'g, 'k, 'w, 'o) adapter_libs \<Rightarrow> ('g, 'e, 'm, 'w) controller_libs \<Rightarrow> 'w health_handler option \<Rightarrow>
   command_options \<Rightarrow> ('w, ('e, 'm, 'w) controller_process) start" where
  "controller_setup A K handler opts =
     (let ropt = cmd_root opts; opt = cmd_controller opts in
      sbind (or_fatal (GetK8sConfig A ropt)) (\<lambda>cfg.
      let options = \<lparr>mo_Namespace = rop_Namespace ropt, mo_SyncPeriodNs = Minute * scast (op_SyncPeriod opt),
            mo_MetricsAddress = ''0'', mo_LeaderElectionOn = op_EnableLeaderElection opt,
            mo_LeaderElectionNamespace = op_LeaderElectionNamespace opt, mo_LeaderElectionID = op_LeaderElectionID opt\<rparr> in
      sbind (or_fatal (lib ''unable to new manager err: '' (kl_NewManager K cfg options))) (\<lambda>mgr.
      let healthHandler = AddLivenessCheck ''goroutine_threshold''
            (GoroutineCountCheck (kl_NumGoroutine K) (op_GoroutineThreshold opt)) (fst (GetHealthHandler handler)) in
      sbind (or_die (NewRouter (kl_gin K) (kl_exporter K) (controller_router_options opt))) (\<lambda>rt.
      sbind (or_die (AddRoutes (kl_gin K) ''index'' DefaultRoutes rt)) (\<lambda>rt.
      sbind (or_die (AddRoutes (kl_gin K) ''health'' health_Routes rt)) (\<lambda>rt.
      sbind (or_die (components_Add rt \<lparr>co_started = False, co_components = []\<rparr>)) (\<lambda>components.
      sbind (checked (kl_AddToScheme K ''meshv1'' mgr)) (\<lambda>mgr.
      sbind (checked (kl_AddToScheme K ''networkingv1beta1'' mgr)) (\<lambda>mgr.
      sbind (checked (AddToManager (kl_manager K) opt mgr)) (\<lambda>mgr.
      sret \<lparr>cp_manager = mgr, cp_router = rt, cp_health = healthHandler, cp_components = components\<rparr>))))))))))"

definition controller_Run ::
  "('a, 'g, 'k, 'w, 'o) adapter_libs \<Rightarrow> ('g, 'e, 'm, 'w) controller_libs \<Rightarrow> 'w health_handler option \<Rightarrow>
   command_options \<Rightarrow> ('w, unit) start" where
  "controller_Run A K handler opts =
     sbind (controller_setup A K handler opts) (\<lambda>p w.
     case kl_Start K (cp_manager p) w of
       (Some err, w') \<Rightarrow> Some (Inl (Fatal err), w')
     | (None, w') \<Rightarrow> Some (Inr (), w'))"

section \<open>The values of flags\<close>

text \<open>The value of a flag: that of its last occurrence, or the one it has before.\<close>

definition flag_value :: "(string \<Rightarrow> 'v option) \<Rightarrow> 'v \<Rightarrow> string \<Rightarrow> (string \<times> string) list \<Rightarrow> 'v" where
  "flag_value parse old name occs = fold (\<lambda>(n, s) v. if n = name then the (parse s) else v) occs old"

lemma flag_value_absent: "name \<notin> fst ` set occs \<Longrightarrow> flag_value parse old name occs = old"
  by (induction occs) (auto simp: flag_value_def)

lemma flag_value_last: "flag_value parse old name (occs @ [(name, s)]) = the (parse s)"
  by (simp add: flag_value_def)

text \<open>The flags write a field only for one name, and then its parsed value.\<close>

definition sets_field :: "'o flag \<Rightarrow> ('o \<Rightarrow> 'v) \<Rightarrow> (string \<Rightarrow> 'v option) \<Rightarrow> string \<Rightarrow> bool" where
  "sets_field f field parse name \<longleftrightarrow>
     (\<forall>first s opts opts'. fl_Set f first s opts = Some opts' \<longrightarrow>
       field opts' = (if fl_Name f = name then the (parse s) else field opts))"

lemma parse_flags_value:
  assumes "list_all (\<lambda>f. sets_field f field parse name) flags" and "name \<in> fl_Name ` set flags"
    and "parse_flags flags gos seen occs opts = Some opts'"
  shows "field opts' = flag_value parse (field opts) name occs"
  using assms(3)
proof (induction occs arbitrary: seen opts)
  case Nil
  then show ?case by (simp add: flag_value_def)
next
  case (Cons occ occs)
  obtain n s where occ: "occ = (n, s)" by fastforce
  show ?case
  proof (cases "find (\<lambda>f. fl_Name f = n) flags")
    case None
    then have "n \<noteq> name" using assms(2) by (auto simp: find_None_iff)
    with None Cons show ?thesis by (auto simp: occ flag_value_def split: if_splits)
  next
    case (Some f)
    then have f: "f \<in> set flags" "fl_Name f = n" by (auto simp: find_Some_iff)
    from Some Cons.prems obtain opts1 where set1: "fl_Set f (n \<notin> set seen) s opts = Some opts1"
      and rest: "parse_flags flags gos (n # seen) occs opts1 = Some opts'" by (auto simp: occ bind_eq_Some_conv)
    have "field opts1 = (if n = name then the (parse s) else field opts)"
      using assms(1) f set1 unfolding list_all_iff sets_field_def by blast
    with Cons.IH [OF rest] show ?thesis by (simp add: occ flag_value_def)
  qed
qed

text \<open>A field that no flag writes.\<close>

definition keeps_field :: "'o flag \<Rightarrow> ('o \<Rightarrow> 'v) \<Rightarrow> bool" where
  "keeps_field f field \<longleftrightarrow> (\<forall>first s opts opts'. fl_Set f first s opts = Some opts' \<longrightarrow> field opts' = field opts)"

lemma parse_flags_keeps:
  assumes "list_all (\<lambda>f. keeps_field f field) flags"
    and "parse_flags flags gos seen occs opts = Some opts'"
  shows "field opts' = field opts"
  using assms(2)
proof (induction occs arbitrary: seen opts)
  case (Cons occ occs)
  obtain n s where occ: "occ = (n, s)" by fastforce
  show ?case
  proof (cases "find (\<lambda>f. fl_Name f = n) flags")
    case (Some f)
    then have f: "f \<in> set flags" by (auto simp: find_Some_iff)
    from Some Cons.prems obtain opts1 where "fl_Set f (n \<notin> set seen) s opts = Some opts1"
      and "parse_flags flags gos (n # seen) occs opts1 = Some opts'" by (auto simp: occ bind_eq_Some_conv)
    with Cons.IH assms(1) f show ?thesis by (fastforce simp: list_all_iff keeps_field_def)
  qed (use Cons in \<open>auto simp: occ split: if_splits\<close>)
qed simp

lemmas flag_defs = command_flags_def root_flags_def adapter_flags_def controller_flags_def flag_var_def array_var_def

lemma declared:
  "GetRootCmd P = \<lparr>cmd_root = DefaultRootOption\<lparr>rop_QPS := 0, rop_Burst := 0\<rparr>,
     cmd_adapter = DefaultAdapterOption, cmd_controller = DefaultControllerOption\<rparr>"
  by (simp add: GetRootCmd_def flag_defs DefaultRootOption_def DefaultAdapterOption_def DefaultControllerOption_def)

text \<open>No flag is declared twice, which pflag would not accept.\<close>

lemma flags_distinct: "distinct (map fl_Name (command_flags P cmd))"
  by (cases cmd) (simp_all add: flag_defs)

text \<open>The flags of a command write the fields they are for.\<close>

lemma sets_field_var:
  "sets_field (flag_var p assign n value) field parse name \<longleftrightarrow>
     (\<forall>s v opts. p s = Some v \<longrightarrow> field (assign v opts) = (if n = name then the (parse s) else field opts))"
  by (auto simp: sets_field_def flag_var_def)

lemma keeps_field_var:
  "keeps_field (flag_var p assign n value) field \<longleftrightarrow> (\<forall>s v opts. p s = Some v \<longrightarrow> field (assign v opts) = field opts)"
  by (auto simp: keeps_field_def flag_var_def)

lemma keeps_field_array: "(\<And>v opts. field (assign v opts) = field opts) \<Longrightarrow> keeps_field (array_var assign n value) field"
  by (simp add: keeps_field_def array_var_def)

lemma flag_names [simp]: "fl_Name (flag_var p assign n value) = n" "fl_Name (array_var a n v') = n"
  by (simp_all add: flag_var_def array_var_def)

lemma sets_field_array:
  "n \<noteq> name \<Longrightarrow> (\<And>v opts. field (assign v opts) = field opts) \<Longrightarrow> sets_field (array_var assign n value) field parse name"
  by (simp add: sets_field_def array_var_def)

lemma Execute_value:
  assumes "Execute P gos cmd occs = Some opts" and "list_all (\<lambda>f. sets_field f (\<lambda>opts. field (part opts)) parse name) (command_flags P cmd)"
    and "name \<in> fl_Name ` set (command_flags P cmd)" and "field (part (GetRootCmd P)) = old"
  shows "field (part opts) = flag_value parse old name occs"
  using parse_flags_value [OF assms(2,3)] assms(1,4) unfolding Execute_def by blast

lemma Execute_keeps:
  assumes "Execute P gos cmd occs = Some opts" and "list_all (\<lambda>f. keeps_field f field) (command_flags P cmd)"
  shows "field opts = field (GetRootCmd P)"
  using parse_flags_keeps [OF assms(2)] assms(1) unfolding Execute_def by blast

text \<open>A list is the default, or the values of all its occurrences in their order.\<close>

definition array_value :: "string list \<Rightarrow> string \<Rightarrow> (string \<times> string) list \<Rightarrow> string list" where
  "array_value old name occs =
     (if name \<in> fst ` set occs then map snd (filter (\<lambda>(n, s). n = name) occs) else old)"

definition sets_array :: "'o flag \<Rightarrow> ('o \<Rightarrow> string list) \<Rightarrow> string \<Rightarrow> bool" where
  "sets_array f field name \<longleftrightarrow>
     (\<forall>first s opts opts'. fl_Set f first s opts = Some opts' \<longrightarrow>
       field opts' = (if fl_Name f = name then (if first then [s] else field opts @ [s]) else field opts))"

lemma parse_flags_array:
  assumes "list_all (\<lambda>f. sets_array f field name) flags" and "name \<in> fl_Name ` set flags"
    and "parse_flags flags gos seen occs opts = Some opts'"
  shows "field opts' = (if name \<in> set seen then field opts @ map snd (filter (\<lambda>(n, s). n = name) occs)
    else array_value (field opts) name occs)"
  using assms(3)
proof (induction occs arbitrary: seen opts)
  case Nil
  then show ?case by (simp add: array_value_def)
next
  case (Cons occ occs)
  obtain n s where occ: "occ = (n, s)" by fastforce
  show ?case
  proof (cases "find (\<lambda>f. fl_Name f = n) flags")
    case None
    then have "n \<noteq> name" using assms(2) by (auto simp: find_None_iff)
    with None Cons show ?thesis by (auto simp: occ array_value_def split: if_splits)
  next
    case (Some f)
    then have f: "f \<in> set flags" "fl_Name f = n" by (auto simp: find_Some_iff)
    from Some Cons.prems obtain opts1 where set1: "fl_Set f (n \<notin> set seen) s opts = Some opts1"
      and rest: "parse_flags flags gos (n # seen) occs opts1 = Some opts'" by (auto simp: occ bind_eq_Some_conv)
    have "field opts1 = (if n = name then (if n \<notin> set seen then [s] else field opts @ [s]) else field opts)"
      using assms(1) f set1 unfolding list_all_iff sets_array_def by blast
    with Cons.IH [OF rest] show ?thesis by (auto simp: occ array_value_def)
  qed
qed

lemma sets_array_var:
  "(\<And>v opts. field (assign v opts) = field opts) \<Longrightarrow> n \<noteq> name \<Longrightarrow> sets_array (flag_var p assign n value) field name"
  by (auto simp: sets_array_def flag_var_def)

lemma sets_array_array:
  "sets_array (array_var assign n value) field name \<longleftrightarrow>
     (\<forall>first s opts. field (assign (if first then [s] else value opts @ [s]) opts) =
       (if n = name then (if first then [s] else field opts @ [s]) else field opts))"
  by (simp add: sets_array_def array_var_def)

lemma Execute_array:
  assumes "Execute P gos cmd occs = Some opts" and "list_all (\<lambda>f. sets_array f (\<lambda>opts. field (part opts)) name) (command_flags P cmd)"
    and "name \<in> fl_Name ` set (command_flags P cmd)" and "field (part (GetRootCmd P)) = old"
  shows "field (part opts) = array_value old name occs"
  using parse_flags_array [OF assms(2,3) assms(1) [unfolded Execute_def]] assms(4) by simp

lemmas field_defs = command_flags_def root_flags_def adapter_flags_def controller_flags_def sets_field_var sets_field_array
  keeps_field_var keeps_field_array declared
lemmas array_defs = command_flags_def root_flags_def adapter_flags_def sets_array_var sets_array_array

text \<open>
  C37: the options of the controller process are read from its flags. On every command line that is accepted, each
  option is the parsed value of the last occurrence of its own flag, or its default; the options of
  the adapter stay what they were.
\<close>

theorem controller_options_from_flags:
  assumes "Execute P gos ControllerCmd occs = Some opts"
  shows "cmd_controller opts =
      \<lparr>op_HTTPAddress = flag_value Some '':8080'' ''http-address'' occs,
       op_MetricsEnabled = flag_value (vp_bool P) True ''metrics-enables'' occs,
       op_SyncPeriod = flag_value (parse_word P 32) 120 ''sync-period'' occs,
       op_LeaderElectionNamespace = flag_value Some ''sym-admin'' ''leader-election-namespace'' occs,
       op_LeaderElectionID = flag_value Some ''meshach-lock'' ''leader-election-id'' occs,
       op_EnableLeaderElection = flag_value (vp_bool P) True ''leader-enable'' occs,
       op_GinLogEnabled = flag_value (vp_bool P) True ''enable-ginlog'' occs,
       op_GinLogSkipPath = [''/ready'', ''/live''],
       op_PprofEnabled = flag_value (vp_bool P) True ''enable-pprof'' occs,
       op_GoroutineThreshold = flag_value (vp_int P 64) 10000 ''goroutine-threshold'' occs,
       op_MaxConcurrentReconciles = flag_value (vp_int P 64) 1000 ''max-concurrent-reconciles'' occs,
       op_InitDefaultSidecars = False,
       op_ProxyHost = flag_value Some ''mosn.io.dubbo.proxy'' ''proxy-host'' occs,
       op_ProxyAttempts = flag_value (parse_word P 32) 3 ''proxy-attempts'' occs,
       op_ProxyPerTryTimeout = flag_value (parse_word P 64) 2 ''proxy-pertrytimeout'' occs,
       op_ProxyRetryOn = flag_value Some ''gateway-error,connect-failure,refused-stream'' ''proxy-retryon'' occs,
       op_MeshConfigName = flag_value Some ''sym-meshconfig'' ''meshconfig-name'' occs,
       op_MeshConfigNamespace = flag_value Some ''sym-admin'' ''meshconfig-namespace'' occs,
       op_SelectLabel = flag_value Some ''service'' ''selectlabel'' occs,
       op_EnableAppMeshConfig = flag_value (vp_bool P) False ''enable-appmeshconfig'' occs,
       op_EnableConfiguredService = flag_value (vp_bool P) False ''enable-configuredservice'' occs,
       op_EnableIstioConfig = flag_value (vp_bool P) False ''enable-istioconfig'' occs,
       op_EnableMeshConfig = flag_value (vp_bool P) False ''enable-meshconfig'' occs,
       op_EnableServiceAccessor = flag_value (vp_bool P) False ''enable-serviceaccessor'' occs,
       op_EnableServiceConfig = flag_value (vp_bool P) False ''enable-serviceconfig'' occs,
       op_WatchIstioCRD = flag_value (vp_bool P) True ''watch-istio-crd'' occs\<rparr> \<and>
    cmd_adapter opts = DefaultAdapterOption" (is "_ = ?R \<and> _")
proof
  show "cmd_adapter opts = DefaultAdapterOption"
    using Execute_keeps [OF assms, of cmd_adapter] by (simp add: field_defs)
  have keeps: "op_GinLogSkipPath (cmd_controller opts) = [''/ready'', ''/live'']" "op_InitDefaultSidecars (cmd_controller opts) = False"
    using Execute_keeps [OF assms, of "\<lambda>opts. op_GinLogSkipPath (cmd_controller opts)"]
      Execute_keeps [OF assms, of "\<lambda>opts. op_InitDefaultSidecars (cmd_controller opts)"]
    by (simp_all add: field_defs DefaultControllerOption_def)
  note at = Execute_value [OF assms, where part = cmd_controller]
  show "cmd_controller opts = ?R"
    by (rule ControllerOption.equality; (simp add: keeps; fail | simp only: ControllerOption.simps))
      (rule at; simp add: field_defs DefaultControllerOption_def)+
qed

text \<open>
  The options of the adapter are read from its flags. On every command line that is accepted, the addresses are all
  values that are given, in their order, or the default; every other option is the parsed value of the last
  occurrence of its flag, or its default; what has no flag stays.
\<close>

theorem adapter_options_from_flags:
  assumes "Execute P gos AdapterCmd occs = Some opts"
  shows "adapter_command_options opts =
      \<lparr>ao_EventHandlers = \<lparr>
         eo_AcceleratorSize = flag_value (parse_word P 64) 0 ''acc-size'' occs, eo_EnableK8s = True,
         eo_IsMultiClusters = flag_value (vp_bool P) False ''is-multi-clusters'' occs,
         eo_Kubeconfig = flag_value Some [] ''kubeconfig'' occs, eo_ConfigContext = flag_value Some [] ''context'' occs,
         eo_ClusterOwner = flag_value Some ''sym-admin'' ''cluster-owner'' occs,
         eo_ClusterNamespace = flag_value Some ''sym-admin'' ''cluster-namespace'' occs,
         eo_Namespace = [], eo_DefaultNamespace = [], eo_EnableDebugLog = False,
         eo_QPS = flag_value (vp_float P) 0 ''qps'' occs, eo_Burst = flag_value (parse_word P 64) 0 ''burst'' occs\<rparr>,
       ao_Registry = \<lparr>ro_Type = ''zk'', ro_Address = array_value [''127.0.0.1:2181''] ''reg-addr'' occs,
         ro_Timeout = flag_value (parse_word P 64) 15 ''reg-timeout'' occs\<rparr>,
       ao_Configuration = \<lparr>co_Type = ''zk'', co_Address = array_value [] ''conf-addr'' occs,
         co_Timeout = flag_value (parse_word P 64) 15 ''conf-timeout'' occs\<rparr>\<rparr> \<and>
    cmd_controller opts = DefaultControllerOption" (is "_ = \<lparr>ao_EventHandlers = ?H, ao_Registry = ?R, ao_Configuration = ?C\<rparr> \<and> _")
proof
  note root = Execute_value [OF assms, where part = cmd_root]
    and reg = Execute_value [OF assms, where part = "\<lambda>opts. ao_Registry (cmd_adapter opts)"]
      Execute_array [OF assms, where part = "\<lambda>opts. ao_Registry (cmd_adapter opts)"]
    and conf = Execute_value [OF assms, where part = "\<lambda>opts. ao_Configuration (cmd_adapter opts)"]
      Execute_array [OF assms, where part = "\<lambda>opts. ao_Configuration (cmd_adapter opts)"]
    and hand = Execute_value [OF assms, where part = "\<lambda>opts. ao_EventHandlers (cmd_adapter opts)"]
  note keep = Execute_keeps [OF assms]
  show "cmd_controller opts = DefaultControllerOption"
    using keep [of cmd_controller] by (simp add: field_defs)
  have kept: "ro_Type (ao_Registry (cmd_adapter opts)) = ''zk''" "co_Type (ao_Configuration (cmd_adapter opts)) = ''zk''"
    "eo_EnableK8s (ao_EventHandlers (cmd_adapter opts))" "eo_Namespace (ao_EventHandlers (cmd_adapter opts)) = []"
    "eo_DefaultNamespace (ao_EventHandlers (cmd_adapter opts)) = []" "\<not> eo_EnableDebugLog (ao_EventHandlers (cmd_adapter opts))"
    using keep [of "\<lambda>opts. ro_Type (ao_Registry (cmd_adapter opts))"] keep [of "\<lambda>opts. co_Type (ao_Configuration (cmd_adapter opts))"]
      keep [of "\<lambda>opts. eo_EnableK8s (ao_EventHandlers (cmd_adapter opts))"]
      keep [of "\<lambda>opts. eo_Namespace (ao_EventHandlers (cmd_adapter opts))"]
      keep [of "\<lambda>opts. eo_DefaultNamespace (ao_EventHandlers (cmd_adapter opts))"]
      keep [of "\<lambda>opts. eo_EnableDebugLog (ao_EventHandlers (cmd_adapter opts))"]
    by (simp_all add: field_defs DefaultAdapterOption_def)
  have "ao_Registry (cmd_adapter opts) = ?R"
    by (rule Registry_option.equality; (simp add: kept; fail | simp only: Registry_option.simps))
      (rule reg; simp add: field_defs array_defs DefaultAdapterOption_def)+
  moreover have "ao_Configuration (cmd_adapter opts) = ?C"
    by (rule Configuration_option.equality; (simp add: kept; fail | simp only: Configuration_option.simps))
      (rule conf; simp add: field_defs array_defs DefaultAdapterOption_def)+
  moreover have "(ao_EventHandlers (cmd_adapter opts))\<lparr>eo_Kubeconfig := rop_Kubeconfig (cmd_root opts),
      eo_ConfigContext := rop_ConfigContext (cmd_root opts), eo_QPS := rop_QPS (cmd_root opts), eo_Burst := rop_Burst (cmd_root opts)\<rparr> = ?H"
    by (rule EventHandlers_option.equality; simp add: kept)
      (rule root; simp add: field_defs DefaultRootOption_def; fail | rule hand; simp add: field_defs DefaultAdapterOption_def; fail)+
  ultimately show "adapter_command_options opts = \<lparr>ao_EventHandlers = ?H, ao_Registry = ?R, ao_Configuration = ?C\<rparr>"
    by (simp add: adapter_command_options_def)
qed
end
