(* ===== verification/Commands.thy ===== *)
theory Commands
  imports CommandLine
begin

text \<open>
  What the commands start (\<^verbatim>\<open>cmd/meshach/app\<close>), the other entry point (\<^verbatim>\<open>main.go\<close>), the version, and what is left of
  \<^verbatim>\<open>pkg/router\<close> and of \<^verbatim>\<open>pkg/k8s/client/client.go\<close>.
\<close>

section \<open>The other entry point\<close>

text \<open>
  The manager is built from the address of the metrics and whether a leader is elected, and given the default
  options. A log line comes before each exit with the status 1.
\<close>

record main_options =
  mn_metricsAddr :: string
  mn_enableLeaderElection :: bool

definition main_flags :: "value_parsers \<Rightarrow> main_options flag list" where
  "main_flags P =
     [flag_var Some (\<lambda>v. mn_metricsAddr_update (\<lambda>_. v)) ''metrics-addr'' (\<lambda>_. '':8080''),
      flag_var (vp_bool P) (\<lambda>v. mn_enableLeaderElection_update (\<lambda>_. v)) ''enable-leader-election'' (\<lambda>_. False)]"

record ('m, 'w) main_libs =
  ml_NewManager :: "string \<Rightarrow> int \<Rightarrow> bool \<Rightarrow> string \<Rightarrow> 'w \<Rightarrow> (string + 'm) \<times> 'w"
  ml_manager :: "'m ctrl_manager"
  ml_Start :: "'m \<Rightarrow> 'w \<Rightarrow> string option \<times> 'w"

text \<open>Returns the manager that was started, when that has returned.\<close>

definition main_main :: "value_parsers \<Rightarrow> ('m, 'w) main_libs \<Rightarrow> string list \<Rightarrow> (string \<times> string) list \<Rightarrow> ('w, 'm) start" where
  "main_main P L gos occs =
     (let flags = main_flags P;
          opts = fold fl_Declare flags \<lparr>mn_metricsAddr = [], mn_enableLeaderElection = False\<rparr> in
      sbind (or_die (parse_flags flags gos [] occs opts)) (\<lambda>opts.
      sbind (or_fatal (lib ''unable to start manager''
        (ml_NewManager L (mn_metricsAddr opts) 9443 (mn_enableLeaderElection opts) ''28a8237b.symcn.com''))) (\<lambda>mgr.
      sbind (checked (AddToManager (ml_manager L) DefaultControllerOption mgr)) (\<lambda>mgr w.
      case ml_Start L mgr w of
        (Some err, w') \<Rightarrow> Some (Inl (Fatal err), w')
      | (None, w') \<Rightarrow> Some (Inr mgr, w')))))"

section \<open>Version\<close>

record Version =
  ve_GitCommit :: string
  ve_BuildDate :: string
  ve_Release :: string
  ve_GoVersion :: string
  ve_Compiler :: string
  ve_Platform :: string
  ve_SdkVersion :: string

text \<open>What the linker sets, unless it does.\<close>

definition Release :: string where "Release = ''UNKNOWN''"
definition Commit :: string where "Commit = ''UNKNOWN''"
definition BuildDate :: string where "BuildDate = []"

record go_runtime =
  gr_Version :: string
  gr_Compiler :: string
  gr_GOOS :: string
  gr_GOARCH :: string

definition GetVersion :: "go_runtime \<Rightarrow> string \<Rightarrow> Version" where
  "GetVersion rt sdkVersion =
     \<lparr>ve_GitCommit = Commit, ve_BuildDate = BuildDate, ve_Release = Release, ve_GoVersion = gr_Version rt,
      ve_Compiler = gr_Compiler rt, ve_Platform = gr_GOOS rt @ ''/'' @ gr_GOARCH rt, ve_SdkVersion = sdkVersion\<rparr>"

definition Version_String :: "go_runtime \<Rightarrow> string \<Rightarrow> Version \<Rightarrow> string" where
  "Version_String rt base v =
     base @ ''/'' @ ve_Release v @ '' ('' @ gr_GOOS rt @ ''/'' @ gr_GOARCH rt @ '') Date/'' @ ve_BuildDate v @
     '' GitCommit/'' @ ve_GitCommit v @ '' SDKVersion/'' @ ve_SdkVersion v"

text \<open>The page that shows it, in the order of the fields.\<close>

definition VersionHandler :: "go_runtime \<Rightarrow> string \<Rightarrow> response" where
  "VersionHandler rt sdkVersion =
     (let v = GetVersion rt sdkVersion in
      \<lparr>re_Status = 200, re_Body = JSONMap
         [(''GitCommit'', ve_GitCommit v), (''BuildDate'', ve_BuildDate v), (''Release'', ve_Release v),
          (''GoVersion'', ve_GoVersion v), (''Compiler'', ve_Compiler v), (''Platform'', ve_Platform v),
          (''SdkVersion'', ve_SdkVersion v)]\<rparr>)"

section \<open>The rest of the router\<close>

text \<open>Starting it without looking at the error, and the middleware that numbers and names the requests; nothing uses either.\<close>

definition StartWarp ::
  "(string \<Rightarrow> string \<Rightarrow> string option) \<Rightarrow> (int64 \<Rightarrow> string option) \<Rightarrow> string option \<Rightarrow>
   server_end \<Rightarrow> router_options \<Rightarrow> start_result" where
  "StartWarp LoadX509KeyPair Shutdown Close ends opt =
     (case router_Start LoadX509KeyPair Shutdown Close ends opt of
        Killed e \<Rightarrow> Killed e
      | Returned err \<Rightarrow> Returned None)"

text \<open>The request has the header \<open>X-Request-Id\<close> or not; what is set is the context and the header of the response.\<close>

record request_context =
  rq_requestcount :: string
  rq_requestid :: string
  rq_header :: string

definition setupContext :: "string \<Rightarrow> string \<Rightarrow> int64 \<Rightarrow> request_context \<times> int64" where
  "setupContext uuid header requestCount =
     (let requestCount = requestCount + 1;
          reqCount = show_int (sint requestCount);
          reqID = (if header = [] then uuid else header) in
      (\<lparr>rq_requestcount = reqCount, rq_requestid = reqID, rq_header = reqID\<rparr>, requestCount))"

section \<open>Loading a configuration\<close>

text \<open>
  \<open>load\<close> is the deferred loading of client-go for an explicit path and a context, \<open>build\<close> that of a file. The environment
  has a variable, a configuration inside of a cluster, and the file in the home directory of the user, if
  there is a user.
\<close>

definition GetRawConfig :: "(string option \<Rightarrow> string \<Rightarrow> 'w \<Rightarrow> (string + 'r) \<times> 'w) \<Rightarrow> string \<Rightarrow> string \<Rightarrow> 'w \<Rightarrow> (string + 'r) \<times> 'w" where
  "GetRawConfig load kubeconfigPath kubeContext =
     load (if kubeconfigPath \<noteq> [] then Some kubeconfigPath else None) kubeContext"

definition GetConfig ::
  "(string \<Rightarrow> 'w \<Rightarrow> (string + 'r) \<times> 'w) \<Rightarrow> string \<Rightarrow> ('w \<Rightarrow> (string + 'r) \<times> 'w) \<Rightarrow> string option \<Rightarrow> string \<Rightarrow>
   'w \<Rightarrow> (string + 'r) \<times> 'w" where
  "GetConfig build KUBECONFIG InClusterConfig home kubeconfigPath w =
     (if 0 < length kubeconfigPath then build kubeconfigPath w
      else if 0 < length KUBECONFIG then build KUBECONFIG w
      else (case InClusterConfig w of
          (Inr c, w) \<Rightarrow> (Inr c, w)
        | (Inl _, w) \<Rightarrow>
            (case home of
               None \<Rightarrow> (Inl ''could not locate a kubeconfig'', w)
             | Some path \<Rightarrow>
                 (case build path w of
                    (Inr c, w) \<Rightarrow> (Inr c, w)
                  | (Inl _, w) \<Rightarrow> (Inl ''could not locate a kubeconfig'', w)))))"

definition NewClientFromConfig :: "('a, 'g, 'k, 'w, 'o) cluster_libs \<Rightarrow> 'g rest_config \<Rightarrow> string + 'k" where
  "NewClientFromConfig L config =
     (case lb_NewForConfig L config of
        Inl err \<Rightarrow> Inl (''failed to create client for config: '' @ err)
      | Inr client \<Rightarrow> Inr client)"

section \<open>Errors of the commands\<close>

lemma never_failsD: "never_fails m \<Longrightarrow> m w \<noteq> Some (Inl (Failed err), w')"
  unfolding never_fails_def by blast

lemma never_fails_or_die: "never_fails (or_die r)"
  by (simp add: never_fails_def or_die_def sexit_def sret_def split: option.split)

lemma never_fails_checked: "never_fails (checked r)"
  by (simp add: never_fails_def checked_def sexit_def sret_def split: prod.split option.split)

lemmas never_fails_rules = never_fails_sbind never_fails_or_fatal never_fails_sret never_fails_if never_fails_or_die
  never_fails_checked

lemma controller_setup_never_fails: "never_fails (controller_setup A K handler opts)"
  unfolding controller_setup_def Let_def by (intro never_fails_rules)

lemma adapter_Run_never_fails: "never_fails (adapter_Run A health regs confs conn z opts)"
  unfolding adapter_Run_def
  by (rule never_fails_sbind [OF never_fails_or_fatal]) (simp add: never_fails_def split: option.split)

lemma controller_Run_never_fails: "never_fails (controller_Run A K handler opts)"
  unfolding controller_Run_def
  by (rule never_fails_sbind [OF controller_setup_never_fails])
    (auto simp: never_fails_def split: prod.splits option.splits)

text \<open>
  A command never ends with an error that is dropped. Whatever the libraries do, starting the adapter and running
  the controllers ends the process with a message or succeeds, or never returns; the error value that
  a caller could ignore does not come out.
\<close>

theorem commands_exit_or_serve:
  "adapter_Run A health regs confs conn z opts w \<noteq> Some (Inl (Failed err), w1) \<and>
   controller_Run A K handler opts' v \<noteq> Some (Inl (Failed err), v1)"
  by (intro conjI never_failsD adapter_Run_never_fails controller_Run_never_fails)

section \<open>What the controller process is\<close>

lemma or_die_Inr: "or_die r w = Some (Inr x, w') \<longleftrightarrow> r = Some x \<and> w' = w"
  by (auto simp: or_die_def sexit_def sret_def split: option.split)

lemma checked_Inr: "checked r w = Some (Inr m, w') \<longleftrightarrow> r = (None, m) \<and> w' = w"
  by (auto simp: checked_def sexit_def sret_def split: prod.split option.split)

lemma lib_Inr: "lib heading m w = Some (Inr x, w') \<longleftrightarrow> m w = (Inr x, w')"
  by (auto simp: lib_def split: prod.split sum.split)

text \<open>The rate limits that a command line asks for.\<close>

definition with_limits :: "value_parsers \<Rightarrow> (string \<times> string) list \<Rightarrow> 'g rest_config \<Rightarrow> 'g rest_config" where
  "with_limits P occs cfg =
     cfg\<lparr>rf_QPS := flag_value (vp_float P) 0 ''qps'' occs, rf_Burst := sint (flag_value (parse_word P 64) 0 ''burst'' occs :: int64)\<rparr>"

lemma root_limits:
  assumes "Execute P gos cmd occs = Some opts"
  shows "rop_QPS (cmd_root opts) = flag_value (vp_float P) 0 ''qps'' occs"
    and "rop_Burst (cmd_root opts) = flag_value (parse_word P 64) 0 ''burst'' occs"
  by (rule Execute_value [OF assms, where part = cmd_root]; cases cmd; simp add: field_defs; fail)+

lemma enabling_flags:
  assumes "Execute P gos ControllerCmd occs = Some opts"
  shows "op_EnableAppMeshConfig (cmd_controller opts) = flag_value (vp_bool P) False ''enable-appmeshconfig'' occs"
    and "op_EnableMeshConfig (cmd_controller opts) = flag_value (vp_bool P) False ''enable-meshconfig'' occs"
    and "op_EnableIstioConfig (cmd_controller opts) = flag_value (vp_bool P) False ''enable-istioconfig'' occs"
    and "op_EnableConfiguredService (cmd_controller opts) = flag_value (vp_bool P) False ''enable-configuredservice'' occs"
    and "op_EnableServiceAccessor (cmd_controller opts) = flag_value (vp_bool P) False ''enable-serviceaccessor'' occs"
    and "op_EnableServiceConfig (cmd_controller opts) = flag_value (vp_bool P) False ''enable-serviceconfig'' occs"
  by (rule Execute_value [OF assms, where part = cmd_controller]; simp add: field_defs DefaultControllerOption_def; fail)+

lemma GetK8sConfig_Inr:
  "GetK8sConfig A r w = Some (Inr cfg, w1) \<longleftrightarrow>
     (\<exists>c. GetConfigWithContext A (rop_Kubeconfig r) (rop_ConfigContext r) w = (Inr c, w1) \<and>
       cfg = SetDefaultQPS c (rop_QPS r) (sint (rop_Burst r)))"
  by (auto simp: GetK8sConfig_def sbind_Inr lib_Inr sret_def)

text \<open>
  C39: the controllers that run are those whose flag says so. When the controller process is set up from an
  accepted command line, its manager was built with the rate limits of the flags and the two schemes were
  added; then exactly the controllers whose enabling flag was last given as true were added to it, in the order of
  \<open>AddToManager\<close>, all without error. The components that are started are the router alone.
\<close>

theorem controllers_follow_flags:
  assumes "Execute P gos ControllerCmd occs = Some opts" and "controller_setup A K handler opts w = Some (Inr p, w')"
  shows "\<exists>c w1 options m1 m2 m3.
    GetConfigWithContext A (rop_Kubeconfig (cmd_root opts)) (rop_ConfigContext (cmd_root opts)) w = (Inr c, w1) \<and>
    kl_NewManager K (with_limits P occs c) options w1 = (Inr m1, w') \<and>
    kl_AddToScheme K ''meshv1'' m1 = (None, m2) \<and> kl_AddToScheme K ''networkingv1beta1'' m2 = (None, m3) \<and>
    setup_all (map (\<lambda>(name, add). (flag_value (vp_bool P) False name occs, add))
      [(''enable-appmeshconfig'', mg_Complete (kl_manager K) amc_controller),
       (''enable-meshconfig'', mg_Complete (kl_manager K) mc_controller),
       (''enable-istioconfig'', mg_Complete (kl_manager K) istio_controller),
       (''enable-configuredservice'', mg_Complete (kl_manager K) (cs_controller (cmd_controller opts))),
       (''enable-serviceaccessor'', sa_SetupWithManager (kl_manager K)),
       (''enable-serviceconfig'', mg_Complete (kl_manager K) sc_controller)]) m3 = (None, cp_manager p) \<and>
    co_components (cp_components p) = [cp_router p]"
proof -
  from assms(2) obtain cfg w1 options m1 m2 m3 rt where
    cfg: "GetK8sConfig A (cmd_root opts) w = Some (Inr cfg, w1)"
    and m: "kl_NewManager K cfg options w1 = (Inr m1, w')" "kl_AddToScheme K ''meshv1'' m1 = (None, m2)"
      "kl_AddToScheme K ''networkingv1beta1'' m2 = (None, m3)"
    and add: "AddToManager (kl_manager K) (cmd_controller opts) m3 = (None, cp_manager p)"
    and p: "cp_router p = rt" "components_Add rt \<lparr>co_started = False, co_components = []\<rparr> = Some (cp_components p)"
    unfolding controller_setup_def Let_def by (auto simp: sbind_Inr or_fatal_Inr or_die_Inr checked_Inr lib_Inr sret_def)
  from cfg obtain c where c: "GetConfigWithContext A (rop_Kubeconfig (cmd_root opts)) (rop_ConfigContext (cmd_root opts)) w = (Inr c, w1)"
    and "cfg = with_limits P occs c"
    unfolding GetK8sConfig_Inr root_limits [OF assms(1)] with_limits_def SetDefaultQPS_def by blast
  moreover have "co_components (cp_components p) = [cp_router p]" using p by (auto simp: components_Add_def dest!: sym [of _ "cp_components p"])
  ultimately show ?thesis using m add unfolding AddToManager_def enabling_flags [OF assms(1)] list.map prod.case by blast
qed

text \<open>
  C40: the rate limits of the defaults are never used. On a command line without \<open>qps\<close> and \<open>burst\<close> both commands
  talk to Kubernetes with the limits 0, for which client-go takes its own, although the root options
  start with 120: the flags are declared with 0.
\<close>

theorem rate_limits_lost:
  assumes "Execute P gos cmd occs = Some opts" and "''qps'' \<notin> fst ` set occs" and "''burst'' \<notin> fst ` set occs"
    and "buildRestConfig A (ao_EventHandlers (adapter_command_options opts)) w = Some (Inr cfg, w1)"
    and "GetK8sConfig A (cmd_root opts) v = Some (Inr cfg', v1)"
  shows "rf_QPS cfg = 0 \<and> rf_Burst cfg = 0 \<and> rf_QPS cfg' = 0 \<and> rf_Burst cfg' = 0 \<and>
    rop_QPS DefaultRootOption = 120 \<and> rop_Burst DefaultRootOption = 120"
proof -
  have zero: "rop_QPS (cmd_root opts) = 0" "rop_Burst (cmd_root opts) = 0"
    using root_limits [OF assms(1)] flag_value_absent [OF assms(2)] flag_value_absent [OF assms(3)] by simp_all
  let ?h = "ao_EventHandlers (adapter_command_options opts)"
  have "eo_QPS ?h = 0" "eo_Burst ?h = 0" by (simp_all add: adapter_command_options_def Let_def zero)
  then have "rf_QPS cfg = 0 \<and> rf_Burst cfg = 0"
    using assms(4) unfolding buildRestConfig_def sbind_Inr sret_def SetDefaultQPS_def by auto
  moreover have "rf_QPS cfg' = 0 \<and> rf_Burst cfg' = 0"
    using assms(5) unfolding GetK8sConfig_Inr SetDefaultQPS_def zero by auto
  ultimately show ?thesis by (simp add: DefaultRootOption_def)
qed

section \<open>The process of main.go\<close>

text \<open>
  The process of \<^verbatim>\<open>main.go\<close> reconciles nothing. Whatever its flags are, the manager it starts is the
  one that was built, without a single controller, since it is given the default options, in which all of them
  are disabled.
\<close>

theorem main_reconciles_nothing:
  assumes "main_main P L gos occs w = Some (Inr mgr, w')"
  shows "\<exists>addr leader w1. ml_NewManager L addr 9443 leader ''28a8237b.symcn.com'' w = (Inr mgr, w1) \<and> ml_Start L mgr w1 = (None, w')"
proof -
  from assms obtain opts :: main_options and m0 w1 where new: "ml_NewManager L (mn_metricsAddr opts) 9443 (mn_enableLeaderElection opts)
      ''28a8237b.symcn.com'' w = (Inr m0, w1)"
    and start: "(case ml_Start L m0 w1 of (Some err, w') \<Rightarrow> Some (Inl (Fatal err), w') | (None, w') \<Rightarrow> Some (Inr m0, w')) =
      Some (Inr mgr, w')"
    unfolding main_main_def Let_def sbind_Inr or_fatal_Inr or_die_Inr lib_Inr checked_Inr default_registers_nothing by auto
  from start have "m0 = mgr" "ml_Start L m0 w1 = (None, w')" by (auto split: prod.splits option.splits)
  with new show ?thesis by blast
qed

section \<open>A command line\<close>

definition demo_parsers :: value_parsers where
  "demo_parsers = \<lparr>vp_bool = \<lambda>s. if s = ''true'' then Some True else if s = ''false'' then Some False else None,
     vp_int = \<lambda>_ _. None, vp_float = \<lambda>_. None\<rparr>"

definition demo_line :: "(string \<times> string) list" where
  "demo_line = [(''enable-serviceconfig'', ''true''), (''enable-meshconfig'', ''true''), (''v'', ''4''),
     (''enable-configuredservice'', ''true''), (''enable-meshconfig'', ''false'')]"

abbreviation demo_opts :: command_options where
  "demo_opts \<equiv> the (Execute demo_parsers [''v''] ControllerCmd demo_line)"

lemma demo_opts: "Execute demo_parsers [''v''] ControllerCmd demo_line = Some demo_opts"
proof -
  have "\<not> Option.is_none (Execute demo_parsers [''v''] ControllerCmd demo_line)" by code_simp
  then show ?thesis by (cases "Execute demo_parsers [''v''] ControllerCmd demo_line") simp_all
qed

definition demo_clibs :: "(string, string, string, mem_world, unit) adapter_libs" where
  "demo_clibs = demo_alibs\<lparr>al_ClientConfig := \<lambda>path ctx w. (Inr \<lparr>rf_Base = ''default'', rf_QPS = 7, rf_Burst = 7\<rparr>, w)\<rparr>"

text \<open>An engine that keeps the paths it is given, and a manager that keeps its controllers.\<close>

definition demo_gin :: "string list gin" where
  "demo_gin = \<lparr>gin_New = [], gin_Recovery = id, gin_Logger = \<lambda>_. id, gin_Handle = \<lambda>meth path h e. Some (e @ [path]),
     gin_Any = \<lambda>path h e. Some (e @ [path]), gin_NoRoute = \<lambda>_. id, gin_Pprof = id\<rparr>"

definition demo_klibs :: "(string, string list, controller list, mem_world) controller_libs" where
  "demo_klibs = \<lparr>kl_NewManager = \<lambda>cfg options w. (Inr [], w), kl_AddToScheme = \<lambda>_ m. (None, m),
     kl_manager = \<lparr>mg_IndexField = \<lambda>_ _ m. (None, m), mg_Complete = \<lambda>c m. (None, m @ [c])\<rparr>,
     kl_Start = \<lambda>m w. (None, w), kl_gin = demo_gin, kl_exporter = True, kl_NumGoroutine = \<lambda>_. 12\<rparr>"

abbreviation "demo_setup \<equiv> controller_setup demo_clibs demo_klibs None demo_opts empty_world"

theorem controllers_follow_flags_witness:
  "map ct_For (cp_manager (projr (fst (the demo_setup)))) = [KConfiguredService, KServiceConfig]"
proof -
  have "\<not> Option.is_none demo_setup" "\<not> isl (fst (the demo_setup))" by code_simp+
  then obtain p w where run: "demo_setup = Some (Inr p, w)"
    by (cases demo_setup; cases "fst (the demo_setup)") auto
  from controllers_follow_flags [OF demo_opts run] have
    "cp_manager p = [cs_controller (cmd_controller demo_opts), sc_controller]"
    by (auto simp: demo_klibs_def demo_line_def demo_parsers_def flag_value_def)
  moreover have "ct_For (cs_controller opt) = KConfiguredService" "ct_For sc_controller = KServiceConfig" for opt
    by (simp_all add: cs_controller_def sc_controller_def Let_def)
  ultimately show ?thesis by (simp add: run)
qed

theorem rate_limits_lost_witness:
  "rf_QPS (projr (fst (the (GetK8sConfig demo_clibs (cmd_root demo_opts) empty_world)))) = 0"
proof -
  let ?a = "buildRestConfig demo_clibs (ao_EventHandlers (adapter_command_options demo_opts)) empty_world"
  let ?c = "GetK8sConfig demo_clibs (cmd_root demo_opts) empty_world"
  have "\<not> Option.is_none ?a" "\<not> isl (fst (the ?a))" "\<not> Option.is_none ?c" "\<not> isl (fst (the ?c))" by code_simp+
  then obtain cfg w cfg' w' where run: "?a = Some (Inr cfg, w)" "?c = Some (Inr cfg', w')"
    by (cases ?a; cases "fst (the ?a)"; cases ?c; cases "fst (the ?c)") auto
  have "''qps'' \<notin> fst ` set demo_line" "''burst'' \<notin> fst ` set demo_line" by (simp_all add: demo_line_def)
  from rate_limits_lost [OF demo_opts this run] show ?thesis by (simp add: run)
qed

definition demo_mlibs :: "(controller list, nat) main_libs" where
  "demo_mlibs = \<lparr>ml_NewManager = \<lambda>addr port leader name w. (Inr [], Suc w),
     ml_manager = \<lparr>mg_IndexField = \<lambda>_ _ m. (None, m), mg_Complete = \<lambda>c m. (None, m @ [c])\<rparr>,
     ml_Start = \<lambda>m w. (None, Suc w)\<rparr>"

theorem main_reconciles_nothing_witness:
  "projr (fst (the (main_main demo_parsers demo_mlibs [] [(''enable-leader-election'', ''true'')] 0))) = []"
proof -
  let ?run = "main_main demo_parsers demo_mlibs [] [(''enable-leader-election'', ''true'')] 0"
  have "\<not> Option.is_none ?run" "\<not> isl (fst (the ?run))" by code_simp+
  then obtain m w where run: "?run = Some (Inr m, w)" by (cases ?run; cases "fst (the ?run)") auto
  from main_reconciles_nothing [OF run] have "m = []" by (auto simp: demo_mlibs_def)
  with run show ?thesis by simp
qed

theorem controller_options_from_flags_witness:
  "\<not> op_EnableMeshConfig (cmd_controller demo_opts) \<and> op_EnableServiceConfig (cmd_controller demo_opts) \<and>
   op_WatchIstioCRD (cmd_controller demo_opts) \<and> op_MaxConcurrentReconciles (cmd_controller demo_opts) = 1000"
  unfolding conjunct1 [OF controller_options_from_flags [OF demo_opts]]
  by (simp add: flag_value_def demo_line_def demo_parsers_def)

abbreviation demo_adapter_line :: "(string \<times> string) list" where
  "demo_adapter_line \<equiv> [(''reg-addr'', ''zk1:2181''), (''is-multi-clusters'', ''true''), (''reg-addr'', ''zk2:2181'')]"

theorem adapter_options_from_flags_witness:
  "\<exists>opts. Execute demo_parsers [] AdapterCmd demo_adapter_line = Some opts \<and>
     ro_Address (ao_Registry (adapter_command_options opts)) = [''zk1:2181'', ''zk2:2181''] \<and>
     eo_IsMultiClusters (ao_EventHandlers (adapter_command_options opts))"
proof -
  let ?run = "Execute demo_parsers [] AdapterCmd demo_adapter_line"
  have "\<not> Option.is_none ?run" by code_simp
  then obtain opts where run: "?run = Some opts" by (cases ?run) simp_all
  have "ro_Address (ao_Registry (adapter_command_options opts)) = [''zk1:2181'', ''zk2:2181'']"
    "eo_IsMultiClusters (ao_EventHandlers (adapter_command_options opts))"
    unfolding conjunct1 [OF adapter_options_from_flags [OF run]]
    by (simp_all add: flag_value_def array_value_def demo_parsers_def)
  with run show ?thesis by blast
qed

section \<open>The period of the controllers\<close>

text \<open>The flag is a number of minutes of 32 bits; as nanoseconds it need not fit.\<close>

lemma sync_period_wraps: "Minute * scast (153722868 :: int32) <s 0" "0 <s Minute * scast (153722867 :: int32)"
  by code_simp+

end
