(* ===== verification/AdapterOrder.thy ===== *)
theory AdapterOrder
  imports Adapter
begin

text \<open>
  The order of replacements (\<^verbatim>\<open>pkg/adapter/accelerate\<close>, \<^verbatim>\<open>pkg/adapter/adapter.go\<close>): what the accelerator does to
  two events of one service that the adapter received one after the other.
\<close>

section \<open>Jobs\<close>

lemma job_step:
  assumes "\<not> ad_crashed a" and "c < length (ac_channels (ad_accelerator a))"
    and "ac_channels (ad_accelerator a) ! c = add_mset j M"
    and "run_job handlers (GetCachedScopedMapping (ad_registry a)) j (ad_cluster a) = (Inr (), w')"
  shows "adapter_step conn get unmarshal handlers a
    (a\<lparr>ad_cluster := w', ad_accelerator := (ad_accelerator a)\<lparr>ac_channels := (ac_channels (ad_accelerator a))[c := M]\<rparr>\<rparr>)"
  using adapter_step.job [OF assms(1,2), of j conn get unmarshal handlers] assms
  by (cases a) (simp add: received_def on_cluster_def)

text \<open>A replacement for the only handler, on a server that takes what is up to date.\<close>

lemma replace_job:
  assumes "api_ok api view" and "reliable cs_kind (ap_ConfiguredService api) (\<lambda>w. c_ConfiguredService (view w))"
    and "ToConfiguredService defaultNamespace e = Some cs"
  obtains w' where "run_job [single_handler api conv] f (ReplaceJob 0 e) w = (Inr (), w')"
    and "map_option cs_Spec (c_ConfiguredService (view w') (defaultNamespace, om_Name (cs_Meta cs))) = Some (cs_Spec cs)"
proof -
  obtain x w' where run: "sh_ReplaceInstances api e w = (x, w')" by fastforce
  note R = sh_ReplaceInstances_run [OF assms(1,3) run]
  then obtain o' where "c_ConfiguredService (view w') = (c_ConfiguredService (view w))
      ((defaultNamespace, om_Name (cs_Meta cs)) \<mapsto> o')" "put_cs cs o' = o'"
    using assms(2) by (auto simp: stored_spec_def)
  moreover from this(2) have "cs_Spec o' = cs_Spec cs" unfolding put_cs_def by (metis ConfiguredService.select_convs(2) ConfiguredService.surjective ConfiguredService.update_convs(2))
  ultimately have "map_option cs_Spec (c_ConfiguredService (view w') (defaultNamespace, om_Name (cs_Meta cs))) = Some (cs_Spec cs)"
    by simp
  then show thesis using that run R by (simp add: run_job_def single_handler_def)
qed

text \<open>What receiving a replacement adds for an only handler.\<close>

definition queued :: "job \<Rightarrow> string \<Rightarrow> accelerator \<Rightarrow> accelerator" where
  "queued j key ac = ac\<lparr>ac_channels := (ac_channels ac)[channel_of ac key := add_mset j (ac_channels ac ! channel_of ac key)]\<rparr>"

lemma queued_simps [simp]:
  "accelerator_ok (queued j key ac) = accelerator_ok ac" "ac_size (queued j key ac) = ac_size ac"
  "channel_of (queued j key ac) = channel_of ac"
  by (simp_all add: queued_def accelerator_ok_def channel_of_def fun_eq_iff)

lemma received_replace:
  assumes "accelerator_ok (ad_accelerator a)" and "0 < ac_size (ad_accelerator a)" and "\<not> ad_crashed a"
    and "ev_EventType e = ServiceInstancesReplace" and "ev_Service e = Some svc"
  shows "received (adapter_service_event [h] f e) a =
    a\<lparr>ad_accelerator := queued (ReplaceJob 0 e) (dv_Name svc) (ad_accelerator a)\<rparr>"
  using accelerate_all [OF assms(1,2), of "run_job [h] f" "\<lambda>i. ReplaceJob i e" "dv_Name svc" "[0]" "ad_cluster a"] assms(3-5)
  by (cases a) (simp add: received_def adapter_service_event_def gbind_def orPanic_def queued_def)

text \<open>Two jobs of one channel, in either order.\<close>

lemma two_jobs:
  assumes "api_ok api view" and "reliable cs_kind (ap_ConfiguredService api) (\<lambda>w. c_ConfiguredService (view w))"
    and "ToConfiguredService defaultNamespace e1 = Some cs1" and "ToConfiguredService defaultNamespace e2 = Some cs2"
    and "\<not> ad_crashed a" and "c < length (ac_channels (ad_accelerator a))"
    and "ac_channels (ad_accelerator a) ! c = M + {#ReplaceJob 0 e1, ReplaceJob 0 e2#}"
  shows "\<exists>a'. (adapter_step conn get unmarshal [single_handler api conv])\<^sup>*\<^sup>* a a' \<and>
    ad_accelerator a' = (ad_accelerator a)\<lparr>ac_channels := (ac_channels (ad_accelerator a))[c := M]\<rparr> \<and>
    map_option cs_Spec (c_ConfiguredService (view (ad_cluster a')) (defaultNamespace, om_Name (cs_Meta cs2))) = Some (cs_Spec cs2)"
proof -
  let ?f = "GetCachedScopedMapping (ad_registry a)"
  obtain w1 where w1: "run_job [single_handler api conv] ?f (ReplaceJob 0 e1) (ad_cluster a) = (Inr (), w1)"
    using replace_job [OF assms(1,2,3)] by metis
  obtain w2 where w2: "run_job [single_handler api conv] ?f (ReplaceJob 0 e2) w1 = (Inr (), w2)"
    and spec: "map_option cs_Spec (c_ConfiguredService (view w2) (defaultNamespace, om_Name (cs_Meta cs2))) = Some (cs_Spec cs2)"
    using replace_job [OF assms(1,2,4)] by metis
  let ?chan = "ac_channels (ad_accelerator a)"
  define b where "b = a\<lparr>ad_cluster := w1, ad_accelerator := (ad_accelerator a)\<lparr>ac_channels := ?chan[c := add_mset (ReplaceJob 0 e2) M]\<rparr>\<rparr>"
  have "adapter_step conn get unmarshal [single_handler api conv] a b"
    unfolding b_def by (rule job_step [OF assms(5,6) _ w1]) (simp add: assms(7))
  moreover define d where "d = b\<lparr>ad_cluster := w2, ad_accelerator := (ad_accelerator b)\<lparr>ac_channels := (ac_channels (ad_accelerator b))[c := M]\<rparr>\<rparr>"
  have "adapter_step conn get unmarshal [single_handler api conv] b d"
    unfolding d_def by (rule job_step) (use assms(5,6) w2 in \<open>simp_all add: b_def\<close>)
  ultimately have "(adapter_step conn get unmarshal [single_handler api conv])\<^sup>*\<^sup>* a d" by simp
  moreover have "ad_accelerator d = (ad_accelerator a)\<lparr>ac_channels := ?chan[c := M]\<rparr>" "ad_cluster d = w2"
    by (simp_all add: d_def b_def)
  ultimately show ?thesis using spec by blast
qed

section \<open>Either order\<close>

text \<open>
  C31: the accelerator does not keep the order of the replacements of one service. The adapter has received two lists of
  instances of a service, one after the other, with nothing else in the channel of the service; the server takes
  what is up to date. Then it can come to rest with the ConfiguredService holding the instances of the second
  event, and just as well with those of the first, which are out of date: every job is handed over by a goroutine of
  its own, and which of them is served first is open.
\<close>

theorem replacements_may_reverse:
  assumes "api_ok api view" and "reliable cs_kind (ap_ConfiguredService api) (\<lambda>w. c_ConfiguredService (view w))"
    and "accelerator_ok (ad_accelerator a)" and "0 < ac_size (ad_accelerator a)" and "\<not> ad_crashed a"
    and "ev_EventType e1 = ServiceInstancesReplace" and "ev_EventType e2 = ServiceInstancesReplace"
    and "ev_Service e1 = Some svc" and "ev_Service e2 = Some svc"
    and "a2 = received (adapter_service_event [single_handler api conv] f e2)
      (received (adapter_service_event [single_handler api conv] f e1) a)"
    and "e \<in> {e1, e2}"
  shows "\<exists>a'. (adapter_step conn get unmarshal [single_handler api conv])\<^sup>*\<^sup>* a2 a' \<and>
    ad_accelerator a' = ad_accelerator a \<and>
    map_option (\<lambda>cs. cs_Instances (cs_Spec cs)) (c_ConfiguredService (view (ad_cluster a')) (defaultNamespace, FormatToDNS1123 (dv_Name svc))) =
      Some (map (\<lambda>(k, i). convert_instance i) (ev_Instances e))"
proof -
  let ?ac = "ad_accelerator a"
  define c where "c = channel_of ?ac (dv_Name svc)"
  have c: "c < length (ac_channels ?ac)" unfolding c_def by (rule channel_in_range [OF assms(3,4)])
  have a2: "a2 = a\<lparr>ad_accelerator := queued (ReplaceJob 0 e2) (dv_Name svc) (queued (ReplaceJob 0 e1) (dv_Name svc) ?ac)\<rparr>"
    using assms(3-9) by (simp add: assms(10) received_replace)
  have chans: "ac_channels (ad_accelerator a2) = (ac_channels ?ac)[c := ac_channels ?ac ! c + {#ReplaceJob 0 e1, ReplaceJob 0 e2#}]"
    using c by (simp add: a2 queued_def c_def channel_of_def add_mset_commute)
  obtain cs1 cs2 where cs: "ToConfiguredService defaultNamespace e1 = Some cs1" "ToConfiguredService defaultNamespace e2 = Some cs2"
    using assms(8,9) by (simp add: ToConfiguredService_def)
  have c2: "\<not> ad_crashed a2" "c < length (ac_channels (ad_accelerator a2))"
    "ac_channels (ad_accelerator a2) ! c = ac_channels ?ac ! c + {#ReplaceJob 0 e1, ReplaceJob 0 e2#}"
    "ac_channels (ad_accelerator a2) ! c = ac_channels ?ac ! c + {#ReplaceJob 0 e2, ReplaceJob 0 e1#}"
    using c assms(5) chans by (simp_all add: a2 add_mset_commute)
  have emptied: "(ad_accelerator a2)\<lparr>ac_channels := (ac_channels (ad_accelerator a2))[c := ac_channels ?ac ! c]\<rparr> = ?ac"
    using c by (simp add: chans) (simp add: a2 queued_def)
  from assms(11) consider "e = e1" | "e = e2" by blast
  then show ?thesis
  proof cases
    case 1
    from two_jobs [OF assms(1,2) cs(2,1) c2(1,2,4), of conn get unmarshal conv] cs(1) assms(8) show ?thesis
      unfolding emptied 1 by (auto simp: ToConfiguredService_def new_meta_def)
  next
    case 2
    from two_jobs [OF assms(1,2) cs c2(1,2,3), of conn get unmarshal conv] cs(2) assms(9) show ?thesis
      unfolding emptied 2 by (auto simp: ToConfiguredService_def new_meta_def)
  qed
qed

section \<open>A run\<close>

definition demo_providers :: "string list \<Rightarrow> ServiceEvent" where
  "demo_providers hosts = \<lparr>ev_EventType = ServiceInstancesReplace, ev_Service = Some demo_service, ev_Instance = None,
     ev_Instances = map (\<lambda>h. (h, \<lparr>di_Service = None, di_Host = h, di_Port = None, di_Labels = []\<rparr>)) hosts\<rparr>"

definition demo_adapter :: "(string list, mem_world) adapter" where
  "demo_adapter = \<lparr>ad_registry = demo_known, ad_config = the (cf_New [] True), ad_ensemble = [],
     ad_accelerator = NewAccelerator 4, ad_cluster = empty_world, ad_crashed = False\<rparr>"

abbreviation demo_get :: "mem_world event_handler list \<Rightarrow> ServiceEvent \<Rightarrow> (string list, mem_world) adapter \<Rightarrow> (string list, mem_world) adapter" where
  "demo_get handlers e \<equiv> received (adapter_service_event handlers (\<lambda>_. []) e)"

abbreviation demo_handlers :: "mem_world event_handler list" where
  "demo_handlers \<equiv> [single_handler mem_api (\<lambda>_. None)]"

text \<open>A provider has gone, and the mesh still routes to it.\<close>

theorem replacements_may_reverse_witness:
  "\<exists>a'. (adapter_step demo_zk (\<lambda>path z. ([], z)) (\<lambda>_. None) demo_handlers)\<^sup>*\<^sup>*
      (demo_get demo_handlers (demo_providers [''10.0.0.2''])
        (demo_get demo_handlers (demo_providers [''10.0.0.1'', ''10.0.0.2'']) demo_adapter)) a' \<and>
    map_option (\<lambda>cs. length (cs_Instances (cs_Spec cs)))
      (c_ConfiguredService (mem_view (ad_cluster a')) (defaultNamespace, FormatToDNS1123 (dv_Name demo_service))) = Some 2"
proof -
  let ?e1 = "demo_providers [''10.0.0.1'', ''10.0.0.2'']" and ?e2 = "demo_providers [''10.0.0.2'']"
  have a: "accelerator_ok (ad_accelerator demo_adapter)" "0 < ac_size (ad_accelerator demo_adapter)" "\<not> ad_crashed demo_adapter"
    by (simp_all add: demo_adapter_def NewAccelerator_ok) (simp add: NewAccelerator_def)
  have e: "ev_EventType ?e1 = ServiceInstancesReplace" "ev_EventType ?e2 = ServiceInstancesReplace"
    "ev_Service ?e1 = Some demo_service" "ev_Service ?e2 = Some demo_service" "?e1 \<in> {?e1, ?e2}"
    by (simp_all add: demo_providers_def)
  from replacements_may_reverse [OF mem_api_ok mem_cs_reliable(1) a e(1-4) refl e(5), of demo_zk "\<lambda>path z. ([], z)" "\<lambda>_. None" "\<lambda>_. None" "\<lambda>_. []"]
  obtain a' where run: "(adapter_step demo_zk (\<lambda>path z. ([], z)) (\<lambda>_. None) demo_handlers)\<^sup>*\<^sup>* (demo_get demo_handlers ?e2 (demo_get demo_handlers ?e1 demo_adapter)) a'"
    and "map_option (\<lambda>cs. cs_Instances (cs_Spec cs))
      (c_ConfiguredService (mem_view (ad_cluster a')) (defaultNamespace, FormatToDNS1123 (dv_Name demo_service))) =
      Some (map (\<lambda>(k, i). convert_instance i) (ev_Instances ?e1))" by blast
  moreover from this(2) have "map_option (\<lambda>cs. length (cs_Instances (cs_Spec cs)))
      (c_ConfiguredService (mem_view (ad_cluster a')) (defaultNamespace, FormatToDNS1123 (dv_Name demo_service))) = Some 2"
    by (auto simp: demo_providers_def)
  ultimately show ?thesis by blast
qed

end
