(* ===== verification/Debounce.thy ===== *)
theory Debounce
  imports Prelude
begin

text \<open>
  \<^verbatim>\<open>pkg/adapter/debounce\<close>: requests that arrive in bursts are merged and handed on when none has arrived
  for a while, or at the latest after a limit. The goroutine of a debouncer is a state with one
  operation per case of its select; time is a number of nanoseconds that grows from step to step. A
  request is a type with a merge operation; \<open>nil\<close> stands for no request and is not put.
\<close>

section \<open>State\<close>

text \<open>
  \<open>db_timer\<close> is when \<open>timeChan\<close> fires, if it still will; \<open>db_pushing\<close> is the request of the goroutine that
  runs \<open>push\<close>, and \<open>db_freeCh\<close> says whether the channel of capacity one it reports to is full. The last
  two fields record the requests that were put and that were handed to the push function.
\<close>

record 'r debounce =
  db_waitTime :: int
  db_maxWaitTime :: int
  db_timer :: "int option"
  db_startTime :: int
  db_lastUpdateTime :: int
  db_debounceEvents :: int
  db_req :: "'r option"
  db_free :: bool
  db_freeCh :: bool
  db_pushing :: "'r option"
  db_closed :: bool
  db_puts :: "'r list"
  db_pushed :: "'r list"

text \<open>The two times start as the zero time, which is never read: no push precedes the first request.\<close>

definition debounce_New :: "int \<Rightarrow> int \<Rightarrow> 'r debounce" where
  "debounce_New waitTime maxWaitTime =
     \<lparr>db_waitTime = waitTime, db_maxWaitTime = maxWaitTime, db_timer = None, db_startTime = 0,
      db_lastUpdateTime = 0, db_debounceEvents = 0, db_req = None, db_free = True, db_freeCh = False,
      db_pushing = None, db_closed = False, db_puts = [], db_pushed = []\<rparr>"

section \<open>The cases of the select\<close>

definition pushWorker :: "int \<Rightarrow> 'r debounce \<Rightarrow> 'r debounce" where
  "pushWorker now d =
     (let lastUpdateDuration = now - db_lastUpdateTime d in
      if db_waitTime d \<le> lastUpdateDuration \<or> db_maxWaitTime d \<le> now - db_startTime d then
        (case db_req d of
           Some req \<Rightarrow> d\<lparr>db_free := False, db_pushing := Some req, db_pushed := db_pushed d @ [req],
             db_req := None, db_debounceEvents := 0\<rparr>
         | None \<Rightarrow> d)
      else d\<lparr>db_timer := Some (now + (db_waitTime d - lastUpdateDuration))\<rparr>)"

definition received_free :: "int \<Rightarrow> 'r debounce \<Rightarrow> 'r debounce" where
  "received_free now d = pushWorker now (d\<lparr>db_freeCh := False, db_free := True\<rparr>)"

definition received_request :: "('r \<Rightarrow> 'r \<Rightarrow> 'r) \<Rightarrow> int \<Rightarrow> 'r \<Rightarrow> 'r debounce \<Rightarrow> 'r debounce" where
  "received_request Merge now r d =
     (let d = d\<lparr>db_lastUpdateTime := now, db_puts := db_puts d @ [r]\<rparr>;
          d = (if db_debounceEvents d = 0
               then d\<lparr>db_timer := Some (now + db_waitTime d), db_startTime := db_lastUpdateTime d\<rparr> else d);
          d = d\<lparr>db_debounceEvents := db_debounceEvents d + 1\<rparr> in
      case db_req d of None \<Rightarrow> d\<lparr>db_req := Some r\<rparr> | Some req \<Rightarrow> d\<lparr>db_req := Some (Merge req r)\<rparr>)"

definition received_time :: "int \<Rightarrow> 'r debounce \<Rightarrow> 'r debounce" where
  "received_time now d =
     (let d = d\<lparr>db_timer := None\<rparr> in if db_free d then pushWorker now d else d)"

definition push_returned :: "'r debounce \<Rightarrow> 'r debounce" where
  "push_returned d = d\<lparr>db_pushing := None, db_freeCh := True\<rparr>"

definition debounce_Close :: "'r debounce \<Rightarrow> 'r debounce" where
  "debounce_Close d = d\<lparr>db_closed := True\<rparr>"

text \<open>
  One step at a time: the goroutine takes one of the cases that are ready, or the push function
  returns. A timer is ready from its deadline on. A closed debouncer has left its loop.
\<close>

inductive db_step ::
  "('r \<Rightarrow> 'r \<Rightarrow> 'r) \<Rightarrow> int \<Rightarrow> 'r debounce \<Rightarrow> 'r debounce \<Rightarrow> bool"
  for Merge :: "'r \<Rightarrow> 'r \<Rightarrow> 'r" where
  free: "\<not> db_closed d \<Longrightarrow> db_freeCh d \<Longrightarrow> db_step Merge now d (received_free now d)"
| put: "\<not> db_closed d \<Longrightarrow> db_step Merge now d (received_request Merge now r d)"
| timer: "\<not> db_closed d \<Longrightarrow> db_timer d = Some t \<Longrightarrow> t \<le> now \<Longrightarrow> db_step Merge now d (received_time now d)"
| pushed: "db_pushing d \<noteq> None \<Longrightarrow> db_step Merge now d (push_returned d)"
| close: "\<not> db_closed d \<Longrightarrow> db_step Merge now d (debounce_Close d)"

inductive db_run :: "('r \<Rightarrow> 'r \<Rightarrow> 'r) \<Rightarrow> int \<Rightarrow> int \<Rightarrow> int \<Rightarrow> 'r debounce \<Rightarrow> bool"
  for Merge :: "'r \<Rightarrow> 'r \<Rightarrow> 'r" and waitTime :: int and maxWaitTime :: int where
  new: "db_run Merge waitTime maxWaitTime now (debounce_New waitTime maxWaitTime)"
| more: "db_run Merge waitTime maxWaitTime now d \<Longrightarrow> now \<le> now' \<Longrightarrow> db_step Merge now' d d' \<Longrightarrow>
    db_run Merge waitTime maxWaitTime now' d'"

section \<open>No request is lost\<close>

text \<open>What a burst is merged to.\<close>

fun merged :: "('r \<Rightarrow> 'r \<Rightarrow> 'r) \<Rightarrow> 'r list \<Rightarrow> 'r option" where
  "merged Merge [] = None"
| "merged Merge (r # rs) = Some (foldl Merge r rs)"

lemma merged_snoc:
  "merged Merge (rs @ [r]) = (case merged Merge rs of None \<Rightarrow> Some r | Some q \<Rightarrow> Some (Merge q r))"
  by (cases rs) simp_all

lemma merged_None [simp]: "merged Merge rs = None \<longleftrightarrow> rs = []"
  by (cases rs) simp_all

definition bursts_ok :: "('r \<Rightarrow> 'r \<Rightarrow> 'r) \<Rightarrow> 'r debounce \<Rightarrow> bool" where
  "bursts_ok Merge d \<longleftrightarrow> (\<exists>bursts pending. db_puts d = concat bursts @ pending \<and>
     map Some (db_pushed d) = map (merged Merge) bursts \<and> db_req d = merged Merge pending)"

definition due :: "int \<Rightarrow> 'r debounce \<Rightarrow> bool" where
  "due now d \<longleftrightarrow> db_waitTime d \<le> now - db_lastUpdateTime d \<or> db_maxWaitTime d \<le> now - db_startTime d"

lemma pushWorker_cases:
  obtains (push) q where "due now d" and "db_req d = Some q"
      and "pushWorker now d = d\<lparr>db_free := False, db_pushing := Some q, db_pushed := db_pushed d @ [q],
        db_req := None, db_debounceEvents := 0\<rparr>"
    | (idle) "due now d" and "db_req d = None" and "pushWorker now d = d"
    | (rearm) "\<not> due now d" and "pushWorker now d = d\<lparr>db_timer := Some (db_lastUpdateTime d + db_waitTime d)\<rparr>"
  by (cases "due now d"; cases "db_req d") (simp_all add: pushWorker_def due_def algebra_simps)

lemma pushWorker_bursts:
  assumes "bursts_ok Merge d"
  shows "bursts_ok Merge (pushWorker now d)"
proof (cases rule: pushWorker_cases [of now d])
  case (push q)
  obtain bursts pending where d: "db_puts d = concat bursts @ pending"
    "map Some (db_pushed d) = map (merged Merge) bursts" "db_req d = merged Merge pending"
    using assms unfolding bursts_ok_def by blast
  then have "db_puts d = concat (bursts @ [pending]) @ []"
    "map Some (db_pushed d @ [q]) = map (merged Merge) (bursts @ [pending])" "None = merged Merge []"
    using push(2) by simp_all
  then have "\<exists>bursts pending. db_puts d = concat bursts @ pending \<and>
      map Some (db_pushed d @ [q]) = map (merged Merge) bursts \<and> None = merged Merge pending" by blast
  then show ?thesis unfolding push(3) bursts_ok_def by simp
qed (use assms in \<open>simp_all add: bursts_ok_def\<close>)

lemma received_request_simps:
  "db_puts (received_request Merge now r d) = db_puts d @ [r]"
  "db_pushed (received_request Merge now r d) = db_pushed d"
  "db_req (received_request Merge now r d) = Some (case db_req d of None \<Rightarrow> r | Some q \<Rightarrow> Merge q r)"
  "db_free (received_request Merge now r d) = db_free d" "db_freeCh (received_request Merge now r d) = db_freeCh d"
  "db_pushing (received_request Merge now r d) = db_pushing d"
  "db_lastUpdateTime (received_request Merge now r d) = now"
  "db_debounceEvents (received_request Merge now r d) = db_debounceEvents d + 1"
  "db_timer (received_request Merge now r d) =
     (if db_debounceEvents d = 0 then Some (now + db_waitTime d) else db_timer d)"
  "db_startTime (received_request Merge now r d) = (if db_debounceEvents d = 0 then now else db_startTime d)"
  "db_waitTime (received_request Merge now r d) = db_waitTime d"
  "db_maxWaitTime (received_request Merge now r d) = db_maxWaitTime d"
  by (simp_all add: received_request_def Let_def split: option.splits)

lemma db_step_bursts:
  assumes "db_step Merge now d d'" and "bursts_ok Merge d"
  shows "bursts_ok Merge d'"
  using assms(1)
proof cases
  case free
  have "bursts_ok Merge (d\<lparr>db_freeCh := False, db_free := True\<rparr>)" using assms(2) by (simp add: bursts_ok_def)
  with free show ?thesis by (simp add: received_free_def pushWorker_bursts)
next
  case (put r)
  obtain bursts pending where d: "db_puts d = concat bursts @ pending"
    "map Some (db_pushed d) = map (merged Merge) bursts" "db_req d = merged Merge pending"
    using assms(2) unfolding bursts_ok_def by blast
  then have "db_puts d' = concat bursts @ (pending @ [r])" "map Some (db_pushed d') = map (merged Merge) bursts"
    "db_req d' = merged Merge (pending @ [r])"
    unfolding put by (simp_all add: received_request_simps merged_snoc split: option.splits)
  then show ?thesis unfolding bursts_ok_def by blast
next
  case timer
  have "bursts_ok Merge (d\<lparr>db_timer := None\<rparr>)" using assms(2) by (simp add: bursts_ok_def)
  then show ?thesis unfolding timer received_time_def Let_def by (simp add: pushWorker_bursts)
qed (use assms(2) in \<open>simp_all add: bursts_ok_def push_returned_def debounce_Close_def\<close>)

text \<open>
  C15: in every run the requests that were put are, in their order, the bursts that were handed to the
  push function, each merged into one request, followed by those that are pending: none is lost,
  repeated or reordered, whenever the timers fire and however long a push takes.
\<close>

theorem debounce_partitions:
  assumes "db_run Merge waitTime maxWaitTime now d"
  shows "\<exists>bursts pending. db_puts d = concat bursts @ pending \<and>
    map Some (db_pushed d) = map (merged Merge) bursts \<and> db_req d = merged Merge pending"
proof -
  have "bursts_ok Merge d" using assms
  proof (induction rule: db_run.induct)
    case new
    have "db_puts (debounce_New waitTime maxWaitTime) = concat [] @ []" by (simp add: debounce_New_def)
    then show ?case unfolding bursts_ok_def by (intro exI [of _ "[]"]) (simp add: debounce_New_def)
  qed (rule db_step_bursts)
  then show ?thesis by (simp add: bursts_ok_def)
qed

section \<open>No request waits forever\<close>

text \<open>
  The goroutine is free exactly when no push runs and none has reported; and a pending request has a timer
  or a push ahead of it, with a deadline that more requests can only push out up to a limit.
\<close>

definition alarm_ok :: "int \<Rightarrow> 'r debounce \<Rightarrow> bool" where
  "alarm_ok now d \<longleftrightarrow>
     db_free d = (db_pushing d = None \<and> \<not> db_freeCh d) \<and> (db_pushing d \<noteq> None \<longrightarrow> \<not> db_freeCh d) \<and>
     0 \<le> db_debounceEvents d \<and> (db_req d = None \<longleftrightarrow> db_debounceEvents d = 0) \<and>
     (db_req d \<noteq> None \<longrightarrow> db_startTime d \<le> db_lastUpdateTime d \<and> db_lastUpdateTime d \<le> now \<and>
        (db_free d \<longrightarrow> db_timer d \<noteq> None) \<and>
        (\<forall>t. db_timer d = Some t \<longrightarrow>
           t \<le> db_lastUpdateTime d + db_waitTime d \<and> t \<le> db_startTime d + db_maxWaitTime d + db_waitTime d))"

text \<open>The same for a debouncer that is about to run its worker: the timer may have gone off.\<close>

definition alarming :: "int \<Rightarrow> 'r debounce \<Rightarrow> bool" where
  "alarming now d \<longleftrightarrow> db_free d \<and> db_pushing d = None \<and> \<not> db_freeCh d \<and>
     0 \<le> db_debounceEvents d \<and> (db_req d = None \<longleftrightarrow> db_debounceEvents d = 0) \<and>
     (db_req d \<noteq> None \<longrightarrow> db_startTime d \<le> db_lastUpdateTime d \<and> db_lastUpdateTime d \<le> now)"

lemma pushWorker_alarm:
  assumes "alarming now d"
  shows "alarm_ok now (pushWorker now d)"
proof (cases rule: pushWorker_cases [of now d])
  case (push q)
  show ?thesis using assms unfolding push(3) by (auto simp: alarming_def alarm_ok_def)
next
  case idle
  show ?thesis using assms idle(2) unfolding idle(3) by (auto simp: alarming_def alarm_ok_def)
next
  case rearm
  have "now - db_startTime d < db_maxWaitTime d" using rearm(1) by (simp add: due_def)
  then show ?thesis using assms unfolding rearm(2) by (auto simp: alarming_def alarm_ok_def)
qed

lemma db_step_alarm:
  assumes "db_step Merge now' d d'" and "alarm_ok now d" and "now \<le> now'"
    and "0 \<le> db_waitTime d" and "0 \<le> db_maxWaitTime d"
  shows "alarm_ok now' d'"
  using assms(1)
proof cases
  case free
  have "alarming now' (d\<lparr>db_freeCh := False, db_free := True\<rparr>)"
    using assms(2,3) free(3) by (auto simp: alarm_ok_def alarming_def)
  then show ?thesis unfolding free received_free_def by (rule pushWorker_alarm)
next
  case (put r)
  show ?thesis using assms(2-5) unfolding put by (auto simp: alarm_ok_def received_request_simps)
next
  case (timer t)
  show ?thesis
  proof (cases "db_free d")
    case True
    then have "alarming now' (d\<lparr>db_timer := None\<rparr>)"
      using assms(2,3) by (auto simp: alarm_ok_def alarming_def)
    with True show ?thesis unfolding timer received_time_def Let_def by (simp add: pushWorker_alarm)
  next
    case False
    with assms(2,3) show ?thesis unfolding timer received_time_def Let_def by (auto simp: alarm_ok_def)
  qed
qed (use assms(2,3) in \<open>auto simp: alarm_ok_def push_returned_def debounce_Close_def\<close>)

lemma pushWorker_times [simp]:
  "db_waitTime (pushWorker now d) = db_waitTime d" "db_maxWaitTime (pushWorker now d) = db_maxWaitTime d"
  by (simp_all add: pushWorker_def Let_def split: option.split)

lemma db_step_times:
  assumes "db_step Merge now d d'"
  shows "db_waitTime d' = db_waitTime d \<and> db_maxWaitTime d' = db_maxWaitTime d"
  using assms
  by cases (simp_all add: received_free_def received_request_simps received_time_def push_returned_def
      debounce_Close_def Let_def)

lemma db_run_alarm:
  assumes "db_run Merge waitTime maxWaitTime now d" and "0 \<le> waitTime" and "0 \<le> maxWaitTime"
  shows "alarm_ok now d \<and> db_waitTime d = waitTime \<and> db_maxWaitTime d = maxWaitTime"
  using assms
proof (induction rule: db_run.induct)
  case (new now)
  then show ?case by (simp add: alarm_ok_def debounce_New_def)
next
  case (more now d now' d')
  with db_step_alarm [OF more(3) _ more(2)] db_step_times [OF more(3)] show ?case by simp
qed

lemma closed_stays:
  assumes "db_step Merge now d d'" and "db_closed d"
  shows "db_closed d' \<and> db_pushed d' = db_pushed d \<and> db_req d' = db_req d"
  using assms by cases (simp_all add: push_returned_def)

lemma pushWorker_late:
  assumes "db_req d = Some req" and "db_startTime d + db_maxWaitTime d \<le> now"
  shows "db_pushed (pushWorker now d) = db_pushed d @ [req] \<and> db_req (pushWorker now d) = None"
  using assms by (simp add: pushWorker_def)

text \<open>
  C17: as long as the debouncer is open no request waits forever. While one is pending a push is running, has
  just reported, or a timer is set that goes off at most the waiting time after the last request and
  at most the waiting time after the limit; from then on, if no push runs, the goroutine has a step
  that hands the request on, and past the limit each of its steps on a timer, while free, or on
  a report does, however many more requests keep arriving. At most one push runs at a time. Once the
  debouncer is closed the opposite holds: no step hands the pending request on any more.
\<close>

theorem debounce_never_stuck:
  assumes "db_run Merge waitTime maxWaitTime now d" and "0 \<le> waitTime" and "0 \<le> maxWaitTime"
    and "db_req d = Some req"
  shows "(\<not> db_closed d \<longrightarrow>
      (db_pushing d \<noteq> None \<or> db_freeCh d \<or> (\<exists>t. db_timer d = Some t \<and>
         t \<le> db_lastUpdateTime d + waitTime \<and> t \<le> db_startTime d + maxWaitTime + waitTime)) \<and>
      (\<forall>now'. db_pushing d = None \<and> db_startTime d + maxWaitTime + waitTime \<le> now' \<longrightarrow>
         (\<exists>d'. db_step Merge now' d d' \<and> db_pushed d' = db_pushed d @ [req] \<and> db_req d' = None)) \<and>
      (\<forall>now' d'. db_startTime d + maxWaitTime \<le> now' \<and>
           (db_free d \<and> d' = received_time now' d \<or> d' = received_free now' d) \<longrightarrow>
         db_pushed d' = db_pushed d @ [req] \<and> db_req d' = None) \<and>
      (db_free d \<longleftrightarrow> db_pushing d = None \<and> \<not> db_freeCh d)) \<and>
    (db_closed d \<longrightarrow> (\<forall>now' d'. db_step Merge now' d d' \<longrightarrow>
       db_closed d' \<and> db_pushed d' = db_pushed d \<and> db_req d' = Some req))"
proof -
  from db_run_alarm [OF assms(1-3)]
  have alarm: "alarm_ok now d" and times: "db_waitTime d = waitTime" "db_maxWaitTime d = maxWaitTime" by simp_all
  have late: "db_pushed d' = db_pushed d @ [req] \<and> db_req d' = None"
    if "db_startTime d + maxWaitTime \<le> now'" "db_free d \<and> d' = received_time now' d \<or> d' = received_free now' d"
    for now' d'
    using that pushWorker_late [of "d\<lparr>db_timer := None\<rparr>" req now']
      pushWorker_late [of "d\<lparr>db_freeCh := False, db_free := True\<rparr>" req now'] times assms(4)
    by (auto simp: received_time_def received_free_def Let_def)
  have set: "\<exists>t. db_timer d = Some t \<and> t \<le> db_lastUpdateTime d + waitTime \<and> t \<le> db_startTime d + maxWaitTime + waitTime"
    if "db_free d" using alarm assms(4) times that by (auto simp: alarm_ok_def)
  have free: "db_free d \<longleftrightarrow> db_pushing d = None \<and> \<not> db_freeCh d" using alarm by (simp add: alarm_ok_def)
  have handed: "\<exists>d'. db_step Merge now' d d' \<and> db_pushed d' = db_pushed d @ [req] \<and> db_req d' = None"
    if "\<not> db_closed d" "db_pushing d = None" "db_startTime d + maxWaitTime + waitTime \<le> now'" for now'
  proof (cases "db_freeCh d")
    case True
    from db_step.free [OF that(1) this, of Merge now'] late [of now' "received_free now' d"] that(3) assms(2)
    show ?thesis by auto
  next
    case False
    with set free that(2,3) obtain t where "db_timer d = Some t" "t \<le> now'" by auto
    from db_step.timer [OF that(1) this, of Merge] late [of now' "received_time now' d"] that(2,3) free False assms(2)
    show ?thesis by auto
  qed
  show ?thesis using set late free handed closed_stays [of Merge _ d] assms(4) by auto
qed

section \<open>A run\<close>

text \<open>Two requests within the waiting time, merged by appending; the timer re-arms once and then pushes.\<close>

definition demo_burst :: "string debounce" where
  "demo_burst = received_request (@) 4 ''b'' (received_request (@) 1 ''a'' (debounce_New 5 20))"

lemma demo_burst_run: "db_run (@) 5 20 4 demo_burst"
proof -
  have "db_run (@) 5 20 1 (received_request (@) 1 ''a'' (debounce_New 5 20))"
    by (rule db_run.more [OF db_run.new [where now = 0] _ db_step.put]) (simp_all add: debounce_New_def)
  then show ?thesis unfolding demo_burst_def
    by (rule db_run.more [OF _ _ db_step.put]) (simp_all add: received_request_def debounce_New_def)
qed

theorem debounce_partitions_witness:
  "\<exists>bursts pending. db_puts (received_time 9 (received_time 6 demo_burst)) = concat bursts @ pending \<and>
    map Some [''ab''] = map (merged (@)) bursts \<and> None = merged (@) pending"
proof -
  have six: "db_run (@) 5 20 6 (received_time 6 demo_burst)"
    by (rule db_run.more [OF demo_burst_run _ db_step.timer [where t = 6]])
      (simp_all add: demo_burst_def received_request_def debounce_New_def)
  have "db_run (@) 5 20 9 (received_time 9 (received_time 6 demo_burst))"
    by (rule db_run.more [OF six _ db_step.timer [where t = 9]])
      (simp_all add: demo_burst_def received_request_def debounce_New_def received_time_def pushWorker_def)
  from debounce_partitions [OF this] show ?thesis
    by (simp add: demo_burst_def received_request_def debounce_New_def received_time_def pushWorker_def)
qed

theorem debounce_never_stuck_witness:
  "(\<exists>t. db_timer demo_burst = Some t \<and> t \<le> 9 \<and> t \<le> 26) \<and>
   (\<exists>d'. db_step (@) 26 demo_burst d' \<and> db_pushed d' = [''ab''] \<and> db_req d' = None) \<and>
   (\<nexists>d'. db_step (@) 26 (debounce_Close demo_burst) d' \<and> db_pushed d' \<noteq> [])"
proof -
  have d: "db_req demo_burst = Some ''ab''" "db_free demo_burst" "db_startTime demo_burst = 1" "db_pushed demo_burst = []"
    "db_lastUpdateTime demo_burst = 4" "db_pushing demo_burst = None" "\<not> db_freeCh demo_burst" "\<not> db_closed demo_burst"
    by (simp_all add: demo_burst_def received_request_def debounce_New_def)
  have closed: "db_run (@) 5 20 4 (debounce_Close demo_burst)"
    by (rule db_run.more [OF demo_burst_run _ db_step.close]) (simp_all add: d)
  have "db_req (debounce_Close demo_burst) = Some ''ab''" "db_closed (debounce_Close demo_burst)"
    "db_pushed (debounce_Close demo_burst) = []" using d by (simp_all add: debounce_Close_def)
  with debounce_never_stuck [OF closed _ _ this(1)] debounce_never_stuck [OF demo_burst_run _ _ d(1)] d
  show ?thesis by auto
qed

end
