(* ===== verification/ClustersCorrect.thy ===== *)
theory ClustersCorrect
  imports ClustersBuild
begin

text \<open>
  What the check of the cluster manager achieves: the managed clusters are those that are described,
  the others are stopped and repeating the check changes nothing, as long as every connection that is needed
  can be made; and what happens when one cannot.
\<close>

section \<open>Descriptions\<close>

text \<open>A cluster stays when its description is, up to case, the one it was built from, or is empty.\<close>

definition keeps :: "('g, 'k, 'w, 'o) cmanager \<Rightarrow> string \<Rightarrow> nat \<Rightarrow> bool" where
  "keeps m conf a \<longleftrightarrow> EqualFold conf (cl_RawKubeconfig (cluster_at m a)) \<or> conf = []"

lemma current_spec:
  assumes "distinct (map (name_at m) (cm_clusters m))"
  shows "map_of (current m) n = Some a \<longleftrightarrow> a \<in> set (cm_clusters m) \<and> name_at m a = n"
  using map_of_index_by [OF assms, of n a] by (simp add: current_def index_by_def)

lemma wf_current [simp]: "wf_map (current m)"
  by (simp add: current_def wf_map_fold_put)

lemma wf_expected [simp]: "wf_map (expected cms)"
  by (simp add: expected_def wf_map_fold_put)

lemma expected_spec:
  assumes "distinct (map cfm_Name cms)"
  shows "map_of (expected cms) n = Some conf \<longleftrightarrow> (\<exists>cm \<in> set cms. cfm_Name cm = n \<and> fst (convertToKubeconfig cm) = conf)"
proof -
  have "map_of (expected cms) n = map_option (\<lambda>cm. fst (convertToKubeconfig cm)) (find (\<lambda>cm. cfm_Name cm = n) cms)"
    unfolding expected_def by (subst map_of_fold_put [OF assms]) (simp split: option.split)
  moreover have "find (\<lambda>cm. cfm_Name cm = n) cms = Some cm \<longleftrightarrow> cm \<in> set cms \<and> cfm_Name cm = n" for cm
    using map_of_index_by [OF assms, of n cm]
    unfolding index_by_def by (subst (asm) map_of_fold_put [OF assms]) (simp split: option.splits)
  ultimately show ?thesis by (auto simp: find_None_iff)
qed

section \<open>Comparing\<close>

text \<open>What the comparison may change of the manager: the status of clusters.\<close>

definition only_status :: "('g, 'k, 'w, 'o) cmanager \<Rightarrow> ('g, 'k, 'w, 'o) cmanager \<Rightarrow> bool" where
  "only_status m m' \<longleftrightarrow> m' = m\<lparr>cm_heap := cm_heap m'\<rparr> \<and> length (cm_heap m') = length (cm_heap m) \<and>
     (\<forall>a. a < length (cm_heap m) \<longrightarrow> cluster_at m' a = (cluster_at m a)\<lparr>cl_Status := cl_Status (cluster_at m' a)\<rparr>)"

lemma only_status_refl [simp]: "only_status m m"
  by (simp add: only_status_def)

lemma only_status_trans:
  assumes "only_status m m1" and "only_status m1 m2"
  shows "only_status m m2"
proof -
  have "cluster_at m2 a = (cluster_at m a)\<lparr>cl_Status := cl_Status (cluster_at m2 a)\<rparr>" if "a < length (cm_heap m)" for a
  proof -
    have one: "cluster_at m1 a = (cluster_at m a)\<lparr>cl_Status := cl_Status (cluster_at m1 a)\<rparr>"
      using assms(1) that unfolding only_status_def by blast
    have "a < length (cm_heap m1)" using assms(1) that by (simp add: only_status_def)
    then have "cluster_at m2 a = (cluster_at m1 a)\<lparr>cl_Status := cl_Status (cluster_at m2 a)\<rparr>"
      using assms(2) unfolding only_status_def by blast
    also have "\<dots> = (cluster_at m a)\<lparr>cl_Status := cl_Status (cluster_at m2 a)\<rparr>" by (subst one) simp
    finally show ?thesis .
  qed
  moreover have "m2 = m\<lparr>cm_heap := cm_heap m2\<rparr>"
  proof -
    have one: "m1 = m\<lparr>cm_heap := cm_heap m1\<rparr>" using assms(1) unfolding only_status_def by (elim conjE)
    have "m2 = m1\<lparr>cm_heap := cm_heap m2\<rparr>" using assms(2) unfolding only_status_def by (elim conjE)
    also have "\<dots> = m\<lparr>cm_heap := cm_heap m2\<rparr>" by (subst one) simp
    finally show ?thesis .
  qed
  moreover have "length (cm_heap m2) = length (cm_heap m)" using assms unfolding only_status_def by (elim conjE) simp
  ultimately show ?thesis unfolding only_status_def by blast
qed

lemma only_statusD:
  assumes "only_status m m'"
  shows "cm_clusters m' = cm_clusters m" "cm_Opt m' = cm_Opt m" "cm_Started m' = cm_Started m"
    "length (cm_heap m') = length (cm_heap m)"
    "a < length (cm_heap m) \<Longrightarrow> name_at m' a = name_at m a"
    "a < length (cm_heap m) \<Longrightarrow> cl_stopped (cluster_at m' a) = cl_stopped (cluster_at m a)"
    "a < length (cm_heap m) \<Longrightarrow> cl_Started (cluster_at m' a) = cl_Started (cluster_at m a)"
    "a < length (cm_heap m) \<Longrightarrow> cl_RawKubeconfig (cluster_at m' a) = cl_RawKubeconfig (cluster_at m a)"
    "a < length (cm_heap m) \<Longrightarrow> keeps m' conf a = keeps m conf a"
proof -
  have m': "m' = m\<lparr>cm_heap := cm_heap m'\<rparr>" using assms unfolding only_status_def by (elim conjE)
  have len: "length (cm_heap m') = length (cm_heap m)" using assms unfolding only_status_def by (elim conjE)
  show "cm_clusters m' = cm_clusters m" using arg_cong [OF m', of cm_clusters] by simp
  show "cm_Opt m' = cm_Opt m" using arg_cong [OF m', of cm_Opt] by simp
  show "cm_Started m' = cm_Started m" using arg_cong [OF m', of cm_Started] by simp
  show "length (cm_heap m') = length (cm_heap m)" by (rule len)
  assume "a < length (cm_heap m)"
  then have at: "cluster_at m' a = (cluster_at m a)\<lparr>cl_Status := cl_Status (cluster_at m' a)\<rparr>"
    using assms unfolding only_status_def by blast
  show "name_at m' a = name_at m a" using arg_cong [OF at, of cl_Name] by (simp add: name_at_def)
  show "cl_stopped (cluster_at m' a) = cl_stopped (cluster_at m a)" using arg_cong [OF at, of cl_stopped] by simp
  show "cl_Started (cluster_at m' a) = cl_Started (cluster_at m a)" using arg_cong [OF at, of cl_Started] by simp
  show raw: "cl_RawKubeconfig (cluster_at m' a) = cl_RawKubeconfig (cluster_at m a)"
    using arg_cong [OF at, of cl_RawKubeconfig] by simp
  show "keeps m' conf a = keeps m conf a" by (simp add: keeps_def raw)
qed

lemma only_status_set:
  "a < length (cm_heap m) \<Longrightarrow> only_status m (set_cluster a ((cluster_at m a)\<lparr>cl_Status := st\<rparr>) m)"
  by (auto simp: only_status_def) (simp add: set_cluster_def)

definition kept :: "('g, 'k, 'w, 'o) cmanager \<Rightarrow> (string, nat) gomap \<Rightarrow> (string \<times> string) list \<Rightarrow> nat list" where
  "kept m cur E = List.map_filter (\<lambda>(n, conf). case map_of cur n of
     Some a \<Rightarrow> if keeps m conf a then Some a else None | None \<Rightarrow> None) E"

lemma map_filter_cong_mem: "(\<And>x. x \<in> set xs \<Longrightarrow> f x = g x) \<Longrightarrow> List.map_filter f xs = List.map_filter g xs"
proof (induction xs)
  case (Cons x xs)
  then have "f x = g x" "List.map_filter f xs = List.map_filter g xs" by simp_all
  then show ?case by (simp add: map_filter_simps split: option.split)
qed simp

lemma in_map_filter: "y \<in> set (List.map_filter f xs) \<longleftrightarrow> (\<exists>x \<in> set xs. f x = Some y)"
  by (force simp: map_filter_def)

text \<open>The maps after the loop over the expected clusters \<open>E\<close>.\<close>

definition deleted_map :: "('g, 'k, 'w, 'o) cmanager \<Rightarrow> (string, nat) gomap \<Rightarrow> (string \<times> string) list \<Rightarrow> string \<Rightarrow> nat option" where
  "deleted_map m cur E n = (case (map_of cur n, map_of E n) of
     (Some a, Some conf) \<Rightarrow> if keeps m conf a then None else Some a | (x, None) \<Rightarrow> x | (None, Some conf) \<Rightarrow> None)"

definition added_map :: "('g, 'k, 'w, 'o) cmanager \<Rightarrow> (string, nat) gomap \<Rightarrow> (string \<times> string) list \<Rightarrow> string \<Rightarrow> string option" where
  "added_map m cur E n = (case (map_of E n, map_of cur n) of
     (Some conf, Some a) \<Rightarrow> if keeps m conf a then None else Some conf | (x, None) \<Rightarrow> x | (None, Some a) \<Rightarrow> None)"

lemma compare_step_None:
  "map_of cur n = None \<Longrightarrow> compare_step (n, conf) (new, cur, add, m) = (new, cur, map_put n conf add, m)"
  by (simp add: compare_step_def)

lemma compare_step_Some:
  assumes "map_of cur n = Some a"
  shows "compare_step (n, conf) (new, cur, add, m) =
    (if keeps m conf a then new @ [a] else new,
     if keeps m conf a then map_del n cur else map_put n a (map_del n cur),
     if keeps m conf a then add else map_put n conf add,
     if \<not> EqualFold conf (cl_RawKubeconfig (cluster_at m a)) \<and> conf = []
     then set_cluster a ((cluster_at m a)\<lparr>cl_Status := ClusterMaintain\<rparr>) m else m)"
  using assms by (simp add: compare_step_def keeps_def Let_def)

lemma compare_fold:
  assumes "fold compare_step E (new, cur, add, m) = (new', cur', add', m')"
    and "distinct (map fst E)" and "\<forall>n a. map_of cur n = Some a \<longrightarrow> a < length (cm_heap m)"
    and "wf_map cur" and "wf_map add"
  shows "new' = new @ kept m cur E \<and> map_of cur' = deleted_map m cur E \<and>
    map_of add' = map_of add ++ added_map m cur E \<and> wf_map cur' \<and> wf_map add' \<and> only_status m m'"
  using assms
proof (induction E arbitrary: new cur add m)
  case Nil
  then show ?case by (auto simp: kept_def deleted_map_def added_map_def map_filter_simps fun_eq_iff map_add_def split: option.splits)
next
  case (Cons nc E)
  obtain n conf where nc: "nc = (n, conf)" by (cases nc)
  have new: "map_of E n = None" and dist: "distinct (map fst E)"
    using Cons.prems(2) nc by (auto simp: map_of_eq_None_iff)
  show ?case
  proof (cases "map_of cur n")
    case None
    with Cons.prems(1) nc have run: "fold compare_step E (new, cur, map_put n conf add, m) = (new', cur', add', m')"
      by (simp add: compare_step_None)
    from Cons.IH [OF run dist Cons.prems(3,4)] Cons.prems(5) new None nc show ?thesis
      by (auto simp: kept_def deleted_map_def added_map_def map_filter_simps fun_eq_iff map_add_def split: option.splits)
  next
    case (Some a)
    have a: "a < length (cm_heap m)" using Cons.prems(3) Some by blast
    define stay where "stay = keeps m conf a"
    define m1 where "m1 = (if \<not> EqualFold conf (cl_RawKubeconfig (cluster_at m a)) \<and> conf = []
      then set_cluster a ((cluster_at m a)\<lparr>cl_Status := ClusterMaintain\<rparr>) m else m)"
    define cur1 where "cur1 = (if stay then map_del n cur else map_put n a (map_del n cur))"
    have st: "only_status m m1" by (simp add: m1_def only_status_set a)
    have run: "fold compare_step E (if stay then new @ [a] else new, cur1,
        if stay then add else map_put n conf add, m1) = (new', cur', add', m')"
      using Cons.prems(1) unfolding nc fold_simps compare_step_Some [OF Some] stay_def m1_def cur1_def .
    have range: "\<forall>n' b. map_of cur1 n' = Some b \<longrightarrow> b < length (cm_heap m1)"
      using Cons.prems(3) a only_statusD(4) [OF st] by (auto simp: cur1_def split: if_splits)
    have same: "b < length (cm_heap m) \<Longrightarrow> keeps m1 c b = keeps m c b" for c b by (rule only_statusD(9) [OF st])
    have wf: "wf_map cur1" "wf_map (if stay then add else map_put n conf add)"
      using Cons.prems(4,5) by (simp_all add: cur1_def)
    from Cons.IH [OF run dist range wf]
    have IH: "new' = (if stay then new @ [a] else new) @ kept m1 cur1 E" "map_of cur' = deleted_map m1 cur1 E"
      "map_of add' = map_of (if stay then add else map_put n conf add) ++ added_map m1 cur1 E"
      "wf_map cur'" "wf_map add'" "only_status m1 m'" by blast+
    have other: "map_of cur1 n' = map_of cur n'" if "n' \<noteq> n" for n' using that by (simp add: cur1_def)
    have here: "map_of cur1 n = (if stay then None else Some a)" by (simp add: cur1_def)
    have kept: "kept m1 cur1 E = kept m cur E"
      unfolding kept_def
    proof (rule map_filter_cong_mem)
      fix x assume "x \<in> set E"
      with new have "fst x \<noteq> n" by (auto simp: map_of_eq_None_iff)
      with other Cons.prems(3) same show "(case x of (n, conf) \<Rightarrow> case map_of cur1 n of
          Some a \<Rightarrow> if keeps m1 conf a then Some a else None | None \<Rightarrow> None) =
        (case x of (n, conf) \<Rightarrow> case map_of cur n of Some a \<Rightarrow> if keeps m conf a then Some a else None | None \<Rightarrow> None)"
        by (auto split: option.splits prod.splits)
    qed
    have del: "deleted_map m1 cur1 E n' = deleted_map m cur (nc # E) n'" for n'
      using other [of n'] here new nc Some Cons.prems(3) same
      by (auto simp: deleted_map_def stay_def split: option.splits if_splits)
    have add: "(map_of (if stay then add else map_put n conf add) ++ added_map m1 cur1 E) n' =
        (map_of add ++ added_map m cur (nc # E)) n'" for n'
      using other [of n'] here new nc Some Cons.prems(3) same
      by (auto simp: added_map_def map_add_def stay_def split: option.splits if_splits)
    show ?thesis
      using IH kept del add nc Some only_status_trans [OF st]
      by (auto simp: fun_eq_iff kept_def map_filter_simps stay_def)
  qed
qed

text \<open>The comparison in terms of the descriptions and the managed clusters.\<close>

definition described :: "config_map list \<Rightarrow> ('g, 'k, 'w, 'o) cmanager \<Rightarrow> nat \<Rightarrow> bool" where
  "described cms m a \<longleftrightarrow> (\<exists>cm \<in> set cms. cfm_Name cm = name_at m a \<and> keeps m (fst (convertToKubeconfig cm)) a)"

lemma compare_clusters_spec:
  assumes ok: "manager_ok m" and names: "distinct (map cfm_Name cms)"
    and run: "compare_clusters cms m = (new, del, add, m')"
  shows "only_status m m'" and "wf_map del" and "wf_map add"
    and "a \<in> set new \<longleftrightarrow> a \<in> set (cm_clusters m) \<and> described cms m a" and "distinct (map (name_at m) new)"
    and "map_of del n = Some a \<longleftrightarrow> a \<in> set (cm_clusters m) \<and> name_at m a = n \<and> \<not> described cms m a"
    and "map_of add n = Some conf \<longleftrightarrow> (\<exists>cm \<in> set cms. cfm_Name cm = n \<and> fst (convertToKubeconfig cm) = conf) \<and>
      (\<forall>a \<in> set (cm_clusters m). name_at m a = n \<longrightarrow> \<not> keeps m conf a)"
proof -
  note cur = current_spec [OF manager_okD(1) [OF ok]]
  note exp = expected_spec [OF names]
  have unique: "cm = cm'" if "cm \<in> set cms" "cm' \<in> set cms" "cfm_Name cm = cfm_Name cm'" for cm cm'
    using names that by (auto simp: distinct_map inj_on_def)
  have "new = [] @ kept m (current m) (expected cms) \<and> map_of del = deleted_map m (current m) (expected cms) \<and>
      map_of add = map_of [] ++ added_map m (current m) (expected cms) \<and> wf_map del \<and> wf_map add \<and> only_status m m'"
    by (rule compare_fold [OF run [unfolded compare_clusters_def]])
      (use manager_okD(3) [OF ok] cur wf_expected [of cms] wf_current [of m] in \<open>auto simp: wf_map_def simp del: wf_current wf_expected\<close>)
  then have new: "new = kept m (current m) (expected cms)" and del: "map_of del = deleted_map m (current m) (expected cms)"
    and add: "map_of add = added_map m (current m) (expected cms)" and wf: "wf_map del" "wf_map add"
    and st: "only_status m m'" by (simp_all add: map_add_def)
  show "only_status m m'" "wf_map del" "wf_map add" by (fact st wf)+
  have here: "described cms m a \<longleftrightarrow> (\<exists>conf. map_of (expected cms) (name_at m a) = Some conf \<and> keeps m conf a)" for a
    by (auto simp: described_def exp)
  have pair: "map_of (expected cms) n = Some conf \<longleftrightarrow> (n, conf) \<in> set (expected cms)" for n conf
    by (rule map_of_eq_Some_set) simp
  have "a \<in> set new \<longleftrightarrow> (\<exists>n conf. (n, conf) \<in> set (expected cms) \<and> map_of (current m) n = Some a \<and> keeps m conf a)"
    unfolding new kept_def in_map_filter by (force split: option.splits if_splits)
  then show "a \<in> set new \<longleftrightarrow> a \<in> set (cm_clusters m) \<and> described cms m a"
    unfolding here pair [symmetric] by (auto simp: cur)
  have "map (name_at m) (kept m (current m) E) =
      map fst (filter (\<lambda>(n, conf). case map_of (current m) n of None \<Rightarrow> False | Some a \<Rightarrow> keeps m conf a) E)" for E
  proof (induction E)
    case (Cons nc E)
    obtain n conf where nc: "nc = (n, conf)" by (cases nc)
    have "name_at m a = n" if "map_of (current m) n = Some a" for a using that by (simp add: cur)
    then show ?case using Cons nc
      by (cases "map_of (current m) n") (simp_all add: kept_def map_filter_simps)
  qed (simp add: kept_def map_filter_simps)
  with wf_expected [of cms] show "distinct (map (name_at m) new)"
    unfolding new by (simp add: wf_map_def distinct_map_filter)
  have only: "a \<in> set (cm_clusters m) \<and> name_at m a = n \<longleftrightarrow> a = b" if "map_of (current m) n = Some b" for a b
    using that manager_okD(7) [OF ok] by (auto simp: cur)
  have no: "\<not> (a \<in> set (cm_clusters m) \<and> name_at m a = n)" if "map_of (current m) n = None" for a
    using that cur [of n a] by auto
  show "map_of del n = Some a \<longleftrightarrow> a \<in> set (cm_clusters m) \<and> name_at m a = n \<and> \<not> described cms m a"
  proof (cases "map_of (current m) n")
    case None
    then show ?thesis using no [OF None, of a] by (auto simp: del deleted_map_def split: option.splits)
  next
    case (Some b)
    then show ?thesis using only [OF Some, of a] here [of a]
      by (auto simp: del deleted_map_def split: option.splits if_splits)
  qed
  show "map_of add n = Some conf \<longleftrightarrow> (\<exists>cm \<in> set cms. cfm_Name cm = n \<and> fst (convertToKubeconfig cm) = conf) \<and>
      (\<forall>a \<in> set (cm_clusters m). name_at m a = n \<longrightarrow> \<not> keeps m conf a)"
  proof (cases "map_of (current m) n")
    case None
    then show ?thesis using no [OF None] exp [of n conf]
      by (auto simp: add added_map_def split: option.splits)
  next
    case (Some b)
    have "(\<forall>a \<in> set (cm_clusters m). name_at m a = n \<longrightarrow> \<not> keeps m conf a) \<longleftrightarrow> \<not> keeps m conf b"
      using only [OF Some] by metis
    moreover have "map_of add n = Some conf \<longleftrightarrow> map_of (expected cms) n = Some conf \<and> \<not> keeps m conf b"
      using Some by (auto simp: add added_map_def split: option.splits)
    ultimately show ?thesis using exp [of n conf] by simp
  qed
qed

section \<open>Stopping and connecting\<close>

definition with_stopped :: "nat set \<Rightarrow> ('g, 'k, 'w, 'o) cmanager \<Rightarrow> ('g, 'k, 'w, 'o) cmanager \<Rightarrow> bool" where
  "with_stopped A m m' \<longleftrightarrow> cm_clusters m' = cm_clusters m \<and> cm_Opt m' = cm_Opt m \<and> cm_Started m' = cm_Started m \<and>
     length (cm_heap m') = length (cm_heap m) \<and>
     (\<forall>a. a < length (cm_heap m) \<longrightarrow> cluster_at m' a =
        (if a \<in> A then (cluster_at m a)\<lparr>cl_stopped := True\<rparr> else cluster_at m a))"

lemma drop_clusters:
  assumes "\<forall>(n, a) \<in> set del. a < length (cm_heap m) \<and> \<not> cl_stopped (cluster_at m a)" and "distinct (map snd del)"
  shows "\<exists>m'. gforeach drop_cluster del (m, w) = (Inr (), (m', w)) \<and> with_stopped (snd ` set del) m m'"
  using assms
proof (induction del arbitrary: m)
  case Nil
  then show ?case by (simp add: with_stopped_def)
next
  case (Cons na del)
  obtain n a where na: "na = (n, a)" by (cases na)
  define m1 where "m1 = set_cluster a ((cluster_at m a)\<lparr>cl_stopped := True\<rparr>)
    (m\<lparr>cm_health := RemoveLivenessCheck (name_at m a) (cm_health m)\<rparr>)"
  have a: "a < length (cm_heap m)" "\<not> cl_stopped (cluster_at m a)" using Cons.prems(1) na by auto
  have same: "cluster_at (m\<lparr>cm_health := h\<rparr>) b = cluster_at m b" for h b by (simp add: cluster_at_def)
  have m1: "cluster_at m1 b = (if b = a then (cluster_at m a)\<lparr>cl_stopped := True\<rparr> else cluster_at m b)" for b
    using a by (simp add: m1_def same)
  have rest: "cm_clusters m1 = cm_clusters m" "cm_Opt m1 = cm_Opt m" "cm_Started m1 = cm_Started m"
    "length (cm_heap m1) = length (cm_heap m)" by (simp_all add: m1_def set_cluster_def)
  have step: "drop_cluster na (m, w) = (Inr (), (m1, w))"
    using a by (simp add: na drop_cluster_def cluster_Stop_def same m1_def Let_def)
  have "\<forall>(n, b) \<in> set del. b < length (cm_heap m1) \<and> \<not> cl_stopped (cluster_at m1 b)"
    using Cons.prems na by (auto simp: m1 rest) (metis image_eqI snd_conv)
  moreover have "distinct (map snd del)" using Cons.prems(2) by simp
  ultimately obtain m' where "gforeach drop_cluster del (m1, w) = (Inr (), (m', w))"
    and m': "with_stopped (snd ` set del) m1 m'" using Cons.IH by blast
  then have "gforeach drop_cluster (na # del) (m, w) = (Inr (), (m', w))" by (simp add: step)
  moreover have "with_stopped (snd ` set (na # del)) m m'"
    using m' by (auto simp: with_stopped_def m1 rest na)
  ultimately show ?case by blast
qed

lemma drop_stopped_panics:
  assumes "(n, a) \<in> set del" and "\<forall>(n, a) \<in> set del. a < length (cm_heap m)" and "cl_stopped (cluster_at m a)"
  shows "fst (gforeach drop_cluster del (m, w)) = Inl Panic"
  using assms
proof (induction del arbitrary: m)
  case (Cons na del)
  obtain n' b where na: "na = (n', b)" by (cases na)
  have same: "cluster_at (m\<lparr>cm_health := h\<rparr>) c = cluster_at m c" for h c by (simp add: cluster_at_def)
  show ?case
  proof (cases "cl_stopped (cluster_at m b)")
    case True
    then show ?thesis by (simp add: na drop_cluster_def cluster_Stop_def same Let_def)
  next
    case False
    define m1 where "m1 = set_cluster b ((cluster_at m b)\<lparr>cl_stopped := True\<rparr>)
      (m\<lparr>cm_health := RemoveLivenessCheck (name_at m b) (cm_health m)\<rparr>)"
    have step: "drop_cluster na (m, w) = (Inr (), (m1, w))"
      using False by (simp add: na drop_cluster_def cluster_Stop_def same m1_def Let_def)
    have b: "b < length (cm_heap m)" using Cons.prems(2) na by auto
    have "(n, a) \<in> set del" using Cons.prems(1,3) False na by auto
    moreover have "\<forall>(n, a) \<in> set del. a < length (cm_heap m1)" using Cons.prems(2) by (auto simp: m1_def)
    moreover have "cl_stopped (cluster_at m1 a)" using Cons.prems(3) b by (simp add: m1_def same)
    ultimately have "fst (gforeach drop_cluster del (m1, w)) = Inl Panic" by (rule Cons.IH)
    then show ?thesis by (simp add: step)
  qed
qed simp

definition built_from :: "string \<times> string \<Rightarrow> ('g, 'k, 'w, 'o) cluster \<Rightarrow> bool" where
  "built_from nc c \<longleftrightarrow> cl_Name c = fst nc \<and> cl_RawKubeconfig c = snd nc \<and> \<not> cl_stopped c \<and> cl_Started c"

lemma connect_all_spec:
  "connect_all L add new (m, w) = (r, (m', w')) \<Longrightarrow> \<exists>cs. m' = m\<lparr>cm_heap := cm_heap m @ cs\<rparr> \<and>
    (case r of None \<Rightarrow> True | Some new' \<Rightarrow> list_all2 built_from add cs \<and>
       new' = new @ [length (cm_heap m)..<length (cm_heap m) + length add])"
proof (induction add arbitrary: new m w)
  case Nil
  then show ?case by (intro exI [of _ "[]"]) auto
next
  case (Cons nc add)
  obtain n conf where nc: "nc = (n, conf)" by (cases nc)
  obtain q w1 where conn: "NewCluster L n conf w = (q, w1)" by fastforce
  show ?case
  proof (cases q)
    case (Inl e)
    with Cons.prems conn nc show ?thesis by (intro exI [of _ "[]"]) (simp add: addNewClusters_def)
  next
    case (Inr c)
    let ?m1 = "m\<lparr>cm_heap := cm_heap m @ [StartCache c]\<rparr>"
    have "connect_all L add (new @ [length (cm_heap m)]) (?m1, w1) = (r, (m', w'))"
      using Cons.prems conn nc Inr by (simp add: addNewClusters_def)
    from Cons.IH [OF this] obtain cs where m': "m' = ?m1\<lparr>cm_heap := cm_heap ?m1 @ cs\<rparr>"
      and r: "case r of None \<Rightarrow> True | Some new' \<Rightarrow> list_all2 built_from add cs \<and>
       new' = (new @ [length (cm_heap m)]) @ [length (cm_heap ?m1)..<length (cm_heap ?m1) + length add]" by blast
    have "built_from nc (StartCache c)"
      using NewCluster_built [of L n conf w c w1] conn Inr nc by (simp add: built_from_def StartCache_def)
    moreover have "[length (cm_heap m)..<length (cm_heap m) + length (nc # add)] =
        length (cm_heap m) # [length (cm_heap ?m1)..<length (cm_heap ?m1) + length add]"
      by (simp add: upt_conv_Cons del: upt_Suc)
    ultimately show ?thesis using m' r
      by (intro exI [of _ "StartCache c # cs"]) (simp split: option.splits del: upt_Suc)
  qed
qed

lemma connect_all_succeeds:
  "\<forall>(name, conf) \<in> set add. connects L name conf \<Longrightarrow> \<exists>new' s'. connect_all L add new s = (Some new', s')"
proof (induction add arbitrary: new s)
  case (Cons nc add)
  obtain n conf m w where [simp]: "nc = (n, conf)" "s = (m, w)" by (cases nc; cases s) auto
  have "connects L n conf" using Cons.prems by simp
  then obtain c w' where "NewCluster L n conf w = (Inr c, w')" unfolding connects_def by blast
  then show ?case using Cons by (simp add: addNewClusters_def)
qed simp

lemma connect_all_fails:
  "(name, conf) \<in> set add \<Longrightarrow> \<forall>w. \<exists>e w'. NewCluster L name conf w = (Inl e, w') \<Longrightarrow>
   \<exists>s'. connect_all L add new s = (None, s')"
proof (induction add arbitrary: new s)
  case (Cons nc add)
  obtain n c m w where [simp]: "nc = (n, c)" "s = (m, w)" by (cases nc; cases s) auto
  obtain q w1 where q: "NewCluster L n c w = (q, w1)" by fastforce
  show ?case
  proof (cases q)
    case (Inl e)
    with q show ?thesis by (simp add: addNewClusters_def)
  next
    case (Inr x)
    with Cons.prems q have "(name, conf) \<in> set add" by auto (metis Inl_Inr_False prod.inject)
    with Cons q Inr show ?thesis by (simp add: addNewClusters_def)
  qed
qed simp

section \<open>One check\<close>

lemma sorted_down_unique:
  fixes ns ks :: "'x :: linorder list"
  assumes "sorted (rev ns)" and "distinct ns" and "distinct ks" and "set ns = set ks"
  shows "ns = rev (sort ks)"
proof -
  have "rev ns = sort ks"
    by (rule sorted_distinct_set_unique) (use assms in simp_all)
  then show ?thesis by (simp add: rev_swap)
qed

lemma getClusterConfigmap_keeps:
  "getClusterConfigmap L (m, w) = (r, (m', w')) \<Longrightarrow> m' = m"
  by (auto simp: getClusterConfigmap_def split: prod.splits sum.splits if_splits)

definition connectable :: "('a, 'g, 'k, 'w, 'o) cluster_libs \<Rightarrow> config_map list \<Rightarrow> ('g, 'k, 'w, 'o) cmanager \<Rightarrow> bool" where
  "connectable L cms m \<longleftrightarrow> (\<forall>cm \<in> set cms. connects L (cfm_Name cm) (fst (convertToKubeconfig cm)) \<or>
     (\<exists>a \<in> set (cm_clusters m). name_at m a = cfm_Name cm \<and> keeps m (fst (convertToKubeconfig cm)) a))"

text \<open>What a check leaves: the clusters that are described, and the others of before stopped.\<close>

definition checked :: "config_map list \<Rightarrow> ('g, 'k, 'w, 'o) cmanager \<Rightarrow> ('g, 'k, 'w, 'o) cmanager \<Rightarrow> bool" where
  "checked cms m m' \<longleftrightarrow> manager_ok m' \<and> map (name_at m') (cm_clusters m') = rev (sort (map cfm_Name cms)) \<and>
     (\<forall>a \<in> set (cm_clusters m'). described cms m' a) \<and>
     (\<forall>a \<in> set (cm_clusters m). if described cms m a then a \<in> set (cm_clusters m')
        else a \<notin> set (cm_clusters m') \<and> cl_stopped (cluster_at m' a)) \<and>
     cm_Opt m' = cm_Opt m \<and> cm_Started m' = cm_Started m"

lemma nothing_to_do:
  assumes ok: "manager_ok m" and names: "distinct (map cfm_Name cms)"
    and all: "\<forall>a \<in> set (cm_clusters m). described cms m a"
    and conf: "\<forall>cm \<in> set cms. \<exists>a \<in> set (cm_clusters m). name_at m a = cfm_Name cm" and st: "only_status m m'"
  shows "checked cms m m'"
proof -
  note D = only_statusD [OF st]
  have range: "a < length (cm_heap m)" if "a \<in> set (cm_clusters m)" for a by (rule manager_okD(3) [OF ok that])
  have eq: "map (name_at m') (cm_clusters m') = map (name_at m) (cm_clusters m)"
    using range by (simp add: D)
  have "set (map (name_at m) (cm_clusters m)) = set (map cfm_Name cms)"
    using all conf by (auto simp: described_def image_iff) metis+
  then have "map (name_at m) (cm_clusters m) = rev (sort (map cfm_Name cms))"
    by (intro sorted_down_unique manager_okD(1,6) [OF ok] names)
  moreover have "described cms m' a" if "a \<in> set (cm_clusters m)" for a
    using all that range [OF that] by (simp add: described_def D)
  moreover have "manager_ok m'"
    using manager_okD(1,6) [OF ok] manager_okD(4,5) [OF ok] range unfolding manager_ok_def D(1) eq [unfolded D(1)]
    by (auto simp: D)
  ultimately show ?thesis using all eq by (simp add: checked_def D)
qed

lemma connected:
  assumes ok: "manager_ok m" and names: "distinct (map cfm_Name cms)"
    and run: "compare_clusters cms m = (new, del, add, m1)"
    and stop: "with_stopped (snd ` set del) m1 m2"
    and m4: "cm_heap m4 = cm_heap m2 @ cs" "cm_Opt m4 = cm_Opt m2" "cm_Started m4 = cm_Started m2"
    and cs: "list_all2 built_from add cs"
    and clusters: "cm_clusters m4 = sort_down (name_at m4) (new @ [length (cm_heap m2)..<length (cm_heap m2) + length add])"
  shows "checked cms m m4"
proof -
  note C = compare_clusters_spec [OF ok names run]
  note D = only_statusD [OF C(1)]
  define len where "len = length (cm_heap m)"
  have len2: "length (cm_heap m2) = len" and k: "length cs = length add"
    using stop D(4) cs by (auto simp: with_stopped_def len_def list_all2_lengthD)
  have unique: "cm = cm'" if "cm \<in> set cms" "cm' \<in> set cms" "cfm_Name cm = cfm_Name cm'" for cm cm'
    using names that by (auto simp: distinct_map inj_on_def)
  have range: "a < len" if "a \<in> set (cm_clusters m)" for a unfolding len_def by (rule manager_okD(3) [OF ok that])
  have old: "cluster_at m4 a = (if a \<in> snd ` set del then (cluster_at m1 a)\<lparr>cl_stopped := True\<rparr> else cluster_at m1 a)"
    if "a < len" for a
    using stop that D(4) m4(1) len2 by (simp add: with_stopped_def cluster_at_def nth_append len_def)
  have fresh: "cluster_at m4 (len + i) = cs ! i" for i
    using m4(1) len2 by (simp add: cluster_at_def nth_append)
  have built: "built_from (add ! i) (cs ! i)" if "i < length add" for i
    using cs that by (simp add: list_all2_conv_all_nth)
  have deleted: "a \<in> snd ` set del \<longleftrightarrow> a \<in> set (cm_clusters m) \<and> \<not> described cms m a" for a
  proof -
    have "a \<in> snd ` set del \<longleftrightarrow> (\<exists>n. map_of del n = Some a)" using map_of_eq_Some_set [OF C(2)] by force
    then show ?thesis using C(6) by simp
  qed
  have name: "name_at m4 a = name_at m a" and raw: "keeps m4 conf a = keeps m conf a" if "a < len" for a conf
    using D(5,8) [of a] that old [OF that] by (auto simp: name_at_def keeps_def len_def)
  let ?all = "new @ [len..<len + length add]"
  have news: "map (name_at m4) new = map (name_at m) new"
    using name range C(4) by simp
  have adds: "map (name_at m4) [len..<len + length add] = map fst add"
  proof (rule nth_equalityI)
    fix i assume "i < length (map (name_at m4) [len..<len + length add])"
    then have i: "i < length add" by simp
    with fresh [of i] built [OF i] show "map (name_at m4) [len..<len + length add] ! i = map fst add ! i"
      by (simp add: name_at_def built_from_def)
  qed simp
  have in_add: "(n, conf) \<in> set add \<longleftrightarrow> map_of add n = Some conf" for n conf
    using map_of_eq_Some_set [OF C(3)] by blast
  have disj: "n \<notin> fst ` set add" if a: "a \<in> set new" and n: "name_at m a = n" for a n
  proof
    assume "n \<in> fst ` set add"
    then obtain conf where "map_of add n = Some conf" using in_add by force
    with C(7) [of n conf] obtain cm where cm: "cm \<in> set cms" "cfm_Name cm = n" "fst (convertToKubeconfig cm) = conf"
      and "\<forall>a \<in> set (cm_clusters m). name_at m a = n \<longrightarrow> \<not> keeps m conf a" by blast
    with a n C(4) [of a] have no: "\<not> keeps m conf a" and "described cms m a" by blast+
    then obtain cm' where cm': "cm' \<in> set cms" "cfm_Name cm' = n" "keeps m (fst (convertToKubeconfig cm')) a"
      unfolding described_def n by blast
    have "cm' = cm" by (rule unique) (simp_all add: cm cm')
    with no cm(3) cm'(3) show False by simp
  qed
  have all: "map (name_at m4) ?all = map (name_at m) new @ map fst add" by (simp only: map_append news adds)
  have "set (map (name_at m) new) \<inter> set (map fst add) = {}" using disj by auto
  then have dist: "distinct (map (name_at m4) ?all)"
    unfolding all distinct_append using C(3,5) unfolding wf_map_def by blast
  have elems: "set (cm_clusters m4) = set ?all" unfolding clusters len2 by (rule names_sort_down)
  have alive: "cl_Started (cluster_at m4 a) \<and> \<not> cl_stopped (cluster_at m4 a) \<and> a < length (cm_heap m4) \<and> described cms m4 a"
    if "a \<in> set ?all" for a
  proof (cases "a < len")
    case True
    with that C(4) have a: "a \<in> set (cm_clusters m)" "described cms m a" by auto
    then have "a \<notin> snd ` set del" by (simp add: deleted)
    with old [OF True] D(6,7) [of a] manager_okD(4,5) [OF ok a(1)] True
    have "cl_Started (cluster_at m4 a)" "\<not> cl_stopped (cluster_at m4 a)" by (simp_all add: len_def)
    moreover have "described cms m4 a" using a(2) True by (simp add: described_def name raw)
    ultimately show ?thesis using True m4(1) len2 by simp
  next
    case False
    with that C(4) range obtain i where i: "i < length add" "a = len + i" by (auto simp: le_iff_add)
    have c: "cluster_at m4 a = cs ! i" using fresh i by simp
    have "(fst (add ! i), snd (add ! i)) \<in> set add" using i(1) by simp
    with C(7) in_add obtain cm where "cm \<in> set cms" "cfm_Name cm = fst (add ! i)" "fst (convertToKubeconfig cm) = snd (add ! i)"
      by blast
    with built [OF i(1)] c have "described cms m4 a"
      by (auto simp: described_def name_at_def keeps_def built_from_def EqualFold_def)
    with built [OF i(1)] c i m4(1) len2 k show ?thesis by (simp add: built_from_def)
  qed
  have "set (map (name_at m4) (cm_clusters m4)) = set (map cfm_Name cms)"
  proof -
    have "n \<in> set (map (name_at m) new) \<union> fst ` set add" if cm: "cm \<in> set cms" "cfm_Name cm = n" for n cm
    proof (cases "\<exists>a \<in> set (cm_clusters m). name_at m a = n \<and> keeps m (fst (convertToKubeconfig cm)) a")
      case True
      then obtain a where "a \<in> set (cm_clusters m)" "name_at m a = n" "described cms m a"
        using cm unfolding described_def by blast
      with C(4) [of a] show ?thesis by auto
    next
      case False
      with C(7) [of n "fst (convertToKubeconfig cm)"] cm have "map_of add n = Some (fst (convertToKubeconfig cm))" by blast
      then show ?thesis by (force dest: map_of_SomeD)
    qed
    moreover have "name_at m4 a \<in> cfm_Name ` set cms" if "a \<in> set ?all" for a
      using alive [OF that] unfolding described_def by force
    moreover have "name_at m4 ` set ?all = set (map (name_at m) new) \<union> fst ` set add"
      unfolding set_map [symmetric] all by simp
    ultimately show ?thesis unfolding set_map elems by blast
  qed
  moreover have "distinct (map (name_at m4) (cm_clusters m4))"
    using dist unfolding clusters len2 by (simp only: names_sort_down)
  moreover have down: "sorted (rev (map (name_at m4) (cm_clusters m4)))"
    unfolding clusters by (rule names_sort_down)
  ultimately have "map (name_at m4) (cm_clusters m4) = rev (sort (map cfm_Name cms))"
    and ok4: "manager_ok m4"
    using names alive elems by (auto simp: manager_ok_def intro!: sorted_down_unique)
  moreover have "if described cms m a then a \<in> set (cm_clusters m4)
      else a \<notin> set (cm_clusters m4) \<and> cl_stopped (cluster_at m4 a)" if a: "a \<in> set (cm_clusters m)" for a
    using a C(4) [of a] elems range [OF a] old [OF range [OF a]] deleted [of a] by auto
  moreover have "cm_Opt m4 = cm_Opt m" "cm_Started m4 = cm_Started m"
    using m4 stop D(2,3) by (simp_all add: with_stopped_def)
  moreover have "\<forall>a \<in> set (cm_clusters m4). described cms m4 a" unfolding elems using alive by blast
  ultimately show ?thesis unfolding checked_def by blast
qed

lemma cluterCheck_run:
  assumes list: "getClusterConfigmap L (m, w) = (Inr cms, (m, w1))" and some: "cms \<noteq> []"
    and cmp: "compare_clusters cms m = (new, del, add, m1)"
  shows "cluterCheck L received (m, w) =
    (if del = [] \<and> add = [] then (Inr (), (m1, w1))
     else case gforeach drop_cluster del (m1, w1) of
       (Inl e, s2) \<Rightarrow> (Inl e, s2)
     | (Inr _, s2) \<Rightarrow>
         (case connect_all L add new s2 of
            (None, s3) \<Rightarrow> (Inr (), s3)
          | (Some new', (m3, w3)) \<Rightarrow>
              (let m3 = m3\<lparr>cm_clusters := sort_down (name_at m3) new'\<rparr> in
               (Inr (), (if received then m3\<lparr>cm_sent := cm_sent m3 @ [add]\<rparr> else m3, w3)))))"
  using assms by (simp add: cluterCheck_def)

lemma no_map: "map_of m = (\<lambda>_. None) \<Longrightarrow> m = []"
  by (cases m) (auto simp: fun_eq_iff split: if_splits)

lemma drops_ready:
  assumes ok: "manager_ok m" and names: "distinct (map cfm_Name cms)"
    and cmp: "compare_clusters cms m = (new, del, add, m1)"
  shows "\<forall>(n, a) \<in> set del. a < length (cm_heap m1) \<and> \<not> cl_stopped (cluster_at m1 a)"
    and "distinct (map snd del)"
proof -
  note C = compare_clusters_spec [OF ok names cmp]
  note D = only_statusD [OF C(1)]
  have mem: "a \<in> set (cm_clusters m) \<and> name_at m a = n" if "(n, a) \<in> set del" for n a
    using C(6) map_of_eq_Some_set [OF C(2)] that by blast
  show "\<forall>(n, a) \<in> set del. a < length (cm_heap m1) \<and> \<not> cl_stopped (cluster_at m1 a)"
  proof (intro ballI, clarify)
    fix n a assume "(n, a) \<in> set del"
    with mem have a: "a \<in> set (cm_clusters m)" by blast
    note b = manager_okD(3) [OF ok a]
    show "a < length (cm_heap m1) \<and> \<not> cl_stopped (cluster_at m1 a)"
      using b manager_okD(4) [OF ok a] D(4) D(6) [OF b] by simp
  qed
  have "inj_on snd (set del)"
  proof (rule inj_onI)
    fix p q assume pq: "p \<in> set del" "q \<in> set del" and same: "snd p = snd q"
    have "fst r = name_at m (snd r)" if "r \<in> set del" for r using mem [of "fst r" "snd r"] that by simp
    from this [OF pq(1)] this [OF pq(2)] same show "p = q" by (simp add: prod_eq_iff)
  qed
  moreover have "distinct del" using C(2) by (simp add: wf_map_def distinct_map)
  ultimately show "distinct (map snd del)" by (simp add: distinct_map)
qed

text \<open>
  C6: the check of the cluster manager. When the descriptions could be listed, there is at least one (an empty
  listing changes nothing), and every connection that is needed can be made, afterwards the managed clusters are exactly the described ones, in the order
  of their names; each runs and was built from its description (up to case) or is being maintained;
  a cluster whose description has not changed is still the same connection; and every cluster whose
  description is gone or has changed is stopped.
\<close>

theorem cluterCheck_converges:
  assumes "manager_ok m" and "getClusterConfigmap L (m, w) = (Inr cms, (m, w1))" and "cms \<noteq> []"
    and "distinct (map cfm_Name cms)" and "connectable L cms m"
    and "cluterCheck L received (m, w) = (x, (m', w'))"
  shows "x = Inr () \<and> manager_ok m' \<and> map (name_at m') (cm_clusters m') = rev (sort (map cfm_Name cms)) \<and>
    (\<forall>a \<in> set (cm_clusters m'). described cms m' a) \<and>
    (\<forall>a \<in> set (cm_clusters m). if described cms m a then a \<in> set (cm_clusters m')
       else a \<notin> set (cm_clusters m') \<and> cl_stopped (cluster_at m' a))"
proof -
  obtain new del add m1 where cmp: "compare_clusters cms m = (new, del, add, m1)" by (metis prod_cases4)
  note C = compare_clusters_spec [OF assms(1,4) cmp]
  note run = cluterCheck_run [OF assms(2,3) cmp, of received, unfolded assms(6)]
  have "x = Inr () \<and> checked cms m m'"
  proof (cases "del = [] \<and> add = []")
    case True
    with run have x: "x = Inr ()" "m' = m1" by simp_all
    have all: "\<forall>a \<in> set (cm_clusters m). described cms m a" using C(6) True by simp
    have conf: "\<forall>cm \<in> set cms. \<exists>a \<in> set (cm_clusters m). name_at m a = cfm_Name cm" using C(7) True by auto
    from nothing_to_do [OF assms(1,4) all conf C(1)] x show ?thesis by simp
  next
    case False
    obtain m2 where drop: "gforeach drop_cluster del (m1, w1) = (Inr (), (m2, w1))"
      and m2: "with_stopped (snd ` set del) m1 m2"
      using drop_clusters [OF drops_ready [OF assms(1,4) cmp]] by blast
    have "connects L name conf" if "(name, conf) \<in> set add" for name conf
    proof -
      have "map_of add name = Some conf" using map_of_eq_Some_set [OF C(3)] that by blast
      with C(7) [of name conf] assms(5) show ?thesis unfolding connectable_def by blast
    qed
    then have conn: "\<forall>(name, conf) \<in> set add. connects L name conf" by blast
    obtain new' m3 w3 where connected_all: "connect_all L add new (m2, w1) = (Some new', (m3, w3))"
      using connect_all_succeeds [OF conn, of new "(m2, w1)"] by auto
    obtain cs where m3: "m3 = m2\<lparr>cm_heap := cm_heap m2 @ cs\<rparr>" and cs: "list_all2 built_from add cs"
      and new': "new' = new @ [length (cm_heap m2)..<length (cm_heap m2) + length add]"
      using connect_all_spec [OF connected_all] by auto
    define m4 where "m4 = (let m3 = m3\<lparr>cm_clusters := sort_down (name_at m3) new'\<rparr> in
      if received then m3\<lparr>cm_sent := cm_sent m3 @ [add]\<rparr> else m3)"
    have x: "x = Inr ()" and m': "m' = m4"
      using run False drop connected_all by (auto simp: m4_def Let_def)
    have at: "name_at m4 = name_at m3" by (simp add: fun_eq_iff name_at_def cluster_at_def m4_def Let_def)
    have "cm_heap m4 = cm_heap m2 @ cs" "cm_Opt m4 = cm_Opt m2" "cm_Started m4 = cm_Started m2"
      "cm_clusters m4 = sort_down (name_at m4) (new @ [length (cm_heap m2)..<length (cm_heap m2) + length add])"
      unfolding at new' [symmetric] by (simp_all add: m4_def m3 Let_def)
    from connected [OF assms(1,4) cmp m2 this(1-3) cs this(4)] x m' show ?thesis by simp
  qed
  then show ?thesis by (simp add: checked_def)
qed

text \<open>A check that finds what it left changes at most the status of clusters that are being maintained.\<close>

lemma cluterCheck_idle:
  assumes "manager_ok m" and "getClusterConfigmap L (m, w) = (Inr cms, (m, w1))" and "cms \<noteq> []"
    and "distinct (map cfm_Name cms)" and "\<forall>a \<in> set (cm_clusters m). described cms m a"
    and "map (name_at m) (cm_clusters m) = rev (sort (map cfm_Name cms))"
  shows "\<exists>m1. cluterCheck L received (m, w) = (Inr (), (m1, w1)) \<and> only_status m m1"
proof -
  obtain new del add m1 where cmp: "compare_clusters cms m = (new, del, add, m1)" by (metis prod_cases4)
  note C = compare_clusters_spec [OF assms(1,4) cmp]
  have "map_of del n = None" for n using C(6) [of n] assms(5) by (cases "map_of del n") auto
  moreover have "map_of add n = None" for n
  proof (cases "map_of add n")
    case (Some conf)
    with C(7) obtain cm where cm: "cm \<in> set cms" "cfm_Name cm = n" "fst (convertToKubeconfig cm) = conf"
      and no: "\<forall>a \<in> set (cm_clusters m). name_at m a = n \<longrightarrow> \<not> keeps m conf a" by blast
    have "set (map (name_at m) (cm_clusters m)) = set (map cfm_Name cms)" unfolding assms(6) by simp
    moreover have "n \<in> set (map cfm_Name cms)" using cm(1,2) by auto
    ultimately have "n \<in> set (map (name_at m) (cm_clusters m))" by (simp only:)
    then obtain a where a: "a \<in> set (cm_clusters m)" "name_at m a = n" by auto
    with assms(5) obtain cm' where cm': "cm' \<in> set cms" "cfm_Name cm' = n" "keeps m (fst (convertToKubeconfig cm')) a"
      unfolding described_def by blast
    have "cm' = cm" using assms(4) cm cm' by (auto simp: distinct_map inj_on_def)
    with cm' cm no a show ?thesis by blast
  qed simp
  ultimately have "del = []" "add = []" by (auto intro: no_map)
  with cluterCheck_run [OF assms(2,3) cmp, of received] C(1) show ?thesis by simp
qed

definition demo_change :: "config_map list" where
  "demo_change = [described_by ''a'' ''ONE'', described_by ''c'' ''three'']"

theorem cluterCheck_converges_witness:
  "case cluterCheck demo_libs True (demo_built, demo_change) of (x, (m', w')) \<Rightarrow>
     x = Inr () \<and> manager_ok m' \<and> map (name_at m') (cm_clusters m') = [''c'', ''a''] \<and>
     0 \<in> set (cm_clusters m') \<and> cl_stopped (cluster_at m' 1)"
proof -
  let ?cms = "[described_by ''a'' ''ONE'', described_by ''c'' ''three'']"
  obtain x m' w' where run: "cluterCheck demo_libs True (demo_built, demo_change) = (x, (m', w'))" by (metis prod_cases3)
  have sorted: "sort_by_name cfm_Name demo_change = ?cms" by code_simp
  have list: "getClusterConfigmap demo_libs (demo_built, demo_change) = (Inr ?cms, (demo_built, demo_change))"
    using demo_lists [OF demo_built_names(3), of demo_change] unfolding sorted .
  have names: "distinct (map cfm_Name ?cms)" by code_simp
  have "connectable demo_libs ?cms demo_built"
    by (simp add: connectable_def demo_connects described_by_def convertToKubeconfig_def KeyStauts_def KeyKubeconfig_def)
  from cluterCheck_converges [OF demo_built_ok list _ names this run]
  have ok: "x = Inr ()" "manager_ok m'" "map (name_at m') (cm_clusters m') = rev (sort (map cfm_Name ?cms))"
    "\<forall>a \<in> set (cm_clusters demo_built). if described ?cms demo_built a then a \<in> set (cm_clusters m')
       else a \<notin> set (cm_clusters m') \<and> cl_stopped (cluster_at m' a)" by simp_all
  have "rev (sort (map cfm_Name ?cms)) = [''c'', ''a'']" by code_simp
  moreover have "described ?cms demo_built 0" "\<not> described ?cms demo_built 1" by code_simp+
  ultimately show ?thesis using ok by (simp add: run demo_built_names)
qed

text \<open>
  C36: a failed connection brings the manager down. When a cluster's description is gone while a new one
  cannot be connected to, the check stops the former and gives up before it forgets it; the next
  check stops it again, and closing its channel twice panics.
\<close>

theorem cluterCheck_failure_panics:
  assumes "manager_ok m" and "a \<in> set (cm_clusters m)" and "name_at m a \<notin> cfm_Name ` set cms"
    and "cm \<in> set cms" and "cfm_Name cm \<notin> name_at m ` set (cm_clusters m)" and "distinct (map cfm_Name cms)"
    and "\<And>w. \<exists>e w'. NewCluster L (cfm_Name cm) (fst (convertToKubeconfig cm)) w = (Inl e, w')"
    and "getClusterConfigmap L (m, w) = (Inr cms, (m, w1))"
    and "cluterCheck L received (m, w) = (x, (m', w'))"
    and "getClusterConfigmap L (m', w') = (Inr cms, (m', w2))"
  shows "x = Inr () \<and> cm_clusters m' = cm_clusters m \<and> cl_stopped (cluster_at m' a) \<and>
    fst (cluterCheck L received' (m', w')) = Inl Panic"
proof -
  have some: "cms \<noteq> []" using assms(4) by auto
  have gone: "\<not> described cms m a" using assms(3) by (force simp: described_def)
  obtain new del add m1 where cmp: "compare_clusters cms m = (new, del, add, m1)" by (metis prod_cases4)
  note C = compare_clusters_spec [OF assms(1,6) cmp]
  note D = only_statusD [OF C(1)]
  have "map_of del (name_at m a) = Some a" using C(6) assms(2) gone by simp
  then have del: "(name_at m a, a) \<in> set del" by (rule map_of_SomeD)
  have "map_of add (cfm_Name cm) = Some (fst (convertToKubeconfig cm))"
    using C(7) assms(4,5) by (auto simp: image_iff)
  then have add: "(cfm_Name cm, fst (convertToKubeconfig cm)) \<in> set add" by (rule map_of_SomeD)
  obtain m2 where drop: "gforeach drop_cluster del (m1, w1) = (Inr (), (m2, w1))"
    and m2: "with_stopped (snd ` set del) m1 m2"
    using drop_clusters [OF drops_ready [OF assms(1,6) cmp]] by blast
  obtain m3 w3 where fails: "connect_all L add new (m2, w1) = (None, (m3, w3))"
    using connect_all_fails [OF add] assms(7) by (metis prod.exhaust)
  obtain cs where m3: "m3 = m2\<lparr>cm_heap := cm_heap m2 @ cs\<rparr>" using connect_all_spec [OF fails] by auto
  have "del \<noteq> []" using del by auto
  then have x: "x = Inr ()" "m' = m3" "w' = w3"
    using cluterCheck_run [OF assms(8) some cmp, of received, unfolded assms(9)] drop fails by simp_all
  have range: "b < length (cm_heap m)" if "b \<in> set (cm_clusters m)" for b by (rule manager_okD(3) [OF assms(1) that])
  have clusters: "cm_clusters m' = cm_clusters m" using m2 D(1) by (simp add: x m3 with_stopped_def)
  have at: "cluster_at m' b = cluster_at m2 b" if "b < length (cm_heap m)" for b
    using that m2 D(4) by (simp add: x m3 cluster_at_append with_stopped_def)
  have at2: "cluster_at m2 b = (if b \<in> snd ` set del then (cluster_at m1 b)\<lparr>cl_stopped := True\<rparr> else cluster_at m1 b)"
    if "b < length (cm_heap m)" for b
    using that m2 D(4) by (simp add: with_stopped_def)
  have stopped: "cl_stopped (cluster_at m' a)"
    using at [OF range [OF assms(2)]] at2 [OF range [OF assms(2)]] del by force
  have name: "name_at m' b = name_at m b" if "b \<in> set (cm_clusters m)" for b
    using at [OF range [OF that]] at2 [OF range [OF that]] D(5) [OF range [OF that]] by (auto simp: name_at_def)
  have "fst (cluterCheck L received' (m', w')) = Inl Panic"
  proof -
    obtain new' del' add' m1' where cmp': "compare_clusters cms m' = (new', del', add', m1')" by (metis prod_cases4)
    have dist: "distinct (map (name_at m') (cm_clusters m'))"
      using manager_okD(1) [OF assms(1)] name unfolding clusters by (metis (no_types, lifting) map_cong)
    note cur = current_spec [OF dist]
    have bound: "length (cm_heap m) \<le> length (cm_heap m')" using m2 D(4) by (simp add: x m3 with_stopped_def)
    have "new' = [] @ kept m' (current m') (expected cms) \<and> map_of del' = deleted_map m' (current m') (expected cms) \<and>
        map_of add' = map_of [] ++ added_map m' (current m') (expected cms) \<and> wf_map del' \<and> wf_map add' \<and> only_status m' m1'"
    proof (rule compare_fold [OF cmp' [unfolded compare_clusters_def]])
      show "distinct (map fst (expected cms))" using wf_expected [of cms] by (simp add: wf_map_def)
      show "\<forall>n b. map_of (current m') n = Some b \<longrightarrow> b < length (cm_heap m')"
        using range bound by (auto simp: cur clusters intro: less_le_trans)
    qed simp_all
    then have del': "map_of del' = deleted_map m' (current m') (expected cms)" and st: "only_status m' m1'"
      and wf: "wf_map del'" by blast+
    have "map_of (expected cms) (name_at m a) = None"
    proof (rule ccontr)
      assume "map_of (expected cms) (name_at m a) \<noteq> None"
      then obtain conf where "map_of (expected cms) (name_at m a) = Some conf" by blast
      with expected_spec [OF assms(6)] assms(3) show False by force
    qed
    moreover have "map_of (current m') (name_at m a) = Some a" using assms(2) name by (simp add: cur clusters)
    ultimately have "map_of del' (name_at m a) = Some a" by (simp add: del' deleted_map_def)
    then have mem: "(name_at m a, a) \<in> set del'" by (rule map_of_SomeD)
    have "b < length (cm_heap m1')" if "(n, b) \<in> set del'" for n b
    proof -
      have "deleted_map m' (current m') (expected cms) n = Some b"
        using map_of_eq_Some_set [OF wf] that by (simp add: del' [symmetric])
      then have "map_of (current m') n = Some b"
        by (auto simp: deleted_map_def split: option.splits if_splits)
      then show ?thesis using range bound only_statusD(4) [OF st] by (auto simp: cur clusters intro: less_le_trans)
    qed
    then have "\<forall>(n, b) \<in> set del'. b < length (cm_heap m1')" by blast
    moreover have "cl_stopped (cluster_at m1' a)"
      using stopped only_statusD(6) [OF st] range [OF assms(2)] bound by simp
    ultimately have "fst (gforeach drop_cluster del' (m1', w2)) = Inl Panic"
      by (rule drop_stopped_panics [OF mem])
    then show ?thesis
      using cluterCheck_run [OF assms(10) some cmp', of received'] mem by (auto split: prod.split sum.split)
  qed
  with x(1) clusters stopped show ?thesis by blast
qed

definition demo_broken :: "config_map list" where
  "demo_broken = [described_by ''a'' ''one'', described_by ''c'' ''down'']"

theorem cluterCheck_failure_panics_witness:
  "case cluterCheck demo_libs True (demo_built, demo_broken) of (x, (m', w')) \<Rightarrow>
     x = Inr () \<and> cm_clusters m' = [1, 0] \<and> cl_stopped (cluster_at m' 1) \<and>
     fst (cluterCheck demo_libs True (m', w')) = Inl Panic"
proof -
  let ?cms = "[described_by ''a'' ''one'', described_by ''c'' ''down'']"
  obtain x m' w' where run: "cluterCheck demo_libs True (demo_built, demo_broken) = (x, (m', w'))" by (metis prod_cases3)
  have sorted: "sort_by_name cfm_Name demo_broken = ?cms" by code_simp
  have list: "getClusterConfigmap demo_libs (demo_built, demo_broken) = (Inr ?cms, (demo_built, demo_broken))"
    using demo_lists [OF demo_built_names(3), of demo_broken] unfolding sorted .
  have "snd (snd (cluterCheck demo_libs True (demo_built, demo_broken))) = demo_broken"
    "cm_Started (fst (snd (cluterCheck demo_libs True (demo_built, demo_broken))))" by code_simp+
  then have w': "w' = demo_broken" and started: "cm_Started m'" by (simp_all add: run)
  have list': "getClusterConfigmap demo_libs (m', w') = (Inr ?cms, (m', w'))"
    using demo_lists [OF started, of demo_broken] unfolding sorted w' .
  have names: "distinct (map cfm_Name ?cms)" "name_at demo_built 1 \<notin> cfm_Name ` set ?cms"
    "cfm_Name (described_by ''c'' ''down'') \<notin> name_at demo_built ` set (cm_clusters demo_built)" by code_simp+
  have mem: "1 \<in> set (cm_clusters demo_built)" "described_by ''c'' ''down'' \<in> set ?cms" by (simp_all add: demo_built_names)
  have conf: "fst (convertToKubeconfig (described_by ''c'' ''down'')) = ''down''" by code_simp
  have "\<exists>e w2. NewCluster demo_libs (cfm_Name (described_by ''c'' ''down'')) (fst (convertToKubeconfig (described_by ''c'' ''down''))) w1 =
      (Inl e, w2)" for w1 unfolding conf by (rule demo_refuses)
  from cluterCheck_failure_panics [OF demo_built_ok mem(1) names(2) mem(2) names(3) names(1) this list run list', of True]
  show ?thesis by (simp add: run demo_built_names)
qed

end
