(* ===== verification/ClusterOps.thy ===== *)
theory ClusterOps
  imports ClustersBuild MemStore
begin

text \<open>
  \<^verbatim>\<open>pkg/k8s/manager/operate.go\<close>: the operations over several clusters. Each selects clusters of the
  manager by \<open>GetAll\<close> and visits them in turn; the manager itself does not change.
\<close>

section \<open>The operations\<close>

text \<open>None is one of the two errors: too many names, or no such cluster.\<close>

definition GetOriginKubeCli :: "string list \<Rightarrow> ('g, 'k, 'w, 'o) cmanager \<Rightarrow> 'k option" where
  "GetOriginKubeCli clusterNames m =
     (if length clusterNames > 0 then
        if length clusterNames > 1 then None
        else case manager_Get (hd clusterNames) m of None \<Rightarrow> None | Some a \<Rightarrow> Some (cl_KubeCli (cluster_at m a))
      else Some (cm_KubeCli m))"

definition clients :: "string list \<Rightarrow> ('g, 'k, 'w, 'o) cmanager \<Rightarrow> ('w, 'o) cluster_client list" where
  "clients clusterNames m = map (\<lambda>a. cl_Client (cluster_at m a)) (GetAll clusterNames m)"

text \<open>The loop that the lists of every kind share.\<close>

fun list_clusters ::
  "(('w, 'o) cluster_client \<Rightarrow> ('w, 'x) kclient) \<Rightarrow> list_options \<Rightarrow> ('w, 'o) cluster_client list \<Rightarrow> 'x list \<Rightarrow>
   'w \<Rightarrow> (kerr + 'x list) \<times> 'w" where
  "list_clusters kind opts [] result w = (Inr result, w)"
| "list_clusters kind opts (c # cs) result w =
     (case kList (kind c) opts w of
        (Inl err, w') \<Rightarrow> if err = NotFound then list_clusters kind opts cs result w' else (Inl err, w')
      | (Inr items, w') \<Rightarrow> list_clusters kind opts cs (result @ items) w')"

definition GetPods ::
  "list_options \<Rightarrow> string list \<Rightarrow> ('g, 'k, 'w, 'o) cmanager \<Rightarrow> 'w \<Rightarrow> (kerr + Pod list) \<times> 'w" where
  "GetPods opts clusterNames m = list_clusters cc_Pod opts (clients clusterNames m) []"

definition GetNodes ::
  "list_options \<Rightarrow> string list \<Rightarrow> ('g, 'k, 'w, 'o) cmanager \<Rightarrow> 'w \<Rightarrow> (kerr + 'o list) \<times> 'w" where
  "GetNodes opts clusterNames m = list_clusters cc_Node opts (clients clusterNames m) []"

definition GetDeployment ::
  "list_options \<Rightarrow> string list \<Rightarrow> ('g, 'k, 'w, 'o) cmanager \<Rightarrow> 'w \<Rightarrow> (kerr + Deployment list) \<times> 'w" where
  "GetDeployment opts clusterNames m = list_clusters cc_Deployment opts (clients clusterNames m) []"

definition GetStatefulsets ::
  "list_options \<Rightarrow> string list \<Rightarrow> ('g, 'k, 'w, 'o) cmanager \<Rightarrow> 'w \<Rightarrow> (kerr + 'o list) \<times> 'w" where
  "GetStatefulsets opts clusterNames m = list_clusters cc_StatefulSet opts (clients clusterNames m) []"

definition GetService ::
  "list_options \<Rightarrow> string list \<Rightarrow> ('g, 'k, 'w, 'o) cmanager \<Rightarrow> 'w \<Rightarrow> (kerr + 'o list) \<times> 'w" where
  "GetService opts clusterNames m = list_clusters cc_Service opts (clients clusterNames m) []"

definition GetEndpoints ::
  "list_options \<Rightarrow> string list \<Rightarrow> ('g, 'k, 'w, 'o) cmanager \<Rightarrow> 'w \<Rightarrow> (kerr + 'o list) \<times> 'w" where
  "GetEndpoints opts clusterNames m = list_clusters cc_Endpoints opts (clients clusterNames m) []"

definition GetEvent ::
  "list_options \<Rightarrow> string list \<Rightarrow> ('g, 'k, 'w, 'o) cmanager \<Rightarrow> 'w \<Rightarrow> (kerr + 'o list) \<times> 'w" where
  "GetEvent opts clusterNames m = list_clusters cc_Event opts (clients clusterNames m) []"

text \<open>\<open>GetPod\<close> reads one variable from every cluster; it starts as \<open>&corev1.Pod{}\<close>.\<close>

definition empty_pod :: Pod where "empty_pod = \<lparr>pod_Meta = new_meta [] [] []\<rparr>"

fun get_clusters :: "nsname \<Rightarrow> ('w, 'o) cluster_client list \<Rightarrow> Pod \<Rightarrow> 'w \<Rightarrow> (kerr + Pod) \<times> 'w" where
  "get_clusters opts [] pod w = (Inr pod, w)"
| "get_clusters opts (c # cs) pod w =
     (case kGet (cc_Pod c) opts w of
        (Inl err, w') \<Rightarrow> (Inl err, w')
      | (Inr pod', w') \<Rightarrow> get_clusters opts cs pod' w')"

definition GetPod ::
  "nsname \<Rightarrow> string list \<Rightarrow> ('g, 'k, 'w, 'o) cmanager \<Rightarrow> 'w \<Rightarrow> (kerr + Pod) \<times> 'w" where
  "GetPod opts clusterNames m = get_clusters opts (clients clusterNames m) empty_pod"

text \<open>A deletion that fails is logged.\<close>

definition delete_logged :: "('w, 'x) kclient \<Rightarrow> 'x \<Rightarrow> 'w \<Rightarrow> 'w" where
  "delete_logged c x w = (case kDelete c x w of (_, w') \<Rightarrow> w')"

fun delete_listed :: "list_options \<Rightarrow> ('w, 'o) cluster_client list \<Rightarrow> 'w \<Rightarrow> (kerr + unit) \<times> 'w" where
  "delete_listed opts [] w = (Inr (), w)"
| "delete_listed opts (c # cs) w =
     (case kList (cc_Pod c) opts w of
        (Inl err, w') \<Rightarrow> if err = NotFound then delete_listed opts cs w' else (Inl err, w')
      | (Inr items, w') \<Rightarrow> delete_listed opts cs (fold (delete_logged (cc_Pod c)) items w'))"

definition DeletePods ::
  "list_options \<Rightarrow> string list \<Rightarrow> ('g, 'k, 'w, 'o) cmanager \<Rightarrow> 'w \<Rightarrow> (kerr + unit) \<times> 'w" where
  "DeletePods opts clusterNames m = delete_listed opts (clients clusterNames m)"

fun delete_named :: "nsname \<Rightarrow> ('w, 'o) cluster_client list \<Rightarrow> 'w \<Rightarrow> (kerr + unit) \<times> 'w" where
  "delete_named opts [] w = (Inr (), w)"
| "delete_named opts (c # cs) w =
     (case kGet (cc_Pod c) opts w of
        (Inl err, w') \<Rightarrow> (Inl err, w')
      | (Inr pod, w') \<Rightarrow> delete_named opts cs (delete_logged (cc_Pod c) pod w'))"

definition DeletePod ::
  "nsname \<Rightarrow> string list \<Rightarrow> ('g, 'k, 'w, 'o) cmanager \<Rightarrow> 'w \<Rightarrow> (kerr + unit) \<times> 'w" where
  "DeletePod opts clusterNames m = delete_named opts (clients clusterNames m)"

section \<open>Selecting a cluster\<close>

lemma find_first: "find P xs = (case filter P xs of [] \<Rightarrow> None | x # _ \<Rightarrow> Some x)"
  by (induction xs) auto

lemma filter_unique:
  assumes "distinct (map f xs)" and "x \<in> set xs"
  shows "filter (\<lambda>y. f x = f y) xs = [x]"
  using assms by (induction xs) (auto simp: filter_empty_conv image_iff)

text \<open>
  The two ways to look up a cluster agree: the clusters \<open>GetAll\<close> selects by a name are the one
  that \<open>Get\<close> finds, if there is one and it is online, unless the formatted name is \<open>all\<close>; and the client of
  a named cluster is the client of that one.
\<close>

theorem GetAll_agrees_with_Get:
  assumes "manager_ok m" and "FormatToDNS1123 n \<noteq> ''all''" and "n \<noteq> ClustersAll"
  shows "GetAll [n] m = (case manager_Get n m of None \<Rightarrow> [] | Some a \<Rightarrow> [a]) \<and>
    GetOriginKubeCli [n] m = map_option (\<lambda>a. cl_KubeCli (cluster_at m a)) (manager_Get n m)"
proof
  let ?n = "FormatToDNS1123 n" and ?on = "\<lambda>a. cl_Status (cluster_at m a) \<noteq> ClusterOffline"
  have swap: "filter (\<lambda>a. ?n = name_at m a) (filter ?on (cm_clusters m)) = filter ?on (filter (\<lambda>a. ?n = name_at m a) (cm_clusters m))"
    by (simp add: conj_commute)
  have all: "GetAll [n] m = (if ?n \<noteq> [] then take 1 (filter (\<lambda>a. ?n = name_at m a) (filter ?on (cm_clusters m))) else [])"
    using assms(3) by (simp add: GetAll_def Let_def)
  show "GetAll [n] m = (case manager_Get n m of None \<Rightarrow> [] | Some a \<Rightarrow> [a])"
  proof (cases "filter (\<lambda>a. ?n = name_at m a) (cm_clusters m)")
    case Nil
    have "GetAll [n] m = (if ?n \<noteq> [] then take 1 (filter ?on []) else [])"
      unfolding all swap Nil ..
    moreover have "manager_Get n m = None" using Nil by (simp add: manager_Get_def find_first Let_def)
    ultimately show ?thesis by simp
  next
    case (Cons a as)
    then have "a \<in> set (filter (\<lambda>a. ?n = name_at m a) (cm_clusters m))" by simp
    then have a: "a \<in> set (cm_clusters m)" "?n = name_at m a" by simp_all
    from filter_unique [OF manager_okD(1) [OF assms(1)] a(1)] a(2)
    have one: "filter (\<lambda>a. ?n = name_at m a) (cm_clusters m) = [a]" by simp
    have "GetAll [n] m = (if ?n \<noteq> [] then take 1 (filter ?on [a]) else [])"
      unfolding all swap one ..
    moreover have "manager_Get n m = (if ?n = [] then None else if ?on a then Some a else None)"
      using assms(2) one by (simp add: manager_Get_def find_first Let_def)
    ultimately show ?thesis by simp
  qed
  show "GetOriginKubeCli [n] m = map_option (\<lambda>a. cl_KubeCli (cluster_at m a)) (manager_Get n m)"
    by (simp add: GetOriginKubeCli_def split: option.split)
qed

section \<open>The pods of the fleet\<close>

text \<open>
  The pods of a cluster as the API documents them: \<open>pods\<close> reads the pods of the cluster at an address out of
  the world, \<open>going\<close> tells of a pod whether its deletion has been asked for. Pods are deleted gracefully:
  a deletion that is accepted removes the pod or marks it with the time of its deletion, whatever its
  finalizers are, and it is the kubelet that removes it later. A call on one cluster leaves the others alone.
\<close>

definition pods_ok ::
  "('w, Pod) kclient \<Rightarrow> ('w \<Rightarrow> nat \<Rightarrow> nsname \<Rightarrow> Pod option) \<Rightarrow> ('w \<Rightarrow> nat \<Rightarrow> nsname \<Rightarrow> bool) \<Rightarrow> nat \<Rightarrow> bool" where
  "pods_ok c pods going a \<longleftrightarrow>
     reads_ok pod_kind c (\<lambda>w. pods w a) (\<lambda>w. ((pods w)(a := Map.empty), going w)) \<and>
     (\<forall>p w r w'. kDelete c p w = (r, w') \<longrightarrow>
        (\<forall>b k. (b, k) \<noteq> (a, okey pod_kind p) \<longrightarrow> pods w' b k = pods w b k \<and> going w' b k = going w b k) \<and>
        (r = Inr () \<longrightarrow> pods w' a (okey pod_kind p) = None \<or> going w' a (okey pod_kind p)))"

definition fleet_ok ::
  "('w \<Rightarrow> nat \<Rightarrow> nsname \<Rightarrow> Pod option) \<Rightarrow> ('w \<Rightarrow> nat \<Rightarrow> nsname \<Rightarrow> bool) \<Rightarrow> ('g, 'k, 'w, 'o) cmanager \<Rightarrow> bool" where
  "fleet_ok pods going m \<longleftrightarrow> (\<forall>a < length (cm_heap m). pods_ok (cc_Pod (cl_Client (cluster_at m a))) pods going a)"

definition fleet_up :: "('w \<Rightarrow> nat \<Rightarrow> nsname \<Rightarrow> Pod option) \<Rightarrow> ('g, 'k, 'w, 'o) cmanager \<Rightarrow> bool" where
  "fleet_up pods m \<longleftrightarrow> (\<forall>a < length (cm_heap m). (\<forall>lo w. \<exists>items w'. kList (cc_Pod (cl_Client (cluster_at m a))) lo w = (Inr items, w')) \<and>
     (\<forall>p w. pods w a (okey pod_kind p) \<noteq> None \<longrightarrow> fst (kDelete (cc_Pod (cl_Client (cluster_at m a))) p w) = Inr ()))"

abbreviation pod_client :: "('g, 'k, 'w, 'o) cmanager \<Rightarrow> nat \<Rightarrow> ('w, Pod) kclient" where
  "pod_client m a \<equiv> cc_Pod (cl_Client (cluster_at m a))"

lemma only_at: "f a = g a \<Longrightarrow> f(a := x) = g(a := x) \<Longrightarrow> f = g"
  by (metis fun_upd_triv fun_upd_upd)

lemma fleet_reads:
  assumes "fleet_ok pods going m" and "a < length (cm_heap m)"
  shows "reads_ok pod_kind (pod_client m a) (\<lambda>w. pods w a) (\<lambda>w. ((pods w)(a := Map.empty), going w))"
  using assms unfolding fleet_ok_def pods_ok_def by blast

lemma fleet_list:
  assumes "fleet_ok pods going m" and "a < length (cm_heap m)" and "kList (pod_client m a) lo w = (r, w')"
  shows "pods w' = pods w" and "going w' = going w"
    and "r = Inr xs \<Longrightarrow> distinct (map (okey pod_kind) xs)"
    and "r = Inr xs \<Longrightarrow> p \<in> set xs \<longleftrightarrow> pods w a (okey pod_kind p) = Some p \<and> selects lo (pod_Meta p)"
proof -
  have "pods w' a = pods w a \<and> ((pods w')(a := Map.empty), going w') = ((pods w)(a := Map.empty), going w) \<and>
      (case r of Inr xs \<Rightarrow> distinct (map (okey pod_kind) xs) \<and>
         (\<forall>p. p \<in> set xs \<longleftrightarrow> pods w a (okey pod_kind p) = Some p \<and> selects lo (k_Meta pod_kind p)) | Inl e \<Rightarrow> True)"
    using fleet_reads [OF assms(1,2)] assms(3) unfolding reads_ok_def by blast
  then show "pods w' = pods w" "going w' = going w" "r = Inr xs \<Longrightarrow> distinct (map (okey pod_kind) xs)"
    "r = Inr xs \<Longrightarrow> p \<in> set xs \<longleftrightarrow> pods w a (okey pod_kind p) = Some p \<and> selects lo (pod_Meta p)"
    using only_at [of "pods w'" a "pods w"] by (auto simp: pod_kind_def)
qed

lemma fleet_delete:
  assumes "fleet_ok pods going m" and "a < length (cm_heap m)"
  shows "(b, k) \<noteq> (a, okey pod_kind p) \<Longrightarrow> pods (delete_logged (pod_client m a) p w) b k = pods w b k \<and>
      going (delete_logged (pod_client m a) p w) b k = going w b k"
    and "fleet_up pods m \<Longrightarrow> pods w a (okey pod_kind p) \<noteq> None \<Longrightarrow>
      pods (delete_logged (pod_client m a) p w) a (okey pod_kind p) = None \<or>
      going (delete_logged (pod_client m a) p w) a (okey pod_kind p)"
proof -
  obtain r w' where run: "kDelete (pod_client m a) p w = (r, w')" by fastforce
  then have w': "delete_logged (pod_client m a) p w = w'" by (simp add: delete_logged_def)
  have D: "(\<forall>b k. (b, k) \<noteq> (a, okey pod_kind p) \<longrightarrow> pods w' b k = pods w b k \<and> going w' b k = going w b k) \<and>
      (r = Inr () \<longrightarrow> pods w' a (okey pod_kind p) = None \<or> going w' a (okey pod_kind p))"
    using assms run unfolding fleet_ok_def pods_ok_def by blast
  then show "(b, k) \<noteq> (a, okey pod_kind p) \<Longrightarrow> pods (delete_logged (pod_client m a) p w) b k = pods w b k \<and>
      going (delete_logged (pod_client m a) p w) b k = going w b k" unfolding w' by blast
  assume "fleet_up pods m" "pods w a (okey pod_kind p) \<noteq> None"
  with assms(2) have "fst (kDelete (pod_client m a) p w) = Inr ()" unfolding fleet_up_def by blast
  with D run show "pods (delete_logged (pod_client m a) p w) a (okey pod_kind p) = None \<or>
      going (delete_logged (pod_client m a) p w) a (okey pod_kind p)" by (simp add: w')
qed

lemma fleet_deletes:
  assumes "fleet_ok pods going m" and "a < length (cm_heap m)" and "distinct (map (okey pod_kind) xs)"
  defines "after \<equiv> fold (delete_logged (pod_client m a)) xs"
  shows "b \<noteq> a \<or> k \<notin> okey pod_kind ` set xs \<Longrightarrow> pods (after w) b k = pods w b k \<and> going (after w) b k = going w b k"
    and "fleet_up pods m \<Longrightarrow> p \<in> set xs \<Longrightarrow> pods w a (okey pod_kind p) \<noteq> None \<Longrightarrow>
      pods (after w) a (okey pod_kind p) = None \<or> going (after w) a (okey pod_kind p)"
proof -
  have frame: "pods (fold (delete_logged (pod_client m a)) ys w) b k = pods w b k \<and>
      going (fold (delete_logged (pod_client m a)) ys w) b k = going w b k"
    if "b \<noteq> a \<or> k \<notin> okey pod_kind ` set ys" for ys w b k
    using that by (induction ys arbitrary: w) (auto simp: fleet_delete(1) [OF assms(1,2)])
  then show "b \<noteq> a \<or> k \<notin> okey pod_kind ` set xs \<Longrightarrow> pods (after w) b k = pods w b k \<and> going (after w) b k = going w b k"
    by (simp add: after_def)
  assume up: "fleet_up pods m" and p: "p \<in> set xs" and stored: "pods w a (okey pod_kind p) \<noteq> None"
  obtain ys zs where xs: "xs = ys @ p # zs" using p by (meson split_list)
  then have new: "okey pod_kind p \<notin> okey pod_kind ` set ys" "okey pod_kind p \<notin> okey pod_kind ` set zs"
    using assms(3) by auto
  let ?w = "fold (delete_logged (pod_client m a)) ys w"
  have "pods ?w a (okey pod_kind p) \<noteq> None" using frame [of a "okey pod_kind p" ys w] new(1) stored by simp
  from fleet_delete(2) [OF assms(1,2) up this] frame [of a "okey pod_kind p" zs] new(2)
  show "pods (after w) a (okey pod_kind p) = None \<or> going (after w) a (okey pod_kind p)"
    by (simp add: after_def xs)
qed

lemma delete_listed_pods:
  assumes "fleet_ok pods going m" and "\<forall>a \<in> set as. a < length (cm_heap m)" and "distinct as"
    and "delete_listed opts (map (\<lambda>a. cl_Client (cluster_at m a)) as) w = (r, w')"
  shows "(\<forall>a k. \<not> (a \<in> set as \<and> (\<exists>p. pods w a k = Some p \<and> selects opts (pod_Meta p))) \<longrightarrow>
       pods w' a k = pods w a k \<and> going w' a k = going w a k) \<and>
    (fleet_up pods m \<longrightarrow> r = Inr () \<and> (\<forall>a \<in> set as. \<forall>k p. pods w a k = Some p \<longrightarrow> selects opts (pod_Meta p) \<longrightarrow>
       pods w' a k = None \<or> going w' a k))"
  using assms(2-4)
proof (induction as arbitrary: w)
  case (Cons a as)
  have a: "a < length (cm_heap m)" and as: "\<forall>a \<in> set as. a < length (cm_heap m)" "distinct as" "a \<notin> set as"
    using Cons.prems(1,2) by simp_all
  obtain q w1 where list: "kList (pod_client m a) opts w = (q, w1)" by fastforce
  note L = fleet_list [OF assms(1) a list]
  show ?case
  proof (cases q)
    case (Inl e)
    have down: "\<not> fleet_up pods m"
    proof
      assume "fleet_up pods m"
      then obtain items w2 where "kList (pod_client m a) opts w = (Inr items, w2)" using a unfolding fleet_up_def by blast
      with list Inl show False by simp
    qed
    show ?thesis
    proof (cases "e = NotFound")
      case True
      then have "delete_listed opts (map (\<lambda>a. cl_Client (cluster_at m a)) as) w1 = (r, w')"
        using Cons.prems(3) list Inl by simp
      with Cons.IH [OF as(1,2) this] down show ?thesis by (simp add: L(1,2))
    next
      case False
      then have "w' = w1" using Cons.prems(3) list Inl by simp
      with down show ?thesis by (simp add: L(1,2))
    qed
  next
    case (Inr xs)
    define w2 where "w2 = fold (delete_logged (pod_client m a)) xs w1"
    have "delete_listed opts (map (\<lambda>a. cl_Client (cluster_at m a)) as) w2 = (r, w')"
      using Cons.prems(3) list Inr by (simp add: w2_def)
    note IH = Cons.IH [OF as(1,2) this]
    note D = fleet_deletes [OF assms(1) a L(3) [OF Inr], where w = w1, folded w2_def, unfolded L(1,2)]
    have listed: "k \<in> okey pod_kind ` set xs \<longleftrightarrow> (\<exists>p. pods w a k = Some p \<and> selects opts (pod_Meta p))" for k
    proof
      assume "k \<in> okey pod_kind ` set xs"
      then show "\<exists>p. pods w a k = Some p \<and> selects opts (pod_Meta p)" using L(4) [OF Inr] by blast
    next
      assume "\<exists>p. pods w a k = Some p \<and> selects opts (pod_Meta p)"
      then obtain p where p: "pods w a k = Some p" "selects opts (pod_Meta p)" by blast
      with fleet_reads [OF assms(1) a] have "okey pod_kind p = k" unfolding reads_ok_def by blast
      with p L(4) [OF Inr, of p] show "k \<in> okey pod_kind ` set xs" by force
    qed
    have frame: "pods w2 b k = pods w b k \<and> going w2 b k = going w b k"
      if "b \<noteq> a \<or> \<not> (\<exists>p. pods w a k = Some p \<and> selects opts (pod_Meta p))" for b k
      using D(1) that listed [of k] by blast
    show ?thesis
    proof (intro conjI allI impI ballI)
      fix b k assume no: "\<not> (b \<in> set (a # as) \<and> (\<exists>p. pods w b k = Some p \<and> selects opts (pod_Meta p)))"
      then have same: "pods w2 b k = pods w b k \<and> going w2 b k = going w b k" using frame [of b k] by auto
      with no have "\<not> (b \<in> set as \<and> (\<exists>p. pods w2 b k = Some p \<and> selects opts (pod_Meta p)))" by auto
      with IH same show "pods w' b k = pods w b k" "going w' b k = going w b k" by metis+
    next
      assume "fleet_up pods m" with IH show "r = Inr ()" by blast
    next
      fix b k p assume up: "fleet_up pods m" and b: "b \<in> set (a # as)" and p: "pods w b k = Some p" "selects opts (pod_Meta p)"
      show "pods w' b k = None \<or> going w' b k"
      proof (cases "b = a")
        case True
        with p listed [of k] obtain q where q: "q \<in> set xs" "okey pod_kind q = k" by auto
        have "pods w2 a k = None \<or> going w2 a k" using D(2) [OF up q(1)] p True q(2) by simp
        moreover have "pods w' a k = pods w2 a k \<and> going w' a k = going w2 a k" using IH as(3) by blast
        ultimately show ?thesis using True by simp
      next
        case False
        with frame [of b k] p have "pods w2 b k = Some p" by simp
        from conjunct2 [OF conjunct2 [OF IH, rule_format, OF up], rule_format, OF _ this p(2)] False b show ?thesis by simp
      qed
    qed
  qed
qed simp

lemma GetAll_managed: "distinct (cm_clusters m) \<Longrightarrow> distinct (GetAll names m) \<and> set (GetAll names m) \<subseteq> set (cm_clusters m)"
  unfolding GetAll_def Let_def by (auto dest: in_set_takeD)

text \<open>
  C26: deleting pods by a selector touches exactly what it should: only pods that the selector matches,
  in the selected clusters that are online, and when the clusters answer, it returns no error and each of these is
  gone or on its way out, with its deletion asked for.
\<close>

theorem DeletePods_exact:
  assumes "manager_ok m" and "fleet_ok pods going m" and "DeletePods opts names m w = (r, w')"
  shows "(\<forall>a k. \<not> (a \<in> set (GetAll names m) \<and> (\<exists>p. pods w a k = Some p \<and> selects opts (pod_Meta p))) \<longrightarrow>
       pods w' a k = pods w a k \<and> going w' a k = going w a k) \<and>
    (fleet_up pods m \<longrightarrow> r = Inr () \<and> (\<forall>a \<in> set (GetAll names m). \<forall>k p. pods w a k = Some p \<longrightarrow>
       selects opts (pod_Meta p) \<longrightarrow> pods w' a k = None \<or> going w' a k))"
proof (rule delete_listed_pods [OF assms(2)])
  note managed = GetAll_managed [OF manager_okD(2) [OF assms(1)], of names]
  show "\<forall>a \<in> set (GetAll names m). a < length (cm_heap m)" using managed manager_okD(3) [OF assms(1)] by blast
  show "distinct (GetAll names m)" using managed by blast
  show "delete_listed opts (map (\<lambda>a. cl_Client (cluster_at m a)) (GetAll names m)) w = (r, w')"
    using assms(3) by (simp add: DeletePods_def clients_def)
qed

text \<open>
  Deleting a pod by name stops at the first selected cluster that does not have it: nothing is
  deleted from the clusters after that one, and the error is returned.
\<close>

theorem DeletePod_stops_at_first_missing:
  assumes "manager_ok m" and "fleet_ok pods going m" and "GetAll names m = a # as" and "pods w a k = None"
    and "get_available (pod_client m a)" and "DeletePod k names m w = (r, w')"
  shows "r = Inl NotFound \<and> pods w' = pods w \<and> going w' = going w"
proof -
  obtain q w1 where get: "kGet (pod_client m a) k w = (q, w1)" by fastforce
  have a: "a < length (cm_heap m)"
    using GetAll_managed [OF manager_okD(2) [OF assms(1)], of names] manager_okD(3) [OF assms(1)] assms(3) by auto
  then have "pods w1 a = pods w a \<and> ((pods w1)(a := Map.empty), going w1) = ((pods w)(a := Map.empty), going w) \<and>
      (case q of Inr p \<Rightarrow> pods w a k = Some p | Inl e \<Rightarrow> e = NotFound \<longrightarrow> pods w a k = None)"
    using fleet_reads [OF assms(2)] get unfolding reads_ok_def by blast
  then have G: "pods w1 = pods w" "going w1 = going w" "q = Inr p \<Longrightarrow> pods w a k = Some p" for p
    using only_at [of "pods w1" a "pods w"] by auto
  obtain e where e: "q = Inl e" using G(3) assms(4) by (cases q) auto
  have "fst (kGet (pod_client m a) k w) = Inl e" by (simp add: get e)
  then have "e = NotFound" using assms(5) unfolding get_available_def by blast
  moreover have "DeletePod k names m w = (Inl e, w1)"
    by (simp add: DeletePod_def clients_def assms(3) get e)
  ultimately show ?thesis using assms(6) G(1,2) by simp
qed

section \<open>Lists\<close>

text \<open>What the clusters answer to a list, and what the caller gets: all of it, or the first error but \<open>NotFound\<close>.\<close>

definition answers ::
  "(('w, 'o) cluster_client \<Rightarrow> ('w, 'x) kclient) \<Rightarrow> list_options \<Rightarrow> ('w, 'o) cluster_client list \<Rightarrow>
   (('w, 'o) cluster_client \<Rightarrow> kerr + 'x list) \<Rightarrow> bool" where
  "answers kind opts cs answer \<longleftrightarrow> (\<forall>c \<in> set cs. \<forall>w. fst (kList (kind c) opts w) = answer c)"

definition refuses :: "kerr + 'x list \<Rightarrow> bool" where
  "refuses r = (case r of Inl e \<Rightarrow> e \<noteq> NotFound | Inr _ \<Rightarrow> False)"

definition collected :: "('c \<Rightarrow> kerr + 'x list) \<Rightarrow> 'c list \<Rightarrow> kerr + 'x list" where
  "collected answer cs = (case filter refuses (map answer cs) of
     e # _ \<Rightarrow> e | [] \<Rightarrow> Inr (concat (map (\<lambda>c. case answer c of Inl _ \<Rightarrow> [] | Inr xs \<Rightarrow> xs) cs)))"

lemma case_sum_same: "(case x of Inl e \<Rightarrow> Inl e | Inr y \<Rightarrow> Inr ([] @ y)) = x"
  by (cases x) simp_all

lemma list_clusters_spec:
  "answers kind opts cs answer \<Longrightarrow>
   fst (list_clusters kind opts cs result w) = (case collected answer cs of Inl e \<Rightarrow> Inl e | Inr xs \<Rightarrow> Inr (result @ xs))"
proof (induction cs arbitrary: result w)
  case (Cons c cs)
  obtain r w1 where run: "kList (kind c) opts w = (r, w1)" by fastforce
  have "fst (kList (kind c) opts w) = answer c" using Cons.prems by (simp add: answers_def)
  with run have r: "answer c = r" by simp
  have IH: "fst (list_clusters kind opts cs res w) = (case collected answer cs of Inl e \<Rightarrow> Inl e | Inr xs \<Rightarrow> Inr (res @ xs))" for res w
    using Cons by (simp add: answers_def)
  have refused: "refuses x \<Longrightarrow> isl x" for x :: "kerr + 'd list" by (simp add: refuses_def split: sum.splits)
  show ?case
  proof (cases r)
    case (Inl e)
    with IH run r show ?thesis by (simp add: collected_def refuses_def split: list.split)
  next
    case (Inr xs)
    show ?thesis
    proof (cases "filter refuses (map answer cs)")
      case Nil
      with IH run r Inr show ?thesis by (simp add: collected_def refuses_def)
    next
      case (Cons y ys)
      then have "y \<in> set (filter refuses (map answer cs))" by (metis list.set_intros(1))
      then have "refuses y" by simp
      then obtain e where "y = Inl e" using refused [of y] by (cases y) auto
      with IH run r Inr Cons show ?thesis by (simp add: collected_def refuses_def)
    qed
  qed
qed (simp add: collected_def)

text \<open>
  The reads over clusters. Whatever the kind, a list over the selected clusters is the concatenation of what
  each of them returns, in their order, where a cluster that does not know the kind counts as empty
  and the first other error is the error of the whole.
\<close>

theorem lists_collect:
  "(answers cc_Pod opts (clients names m) ap \<longrightarrow> fst (GetPods opts names m w) = collected ap (clients names m)) \<and>
   (answers cc_Deployment opts (clients names m) ad \<longrightarrow> fst (GetDeployment opts names m w) = collected ad (clients names m)) \<and>
   (answers cc_Node opts (clients names m) a1 \<longrightarrow> fst (GetNodes opts names m w) = collected a1 (clients names m)) \<and>
   (answers cc_StatefulSet opts (clients names m) a2 \<longrightarrow> fst (GetStatefulsets opts names m w) = collected a2 (clients names m)) \<and>
   (answers cc_Service opts (clients names m) a3 \<longrightarrow> fst (GetService opts names m w) = collected a3 (clients names m)) \<and>
   (answers cc_Endpoints opts (clients names m) a4 \<longrightarrow> fst (GetEndpoints opts names m w) = collected a4 (clients names m)) \<and>
   (answers cc_Event opts (clients names m) a5 \<longrightarrow> fst (GetEvent opts names m w) = collected a5 (clients names m))"
  by (simp add: list_clusters_spec GetPods_def GetDeployment_def GetNodes_def GetStatefulsets_def GetService_def
      GetEndpoints_def GetEvent_def case_sum_same)

section \<open>Two clusters\<close>

text \<open>
  A world of two clusters: of each the list of its pods and the pods whose deletion has been asked for. The first
  deletes gracefully, the second at once.
\<close>

type_synonym pod_world = "Pod list \<times> nsname list"
type_synonym two_clusters = "pod_world \<times> pod_world"

abbreviation going_of :: "two_clusters \<Rightarrow> nsname list" where "going_of w \<equiv> snd (fst w)"

definition graceful_client :: "(two_clusters, Pod) kclient" where
  "graceful_client = (mem_client pod_kind (\<lambda>w. fst (fst w)) (\<lambda>f. apfst (apfst f)))\<lparr>kDelete := \<lambda>p w.
     if mem_objs pod_kind (\<lambda>w. fst (fst w)) w (okey pod_kind p) = None then (Inl NotFound, w)
     else (Inr (), apfst (apsnd ((#) (okey pod_kind p))) w)\<rparr>"

definition prompt_client :: "(two_clusters, Pod) kclient" where
  "prompt_client = (mem_client pod_kind (\<lambda>w. fst (snd w)) (\<lambda>f. apsnd (apfst f)))\<lparr>kDelete := \<lambda>p w.
     if mem_objs pod_kind (\<lambda>w. fst (snd w)) w (okey pod_kind p) = None then (Inl NotFound, w)
     else (Inr (), apsnd (apfst (filter (\<lambda>q. okey pod_kind q \<noteq> okey pod_kind p))) w)\<rparr>"

definition two_client :: "(two_clusters, Pod) kclient \<Rightarrow> (two_clusters, unit) cluster_client" where
  "two_client c = \<lparr>cc_Pod = c, cc_Deployment = silent_client, cc_Node = silent_client, cc_StatefulSet = silent_client,
     cc_Service = silent_client, cc_Endpoints = silent_client, cc_Event = silent_client\<rparr>"

definition two_cluster :: "string \<Rightarrow> (two_clusters, Pod) kclient \<Rightarrow> (unit, string, two_clusters, unit) Clusters.cluster" where
  "two_cluster name c = \<lparr>cl_Name = name, cl_RawKubeconfig = name, cl_RestConfig = \<lparr>rf_Base = (), rf_QPS = 100, rf_Burst = 120\<rparr>,
     cl_KubeCli = name, cl_Client = two_client c, cl_Status = ClusterReady, cl_Started = True, cl_stopped = False\<rparr>"

definition two_manager :: "(unit, string, two_clusters, unit) cmanager" where
  "two_manager = \<lparr>cm_KubeCli = ''master'', cm_Opt = demo_option,
     cm_heap = [two_cluster ''tcc-a'' graceful_client, two_cluster ''tcc-b'' prompt_client],
     cm_clusters = [1, 0], cm_PreInit = None, cm_Started = True, cm_sent = [], cm_closed = False,
     cm_health = \<lparr>hh_liveness = [], hh_readiness = []\<rparr>\<rparr>"

definition two_pods :: "two_clusters \<Rightarrow> nat \<Rightarrow> nsname \<Rightarrow> Pod option" where
  "two_pods w a = (if a = 0 then mem_objs pod_kind (\<lambda>w. fst (fst w)) w
     else if a = 1 then mem_objs pod_kind (\<lambda>w. fst (snd w)) w else Map.empty)"

definition two_going :: "two_clusters \<Rightarrow> nat \<Rightarrow> nsname \<Rightarrow> bool" where
  "two_going w a k \<longleftrightarrow> a = 0 \<and> List.member (going_of w) k"

definition two_world :: two_clusters where
  "two_world = (([\<lparr>pod_Meta = new_meta ''p'' ''ns'' [(''app'', ''x'')]\<rparr>], []),
     ([\<lparr>pod_Meta = new_meta ''q'' ''ns'' [(''app'', ''y'')]\<rparr>, \<lparr>pod_Meta = new_meta ''r'' ''ns'' [(''app'', ''x'')]\<rparr>], []))"

lemma less_two: "a < (2 :: nat) \<longleftrightarrow> a = 0 \<or> a = 1"
  by auto

lemma two_manager_ok: "manager_ok two_manager"
  by code_simp

lemma two_at: "length (cm_heap two_manager) = 2" "pod_client two_manager 0 = graceful_client"
  "pod_client two_manager 1 = prompt_client"
  by (simp_all add: two_manager_def cluster_at_def two_cluster_def two_client_def)

lemma graceful_ok: "pods_ok graceful_client two_pods two_going 0"
proof -
  let ?sel = "\<lambda>w :: two_clusters. fst (fst w)" and ?rest = "\<lambda>w. ((two_pods w)(0 := Map.empty), two_going w)"
  have "reads_ok pod_kind (mem_client pod_kind ?sel (\<lambda>f. apfst (apfst f))) (mem_objs pod_kind ?sel) ?rest"
    by (rule mem_reads_ok)
  then have "reads_ok pod_kind graceful_client (\<lambda>w. two_pods w 0) ?rest"
    by (simp add: graceful_client_def reads_ok_def two_pods_def)
  then show ?thesis
    by (auto simp: pods_ok_def graceful_client_def two_pods_def two_going_def mem_objs_def fun_eq_iff split: if_splits)
qed

lemma find_filter_key:
  "find (\<lambda>p. f p = k) (filter (\<lambda>q. f q \<noteq> key) xs) = (if k = key then None else find (\<lambda>p. f p = k) xs)"
  by (induction xs) auto

lemma prompt_ok: "pods_ok prompt_client two_pods two_going 1"
proof -
  let ?sel = "\<lambda>w :: two_clusters. fst (snd w)" and ?rest = "\<lambda>w. ((two_pods w)(1 := Map.empty), two_going w)"
  have "reads_ok pod_kind (mem_client pod_kind ?sel (\<lambda>f. apsnd (apfst f))) (mem_objs pod_kind ?sel) ?rest"
    by (rule mem_reads_ok)
  then have "reads_ok pod_kind prompt_client (\<lambda>w. two_pods w 1) ?rest"
    by (simp add: prompt_client_def reads_ok_def two_pods_def)
  then show ?thesis
    by (auto simp: pods_ok_def prompt_client_def two_pods_def two_going_def mem_objs_def find_filter_key fun_eq_iff
        split: if_splits)
qed

lemma two_fleet_ok: "fleet_ok two_pods two_going two_manager"
  using graceful_ok prompt_ok unfolding fleet_ok_def two_at(1) by (auto simp: less_two two_at simp del: One_nat_def)

lemma two_fleet_up: "fleet_up two_pods two_manager"
  unfolding fleet_up_def two_at(1)
  by (auto simp: less_two two_at two_pods_def graceful_client_def prompt_client_def mem_client_def mem_list_def mem_delete_def
      simp del: One_nat_def split: option.splits)

theorem GetAll_agrees_with_Get_witness:
  "GetAll [''tcc-a''] two_manager = [0] \<and> GetOriginKubeCli [''tcc-a''] two_manager = Some ''tcc-a''"
proof -
  have "manager_Get ''tcc-a'' two_manager = Some 0" "FormatToDNS1123 ''tcc-a'' \<noteq> ''all''" "''tcc-a'' \<noteq> ClustersAll"
    "cl_KubeCli (cluster_at two_manager 0) = ''tcc-a''" by code_simp+
  with GetAll_agrees_with_Get [OF two_manager_ok, of "''tcc-a''"] show ?thesis by simp
qed

definition two_options :: list_options where
  "two_options = everywhere [(''app'', ''x'')]"

theorem DeletePods_exact_witness:
  "case DeletePods two_options [] two_manager two_world of (r, w') \<Rightarrow>
     r = Inr () \<and> (two_pods w' 0 (''ns'', ''p'') = None \<or> two_going w' 0 (''ns'', ''p'')) \<and>
     (two_pods w' 1 (''ns'', ''r'') = None \<or> two_going w' 1 (''ns'', ''r'')) \<and>
     two_pods w' 1 (''ns'', ''q'') = Some \<lparr>pod_Meta = new_meta ''q'' ''ns'' [(''app'', ''y'')]\<rparr> \<and>
     \<not> two_going w' 1 (''ns'', ''q'')"
proof -
  let ?p = "\<lparr>pod_Meta = new_meta ''p'' ''ns'' [(''app'', ''x'')]\<rparr>" and ?q = "\<lparr>pod_Meta = new_meta ''q'' ''ns'' [(''app'', ''y'')]\<rparr>"
    and ?r = "\<lparr>pod_Meta = new_meta ''r'' ''ns'' [(''app'', ''x'')]\<rparr>"
  obtain r w' where run: "DeletePods two_options [] two_manager two_world = (r, w')" by (rule prod.exhaust)
  have "two_pods two_world 0 (''ns'', ''p'') = Some ?p" "two_pods two_world 1 (''ns'', ''q'') = Some ?q"
    "two_pods two_world 1 (''ns'', ''r'') = Some ?r" "\<not> two_going two_world 1 (''ns'', ''q'')"
    "selects two_options (pod_Meta ?p)" "\<not> selects two_options (pod_Meta ?q)" "selects two_options (pod_Meta ?r)"
    "0 \<in> set (GetAll [] two_manager)" "1 \<in> set (GetAll [] two_manager)" by code_simp+
  with DeletePods_exact [OF two_manager_ok two_fleet_ok run] two_fleet_up show ?thesis by (simp add: run)
qed

theorem DeletePod_stops_at_first_missing_witness:
  "case DeletePod (''ns'', ''p'') [] two_manager two_world of (r, w') \<Rightarrow>
     r = Inl NotFound \<and> two_pods w' = two_pods two_world"
proof -
  obtain r w' where run: "DeletePod (''ns'', ''p'') [] two_manager two_world = (r, w')" by (rule prod.exhaust)
  have "GetAll [] two_manager = [1, 0]" "two_pods two_world 1 (''ns'', ''p'') = None" by code_simp+
  moreover have "get_available (pod_client two_manager 1)"
    unfolding two_at by (auto simp: prompt_client_def get_available_def mem_client_def mem_get_def split: option.splits)
  ultimately show ?thesis
    using DeletePod_stops_at_first_missing [OF two_manager_ok two_fleet_ok _ _ _ run] by (simp add: run)
qed

definition two_answer :: "(two_clusters, unit) cluster_client \<Rightarrow> kerr + unit list" where
  "two_answer c = Inr []"

theorem lists_collect_witness:
  "fst (GetService two_options [] two_manager two_world) = Inr [] \<and> answers cc_Service two_options (clients [] two_manager) two_answer"
proof -
  have "answers cc_Service two_options (clients [] two_manager) two_answer"
    by (auto simp: answers_def clients_def GetAll_def two_manager_def cluster_at_def two_cluster_def two_client_def silent_client_def two_answer_def)
  moreover have "collected two_answer (clients [] two_manager) = Inr []" by code_simp
  ultimately show ?thesis using lists_collect [of two_options "[]" two_manager _ two_world _ _ _ two_answer] by metis
qed

end
