(* ===== verification/Spec2Isabelle.thy ===== *)
theory Spec2Isabelle
  imports ScCorrect MeshConfigController SaController AmcController EventHandlers PathCacheRest Lifecycle
    Registrations SubsetEndpoints Commands AdapterOrder Router HealthCheck WorkPool Debounce ClustersCorrect ClusterOps
begin

text \<open>
  A verification library for meshach, which carries services of a registry (ZooKeeper, as Dubbo writes it) into
  an Istio mesh.

  \<^bold>\<open>The program.\<close> It runs as two processes. The adapter (\<^verbatim>\<open>pkg/adapter\<close>) watches the registry and the
  configuration center through path caches, turns what they report into events, and its handlers write
  ConfiguredServices, ServiceConfigs and ServiceAccessors into a Kubernetes cluster, or into each of
  several. The controllers (\<^verbatim>\<open>controllers\<close>) reconcile these resources into Istio's: sidecars, service
  entries, workload entries, virtual services and destination rules. They share a mesh configuration; the
  helpers, the manager of the clusters, the health checks and the worker pool are in \<^verbatim>\<open>pkg\<close>.

  \<^bold>\<open>Shared theories.\<close>
  \<^item> \<^verbatim>\<open>Prelude\<close>: Go's integer widths, maps as association lists, the outcome of a call (\<open>abort + 'a\<close>: an error, a
    panic or a value, with the state), sequencing and loops with early return, the collections of rules.
  \<^item> \<^verbatim>\<open>GoStrings\<close>, \<^verbatim>\<open>GoUrl\<close>, \<^verbatim>\<open>Sha1\<close>: what the code uses of Go's library, on ASCII strings.
  \<^item> \<^verbatim>\<open>Utils\<close> (\<^verbatim>\<open>pkg/utils/utils.go\<close>), \<^verbatim>\<open>MeshApi\<close> (\<^verbatim>\<open>api/v1alpha1\<close>, \<^verbatim>\<open>pkg/option\<close>), \<^verbatim>\<open>IstioApi\<close> (the
    resources of Istio as far as they are written).
  \<^item> \<^verbatim>\<open>KubeClient\<close>: the Kubernetes client as a record of functions on an abstract world, and \<open>kube_ok\<close>, what
    the API documents of it. \<^verbatim>\<open>ApiServer\<close> lifts it to all kinds (\<open>api_ok\<close>, read through a view of the world);
    \<^verbatim>\<open>MemStore\<close> is a server that satisfies it, on which the witnesses run.

  \<^bold>\<open>Controllers.\<close>
  \<^item> \<^verbatim>\<open>SyncKind\<close>, \<^verbatim>\<open>IstioKinds\<close>, \<^verbatim>\<open>StatusSync\<close>: the bodies the reconcile functions share, as locales over a
    kind of object, interpreted for every kind (compare functions of \<^verbatim>\<open>controllers/*/*.go\<close>); status writing.
  \<^item> \<^verbatim>\<open>Routes\<close>: subsets and weighted routes. \<^verbatim>\<open>CsResources\<close>, \<^verbatim>\<open>CsController\<close>, \<^verbatim>\<open>CsCorrect\<close>
    (\<^verbatim>\<open>controllers/configuredservice\<close>), \<^verbatim>\<open>ScResources\<close>, \<^verbatim>\<open>ScController\<close>, \<^verbatim>\<open>ScCorrect\<close>
    (\<^verbatim>\<open>controllers/serviceconfig\<close>): builders, reconciliation, and that a reconciliation that ends
    without error leaves exactly the built resources of the service and nothing else of it changed.
    \<^verbatim>\<open>ScReconcile\<close>: the whole reconciliation of a ServiceConfig, its weights and its status; \<^verbatim>\<open>RouteTyping\<close>: what
    either controller leaves fits together (every route leads to a declared subset, and when a route before the
    last one catches every request); \<^verbatim>\<open>SubsetEndpoints\<close>: when a subset that is routed to has a workload entry in it.
  \<^item> \<^verbatim>\<open>MeshConfigController\<close>, \<^verbatim>\<open>SaController\<close>, \<^verbatim>\<open>AmcController\<close>: the generation of the mesh
    configuration stamped on its dependents, the sidecars of a ServiceAccessor, the status of an AppMeshConfig.
  \<^item> \<^verbatim>\<open>Registrations\<close> (\<^verbatim>\<open>controllers/controllers.go\<close>, \<open>SetupWithManager\<close>): which events of the cluster lead to a
    reconciliation, when drift is repaired, and what is left after a ServiceConfig is deleted and the
    garbage collector has removed what it owned.

  \<^bold>\<open>Adapter.\<close>
  \<^item> \<^verbatim>\<open>PathCache\<close> (\<^verbatim>\<open>pkg/adapter/zookeeper\<close>): the cache of a path as a step relation over pending tasks
    (watches that may fire or be lost, lists and announcements under way); \<^verbatim>\<open>PathCacheRest\<close>: that its own
    steps end, and end with every listed child taken up.
    \<^verbatim>\<open>RegistryZk\<close>, \<^verbatim>\<open>ConfigCenterZk\<close>: its two clients.
  \<^item> \<^verbatim>\<open>AdapterTypes\<close>, \<^verbatim>\<open>Convert\<close>, \<^verbatim>\<open>EventHandlers\<close>, \<^verbatim>\<open>Adapter\<close>: the events, their conversion, the handlers of one
    and of several clusters, and the loop that hands events over through the accelerator.
  \<^item> \<^verbatim>\<open>Debounce\<close>: the debouncer as a step relation over its channels and a clock.
  \<^item> \<^verbatim>\<open>Lifecycle\<close>: from the registry to the mesh, across adapter and controllers.

  \<^bold>\<open>Process.\<close>
  \<^item> \<^verbatim>\<open>CommandLine\<close>, \<^verbatim>\<open>Commands\<close> (\<^verbatim>\<open>cmd/meshach/app\<close>, \<^verbatim>\<open>pkg/option/root.go\<close>, \<^verbatim>\<open>main.go\<close>): the options, a flag as
    the function that writes its field, and what the commands build from them until they serve.
  \<^item> \<^verbatim>\<open>Clusters\<close>, \<^verbatim>\<open>ClustersBuild\<close>, \<^verbatim>\<open>ClustersCorrect\<close>, \<^verbatim>\<open>ClusterOps\<close> (\<^verbatim>\<open>pkg/k8s/manager\<close>): the connected
    clusters on an explicit heap (the code shares them by pointer), the check that follows their
    descriptions, and the operations over several clusters.
  \<^item> \<^verbatim>\<open>Router\<close>, \<^verbatim>\<open>HealthCheck\<close> (\<^verbatim>\<open>pkg/router\<close>, \<^verbatim>\<open>pkg/healthcheck\<close>), \<^verbatim>\<open>WorkPool\<close> (\<^verbatim>\<open>pkg/utils\<close>: the worker
    pool, whose tasks are multisets of those waiting, running and done, and the components).

  \<^bold>\<open>Parameters and hypotheses.\<close> What is not in the repository is an argument: the clients of Kubernetes
  (\<open>kube_ok\<close>, \<open>api_ok\<close> for custom resources, \<open>fleet_ok\<close> for pods, which are deleted gracefully), the ZooKeeper connection, YAML parsing, \<open>SetControllerReference\<close>, gin, the
  probes of the health checks, client construction. Each hypothesis has a witness with a concrete
  function. Goroutines are tasks of a step relation, and every interleaving of its steps is a
  run; data races are outside of the model (they are findings). The order of \<open>range\<close> over a map is that of an
  association list; results that the order could change are stated so that they do not depend on it, or the order
  is a parameter.

  \<^bold>\<open>Bounds.\<close> Loops are structural recursions. \<open>RetryOnConflict\<close> is a number of attempts of which the proofs use
  nothing; the witnesses use the five of \<open>retry.DefaultRetry\<close>. Integers that can overflow are words (\<open>int64\<close>,
  \<open>uint32\<close>); weights and sizes that the code keeps small are \<open>int\<close>. Strings are ASCII. Floats
  are rational numbers. A watch of ZooKeeper fires once; where the connection may lose its session (\<open>zk_expires\<close>), a watch may
  also end with an event that the path cache does not support or with a closed channel, and a property that needs
  the session to live says so.

  \<^bold>\<open>Not modelled.\<close> Generated code and registration of types, how cobra and pflag split the arguments, metrics and logs,
  signals (but for the stop channel that a start-up waits with, \<open>al_stopped\<close>), the garbage collector but for what
  \<open>garbage_collected\<close> says of it, the client of nacos and the MCP client (stubs), mocks.
\<close>

end
